(* ===== verification/Prelude.thy ===== *)
theory Prelude
  imports Main "HOL-Library.AList" "HOL-Library.Sublist"
begin

text \<open>
  Shared vocabulary of the development.  A Go function that may fail returns a value of
  \<open>'a res\<close>: \<open>Inl (Err m)\<close> is a non-nil \<open>error\<close> with message \<open>m\<close>, \<open>Inl (Panic m)\<close> is a
  run-time panic (a failed type assertion, a nil dereference, an index out of range) and
  \<open>Inr x\<close> is a normal return.  Go maps with string keys are association lists, read with
  \<open>map_of\<close> and written with \<open>AList.update\<close> and \<open>AList.delete\<close>; the order of the list stands
  for the order a \<open>range\<close> over the map happens to take, and no property of the development
  depends on it.  The rest of the theory is the part of the \<open>strings\<close> and \<open>strconv\<close>
  packages the program calls, on byte strings (\<open>char list\<close>).
\<close>

named_theorems go_defs "unfolding rules of the result type and the loop combinators"
named_theorems str_simps "evaluation rules of the string helpers"

section \<open>Results: errors and panics as values\<close>

datatype goerr = Err string | Panic string

type_synonym 'a res = "goerr + 'a"

definition bindR :: "'a res \<Rightarrow> ('a \<Rightarrow> 'b res) \<Rightarrow> 'b res" where
  "bindR r f = (case r of Inl e \<Rightarrow> Inl e | Inr x \<Rightarrow> f x)"

lemma bindR_simps [simp]:
  "bindR (Inl e) f = Inl e"
  "bindR (Inr x) f = f x"
  by (simp_all add: bindR_def)

lemma bindR_eq_Inr: "bindR r f = Inr y \<longleftrightarrow> (\<exists>x. r = Inr x \<and> f x = Inr y)"
  by (cases r) auto

lemma bindR_eq_Inl: "bindR r f = Inl e \<longleftrightarrow> r = Inl e \<or> (\<exists>x. r = Inr x \<and> f x = Inl e)"
  by (cases r) auto

text \<open>A \<open>for\<close> loop that appends one element per iteration and stops at the first failure.\<close>

fun mapR :: "('a \<Rightarrow> 'b res) \<Rightarrow> 'a list \<Rightarrow> 'b list res" where
  "mapR f [] = Inr []"
| "mapR f (x # xs) = bindR (f x) (\<lambda>y. bindR (mapR f xs) (\<lambda>ys. Inr (y # ys)))"

text \<open>A \<open>for\<close> loop over an accumulator that stops at the first failure.\<close>

fun foldR :: "('a \<Rightarrow> 's \<Rightarrow> 's res) \<Rightarrow> 'a list \<Rightarrow> 's \<Rightarrow> 's res" where
  "foldR f [] s = Inr s"
| "foldR f (x # xs) s = bindR (f x s) (foldR f xs)"

lemma mapR_length: "mapR f xs = Inr ys \<Longrightarrow> length ys = length xs"
  by (induction xs arbitrary: ys) (auto simp: bindR_eq_Inr)

lemma mapR_nth: "mapR f xs = Inr ys \<Longrightarrow> i < length xs \<Longrightarrow> f (xs ! i) = Inr (ys ! i)"
  by (induction xs arbitrary: ys i) (auto simp: bindR_eq_Inr nth_Cons split: nat.splits)

lemma mapR_total: "(\<And>x. x \<in> set xs \<Longrightarrow> f x = Inr (g x)) \<Longrightarrow> mapR f xs = Inr (map g xs)"
  by (induction xs) auto

lemma mapR_set: "mapR f xs = Inr ys \<Longrightarrow> y \<in> set ys \<Longrightarrow> \<exists>x \<in> set xs. f x = Inr y"
  by (induction xs arbitrary: ys) (auto simp: bindR_eq_Inr)

section \<open>Association lists\<close>

lemma map_of_delete [simp]:
  "map_of (AList.delete k m) = (map_of m)(k := None)"
  by (rule ext) (simp add: AList.delete_conv')

lemma map_of_update [simp]:
  "map_of (AList.update k v m) = (map_of m)(k \<mapsto> v)"
  by (rule ext) (simp add: AList.update_conv')

lemma distinct_keys_update [simp]:
  "distinct (map fst m) \<Longrightarrow> distinct (map fst (AList.update k v m))"
  by (rule AList.distinct_update)

text \<open>\<open>for k, v := range src \{ dst[k] = v \}\<close>.\<close>

fun copyInto :: "('k \<times> 'v) list \<Rightarrow> ('k \<times> 'v) list \<Rightarrow> ('k \<times> 'v) list" where
  "copyInto [] dst = dst"
| "copyInto ((k, v) # src) dst = copyInto src (AList.update k v dst)"

lemma map_of_copyInto:
  "distinct (map fst src) \<Longrightarrow> map_of (copyInto src dst) = map_of dst ++ map_of src"
proof (induction src arbitrary: dst)
  case Nil
  then show ?case by simp
next
  case (Cons kv src)
  obtain k v where kv: "kv = (k, v)" by (cases kv)
  from Cons.prems have "map_of src k = None"
    by (simp add: kv map_of_eq_None_iff)
  with Cons show ?case
    by (auto simp: kv fun_eq_iff map_add_def split: option.splits)
qed

section \<open>Bytes\<close>

lemma of_char_div16: "of_char c div 16 < (16 :: nat)"
proof -
  have "(of_char c :: nat) < 16 * 16" by simp
  then show ?thesis by (rule less_mult_imp_div_less)
qed

lemma of_char_mod16: "of_char c mod 16 < (16 :: nat)"
  by simp

section \<open>The strings package\<close>

definition hasPrefix :: "string \<Rightarrow> string \<Rightarrow> bool" where
  "hasPrefix s p = (take (length p) s = p)"

definition hasSuffix :: "string \<Rightarrow> string \<Rightarrow> bool" where
  "hasSuffix s p = (length p \<le> length s \<and> drop (length s - length p) s = p)"

fun containsStr :: "string \<Rightarrow> string \<Rightarrow> bool" where
  "containsStr [] p = (p = [])"
| "containsStr (c # s) p = (hasPrefix (c # s) p \<or> containsStr s p)"

text \<open>\<open>strings.Cut(s, string(c))\<close> at the first occurrence of a byte.\<close>

fun cutAt :: "char \<Rightarrow> string \<Rightarrow> string \<times> string \<times> bool" where
  "cutAt c [] = ([], [], False)"
| "cutAt c (d # s) = (if d = c then ([], s, True)
     else (case cutAt c s of (a, b, f) \<Rightarrow> (d # a, b, f)))"

text \<open>Split at the last occurrence of a byte (\<open>strings.LastIndex\<close>); \<open>None\<close> where it is absent.\<close>

fun cutLast :: "char \<Rightarrow> string \<Rightarrow> (string \<times> string) option" where
  "cutLast c [] = None"
| "cutLast c (d # s) = (case cutLast c s of
       Some (a, b) \<Rightarrow> Some (d # a, b)
     | None \<Rightarrow> (if d = c then Some ([], s) else None))"

text \<open>\<open>strings.Split(s, sep)\<close> for a non-empty separator.\<close>

function splitStr :: "string \<Rightarrow> string \<Rightarrow> string \<Rightarrow> string list" where
  "splitStr sep acc s = (if s = [] then [rev acc]
     else if sep \<noteq> [] \<and> hasPrefix s sep then rev acc # splitStr sep [] (drop (length sep) s)
     else splitStr sep (hd s # acc) (tl s))"
  by pat_completeness auto
termination
  by (relation "measure (\<lambda>(sep, acc, s). length s)") (auto simp: neq_Nil_conv)

declare splitStr.simps [simp del]

lemma splitStr_eval [simp, str_simps]:
  "splitStr sep acc [] = [rev acc]"
  "splitStr sep acc (c # s) = (if sep \<noteq> [] \<and> hasPrefix (c # s) sep
     then rev acc # splitStr sep [] (drop (length sep) (c # s))
     else splitStr sep (c # acc) s)"
  by (subst splitStr.simps, simp)+

definition split :: "string \<Rightarrow> string \<Rightarrow> string list" where
  "split s sep = splitStr sep [] s"

fun joinStr :: "string \<Rightarrow> string list \<Rightarrow> string" where
  "joinStr sep [] = []"
| "joinStr sep [x] = x"
| "joinStr sep (x # y # xs) = x @ sep @ joinStr sep (y # xs)"

text \<open>\<open>strings.ReplaceAll(s, old, new)\<close> for a non-empty \<open>old\<close>.\<close>

definition replaceAll :: "string \<Rightarrow> string \<Rightarrow> string \<Rightarrow> string" where
  "replaceAll s old new = joinStr new (split s old)"

definition lowerChar :: "char \<Rightarrow> char" where
  "lowerChar c = (let n = of_char c :: nat in
     if 65 \<le> n \<and> n \<le> 90 then char_of (n + 32) else c)"

text \<open>\<open>strings.ToLower\<close> and \<open>strings.ToUpper\<close>, on ASCII letters.\<close>

definition toLower :: "string \<Rightarrow> string" where
  "toLower s = map lowerChar s"

definition upperChar :: "char \<Rightarrow> char" where
  "upperChar c = (let n = of_char c :: nat in
     if 97 \<le> n \<and> n \<le> 122 then char_of (n - 32) else c)"

definition toUpper :: "string \<Rightarrow> string" where
  "toUpper s = map upperChar s"

lemma splitStr_nonempty: "splitStr sep acc s \<noteq> []"
  by (induction sep acc s rule: splitStr.induct) (subst splitStr.simps, auto)

lemma split_nonempty [simp]: "split s sep \<noteq> []"
  by (simp add: split_def splitStr_nonempty)

lemma joinStr_Cons: "xs \<noteq> [] \<Longrightarrow> joinStr sep (x # xs) = x @ sep @ joinStr sep xs"
  by (cases xs) auto

lemma join_splitStr: "joinStr sep (splitStr sep acc s) = rev acc @ s"
proof (induction sep acc s rule: splitStr.induct)
  case (1 sep acc s)
  show ?case
  proof (cases "s \<noteq> [] \<and> sep \<noteq> [] \<and> hasPrefix s sep")
    case True
    have "s = sep @ drop (length sep) s"
      using True by (metis append_take_drop_id hasPrefix_def)
    with True 1 show ?thesis
      by (subst splitStr.simps) (auto simp: joinStr_Cons splitStr_nonempty)
  next
    case False
    with 1 show ?thesis
      by (subst splitStr.simps) auto
  qed
qed

lemma join_split: "joinStr sep (split s sep) = s"
  by (simp add: split_def join_splitStr)

lemma cutAt_append: "c \<notin> set a \<Longrightarrow> cutAt c (a @ c # b) = (a, b, True)"
  by (induction a) auto

lemma cutAt_none: "c \<notin> set a \<Longrightarrow> cutAt c a = (a, [], False)"
  by (induction a) auto

lemma cutLast_none: "c \<notin> set a \<Longrightarrow> cutLast c a = None"
  by (induction a) auto

lemma cutLast_append: "c \<notin> set b \<Longrightarrow> cutLast c (a @ c # b) = Some (a, b)"
  by (induction a) (auto simp: cutLast_none)

section \<open>The strconv package\<close>

definition digitChar :: "nat \<Rightarrow> char" where
  "digitChar n = char_of (48 + n)"

fun natDigits :: "nat \<Rightarrow> string" where
  "natDigits n = (if n < 10 then [digitChar n] else natDigits (n div 10) @ [digitChar (n mod 10)])"

declare natDigits.simps [simp del]

definition itoa :: "int \<Rightarrow> string" where
  "itoa i = (if i < 0 then CHR ''-'' # natDigits (nat (- i)) else natDigits (nat i))"

definition isDigit :: "char \<Rightarrow> bool" where
  "isDigit c = (let n = of_char c :: nat in 48 \<le> n \<and> n \<le> 57)"

fun digitsVal :: "nat \<Rightarrow> string \<Rightarrow> nat" where
  "digitsVal acc [] = acc"
| "digitsVal acc (c # s) = digitsVal (acc * 10 + (of_char c - 48)) s"

definition maxInt64 :: int where "maxInt64 = 9223372036854775807"
definition minInt64 :: int where "minInt64 = -9223372036854775808"

text \<open>
  \<open>strconv.Atoi\<close>: the value and the error.  On a syntax error the value is 0; out of range
  it is the nearest bound of \<open>int\<close>.
\<close>

definition atoi :: "string \<Rightarrow> int \<times> bool" where
  "atoi s = (let (neg, ds) = (case s of [] \<Rightarrow> (False, [])
        | c # r \<Rightarrow> if c = CHR ''-'' then (True, r) else if c = CHR ''+'' then (False, r) else (False, s))
     in if ds = [] \<or> \<not> list_all isDigit ds then (0, False)
        else let v = (if neg then - int (digitsVal 0 ds) else int (digitsVal 0 ds)) in
          if v > maxInt64 then (maxInt64, False)
          else if v < minInt64 then (minInt64, False) else (v, True))"

text \<open>\<open>strconv.ParseBool\<close>.\<close>

definition parseBool :: "string \<Rightarrow> bool res" where
  "parseBool s = (if s \<in> set [''1'', ''t'', ''T'', ''true'', ''TRUE'', ''True''] then Inr True
     else if s \<in> set [''0'', ''f'', ''F'', ''false'', ''FALSE'', ''False''] then Inr False
     else Inl (Err ''strconv.ParseBool: invalid syntax''))"

lemma of_char_digitChar: "n < 10 \<Longrightarrow> (of_char (digitChar n) :: nat) = 48 + n"
  by (simp add: digitChar_def)

lemma isDigit_digitChar: "n < 10 \<Longrightarrow> isDigit (digitChar n)"
  by (simp add: isDigit_def of_char_digitChar)

lemma natDigits_digits: "list_all isDigit (natDigits n)"
proof (induction n rule: natDigits.induct)
  case (1 n)
  then show ?case
    by (subst natDigits.simps) (auto simp: isDigit_digitChar)
qed

lemma natDigits_nonempty [simp]: "natDigits n \<noteq> []"
  by (subst natDigits.simps) simp

lemma digitsVal_append: "digitsVal acc (s @ t) = digitsVal (digitsVal acc s) t"
  by (induction s arbitrary: acc) auto

lemma digitsVal_natDigits: "digitsVal 0 (natDigits n) = n"
proof (induction n rule: natDigits.induct)
  case (1 n)
  then show ?case
    by (subst natDigits.simps) (auto simp: digitsVal_append of_char_digitChar)
qed

lemma natDigits_head: "natDigits n = c # r \<Longrightarrow> isDigit c"
  using natDigits_digits [of n] by simp

lemma isDigit_not_sign: "isDigit c \<Longrightarrow> c \<noteq> CHR ''-'' \<and> c \<noteq> CHR ''+''"
  by (auto simp: isDigit_def)

text \<open>Formatting an \<open>int\<close> and parsing it back is the identity.\<close>

lemma atoi_itoa: "minInt64 \<le> i \<Longrightarrow> i \<le> maxInt64 \<Longrightarrow> atoi (itoa i) = (i, True)"
proof (cases "i < 0")
  case True
  moreover assume "minInt64 \<le> i" "i \<le> maxInt64"
  ultimately show ?thesis
    by (simp add: itoa_def atoi_def natDigits_digits digitsVal_natDigits)
next
  case False
  moreover assume "minInt64 \<le> i" "i \<le> maxInt64"
  moreover obtain c r where cr: "natDigits (nat i) = c # r"
    using natDigits_nonempty by (meson neq_Nil_conv)
  moreover have "c \<noteq> CHR ''-'' \<and> c \<noteq> CHR ''+''"
    using cr natDigits_head isDigit_not_sign by blast
  moreover have "list_all isDigit (c # r)"
    using natDigits_digits [of "nat i"] cr by simp
  moreover have "digitsVal 0 (c # r) = nat i"
    using digitsVal_natDigits [of "nat i"] cr by simp
  ultimately show ?thesis
    by (simp add: itoa_def atoi_def del: digitsVal.simps)
qed

section \<open>Signed 64-bit arithmetic\<close>

text \<open>Go's \<open>int64\<close> addition wraps around in two's complement.\<close>

definition wrap64 :: "int \<Rightarrow> int" where
  "wrap64 i = (i + 2 ^ 63) mod 2 ^ 64 - 2 ^ 63"

definition inInt64 :: "int \<Rightarrow> bool" where
  "inInt64 i \<longleftrightarrow> minInt64 \<le> i \<and> i \<le> maxInt64"

lemma wrap64_id: "inInt64 i \<Longrightarrow> wrap64 i = i"
  by (simp add: wrap64_def inInt64_def minInt64_def maxInt64_def)

lemma wrap64_range: "inInt64 (wrap64 i)"
proof -
  have "0 \<le> (i + 2 ^ 63) mod 2 ^ 64" "(i + 2 ^ 63) mod 2 ^ 64 < 2 ^ 64"
    by (auto intro: pos_mod_sign pos_mod_bound)
  then show ?thesis
    by (simp add: wrap64_def inInt64_def minInt64_def maxInt64_def)
qed

text \<open>Go's integer division truncates towards zero.\<close>

definition goDiv :: "int \<Rightarrow> int \<Rightarrow> int" where
  "goDiv a b = sgn a * sgn b * (\<bar>a\<bar> div \<bar>b\<bar>)"

end
