(* ===== verification/GoJson.thy ===== *)
theory GoJson
  imports Prelude "HOL-Library.List_Lexorder" "HOL-Library.Char_ord"
begin

text \<open>
  The part of \<open>encoding/json\<close> the program uses.  \<open>jv\<close> is a value held in a Go
  \<open>interface\{\}\<close>: \<open>JNum\<close> is a \<open>float64\<close> as the decoder produces it (restricted to
  integral numbers, the only ones the panel's schema has), \<open>JInt\<close> a Go integer stored by the
  program itself, \<open>JArr\<close> an \<open>[]interface\{\}\<close>, \<open>JStrs\<close> a \<open>[]string\<close>, \<open>JObj\<close> a
  \<open>map[string]interface\{\}\<close> and \<open>JRaw\<close> a \<open>json.RawMessage\<close>.  The distinction matters: a
  type assertion \<open>v.(float64)\<close> fails on an \<open>int\<close>, and \<open>v.([]interface\{\})\<close> fails on a
  \<open>[]string\<close>.  A \<open>json.RawMessage\<close> column is \<open>RNil\<close> (absent), \<open>RBad t\<close> (a text that is
  not JSON) or \<open>RText v\<close> (a text that denotes \<open>v\<close>): two texts of one value are not told
  apart, except where the program looks at bytes, which goes through \<open>rawText\<close>.
\<close>

datatype 'j rawmsg = RNil | RBad string | RText 'j

datatype jv =
    JNull
  | JBool bool
  | JNum int
  | JInt int
  | JStr string
  | JArr "jv list"
  | JStrs "string list"
  | JObj "(string \<times> jv) list"
  | JRaw "jv rawmsg"

type_synonym raw = "jv rawmsg"
type_synonym obj = "(string \<times> jv) list"

section \<open>Reading: map indexing and type assertions\<close>

text \<open>\<open>m[k]\<close> on a \<open>map[string]interface\{\}\<close>: the zero value \<open>nil\<close> where the key is absent.\<close>

definition oget :: "obj \<Rightarrow> string \<Rightarrow> jv" where
  "oget m k = (case map_of m k of None \<Rightarrow> JNull | Some v \<Rightarrow> v)"

definition ohas :: "obj \<Rightarrow> string \<Rightarrow> bool" where
  "ohas m k = (map_of m k \<noteq> None)"

abbreviation oset :: "string \<Rightarrow> jv \<Rightarrow> obj \<Rightarrow> obj" where
  "oset k v m \<equiv> AList.update k v m"

abbreviation odel :: "string \<Rightarrow> obj \<Rightarrow> obj" where
  "odel k m \<equiv> AList.delete k m"

fun asStr :: "jv \<Rightarrow> string option" where
  "asStr (JStr s) = Some s" | "asStr _ = None"

fun asNum :: "jv \<Rightarrow> int option" where
  "asNum (JNum n) = Some n" | "asNum _ = None"

fun asBool :: "jv \<Rightarrow> bool option" where
  "asBool (JBool b) = Some b" | "asBool _ = None"

fun asArr :: "jv \<Rightarrow> jv list option" where
  "asArr (JArr xs) = Some xs" | "asArr _ = None"

fun asObj :: "jv \<Rightarrow> obj option" where
  "asObj (JObj m) = Some m" | "asObj _ = None"

fun asRaw :: "jv \<Rightarrow> raw option" where
  "asRaw (JRaw r) = Some r" | "asRaw _ = None"

text \<open>The comma-ok form whose \<open>ok\<close> is dropped: the zero value of the asserted type.\<close>

definition strOr0 :: "jv \<Rightarrow> string" where
  "strOr0 v = (case asStr v of None \<Rightarrow> [] | Some s \<Rightarrow> s)"

definition numOr0 :: "jv \<Rightarrow> int" where
  "numOr0 v = (case asNum v of None \<Rightarrow> 0 | Some n \<Rightarrow> n)"

definition objOr0 :: "jv \<Rightarrow> obj" where
  "objOr0 v = (case asObj v of None \<Rightarrow> [] | Some m \<Rightarrow> m)"

text \<open>The single-value form \<open>v.(T)\<close>, which panics on another dynamic type.\<close>

definition must :: "string \<Rightarrow> 'a option \<Rightarrow> 'a res" where
  "must ty v = (case v of None \<Rightarrow> Inl (Panic (''interface conversion: not '' @ ty)) | Some x \<Rightarrow> Inr x)"

definition mustStr :: "jv \<Rightarrow> string res" where
  "mustStr v = must ''string'' (asStr v)"

definition mustNum :: "jv \<Rightarrow> int res" where
  "mustNum v = must ''float64'' (asNum v)"

definition mustBool :: "jv \<Rightarrow> bool res" where
  "mustBool v = must ''bool'' (asBool v)"

definition mustObj :: "jv \<Rightarrow> obj res" where
  "mustObj v = must ''map'' (asObj v)"

definition mustStrs :: "jv list \<Rightarrow> string list res" where
  "mustStrs vs = mapR mustStr vs"

lemma oget_update [simp]: "oget (oset k v m) k' = (if k' = k then v else oget m k')"
  by (simp add: oget_def)

lemma oget_delete [simp]: "oget (odel k m) k' = (if k' = k then JNull else oget m k')"
  by (simp add: oget_def)

lemma ohas_update [simp]: "ohas (oset k v m) k' \<longleftrightarrow> k' = k \<or> ohas m k'"
  by (auto simp: ohas_def)

lemma ohas_delete [simp]: "ohas (odel k m) k' \<longleftrightarrow> k' \<noteq> k \<and> ohas m k'"
  by (auto simp: ohas_def)

lemma mustStr_JStr [simp]: "mustStr (JStr s) = Inr s"
  by (simp add: mustStr_def must_def)

section \<open>Marshalling: Go values to documents\<close>

text \<open>
  \<open>json.Marshal\<close> of a dynamic value, as the document it denotes; \<open>None\<close> is a marshalling
  error (an embedded \<open>RawMessage\<close> that is not JSON).
\<close>

fun toDoc :: "jv \<Rightarrow> jv option"
  and toDocs :: "jv list \<Rightarrow> jv list option"
  and toDocMembers :: "(string \<times> jv) list \<Rightarrow> (string \<times> jv) list option" where
  "toDoc JNull = Some JNull"
| "toDoc (JBool b) = Some (JBool b)"
| "toDoc (JNum n) = Some (JNum n)"
| "toDoc (JInt n) = Some (JNum n)"
| "toDoc (JStr s) = Some (JStr s)"
| "toDoc (JArr vs) = map_option JArr (toDocs vs)"
| "toDoc (JStrs ss) = Some (JArr (map JStr ss))"
| "toDoc (JObj m) = map_option JObj (toDocMembers m)"
| "toDoc (JRaw RNil) = Some JNull"
| "toDoc (JRaw (RBad t)) = None"
| "toDoc (JRaw (RText v)) = Some v"
| "toDocs [] = Some []"
| "toDocs (v # vs) = (case toDoc v of None \<Rightarrow> None
     | Some d \<Rightarrow> map_option ((#) d) (toDocs vs))"
| "toDocMembers [] = Some []"
| "toDocMembers ((k, v) # m) = (case toDoc v of None \<Rightarrow> None
     | Some d \<Rightarrow> map_option ((#) (k, d)) (toDocMembers m))"

definition marshal :: "jv \<Rightarrow> raw res" where
  "marshal v = (case toDoc v of None \<Rightarrow> Inl (Err ''json: error calling MarshalJSON'')
     | Some d \<Rightarrow> Inr (RText d))"

text \<open>Document values: what a decoder produces and a JSON column holds.\<close>

fun isDoc :: "jv \<Rightarrow> bool" where
  "isDoc JNull = True"
| "isDoc (JBool b) = True"
| "isDoc (JNum n) = True"
| "isDoc (JInt n) = False"
| "isDoc (JStr s) = True"
| "isDoc (JArr vs) = (\<forall>v \<in> set vs. isDoc v)"
| "isDoc (JStrs ss) = False"
| "isDoc (JObj m) = (\<forall>kv \<in> set m. isDoc (snd kv))"
| "isDoc (JRaw r) = False"

lemma toDoc_isDoc:
  "isDoc v \<Longrightarrow> toDoc v = Some v"
  "(\<forall>v \<in> set vs. isDoc v) \<Longrightarrow> toDocs vs = Some vs"
  "(\<forall>kv \<in> set m. isDoc (snd kv)) \<Longrightarrow> toDocMembers m = Some m"
  by (induction v and vs and m rule: toDoc_toDocs_toDocMembers.induct) auto

lemma marshal_isDoc: "isDoc v \<Longrightarrow> marshal v = Inr (RText v)"
  by (simp add: marshal_def toDoc_isDoc)

lemma toDocMembers_keys: "toDocMembers m = Some m' \<Longrightarrow> map fst m' = map fst m"
  by (induction m arbitrary: m') (auto split: option.splits)

section \<open>Unmarshalling into typed destinations\<close>

abbreviation jsonErr :: "'a res" where
  "jsonErr \<equiv> Inl (Err ''json: cannot unmarshal'')"

text \<open>Into \<open>map[string]interface\{\}\<close>; \<open>None\<close> is the nil map a \<open>null\<close> text leaves.\<close>

fun unmarshalObj :: "raw \<Rightarrow> obj option res" where
  "unmarshalObj (RText (JObj m)) = Inr (Some m)"
| "unmarshalObj (RText JNull) = Inr None"
| "unmarshalObj _ = jsonErr"

text \<open>Reading a map that may be nil; writing into a nil map panics.\<close>

definition nilObj :: "obj option \<Rightarrow> obj" where
  "nilObj m = (case m of None \<Rightarrow> [] | Some x \<Rightarrow> x)"

definition writable :: "obj option \<Rightarrow> obj res" where
  "writable m = (case m of None \<Rightarrow> Inl (Panic ''assignment to entry in nil map'') | Some x \<Rightarrow> Inr x)"

text \<open>Into \<open>map[string]map[string]interface\{\}\<close>, the shape of a client's \<open>config\<close>.\<close>

fun unmarshalConfigs :: "raw \<Rightarrow> (string \<times> obj) list res" where
  "unmarshalConfigs (RText (JObj m)) = mapR (\<lambda>(k, v). case v of
       JObj c \<Rightarrow> Inr (k, c) | JNull \<Rightarrow> Inr (k, []) | _ \<Rightarrow> jsonErr) m"
| "unmarshalConfigs (RText JNull) = Inr []"
| "unmarshalConfigs _ = jsonErr"

text \<open>Into \<open>[]map[string]interface\{\}\<close>.\<close>

fun unmarshalObjs :: "raw \<Rightarrow> obj option list res" where
  "unmarshalObjs (RText (JArr vs)) = mapR (\<lambda>v. case v of
       JObj c \<Rightarrow> Inr (Some c) | JNull \<Rightarrow> Inr None | _ \<Rightarrow> jsonErr) vs"
| "unmarshalObjs (RText JNull) = Inr []"
| "unmarshalObjs _ = jsonErr"

text \<open>
  Into \<open>[]uint\<close>.  A mismatched element is left at the zero value and reported, so the slice is
  defined even where the error is; a caller that drops the error still sees it.
\<close>

fun asUint :: "jv \<Rightarrow> nat \<times> bool" where
  "asUint (JNum n) = (if 0 \<le> n \<and> n < 2 ^ 64 then (nat n, True) else (0, False))"
| "asUint JNull = (0, True)"
| "asUint _ = (0, False)"

fun uintsOf :: "raw \<Rightarrow> nat list \<times> bool" where
  "uintsOf (RText (JArr vs)) = (map (fst \<circ> asUint) vs, list_all (snd \<circ> asUint) vs)"
| "uintsOf (RText JNull) = ([], True)"
| "uintsOf _ = ([], False)"

definition unmarshalUints :: "raw \<Rightarrow> nat list res" where
  "unmarshalUints r = (case uintsOf r of (ids, ok) \<Rightarrow> if ok then Inr ids else jsonErr)"

definition marshalUints :: "nat list \<Rightarrow> raw" where
  "marshalUints ids = RText (JArr (map (\<lambda>i. JNum (int i)) ids))"

text \<open>A Go slice that may be nil marshals to \<open>null\<close>.\<close>

definition marshalUintsNil :: "nat list \<Rightarrow> raw" where
  "marshalUintsNil ids = (if ids = [] then RText JNull else marshalUints ids)"

lemma unmarshal_marshalUints:
  "(\<forall>i \<in> set ids. i < 2 ^ 64) \<Longrightarrow> unmarshalUints (marshalUints ids) = Inr ids"
proof -
  assume b: "\<forall>i \<in> set ids. i < 2 ^ 64"
  have "asUint (JNum (int i)) = (i, True)" if "i \<in> set ids" for i
    using b that by (auto simp: zless_nat_eq_int_zless [symmetric])
  then have "map (fst \<circ> asUint) (map (\<lambda>i. JNum (int i)) ids) = ids"
    and "list_all (snd \<circ> asUint) (map (\<lambda>i. JNum (int i)) ids)"
    by (auto simp: list_all_iff intro: map_idI)
  then show ?thesis
    by (simp add: unmarshalUints_def marshalUints_def)
qed

text \<open>Into \<open>[]map[string]string\<close>, the shape of a client's \<open>links\<close>.\<close>

type_synonym link = "(string \<times> string) list"

fun asStrMember :: "string \<times> jv \<Rightarrow> (string \<times> string) \<times> bool" where
  "asStrMember (k, JStr s) = ((k, s), True)"
| "asStrMember (k, JNull) = ((k, []), True)"
| "asStrMember (k, v) = ((k, []), False)"

fun asLink :: "jv \<Rightarrow> link \<times> bool" where
  "asLink (JObj m) = (map (fst \<circ> asStrMember) m, list_all (snd \<circ> asStrMember) m)"
| "asLink JNull = ([], True)"
| "asLink _ = ([], False)"

fun linksOf :: "raw \<Rightarrow> link list \<times> bool" where
  "linksOf (RText (JArr vs)) = (map (fst \<circ> asLink) vs, list_all (snd \<circ> asLink) vs)"
| "linksOf (RText JNull) = ([], True)"
| "linksOf _ = ([], False)"

definition unmarshalLinks :: "raw \<Rightarrow> link list res" where
  "unmarshalLinks r = (case linksOf r of (ls, ok) \<Rightarrow> if ok then Inr ls else jsonErr)"

definition linkDoc :: "link \<Rightarrow> jv" where
  "linkDoc l = JObj (map (\<lambda>(k, s). (k, JStr s)) l)"

definition marshalLinks :: "link list \<Rightarrow> raw" where
  "marshalLinks ls = RText (JArr (map linkDoc ls))"

definition marshalLinksNil :: "link list \<Rightarrow> raw" where
  "marshalLinksNil ls = (if ls = [] then RText JNull else marshalLinks ls)"

definition lget :: "link \<Rightarrow> string \<Rightarrow> string" where
  "lget l k = (case map_of l k of None \<Rightarrow> [] | Some s \<Rightarrow> s)"

lemma asLink_linkDoc: "asLink (linkDoc l) = (l, True)"
proof -
  have "asStrMember ((\<lambda>(k, s). (k, JStr s)) kv) = (kv, True)" for kv
    by (cases kv) simp
  then show ?thesis
    by (simp add: linkDoc_def list_all_iff comp_def split_beta)
qed

lemma linksOf_marshalLinks: "linksOf (marshalLinks ls) = (ls, True)"
  by (simp add: marshalLinks_def comp_def asLink_linkDoc list_all_iff)

lemma linksOf_marshalLinksNil: "linksOf (marshalLinksNil ls) = (ls, True)"
  by (simp add: marshalLinksNil_def linksOf_marshalLinks)

text \<open>Into \<open>uint\<close>, \<open>string\<close>, \<open>[]string\<close> and \<open>map[string]string\<close>.\<close>

definition unmarshalUint :: "raw \<Rightarrow> nat res" where
  "unmarshalUint r = (case r of RText v \<Rightarrow> (case asUint v of (n, ok) \<Rightarrow> if ok then Inr n else jsonErr)
     | _ \<Rightarrow> jsonErr)"

definition unmarshalStr :: "raw \<Rightarrow> string res" where
  "unmarshalStr r = (case r of RText (JStr s) \<Rightarrow> Inr s | RText JNull \<Rightarrow> Inr [] | _ \<Rightarrow> jsonErr)"

definition unmarshalStrs :: "raw \<Rightarrow> string list res" where
  "unmarshalStrs r = (case r of RText (JArr vs) \<Rightarrow>
       mapR (\<lambda>v. case v of JStr s \<Rightarrow> Inr s | JNull \<Rightarrow> Inr [] | _ \<Rightarrow> jsonErr) vs
     | RText JNull \<Rightarrow> Inr [] | _ \<Rightarrow> jsonErr)"

definition unmarshalStrMap :: "raw \<Rightarrow> (string \<times> string) list res" where
  "unmarshalStrMap r = (case r of RText v \<Rightarrow> (case asLink v of (m, ok) \<Rightarrow> if ok then Inr m else jsonErr)
     | _ \<Rightarrow> jsonErr)"

section \<open>Texts\<close>

definition hexDigit :: "nat \<Rightarrow> char" where
  "hexDigit n = (if n < 10 then char_of (48 + n) else char_of (87 + n))"

definition jescape :: "char \<Rightarrow> string" where
  "jescape c = (let n = of_char c :: nat in
     if n = 34 then [CHR 0x5C, CHR 0x22]
     else if n = 92 then [CHR 0x5C, CHR 0x5C]
     else if n = 10 then [CHR 0x5C, CHR ''n'']
     else if n = 13 then [CHR 0x5C, CHR ''r'']
     else if n = 9 then [CHR 0x5C, CHR ''t'']
     else if n = 8 then [CHR 0x5C, CHR ''b'']
     else if n = 12 then [CHR 0x5C, CHR ''f'']
     else if n < 32 \<or> n = 60 \<or> n = 62 \<or> n = 38
     then [CHR 0x5C, CHR ''u'', CHR ''0'', CHR ''0'', hexDigit (n div 16), hexDigit (n mod 16)]
     else [c])"

definition jquote :: "string \<Rightarrow> string" where
  "jquote s = CHR 0x22 # concat (map jescape s) @ [CHR 0x22]"

text \<open>The compact text of \<open>json.Marshal\<close>: members in the order of their keys.\<close>

fun jtext :: "jv \<Rightarrow> string"
  and jtexts :: "jv list \<Rightarrow> string list"
  and jmembers :: "(string \<times> jv) list \<Rightarrow> (string \<times> string) list" where
  "jtext JNull = ''null''"
| "jtext (JBool b) = (if b then ''true'' else ''false'')"
| "jtext (JNum n) = itoa n"
| "jtext (JInt n) = itoa n"
| "jtext (JStr s) = jquote s"
| "jtext (JArr vs) = ''['' @ joinStr '','' (jtexts vs) @ '']''"
| "jtext (JStrs ss) = ''['' @ joinStr '','' (map jquote ss) @ '']''"
| "jtext (JObj m) = CHR ''{'' # joinStr '','' (map snd (sort_key fst (jmembers m))) @ ''}''"
| "jtext (JRaw RNil) = ''null''"
| "jtext (JRaw (RBad t)) = t"
| "jtext (JRaw (RText v)) = jtext v"
| "jtexts [] = []"
| "jtexts (v # vs) = jtext v # jtexts vs"
| "jmembers [] = []"
| "jmembers ((k, v) # m) = (k, jquote k @ '':'' @ jtext v) # jmembers m"

text \<open>The text of \<open>json.MarshalIndent(v, "", "  ")\<close> at nesting depth \<open>d\<close>.\<close>

definition jnl :: "nat \<Rightarrow> string" where
  "jnl d = CHR 0x0A # replicate (2 * d) CHR '' ''"

fun jindent :: "nat \<Rightarrow> jv \<Rightarrow> string"
  and jindents :: "nat \<Rightarrow> jv list \<Rightarrow> string list"
  and jindentMembers :: "nat \<Rightarrow> (string \<times> jv) list \<Rightarrow> (string \<times> string) list" where
  "jindent d (JArr vs) = (if vs = [] then ''[]''
     else ''['' @ joinStr '','' (jindents (Suc d) vs) @ jnl d @ '']'')"
| "jindent d (JObj m) = (if m = [] then ''{}''
     else CHR ''{'' # joinStr '','' (map snd (sort_key fst (jindentMembers (Suc d) m))) @ jnl d @ ''}'')"
| "jindent d v = jtext v"
| "jindents d [] = []"
| "jindents d (v # vs) = (jnl d @ jindent d v) # jindents d vs"
| "jindentMembers d [] = []"
| "jindentMembers d ((k, v) # m) = (k, jnl d @ jquote k @ '': '' @ jindent d v) # jindentMembers d m"

definition rawText :: "raw \<Rightarrow> string" where
  "rawText r = (case r of RNil \<Rightarrow> [] | RBad t \<Rightarrow> t | RText v \<Rightarrow> jtext v)"

section \<open>Parsing texts\<close>

definition isSpace :: "char \<Rightarrow> bool" where
  "isSpace c = (let n = of_char c :: nat in n = 32 \<or> n = 9 \<or> n = 10 \<or> n = 13)"

definition hexVal :: "char \<Rightarrow> nat option" where
  "hexVal c = (let n = of_char c :: nat in
     if 48 \<le> n \<and> n \<le> 57 then Some (n - 48)
     else if 97 \<le> n \<and> n \<le> 102 then Some (n - 87)
     else if 65 \<le> n \<and> n \<le> 70 then Some (n - 55) else None)"

definition hex4 :: "string \<Rightarrow> nat option" where
  "hex4 s = (case map hexVal s of [Some a, Some b, Some c, Some d] \<Rightarrow>
       Some (a * 4096 + b * 256 + c * 16 + d) | _ \<Rightarrow> None)"

text \<open>UTF-8 encoding of a code point of the basic plane; a surrogate becomes U+FFFD.\<close>

definition utf8 :: "nat \<Rightarrow> string" where
  "utf8 n = (if n < 128 then [char_of n]
     else if n < 2048 then [char_of (192 + n div 64), char_of (128 + n mod 64)]
     else if 55296 \<le> n \<and> n < 57344 then [CHR 0xEF, CHR 0xBF, CHR 0xBD]
     else [char_of (224 + n div 4096), char_of (128 + n div 64 mod 64), char_of (128 + n mod 64)])"

text \<open>The rest of a string literal, after its opening quote.\<close>

fun pString :: "string \<Rightarrow> string \<Rightarrow> (string \<times> string) option" where
  "pString acc [] = None"
| "pString acc (c # s) =
     (if c = CHR 0x22 then Some (rev acc, s)
      else if c = CHR 0x5C then
        (case s of [] \<Rightarrow> None
         | e # s' \<Rightarrow>
           (if e = CHR 0x22 \<or> e = CHR 0x5C \<or> e = CHR ''/'' then pString (e # acc) s'
            else if e = CHR ''n'' then pString (CHR 0x0A # acc) s'
            else if e = CHR ''r'' then pString (CHR 0x0D # acc) s'
            else if e = CHR ''t'' then pString (CHR 0x09 # acc) s'
            else if e = CHR ''b'' then pString (CHR 0x08 # acc) s'
            else if e = CHR ''f'' then pString (CHR 0x0C # acc) s'
            else if e = CHR ''u'' then
              (case s' of h1 # h2 # h3 # h4 # r \<Rightarrow>
                 (case hex4 [h1, h2, h3, h4] of None \<Rightarrow> None
                  | Some n \<Rightarrow> pString (rev (utf8 n) @ acc) r)
               | _ \<Rightarrow> None)
            else None))
      else if of_char c < (32::nat) then None
      else pString (c # acc) s)"

text \<open>An integer literal; fractions and exponents lie outside the modelled numbers.\<close>

definition pNumber :: "string \<Rightarrow> (int \<times> string) option" where
  "pNumber s = (let (neg, r) = (case s of c # t \<Rightarrow> if c = CHR ''-'' then (True, t) else (False, s) | [] \<Rightarrow> (False, []));
       ds = takeWhile isDigit r; r' = dropWhile isDigit r
     in if ds = [] \<or> (hd ds = CHR ''0'' \<and> length ds > 1) \<or>
           (r' \<noteq> [] \<and> hd r' \<in> set ''.eE'') then None
        else Some (if neg then - int (digitsVal 0 ds) else int (digitsVal 0 ds), r'))"

definition skipSp :: "string \<Rightarrow> string" where
  "skipSp s = dropWhile isSpace s"

fun pValue :: "nat \<Rightarrow> string \<Rightarrow> (jv \<times> string) option"
  and pElems :: "nat \<Rightarrow> string \<Rightarrow> (jv list \<times> string) option"
  and pMembers :: "nat \<Rightarrow> string \<Rightarrow> ((string \<times> jv) list \<times> string) option" where
  "pValue 0 s = None"
| "pValue (Suc n) s = (case skipSp s of
       [] \<Rightarrow> None
     | c # r \<Rightarrow>
       (if c = CHR 0x22 then map_option (\<lambda>(t, q). (JStr t, q)) (pString [] r)
        else if c = CHR ''['' then
          (case skipSp r of d # q \<Rightarrow>
             if d = CHR '']'' then Some (JArr [], q)
             else map_option (\<lambda>(vs, q). (JArr vs, q)) (pElems n r)
           | [] \<Rightarrow> None)
        else if c = CHR ''{'' then
          (case skipSp r of d # q \<Rightarrow>
             if d = CHR ''}'' then Some (JObj [], q)
             else map_option (\<lambda>(m, q). (JObj m, q)) (pMembers n r)
           | [] \<Rightarrow> None)
        else if hasPrefix (c # r) ''null'' then Some (JNull, drop 4 (c # r))
        else if hasPrefix (c # r) ''true'' then Some (JBool True, drop 4 (c # r))
        else if hasPrefix (c # r) ''false'' then Some (JBool False, drop 5 (c # r))
        else map_option (\<lambda>(i, q). (JNum i, q)) (pNumber (c # r))))"
| "pElems 0 s = None"
| "pElems (Suc n) s = (case pValue n s of None \<Rightarrow> None
     | Some (v, r) \<Rightarrow> (case skipSp r of [] \<Rightarrow> None
        | d # q \<Rightarrow> if d = CHR '']'' then Some ([v], q)
                   else if d = CHR '','' then map_option (\<lambda>(vs, q'). (v # vs, q')) (pElems n q)
                   else None))"
| "pMembers 0 s = None"
| "pMembers (Suc n) s = (case skipSp s of [] \<Rightarrow> None
     | c # r0 \<Rightarrow> if c \<noteq> CHR 0x22 then None else
       (case pString [] r0 of None \<Rightarrow> None
        | Some (k, r1) \<Rightarrow> (case skipSp r1 of [] \<Rightarrow> None
          | e # r2 \<Rightarrow> if e \<noteq> CHR '':'' then None else
            (case pValue n r2 of None \<Rightarrow> None
             | Some (v, r3) \<Rightarrow> (case skipSp r3 of [] \<Rightarrow> None
               | d # q \<Rightarrow> if d = CHR ''}'' then Some ([(k, v)], q)
                          else if d = CHR '','' then map_option (\<lambda>(m, q').
                                 (if k \<in> fst ` set m then m else (k, v) # m, q')) (pMembers n q)
                          else None)))))"

text \<open>
  The value of a whole text.  Every recursive call consumes a character, so as much fuel as
  the text is long, and two more, is enough.  A repeated key keeps its last value.
\<close>

definition jparse :: "string \<Rightarrow> raw" where
  "jparse s = (case pValue (length s + 2) s of
       Some (v, r) \<Rightarrow> if skipSp r = [] then RText v else RBad s
     | None \<Rightarrow> RBad s)"

end
