(* ===== verification/Models.thy ===== *)
theory Models
  imports GoJson
begin

text \<open>
  The database rows of \<open>database/model\<close>: one record per struct, with the conversions between
  the JSON the panel receives, the row it stores and the JSON it hands to the core.
  Identifiers (\<open>uint\<close>) are \<open>nat\<close>, \<open>int64\<close> columns are \<open>int\<close>, JSON columns are \<open>raw\<close>.
\<close>

section \<open>Rows\<close>

record setting =
  s_key :: string
  s_value :: string

record tls =
  t_id :: nat
  t_name :: string
  t_server :: raw
  t_client :: raw

record user =
  u_id :: nat
  u_username :: string
  u_password :: string
  u_lastlogins :: string

record client =
  c_id :: nat
  c_enable :: bool
  c_name :: string
  c_config :: raw
  c_inbounds :: raw
  c_links :: raw
  c_volume :: int
  c_expiry :: int
  c_down :: int
  c_up :: int
  c_desc :: string
  c_group :: string
  c_banned :: bool
  c_banned_at :: int
  c_delay_start :: bool
  c_auto_reset :: bool
  c_reset_days :: int
  c_next_reset :: int
  c_total_up :: int
  c_total_down :: int

record stat =
  st_datetime :: int
  st_resource :: string
  st_tag :: string
  st_direction :: bool
  st_traffic :: int

record change =
  ch_datetime :: int
  ch_actor :: string
  ch_key :: string
  ch_action :: string
  ch_obj :: raw

record token =
  tk_id :: nat
  tk_desc :: string
  tk_token :: string
  tk_expiry :: int
  tk_user_id :: nat

record inbound =
  i_id :: nat
  i_type :: string
  i_tag :: string
  i_tls_id :: nat
  i_tls :: "tls option"
  i_addrs :: raw
  i_out_json :: raw
  i_options :: raw

record outbound =
  o_id :: nat
  o_type :: string
  o_tag :: string
  o_options :: raw

record endpoint =
  p_id :: nat
  p_type :: string
  p_tag :: string
  p_options :: raw
  p_ext :: raw

record service =
  v_id :: nat
  v_type :: string
  v_tag :: string
  v_tls_id :: nat
  v_tls :: "tls option"
  v_options :: raw

section \<open>Shared steps of the conversions\<close>

text \<open>The \<open>uint\<close> a JSON number converts to.\<close>

definition uintOr0 :: "jv \<Rightarrow> nat" where
  "uintOr0 v = (case asNum v of None \<Rightarrow> 0 | Some n \<Rightarrow> nat n)"

text \<open>\<open>x, _ = json.MarshalIndent(v)\<close>: the error is dropped and the slice stays nil.\<close>

definition marshalDrop :: "jv \<Rightarrow> raw" where
  "marshalDrop v = (case toDoc v of None \<Rightarrow> RNil | Some d \<Rightarrow> RText d)"

text \<open>\<open>json.MarshalIndent\<close> of the decoded map after some keys were deleted from it.\<close>

definition remaining :: "obj option \<Rightarrow> string list \<Rightarrow> raw res" where
  "remaining m ks = (case m of None \<Rightarrow> Inr (RText JNull)
     | Some x \<Rightarrow> marshal (JObj (fold odel ks x)))"

text \<open>The stored options as \<open>map[string]json.RawMessage\<close>, copied over the fixed fields.\<close>

definition addRest :: "raw \<Rightarrow> obj \<Rightarrow> obj res" where
  "addRest opts combined = (if opts = RNil then Inr combined
     else bindR (unmarshalObj opts) (\<lambda>m.
       Inr (copyInto (map (\<lambda>(k, v). (k, JRaw (RText v))) (nilObj m)) combined)))"

text \<open>The same with the options decoded to \<open>map[string]interface\{\}\<close>.\<close>

definition addRestVals :: "raw \<Rightarrow> obj \<Rightarrow> obj res" where
  "addRestVals opts combined = (if opts = RNil then Inr combined
     else bindR (unmarshalObj opts) (\<lambda>m. Inr (copyInto (nilObj m) combined)))"

section \<open>Inbounds\<close>

definition Inbound_UnmarshalJSON :: "raw \<Rightarrow> inbound res" where
  "Inbound_UnmarshalJSON data = bindR (unmarshalObj data) (\<lambda>m.
     let r = nilObj m in
     bindR (remaining m [''id'', ''type'', ''tag'', ''tls_id'', ''tls'', ''users'', ''addrs'', ''out_json''])
       (\<lambda>opts. Inr \<lparr>i_id = uintOr0 (oget r ''id''),
          i_type = strOr0 (oget r ''type''),
          i_tag = strOr0 (oget r ''tag''),
          i_tls_id = uintOr0 (oget r ''tls_id''),
          i_tls = None,
          i_addrs = marshalDrop (oget r ''addrs''),
          i_out_json = marshalDrop (oget r ''out_json''),
          i_options = opts\<rparr>))"

definition Inbound_MarshalJSON :: "inbound \<Rightarrow> raw res" where
  "Inbound_MarshalJSON i =
     (let c0 = [(''type'', JStr (i_type i)), (''tag'', JStr (i_tag i))];
          c1 = (case i_tls i of None \<Rightarrow> c0 | Some t \<Rightarrow> oset ''tls'' (JRaw (t_server t)) c0)
      in bindR (addRest (i_options i) c1) (\<lambda>c. marshal (JObj c)))"

definition Inbound_MarshalFull :: "inbound \<Rightarrow> obj res" where
  "Inbound_MarshalFull i = addRestVals (i_options i)
     [(''id'', JInt (int (i_id i))), (''type'', JStr (i_type i)), (''tag'', JStr (i_tag i)),
      (''tls_id'', JInt (int (i_tls_id i))), (''addrs'', JRaw (i_addrs i)),
      (''out_json'', JRaw (i_out_json i))]"

section \<open>Outbounds\<close>

definition Outbound_UnmarshalJSON :: "raw \<Rightarrow> outbound res" where
  "Outbound_UnmarshalJSON data = bindR (unmarshalObj data) (\<lambda>m.
     let r = nilObj m in
     bindR (mustStr (oget r ''tag'')) (\<lambda>tag.
     bindR (remaining m [''id'', ''type'', ''tag'']) (\<lambda>opts.
       Inr \<lparr>o_id = uintOr0 (oget r ''id''), o_type = strOr0 (oget r ''type''),
            o_tag = tag, o_options = opts\<rparr>)))"

definition Outbound_MarshalJSON :: "outbound \<Rightarrow> raw res" where
  "Outbound_MarshalJSON o1 = bindR
     (addRest (o_options o1) [(''type'', JStr (o_type o1)), (''tag'', JStr (o_tag o1))])
     (\<lambda>c. marshal (JObj c))"

section \<open>Endpoints\<close>

definition Endpoint_UnmarshalJSON :: "raw \<Rightarrow> endpoint res" where
  "Endpoint_UnmarshalJSON data = bindR (unmarshalObj data) (\<lambda>m.
     let r = nilObj m in
     bindR (mustStr (oget r ''tag'')) (\<lambda>tag.
     bindR (remaining m [''id'', ''type'', ''tag'', ''ext'']) (\<lambda>opts.
       Inr \<lparr>p_id = uintOr0 (oget r ''id''), p_type = strOr0 (oget r ''type''),
            p_tag = tag, p_options = opts, p_ext = marshalDrop (oget r ''ext'')\<rparr>)))"

definition Endpoint_MarshalJSON :: "endpoint \<Rightarrow> raw res" where
  "Endpoint_MarshalJSON o1 = bindR
     (addRest (p_options o1)
        [(''type'', JStr (if p_type o1 = ''warp'' then ''wireguard'' else p_type o1)),
         (''tag'', JStr (p_tag o1))])
     (\<lambda>c. marshal (JObj c))"

section \<open>Services\<close>

definition Service_UnmarshalJSON :: "raw \<Rightarrow> service res" where
  "Service_UnmarshalJSON data = bindR (unmarshalObj data) (\<lambda>m.
     let r = nilObj m in
     bindR (remaining m [''id'', ''type'', ''tag'', ''tls_id'', ''tls'']) (\<lambda>opts.
       Inr \<lparr>v_id = uintOr0 (oget r ''id''), v_type = strOr0 (oget r ''type''),
            v_tag = strOr0 (oget r ''tag''), v_tls_id = uintOr0 (oget r ''tls_id''),
            v_tls = None, v_options = opts\<rparr>))"

definition Service_MarshalJSON :: "service \<Rightarrow> raw res" where
  "Service_MarshalJSON i =
     (let c0 = [(''type'', JStr (v_type i)), (''tag'', JStr (v_tag i))];
          c1 = (case v_tls i of None \<Rightarrow> c0 | Some t \<Rightarrow> oset ''tls'' (JRaw (t_server t)) c0)
      in bindR (addRest (v_options i) c1) (\<lambda>c. marshal (JObj c)))"

definition Service_MarshalFull :: "service \<Rightarrow> obj res" where
  "Service_MarshalFull i = addRestVals (v_options i)
     [(''id'', JInt (int (v_id i))), (''type'', JStr (v_type i)), (''tag'', JStr (v_tag i)),
      (''tls_id'', JInt (int (v_tls_id i)))]"

section \<open>The conversions keep every field the core reads\<close>

lemma fold_odel_isDoc: "isDoc (JObj m) \<Longrightarrow> isDoc (JObj (fold odel ks m))"
proof (induction ks arbitrary: m)
  case (Cons k ks)
  have "isDoc (JObj (odel k m))"
    using Cons.prems by (auto simp: AList.delete_eq)
  with Cons.IH show ?case by simp
qed simp

lemma fold_odel_distinct: "distinct (map fst m) \<Longrightarrow> distinct (map fst (fold odel ks m))"
  by (induction ks arbitrary: m) (auto simp: AList.distinct_delete)

lemma map_of_fold_odel: "map_of (fold odel ks m) = (\<lambda>k. if k \<in> set ks then None else map_of m k)"
  by (induction ks arbitrary: m) (auto simp: fun_eq_iff)

lemma remaining_Some:
  "isDoc (JObj m) \<Longrightarrow> remaining (Some m) ks = Inr (RText (JObj (fold odel ks m)))"
  using fold_odel_isDoc [of m ks] by (simp add: remaining_def marshal_isDoc del: isDoc.simps)

text \<open>Marshalling fixed fields over stored options: the document's members.\<close>

lemma toDocMembers_map_of:
  "toDocMembers m = Some m' \<Longrightarrow> map_of m' k = Option.bind (map_of m k) toDoc"
  by (induction m arbitrary: m') (auto split: option.splits if_splits)

lemma toDocMembers_total:
  "(\<forall>v \<in> snd ` set m. toDoc v \<noteq> None) \<Longrightarrow> \<exists>m'. toDocMembers m = Some m'"
  by (induction m) (auto split: option.splits)

lemma set_update: "set (AList.update k v m) \<subseteq> insert (k, v) (set m)"
  by (induction m) auto

lemma set_copyInto: "set (copyInto src dst) \<subseteq> set src \<union> set dst"
  by (induction src dst rule: copyInto.induct) (use set_update in fastforce)+

lemma marshal_addRest:
  assumes "opts = RText (JObj m)" "isDoc (JObj m)" "distinct (map fst m)"
    and "\<forall>v \<in> snd ` set c. toDoc v \<noteq> None"
  shows "\<exists>d. bindR (addRest opts c) (\<lambda>c. marshal (JObj c)) = Inr (RText (JObj d)) \<and>
    (\<forall>k. map_of d k = (case map_of m k of Some v \<Rightarrow> Some v | None \<Rightarrow> Option.bind (map_of c k) toDoc))"
proof -
  let ?src = "map (\<lambda>(k, v). (k, JRaw (RText v))) m"
  let ?all = "copyInto ?src c"
  have "\<forall>v \<in> snd ` set ?all. toDoc v \<noteq> None"
    using set_copyInto [of ?src c] assms(4) by fastforce
  then obtain d where d: "toDocMembers ?all = Some d"
    using toDocMembers_total by blast
  have dist: "distinct (map fst ?src)"
    using assms(3) by (simp add: comp_def case_prod_unfold)
  have src: "map_of ?src k = map_option (\<lambda>v. JRaw (RText v)) (map_of m k)" for k
    by (simp add: map_of_map)
  have "map_of d k = (case map_of m k of Some v \<Rightarrow> Some v | None \<Rightarrow> Option.bind (map_of c k) toDoc)" for k
    using toDocMembers_map_of [OF d, of k] map_of_copyInto [OF dist, of c] src [of k]
    by (auto simp: map_add_def split: option.splits)
  with d assms(1) show ?thesis
    by (simp add: addRest_def nilObj_def marshal_def)
qed

lemma marshal_stored:
  assumes "isDoc (JObj m)" "distinct (map fst m)" "opts = RText (JObj (fold odel ks m))"
    and "\<forall>v \<in> snd ` set c. toDoc v \<noteq> None"
  shows "\<exists>d. bindR (addRest opts c) (\<lambda>c. marshal (JObj c)) = Inr (RText (JObj d)) \<and>
    (\<forall>k. map_of d k = (case if k \<in> set ks then None else map_of m k of Some v \<Rightarrow> Some v
       | None \<Rightarrow> Option.bind (map_of c k) toDoc))"
  using marshal_addRest [OF assms(3) fold_odel_isDoc fold_odel_distinct assms(4)] assms(1,2)
  by (simp only: map_of_fold_odel)

text \<open>
  An outbound the panel accepts is stored and handed to the core without loss: decoding the
  submitted object and encoding the stored row gives the same members, except the row identifier.
\<close>

lemma outbound_roundtrip:
  assumes "isDoc (JObj m)" "distinct (map fst m)"
    and "map_of m ''tag'' = Some (JStr t)" "map_of m ''type'' = Some (JStr ty)"
  shows "\<exists>o1 d. Outbound_UnmarshalJSON (RText (JObj m)) = Inr o1 \<and>
    Outbound_MarshalJSON o1 = Inr (RText (JObj d)) \<and>
    map_of d = (map_of m)(''id'' := None)"
proof -
  let ?ks = "[''id'', ''type'', ''tag'']"
  let ?o = "\<lparr>o_id = uintOr0 (oget m ''id''), o_type = ty, o_tag = t,
    o_options = RText (JObj (fold odel ?ks m))\<rparr>"
  have u: "Outbound_UnmarshalJSON (RText (JObj m)) = Inr ?o"
    using assms remaining_Some [OF assms(1), of ?ks]
    by (simp add: Outbound_UnmarshalJSON_def nilObj_def oget_def strOr0_def)
  have "\<exists>d. Outbound_MarshalJSON ?o = Inr (RText (JObj d)) \<and>
      (\<forall>k. map_of d k = (case if k \<in> set ?ks then None else map_of m k of Some v \<Rightarrow> Some v
        | None \<Rightarrow> Option.bind (map_of [(''type'', JStr ty), (''tag'', JStr t)] k) toDoc))"
    unfolding Outbound_MarshalJSON_def outbound.simps
    by (rule marshal_stored [OF assms(1,2) refl]) auto
  then obtain d where "Outbound_MarshalJSON ?o = Inr (RText (JObj d))"
    and d: "\<And>k. map_of d k = (case if k \<in> set ?ks then None else map_of m k of Some v \<Rightarrow> Some v
        | None \<Rightarrow> Option.bind (map_of [(''type'', JStr ty), (''tag'', JStr t)] k) toDoc)"
    by blast
  moreover have "map_of d k = ((map_of m)(''id'' := None)) k" for k
    using assms(3,4) by (cases "map_of m k") (auto simp: d)
  then have "map_of d = (map_of m)(''id'' := None)" ..
  ultimately show ?thesis using u by blast
qed

definition sample_outbound :: obj where
  "sample_outbound = [(''id'', JNum 7), (''type'', JStr ''socks''), (''tag'', JStr ''up''),
     (''server'', JStr ''10.0.0.1''), (''server_port'', JNum 1080)]"

theorem outbound_roundtrip_witness:
  "\<exists>o1 d. Outbound_UnmarshalJSON (RText (JObj sample_outbound)) = Inr o1 \<and>
    Outbound_MarshalJSON o1 = Inr (RText (JObj d)) \<and>
    map_of d = (map_of sample_outbound)(''id'' := None)"
  by (rule outbound_roundtrip [where t = "''up''" and ty = "''socks''"])
    (simp_all add: sample_outbound_def)

text \<open>
  What a submitted inbound may put into the core's configuration: every key of the object except
  the panel's own columns reaches it, the users and the TLS block of the request never do (users
  come from the client table and TLS from the TLS table), and the type and the tag are the row's.
\<close>

lemma inbound_roundtrip:
  assumes "isDoc (JObj m)" "distinct (map fst m)"
    and "Inbound_UnmarshalJSON (RText (JObj m)) = Inr i"
  shows "\<exists>d. Inbound_MarshalJSON i = Inr (RText (JObj d)) \<and>
    (\<forall>k. map_of d k =
      (if k = ''type'' then Some (JStr (strOr0 (oget m ''type'')))
       else if k = ''tag'' then Some (JStr (strOr0 (oget m ''tag'')))
       else if k \<in> set [''id'', ''tls_id'', ''tls'', ''users'', ''addrs'', ''out_json''] then None
       else map_of m k))"
proof -
  let ?ks = "[''id'', ''type'', ''tag'', ''tls_id'', ''tls'', ''users'', ''addrs'', ''out_json'']"
  let ?c = "[(''type'', JStr (strOr0 (oget m ''type''))), (''tag'', JStr (strOr0 (oget m ''tag'')))]"
  have "Inbound_UnmarshalJSON (RText (JObj m)) = Inr \<lparr>i_id = uintOr0 (oget m ''id''),
      i_type = strOr0 (oget m ''type''), i_tag = strOr0 (oget m ''tag''),
      i_tls_id = uintOr0 (oget m ''tls_id''), i_tls = None,
      i_addrs = marshalDrop (oget m ''addrs''), i_out_json = marshalDrop (oget m ''out_json''),
      i_options = RText (JObj (fold odel ?ks m))\<rparr>"
    unfolding Inbound_UnmarshalJSON_def unmarshalObj.simps bindR_simps nilObj_def option.case Let_def
      remaining_Some [OF assms(1), of ?ks] by (rule refl)
  then have i: "i_type i = strOr0 (oget m ''type'')" "i_tag i = strOr0 (oget m ''tag'')"
    "i_tls i = None" "i_options i = RText (JObj (fold odel ?ks m))"
    using assms(3) by (simp_all only: sum.inject inbound.simps)
  have "\<exists>d. Inbound_MarshalJSON i = Inr (RText (JObj d)) \<and>
      (\<forall>k. map_of d k = (case if k \<in> set ?ks then None else map_of m k of Some v \<Rightarrow> Some v
        | None \<Rightarrow> Option.bind (map_of ?c k) toDoc))"
    unfolding Inbound_MarshalJSON_def i Let_def option.case
    by (rule marshal_stored [OF assms(1,2) refl]) auto
  then obtain d where "Inbound_MarshalJSON i = Inr (RText (JObj d))"
    and d: "\<And>k. map_of d k = (case if k \<in> set ?ks then None else map_of m k of Some v \<Rightarrow> Some v
        | None \<Rightarrow> Option.bind (map_of ?c k) toDoc)"
    by blast
  moreover have "map_of d k = (if k = ''type'' then Some (JStr (strOr0 (oget m ''type'')))
      else if k = ''tag'' then Some (JStr (strOr0 (oget m ''tag'')))
      else if k \<in> set [''id'', ''tls_id'', ''tls'', ''users'', ''addrs'', ''out_json''] then None
      else map_of m k)" for k
    by (cases "k = ''type''"; cases "k = ''tag''"; cases "map_of m k") (simp_all add: d)
  ultimately show ?thesis by blast
qed

definition sample_inbound :: obj where
  "sample_inbound = [(''id'', JNum 3), (''type'', JStr ''vless''), (''tag'', JStr ''in''),
     (''users'', JArr [JStr ''intruder'']), (''tls'', JNull), (''listen_port'', JNum 443)]"

theorem inbound_roundtrip_witness:
  "\<exists>i d. Inbound_UnmarshalJSON (RText (JObj sample_inbound)) = Inr i \<and>
    Inbound_MarshalJSON i = Inr (RText (JObj d)) \<and> map_of d ''users'' = None \<and>
    map_of d ''listen_port'' = Some (JNum 443)"
proof -
  have 1: "isDoc (JObj sample_inbound)" "distinct (map fst sample_inbound)"
    by (simp_all add: sample_inbound_def)
  have "\<exists>i. Inbound_UnmarshalJSON (RText (JObj sample_inbound)) = Inr i"
    using remaining_Some [OF 1(1)] by (simp add: Inbound_UnmarshalJSON_def nilObj_def Let_def)
  then obtain i where i: "Inbound_UnmarshalJSON (RText (JObj sample_inbound)) = Inr i" ..
  show ?thesis
    using inbound_roundtrip [OF 1 i] i by (auto simp: sample_inbound_def)
qed

end
