(* ===== verification/Common.thy ===== *)
theory Common
  imports Models
begin

text \<open>
  \<open>util/common\<close>: the set operations on inbound identifiers every client operation uses, and the
  random index.  The random source is the argument \<open>rnd\<close>: \<open>rnd n\<close> is what
  \<open>crypto/rand\<close> draws below \<open>n\<close>.
\<close>

section \<open>array.go\<close>

definition addKey :: "nat \<Rightarrow> nat list \<Rightarrow> nat list" where
  "addKey v m = (if v \<in> set m then m else m @ [v])"

definition UnionUintArray :: "nat list \<Rightarrow> nat list \<Rightarrow> nat list" where
  "UnionUintArray a b = fold addKey b (fold addKey a [])"

definition DiffUintArray :: "nat list \<Rightarrow> nat list \<Rightarrow> nat list" where
  "DiffUintArray a b =
     filter (\<lambda>item. item \<notin> set a) b @ filter (\<lambda>item. item \<notin> set b) a"

lemma set_addKey [simp]: "set (addKey v m) = insert v (set m)"
  by (auto simp: addKey_def)

lemma distinct_addKey [simp]: "distinct (addKey v m) = distinct m"
  by (auto simp: addKey_def)

lemma set_fold_addKey [simp]: "set (fold addKey a m) = set a \<union> set m"
  by (induction a arbitrary: m) auto

lemma distinct_fold_addKey [simp]: "distinct (fold addKey a m) = distinct m"
  by (induction a arbitrary: m) auto

lemma set_UnionUintArray [simp]: "set (UnionUintArray a b) = set a \<union> set b"
  by (auto simp: UnionUintArray_def)

lemma distinct_UnionUintArray [simp]: "distinct (UnionUintArray a b)"
  by (simp add: UnionUintArray_def)

lemma UnionUintArray_Nil_iff [simp]: "UnionUintArray a b = [] \<longleftrightarrow> a = [] \<and> b = []"
  by (metis Un_empty set_UnionUintArray set_empty)

lemma set_DiffUintArray: "set (DiffUintArray a b) = (set a - set b) \<union> (set b - set a)"
  by (auto simp: DiffUintArray_def)

lemma DiffUintArray_Nil_iff: "DiffUintArray a b = [] \<longleftrightarrow> set a = set b"
  unfolding set_empty [symmetric] set_DiffUintArray by blast

section \<open>random.go\<close>

definition RandomInt :: "(nat \<Rightarrow> nat) \<Rightarrow> nat \<Rightarrow> nat" where
  "RandomInt rnd n = (if n = 0 then 0 else rnd n)"

text \<open>What \<open>crypto/rand.Int\<close> documents: a uniform value below its bound.\<close>

definition rand_ok :: "(nat \<Rightarrow> nat) \<Rightarrow> bool" where
  "rand_ok rnd \<longleftrightarrow> (\<forall>n > 0. rnd n < n)"

text \<open>Indexing a slice panics out of range.\<close>

definition nthR :: "'a list \<Rightarrow> nat \<Rightarrow> 'a res" where
  "nthR xs i = (if i < length xs then Inr (xs ! i) else Inl (Panic ''index out of range''))"

lemma nthR_RandomInt:
  "rand_ok rnd \<Longrightarrow> xs \<noteq> [] \<Longrightarrow> \<exists>x \<in> set xs. nthR xs (RandomInt rnd (length xs)) = Inr x"
  by (auto simp: nthR_def RandomInt_def rand_ok_def)

end
