(* ===== verification/OutJson.thy ===== *)
theory OutJson
  imports Common
begin

text \<open>
  \<open>util/outJson.go\<close>: the client-side outbound object the panel derives from an inbound and
  stores in its \<open>out_json\<close> column, from which the JSON and Clash subscriptions are built.
\<close>

text \<open>\<open>if v, ok := src[k]; ok \{ dst[k] = v \}\<close> for each key, on a map that may be nil.\<close>

fun copyPresent :: "string list \<Rightarrow> obj \<Rightarrow> obj option \<Rightarrow> obj option res" where
  "copyPresent [] src dst = Inr dst"
| "copyPresent (k # ks) src dst = (case map_of src k of
       None \<Rightarrow> copyPresent ks src dst
     | Some v \<Rightarrow> bindR (writable dst) (\<lambda>d. copyPresent ks src (Some (oset k v d))))"

definition addTlsReality :: "(nat \<Rightarrow> nat) \<Rightarrow> obj \<Rightarrow> obj option \<Rightarrow> obj option res" where
  "addTlsReality rnd tlsServer tlsConfig =
     (case asObj (oget tlsServer ''reality'') of None \<Rightarrow> Inr tlsConfig
      | Some reality \<Rightarrow> bindR (mustBool (oget reality ''enabled'')) (\<lambda>en.
          if \<not> en then Inr tlsConfig
          else bindR (mustObj (oget (nilObj tlsConfig) ''reality'')) (\<lambda>rc0.
            let rc1 = oset ''enabled'' (JBool True) rc0 in
            bindR (case asArr (oget reality ''short_id'') of
                None \<Rightarrow> Inr rc1
              | Some sids \<Rightarrow> if sids = [] then Inr rc1
                  else bindR (nthR sids (RandomInt rnd (length sids))) (\<lambda>sid.
                    Inr (oset ''short_id'' sid rc1)))
              (\<lambda>rc2. bindR (writable tlsConfig) (\<lambda>d. Inr (Some (oset ''reality'' (JObj rc2) d)))))))"

definition addTlsEch :: "obj \<Rightarrow> obj option \<Rightarrow> obj option res" where
  "addTlsEch tlsServer tlsConfig =
     (case asObj (oget tlsServer ''ech'') of None \<Rightarrow> Inr tlsConfig
      | Some ech \<Rightarrow> bindR (mustBool (oget ech ''enabled'')) (\<lambda>en.
          if \<not> en then Inr tlsConfig
          else bindR (mustObj (oget (nilObj tlsConfig) ''ech'')) (\<lambda>ec0.
            let ec = oset ''dynamic_record_sizing_disabled'' (oget ech ''dynamic_record_sizing_disabled'')
                    (oset ''pq_signature_schemes_enabled'' (oget ech ''pq_signature_schemes_enabled'')
                    (oset ''enabled'' (JBool True) ec0))
            in bindR (writable tlsConfig) (\<lambda>d. Inr (Some (oset ''ech'' (JObj ec) d))))))"

definition addTls :: "(nat \<Rightarrow> nat) \<Rightarrow> obj \<Rightarrow> tls option \<Rightarrow> obj res" where
  "addTls rnd out tlsp = (case tlsp of
       None \<Rightarrow> Inl (Panic ''nil pointer dereference'')
     | Some t \<Rightarrow> (case unmarshalObj (t_server t) of Inl _ \<Rightarrow> Inr out
        | Inr srv \<Rightarrow> (case unmarshalObj (t_client t) of Inl _ \<Rightarrow> Inr out
          | Inr cfg0 \<Rightarrow>
            let tlsServer = nilObj srv in
            bindR (copyPresent [''enabled'', ''server_name'', ''alpn'', ''min_version'', ''max_version'',
                ''certificate'', ''cipher_suites''] tlsServer cfg0) (\<lambda>cfg1.
            bindR (addTlsReality rnd tlsServer cfg1) (\<lambda>cfg2.
            bindR (addTlsEch tlsServer cfg2) (\<lambda>cfg3.
              Inr (oset ''tls'' (case cfg3 of None \<Rightarrow> JNull | Some d \<Rightarrow> JObj d) out)))))))"

definition naiveOut :: "obj \<Rightarrow> obj \<Rightarrow> obj" where
  "naiveOut out ib = (case asStr (oget ib ''quic_congestion_control'') of None \<Rightarrow> out
     | Some cc \<Rightarrow> oset ''quic_congestion_control''
         (JStr (if cc = ''bbr_standard'' then ''bbr''
                else if cc = ''bbr2_variant'' then ''bbr2'' else cc))
         (oset ''quic'' (JBool True) out))"

definition shadowsocksOut :: "obj \<Rightarrow> obj \<Rightarrow> obj" where
  "shadowsocksOut out ib = (case asStr (oget ib ''method'') of None \<Rightarrow> out
     | Some m \<Rightarrow> oset ''method'' (JStr m) out)"

definition shadowTlsOut :: "obj \<Rightarrow> obj \<Rightarrow> obj" where
  "shadowTlsOut out ib =
     oset ''tls'' (JObj [(''enabled'', JBool True)])
       (if asNum (oget ib ''version'') = Some 3 then oset ''version'' (JInt 3) out else [])"

text \<open>\<open>if v, ok := inbound[from]; ok \{ out[to] = v \}\<close>.\<close>

definition carry :: "string \<Rightarrow> string \<Rightarrow> obj \<Rightarrow> obj \<Rightarrow> obj" where
  "carry from to ib out = (case map_of ib from of None \<Rightarrow> out | Some v \<Rightarrow> oset to v out)"

definition hysteriaOut :: "obj \<Rightarrow> obj \<Rightarrow> obj" where
  "hysteriaOut out ib =
     carry ''disable_mtu_discovery'' ''disable_mtu_discovery'' ib
     (carry ''recv_window_conn'' ''recv_window_conn'' ib
     (carry ''obfs'' ''obfs'' ib
     (carry ''up_mbps'' ''down_mbps'' ib
     (carry ''down_mbps'' ''up_mbps'' ib
     (odel ''disable_mtu_discovery'' (odel ''recv_window_conn'' (odel ''obfs''
     (odel ''up_mbps'' (odel ''down_mbps'' out)))))))))"

definition hysteria2Out :: "obj \<Rightarrow> obj \<Rightarrow> obj" where
  "hysteria2Out out ib =
     carry ''obfs'' ''obfs'' ib
     (carry ''up_mbps'' ''down_mbps'' ib
     (carry ''down_mbps'' ''up_mbps'' ib
     (odel ''obfs'' (odel ''up_mbps'' (odel ''down_mbps'' out)))))"

definition tuicOut :: "obj \<Rightarrow> obj \<Rightarrow> obj" where
  "tuicOut out ib =
     (let o1 = odel ''heartbeat'' (odel ''zero_rtt_handshake'' out);
          o2 = oset ''congestion_control'' (JStr (case asStr (oget ib ''congestion_control'') of
                 None \<Rightarrow> ''cubic'' | Some cc \<Rightarrow> cc)) o1;
          o3 = (case asBool (oget ib ''zero_rtt_handshake'') of None \<Rightarrow> o2
                 | Some z \<Rightarrow> oset ''zero_rtt_handshake'' (JBool z) o2)
      in carry ''heartbeat'' ''heartbeat'' ib o3)"

definition vlessOut :: "obj \<Rightarrow> obj \<Rightarrow> obj" where
  "vlessOut out ib = carry ''transport'' ''transport'' ib (odel ''transport'' out)"

definition trojanOut :: "obj \<Rightarrow> obj \<Rightarrow> obj" where
  "trojanOut out ib = carry ''transport'' ''transport'' ib (odel ''transport'' out)"

definition vmessOut :: "obj \<Rightarrow> obj \<Rightarrow> obj" where
  "vmessOut out ib = carry ''transport'' ''transport'' ib
     (odel ''transport'' (oset ''alter_id'' (JInt 0) out))"

definition outByType :: "string \<Rightarrow> obj \<Rightarrow> obj \<Rightarrow> obj" where
  "outByType ty out ib =
     (if ty \<in> set [''http'', ''socks'', ''mixed'', ''anytls''] then out
      else if ty = ''naive'' then naiveOut out ib
      else if ty = ''shadowsocks'' then shadowsocksOut out ib
      else if ty = ''shadowtls'' then shadowTlsOut out ib
      else if ty = ''hysteria'' then hysteriaOut out ib
      else if ty = ''hysteria2'' then hysteria2Out out ib
      else if ty = ''tuic'' then tuicOut out ib
      else if ty = ''vless'' then vlessOut out ib
      else if ty = ''trojan'' then trojanOut out ib
      else if ty = ''vmess'' then vmessOut out ib
      else [])"

definition FillOutJson :: "(nat \<Rightarrow> nat) \<Rightarrow> inbound \<Rightarrow> string \<Rightarrow> inbound res" where
  "FillOutJson rnd i hostname =
     (if i_type i \<in> set [''direct'', ''tun'', ''redirect'', ''tproxy''] then Inr i
      else bindR (unmarshalObj (i_out_json i)) (\<lambda>m.
        let out0 = nilObj m in
        bindR (if i_tls_id i > 0 then addTls rnd out0 (i_tls i) else Inr (odel ''tls'' out0)) (\<lambda>out1.
        bindR (Inbound_MarshalFull i) (\<lambda>ib.
          let out2 = oset ''server_port'' (oget ib ''listen_port'') (oset ''server'' (JStr hostname)
                (oset ''tag'' (JStr (i_tag i)) (oset ''type'' (JStr (i_type i)) out1)))
          in bindR (marshal (JObj (outByType (i_type i) out2 ib))) (\<lambda>r.
            Inr (i\<lparr>i_out_json := r\<rparr>))))))"

section \<open>Properties\<close>

lemma carry_oget: "k \<noteq> to \<Longrightarrow> oget (carry from to ib out) k = oget out k"
  by (simp add: carry_def split: option.splits)

lemma carry_map_of: "map_of (carry from to ib out) k =
    (if k = to \<and> map_of ib from \<noteq> None then map_of ib from else map_of out k)"
  by (simp add: carry_def split: option.splits)

text \<open>The keys a per-type step may write, and the types that keep the object built before it.\<close>

definition typeKeys :: "string list" where
  "typeKeys = [''quic'', ''quic_congestion_control'', ''method'', ''down_mbps'', ''up_mbps'', ''obfs'',
     ''recv_window_conn'', ''disable_mtu_discovery'', ''zero_rtt_handshake'', ''heartbeat'',
     ''congestion_control'', ''transport'', ''alter_id'']"

definition carriedTypes :: "string list" where
  "carriedTypes = [''http'', ''socks'', ''mixed'', ''anytls'', ''naive'', ''shadowsocks'', ''hysteria'',
     ''hysteria2'', ''tuic'', ''vless'', ''trojan'', ''vmess'']"

lemma perType_keeps:
  assumes "k \<notin> set typeKeys"
  shows "map_of (naiveOut out ib) k = map_of out k" "map_of (shadowsocksOut out ib) k = map_of out k"
    "map_of (hysteriaOut out ib) k = map_of out k" "map_of (hysteria2Out out ib) k = map_of out k"
    "map_of (tuicOut out ib) k = map_of out k" "map_of (vlessOut out ib) k = map_of out k"
    "map_of (trojanOut out ib) k = map_of out k" "map_of (vmessOut out ib) k = map_of out k"
  using assms unfolding typeKeys_def
  by (simp_all add: naiveOut_def shadowsocksOut_def hysteriaOut_def hysteria2Out_def tuicOut_def
      vlessOut_def trojanOut_def vmessOut_def carry_map_of Let_def split: option.split)

lemma outByType_carried:
  "ty \<in> set carriedTypes \<Longrightarrow> outByType ty out ib \<in> {out, naiveOut out ib, shadowsocksOut out ib,
     hysteriaOut out ib, hysteria2Out out ib, tuicOut out ib, vlessOut out ib, trojanOut out ib, vmessOut out ib}"
  unfolding carriedTypes_def list.set by (elim insertE emptyE) (simp_all add: outByType_def)

lemma outByType_keeps:
  assumes "ty \<in> set carriedTypes" "k \<notin> set typeKeys"
  shows "map_of (outByType ty out ib) k = map_of out k"
  using outByType_carried [OF assms(1), of out ib] perType_keeps [OF assms(2), of out ib] by fastforce

lemma outByType_shared:
  assumes "ty \<in> set carriedTypes"
  shows "map_of (outByType ty out ib) ''type'' = map_of out ''type''"
    "map_of (outByType ty out ib) ''tag'' = map_of out ''tag''"
    "map_of (outByType ty out ib) ''server'' = map_of out ''server''"
    "map_of (outByType ty out ib) ''server_port'' = map_of out ''server_port''"
    "map_of (outByType ty out ib) ''tls'' = map_of out ''tls''"
  by (rule outByType_keeps [OF assms], simp add: typeKeys_def)+

lemma outByType_bandwidth:
  assumes "ty \<in> {''hysteria'', ''hysteria2''}"
  shows "map_of (outByType ty out ib) ''up_mbps'' = map_of ib ''down_mbps''"
    "map_of (outByType ty out ib) ''down_mbps'' = map_of ib ''up_mbps''"
  using assms by (elim insertE emptyE;
    simp add: outByType_def hysteriaOut_def hysteria2Out_def carry_map_of)+

lemma FillOutJson_Inr:
  assumes "FillOutJson rnd i hostname = Inr i'" "i_type i \<notin> set [''direct'', ''tun'', ''redirect'', ''tproxy'']"
  obtains m out1 ib d where "unmarshalObj (i_out_json i) = Inr m"
    "(if i_tls_id i > 0 then addTls rnd (nilObj m) (i_tls i) else Inr (odel ''tls'' (nilObj m))) = Inr out1"
    "Inbound_MarshalFull i = Inr ib"
    "toDocMembers (outByType (i_type i) (oset ''server_port'' (oget ib ''listen_port'') (oset ''server'' (JStr hostname)
       (oset ''tag'' (JStr (i_tag i)) (oset ''type'' (JStr (i_type i)) out1)))) ib) = Some d"
    "i' = i\<lparr>i_out_json := RText (JObj d)\<rparr>"
  using assms
  by (auto simp: FillOutJson_def bindR_eq_Inr Let_def marshal_def split: option.splits)

text \<open>
  Whatever an operator typed into an inbound's client-side object before, saving the inbound makes
  it name the inbound's own type, tag, the panel's host and the port the inbound listens on, and an
  inbound without TLS never keeps a stale TLS block.
\<close>

lemma FillOutJson_identity:
  assumes "FillOutJson rnd i hostname = Inr i'" "i_type i \<in> set carriedTypes"
  shows "\<exists>d ib. i_out_json i' = RText (JObj d) \<and> Inbound_MarshalFull i = Inr ib \<and>
    map_of d ''type'' = Some (JStr (i_type i)) \<and> map_of d ''tag'' = Some (JStr (i_tag i)) \<and>
    map_of d ''server'' = Some (JStr hostname) \<and>
    map_of d ''server_port'' = toDoc (oget ib ''listen_port'') \<and>
    (i_tls_id i = 0 \<longrightarrow> map_of d ''tls'' = None)"
proof -
  have "i_type i \<notin> set [''direct'', ''tun'', ''redirect'', ''tproxy'']"
    using assms(2) by (auto simp: carriedTypes_def)
  from FillOutJson_Inr [OF assms(1) this] obtain m out1 ib d where
    "(if i_tls_id i > 0 then addTls rnd (nilObj m) (i_tls i) else Inr (odel ''tls'' (nilObj m))) = Inr out1"
    "Inbound_MarshalFull i = Inr ib"
    "toDocMembers (outByType (i_type i) (oset ''server_port'' (oget ib ''listen_port'') (oset ''server'' (JStr hostname)
       (oset ''tag'' (JStr (i_tag i)) (oset ''type'' (JStr (i_type i)) out1)))) ib) = Some d"
    "i' = i\<lparr>i_out_json := RText (JObj d)\<rparr>" .
  then show ?thesis
    using outByType_shared [OF assms(2)] by (auto simp: toDocMembers_map_of)
qed

definition sample_hy2 :: inbound where
  "sample_hy2 = \<lparr>i_id = 1, i_type = ''hysteria2'', i_tag = ''hy2-in'', i_tls_id = 0, i_tls = None,
     i_addrs = RText (JArr []), i_out_json = RText (JObj [(''server'', JStr ''old''), (''tls'', JNull)]),
     i_options = RText (JObj [(''listen_port'', JNum 443), (''up_mbps'', JNum 100), (''down_mbps'', JNum 20)])\<rparr>"

lemma sample_hy2_fill: "\<exists>i'. FillOutJson rnd sample_hy2 ''vpn.example'' = Inr i'"
  by (simp add: FillOutJson_def sample_hy2_def nilObj_def Inbound_MarshalFull_def addRestVals_def
      outByType_def hysteria2Out_def carry_def oget_def marshal_def)

theorem FillOutJson_identity_witness:
  "\<exists>i' d. FillOutJson (\<lambda>n. 0) sample_hy2 ''vpn.example'' = Inr i' \<and> i_out_json i' = RText (JObj d) \<and>
     map_of d ''server'' = Some (JStr ''vpn.example'') \<and> map_of d ''tls'' = None"
proof -
  obtain i' where i: "FillOutJson (\<lambda>n. 0) sample_hy2 ''vpn.example'' = Inr i'"
    using sample_hy2_fill by blast
  have "i_type sample_hy2 \<in> set carriedTypes" "i_tls_id sample_hy2 = 0"
    by (simp_all add: sample_hy2_def carriedTypes_def)
  with FillOutJson_identity [OF i] i show ?thesis by blast
qed

text \<open>
  The client's direction is the mirror of the server's: for Hysteria and Hysteria2 the upload limit
  of the generated outbound is the inbound's download limit and the other way round, and a limit
  the inbound does not set is not offered, even if an earlier object had it.
\<close>

lemma FillOutJson_mirrors_bandwidth:
  assumes "FillOutJson rnd i hostname = Inr i'" "i_type i \<in> {''hysteria'', ''hysteria2''}"
  shows "\<exists>d ib. i_out_json i' = RText (JObj d) \<and> Inbound_MarshalFull i = Inr ib \<and>
    map_of d ''up_mbps'' = Option.bind (map_of ib ''down_mbps'') toDoc \<and>
    map_of d ''down_mbps'' = Option.bind (map_of ib ''up_mbps'') toDoc"
proof -
  have "i_type i \<notin> set [''direct'', ''tun'', ''redirect'', ''tproxy'']"
    using assms(2) by auto
  from FillOutJson_Inr [OF assms(1) this] obtain m out1 ib d where
    "(if i_tls_id i > 0 then addTls rnd (nilObj m) (i_tls i) else Inr (odel ''tls'' (nilObj m))) = Inr out1"
    "Inbound_MarshalFull i = Inr ib"
    "toDocMembers (outByType (i_type i) (oset ''server_port'' (oget ib ''listen_port'') (oset ''server'' (JStr hostname)
       (oset ''tag'' (JStr (i_tag i)) (oset ''type'' (JStr (i_type i)) out1)))) ib) = Some d"
    "i' = i\<lparr>i_out_json := RText (JObj d)\<rparr>" .
  then show ?thesis
    using outByType_bandwidth [OF assms(2)] by (simp add: toDocMembers_map_of)
qed

theorem FillOutJson_mirrors_bandwidth_witness:
  "\<exists>i' d. FillOutJson (\<lambda>n. 0) sample_hy2 ''h'' = Inr i' \<and> i_out_json i' = RText (JObj d) \<and>
     map_of d ''up_mbps'' = Some (JNum 20) \<and> map_of d ''down_mbps'' = Some (JNum 100)"
proof -
  have "\<exists>i'. FillOutJson (\<lambda>n. 0) sample_hy2 ''h'' = Inr i'"
    by (simp add: FillOutJson_def sample_hy2_def nilObj_def Inbound_MarshalFull_def addRestVals_def
        outByType_def hysteria2Out_def carry_def oget_def marshal_def)
  then obtain i' where i: "FillOutJson (\<lambda>n. 0) sample_hy2 ''h'' = Inr i'" ..
  have t: "i_type sample_hy2 \<in> {''hysteria'', ''hysteria2''}"
    by (simp add: sample_hy2_def)
  from FillOutJson_mirrors_bandwidth [OF i t] i show ?thesis
    by (auto simp: Inbound_MarshalFull_def sample_hy2_def addRestVals_def nilObj_def)
qed

end
