(* ===== verification/GoBase64.thy ===== *)
theory GoBase64
  imports Prelude
begin

text \<open>
  \<open>encoding/base64\<close> with the standard padded alphabet, which the link generator, the link
  parser and the subscription service share, and the contract of an encoding with its decoder
  as a locale.  \<open>util/base64.go\<close> is modelled at the end.
\<close>

section \<open>The contract of a codec\<close>

locale codec =
  fixes enc :: "'a \<Rightarrow> 'b"
    and dec :: "'b \<Rightarrow> 'a option"
  assumes dec_enc: "dec (enc x) = Some x"
begin

lemma enc_inj: "enc x = enc y \<Longrightarrow> x = y"
  by (metis dec_enc option.inject)

lemma dec_image: "b \<in> range enc \<Longrightarrow> \<exists>x. dec b = Some x \<and> enc x = b"
  by (auto simp: dec_enc)

end

section \<open>The standard alphabet\<close>

definition b64chr :: "nat \<Rightarrow> char" where
  "b64chr n = (if n < 26 then char_of (65 + n)
     else if n < 52 then char_of (71 + n)
     else if n < 62 then char_of (n - 4)
     else if n = 62 then CHR ''+'' else CHR ''/'')"

definition b64val :: "char \<Rightarrow> nat option" where
  "b64val c = (let n = of_char c :: nat in
     if 65 \<le> n \<and> n \<le> 90 then Some (n - 65)
     else if 97 \<le> n \<and> n \<le> 122 then Some (n - 71)
     else if 48 \<le> n \<and> n \<le> 57 then Some (n + 4)
     else if n = 43 then Some 62 else if n = 47 then Some 63 else None)"

fun encBytes :: "nat list \<Rightarrow> string" where
  "encBytes [] = []"
| "encBytes [a] = [b64chr (a div 4), b64chr (a mod 4 * 16), CHR ''='', CHR ''='']"
| "encBytes [a, b] = [b64chr (a div 4), b64chr (a mod 4 * 16 + b div 16),
     b64chr (b mod 16 * 4), CHR ''='']"
| "encBytes (a # b # c # r) = b64chr (a div 4) # b64chr (a mod 4 * 16 + b div 16)
     # b64chr (b mod 16 * 4 + c div 64) # b64chr (c mod 64) # encBytes r"

definition b64encode :: "string \<Rightarrow> string" where
  "b64encode s = encBytes (map of_char s)"

fun decQuanta :: "string \<Rightarrow> nat list option" where
  "decQuanta [] = Some []"
| "decQuanta (a # b # c # d # r) =
     (case (b64val a, b64val b) of
        (Some i, Some j) \<Rightarrow>
          (if c = CHR ''='' then
             (if d = CHR ''='' \<and> r = [] then Some [(i * 4 + j div 16) mod 256] else None)
           else (case b64val c of None \<Rightarrow> None
             | Some k \<Rightarrow>
               (if d = CHR ''='' then
                  (if r = [] then Some [(i * 4 + j div 16) mod 256, (j mod 16 * 16 + k div 4) mod 256] else None)
                else (case (b64val d, decQuanta r) of
                    (Some l, Some bs) \<Rightarrow> Some ((i * 4 + j div 16) # (j mod 16 * 16 + k div 4) # (k mod 4 * 64 + l) # bs)
                  | _ \<Rightarrow> None))))
      | _ \<Rightarrow> None)"
| "decQuanta _ = None"

text \<open>\<open>DecodeString\<close>: line breaks are skipped, anything else outside the alphabet is an error.\<close>

definition b64decode :: "string \<Rightarrow> string option" where
  "b64decode s = map_option (map char_of) (decQuanta (filter (\<lambda>c. c \<noteq> CHR 0x0A \<and> c \<noteq> CHR 0x0D) s))"

lemma b64val_chr: "n < 64 \<Longrightarrow> b64val (b64chr n) = Some n"
  by (auto simp: b64val_def b64chr_def Let_def)

lemma b64chr_code: "n < 64 \<Longrightarrow> (of_char (b64chr n) :: nat) = (if n < 26 then 65 + n
     else if n < 52 then 71 + n else if n < 62 then n - 4 else if n = 62 then 43 else 47)"
  by (auto simp: b64chr_def)

lemma b64chr_plain: "n < 64 \<Longrightarrow> b64chr n \<noteq> CHR ''='' \<and> b64chr n \<noteq> CHR 0x0A \<and> b64chr n \<noteq> CHR 0x0D"
proof -
  assume n: "n < 64"
  have "(of_char (b64chr n) :: nat) \<notin> {61, 10, 13}"
    using n by (auto simp: b64chr_code split: if_splits)
  then show ?thesis by auto
qed

lemma encBytes_plain: "(\<forall>b \<in> set bs. b < 256) \<Longrightarrow> c \<in> set (encBytes bs) \<Longrightarrow> c \<noteq> CHR 0x0A \<and> c \<noteq> CHR 0x0D"
proof (induction bs rule: encBytes.induct)
  case (4 a b c r)
  have "a div 4 < 64" "a mod 4 * 16 + b div 16 < 64" "b mod 16 * 4 + c div 64 < 64" "c mod 64 < 64"
    using 4 by auto
  with 4 b64chr_plain show ?case by auto
next
  case (3 a b)
  have "a div 4 < 64" "a mod 4 * 16 + b div 16 < 64" "b mod 16 * 4 < 64"
    using 3 by auto
  with 3 b64chr_plain show ?case by auto
next
  case (2 a)
  have "a div 4 < 64" "a mod 4 * 16 < 64"
    using 2 by auto
  with 2 b64chr_plain show ?case by auto
qed simp

lemma decQuanta_encBytes: "(\<forall>b \<in> set bs. b < 256) \<Longrightarrow> decQuanta (encBytes bs) = Some bs"
proof (induction bs rule: encBytes.induct)
  case (4 a b c r)
  have lt: "a div 4 < 64" "a mod 4 * 16 + b div 16 < 64" "b mod 16 * 4 + c div 64 < 64" "c mod 64 < 64"
    using 4 by auto
  have d: "b div 16 < 16" "c div 64 < 4"
    using 4 by auto
  from 4 show ?case
    by (simp add: b64val_chr lt b64chr_plain d)
next
  case (3 a b)
  have lt: "a div 4 < 64" "a mod 4 * 16 + b div 16 < 64" "b mod 16 * 4 < 64"
    using 3 by auto
  have d: "b div 16 < 16" "a < 256" "b < 256"
    using 3 by auto
  show ?case
    by (simp add: b64val_chr lt b64chr_plain d)
next
  case (2 a)
  have lt: "a div 4 < 64" "a mod 4 * 16 < 64"
    using 2 by auto
  have d: "a < 256"
    using 2 by auto
  show ?case
    by (simp add: b64val_chr lt b64chr_plain d)
qed simp

lemma b64_roundtrip: "b64decode (b64encode s) = Some s"
proof -
  have b: "\<forall>n \<in> set (map of_char s). n < (256 :: nat)"
    by simp
  have "filter (\<lambda>c. c \<noteq> CHR 0x0A \<and> c \<noteq> CHR 0x0D) (b64encode s) = b64encode s"
    using encBytes_plain [OF b] by (simp add: b64encode_def filter_id_conv)
  then show ?thesis
    using decQuanta_encBytes [OF b] by (simp add: b64decode_def b64encode_def comp_def)
qed

interpretation base64: codec b64encode b64decode
  by unfold_locales (rule b64_roundtrip)

section \<open>util/base64.go\<close>

definition StrOrBase64Encoded :: "string \<Rightarrow> string" where
  "StrOrBase64Encoded str = (case b64decode str of Some decoded \<Rightarrow> decoded | None \<Rightarrow> str)"

definition B64StrToByte :: "string \<Rightarrow> string res" where
  "B64StrToByte str = (case b64decode str of Some d \<Rightarrow> Inr d
     | None \<Rightarrow> Inl (Err ''illegal base64 data''))"

definition ByteToB64Str :: "string \<Rightarrow> string" where
  "ByteToB64Str b = b64encode b"

lemma B64StrToByte_encode [simp]: "B64StrToByte (b64encode s) = Inr s"
  by (simp add: B64StrToByte_def base64.dec_enc)

lemma StrOrBase64Encoded_encode [simp]: "StrOrBase64Encoded (b64encode s) = s"
  by (simp add: StrOrBase64Encoded_def base64.dec_enc)

end
