(* ===== verification/GoUrl.thy ===== *)
theory GoUrl
  imports Prelude GoBase64
begin

text \<open>
  The part of \<open>net/url\<close> and \<open>net.SplitHostPort\<close> behind the share links: splitting a URL
  into scheme, user information, host, path, query and fragment, percent-decoding with the rules
  of each part, and writing it back.  A URL that does not parse is \<open>None\<close>.
\<close>

section \<open>Escaping\<close>

datatype encMode = EncPath | EncHost | EncUser | EncQuery | EncFragment

definition isAlnum :: "char \<Rightarrow> bool" where
  "isAlnum c = (let n = of_char c :: nat in
     (48 \<le> n \<and> n \<le> 57) \<or> (65 \<le> n \<and> n \<le> 90) \<or> (97 \<le> n \<and> n \<le> 122))"

definition shouldEscape :: "encMode \<Rightarrow> char \<Rightarrow> bool" where
  "shouldEscape m c =
     (if isAlnum c then False
      else if m = EncHost \<and> c \<in> set ''!$&()*+,;=:[]<>'' \<union> {CHR 0x22, CHR 0x27} then False
      else if c \<in> set ''-_.~'' then False
      else if c \<in> set ''$&+,/:;=?@'' then
        (case m of EncPath \<Rightarrow> c = CHR ''?''
         | EncUser \<Rightarrow> c \<in> set ''@/?:''
         | EncQuery \<Rightarrow> True
         | EncFragment \<Rightarrow> False
         | EncHost \<Rightarrow> True)
      else if m = EncFragment \<and> c \<in> set ''!()*'' then False
      else True)"

definition upperHex :: "nat \<Rightarrow> char" where
  "upperHex n = (if n < 10 then char_of (48 + n) else char_of (55 + n))"

definition unhex :: "char \<Rightarrow> nat option" where
  "unhex c = (let n = of_char c :: nat in
     if 48 \<le> n \<and> n \<le> 57 then Some (n - 48)
     else if 97 \<le> n \<and> n \<le> 102 then Some (n - 87)
     else if 65 \<le> n \<and> n \<le> 70 then Some (n - 55) else None)"

definition escChar :: "encMode \<Rightarrow> char \<Rightarrow> string" where
  "escChar m c =
     (if \<not> shouldEscape m c then [c]
      else if m = EncQuery \<and> c = CHR '' '' then ''+''
      else [CHR 0x25, upperHex (of_char c div 16), upperHex (of_char c mod 16)])"

definition escape :: "encMode \<Rightarrow> string \<Rightarrow> string" where
  "escape m s = concat (map (escChar m) s)"

fun unescape :: "encMode \<Rightarrow> string \<Rightarrow> string option" where
  "unescape m [] = Some []"
| "unescape m (c # s) =
     (if c = CHR 0x25 then
        (case s of a # b # r \<Rightarrow>
           (case (unhex a, unhex b) of
              (Some x, Some y) \<Rightarrow>
                (if m = EncHost \<and> x < 8 \<and> \<not> (x = 2 \<and> y = 5) then None
                 else map_option ((#) (char_of (16 * x + y))) (unescape m r))
            | _ \<Rightarrow> None)
         | _ \<Rightarrow> None)
      else if c = CHR ''+'' then
        map_option ((#) (if m = EncQuery then CHR '' '' else c)) (unescape m s)
      else if m = EncHost \<and> of_char c < (128 :: nat) \<and> shouldEscape m c then None
      else map_option ((#) c) (unescape m s))"

definition queryEscape :: "string \<Rightarrow> string" where
  "queryEscape s = escape EncQuery s"

definition queryUnescape :: "string \<Rightarrow> string option" where
  "queryUnescape s = unescape EncQuery s"

lemma unhex_upperHex: "n < 16 \<Longrightarrow> unhex (upperHex n) = Some n"
  by (auto simp: unhex_def upperHex_def Let_def)

lemma isAlnum_not_special: "isAlnum c \<Longrightarrow> c \<noteq> CHR 0x25 \<and> c \<noteq> CHR ''+'' \<and> c \<noteq> CHR '' ''"
  by (auto simp: isAlnum_def)

lemma unescape_escChar:
  assumes "m \<noteq> EncHost"
  shows "unescape m (escChar m c @ s) = map_option ((#) c) (unescape m s)"
proof -
  have hx: "16 * (of_char c div 16) + of_char c mod 16 = (of_char c :: nat)" by simp
  note lt = of_char_div16 [of c] of_char_mod16 [of c]
  have pct: "shouldEscape m (CHR 0x25)" by (cases m) (simp_all add: shouldEscape_def isAlnum_def)
  have plus: "m = EncQuery \<Longrightarrow> shouldEscape m (CHR ''+'')" by (simp add: shouldEscape_def isAlnum_def)
  show ?thesis
  proof (cases "shouldEscape m c")
    case False
    with assms pct plus have "c \<noteq> CHR 0x25" "m = EncQuery \<Longrightarrow> c \<noteq> CHR ''+''" by auto
    with False assms show ?thesis by (simp add: escChar_def)
  next
    case True
    have "char_of (16 * (of_char c div 16) + of_char c mod 16 :: nat) = c"
      unfolding hx by simp
    with True assms show ?thesis
      by (cases "m = EncQuery \<and> c = CHR '' ''")
        (auto simp: escChar_def unhex_upperHex [OF lt(1)] unhex_upperHex [OF lt(2)] simp del: mult_div_mod_eq)
  qed
qed

lemma unescape_escape: "m \<noteq> EncHost \<Longrightarrow> unescape m (escape m s) = Some s"
  by (induction s) (auto simp: escape_def unescape_escChar)

interpretation query: codec queryEscape queryUnescape
  by unfold_locales (simp add: queryEscape_def queryUnescape_def unescape_escape)

interpretation fragment: codec "escape EncFragment" "unescape EncFragment"
  by unfold_locales (simp add: unescape_escape)

interpretation userinfo: codec "escape EncUser" "unescape EncUser"
  by unfold_locales (simp add: unescape_escape)

text \<open>Escaped query text never holds a separator.\<close>

lemma upperHex_alnum: "n < 16 \<Longrightarrow> isAlnum (upperHex n)"
  by (auto simp: isAlnum_def upperHex_def)

lemma escChar_query_set:
  "d \<in> set (escChar EncQuery c) \<Longrightarrow> isAlnum d \<or> d \<in> set ''-_.~+'' \<union> {CHR 0x25}"
proof -
  assume d: "d \<in> set (escChar EncQuery c)"
  have "isAlnum (upperHex (of_char c div 16))" "isAlnum (upperHex (of_char c mod 16))"
    by (auto intro: upperHex_alnum of_char_div16 of_char_mod16)
  with d show ?thesis
    by (auto simp: escChar_def shouldEscape_def split: if_splits)
qed

lemma queryEscape_set:
  "d \<in> set (queryEscape s) \<Longrightarrow> isAlnum d \<or> d \<in> set ''-_.~+'' \<union> {CHR 0x25}"
  by (auto simp: queryEscape_def escape_def dest: escChar_query_set)

lemma queryEscape_no_sep: "CHR ''&'' \<notin> set (queryEscape s)" "CHR '';'' \<notin> set (queryEscape s)"
  "CHR ''#'' \<notin> set (queryEscape s)"
  by (auto dest!: queryEscape_set simp: isAlnum_def)

section \<open>URLs\<close>

record url =
  u_scheme :: string
  u_opaque :: string
  u_user :: "(string \<times> string option) option"
  u_host :: string
  u_path :: string
  u_rawpath :: string
  u_omithost :: bool
  u_forcequery :: bool
  u_rawquery :: string
  u_fragment :: string
  u_rawfragment :: string

definition isLetter :: "char \<Rightarrow> bool" where
  "isLetter c = (let n = of_char c :: nat in (65 \<le> n \<and> n \<le> 90) \<or> (97 \<le> n \<and> n \<le> 122))"

text \<open>\<open>getScheme\<close>: the scheme read so far is \<open>acc\<close> reversed; \<open>whole\<close> is the text.\<close>

fun getScheme :: "string \<Rightarrow> string \<Rightarrow> string \<Rightarrow> (string \<times> string) option" where
  "getScheme whole acc [] = Some ([], whole)"
| "getScheme whole acc (c # s) =
     (if isLetter c then getScheme whole (c # acc) s
      else if isDigit c \<or> c \<in> set ''+-.'' then
        (if acc = [] then Some ([], whole) else getScheme whole (c # acc) s)
      else if c = CHR '':'' then (if acc = [] then None else Some (rev acc, s))
      else Some ([], whole))"

definition validUserinfo :: "string \<Rightarrow> bool" where
  "validUserinfo s = list_all (\<lambda>c. isAlnum c \<or> c \<in> set ''-._:~!$&()*+,;=@'' \<union> {CHR 0x25, CHR 0x27}) s"

definition validOptionalPort :: "string \<Rightarrow> bool" where
  "validOptionalPort p = (case p of [] \<Rightarrow> True | c # r \<Rightarrow> c = CHR '':'' \<and> list_all isDigit r)"

text \<open>The text after the last \<open>:\<close>, with the colon.\<close>

definition lastColon :: "string \<Rightarrow> string" where
  "lastColon h = (case cutLast (CHR '':'') h of None \<Rightarrow> [] | Some (a, b) \<Rightarrow> CHR '':'' # b)"

definition parseHost :: "string \<Rightarrow> string option" where
  "parseHost host =
     (if hasPrefix host ''['' then
        (case cutLast (CHR '']'') host of None \<Rightarrow> None
         | Some (a, colonPort) \<Rightarrow> if validOptionalPort colonPort then unescape EncHost host else None)
      else if \<not> validOptionalPort (lastColon host) then None
      else unescape EncHost host)"

definition parseUserinfo :: "string \<Rightarrow> (string \<times> string option) option" where
  "parseUserinfo ui =
     (if \<not> validUserinfo ui then None
      else case cutAt (CHR '':'') ui of (name, pw, found) \<Rightarrow>
        if \<not> found then map_option (\<lambda>u. (u, None)) (unescape EncUser ui)
        else case (unescape EncUser name, unescape EncUser pw) of
            (Some u, Some p) \<Rightarrow> Some (u, Some p) | _ \<Rightarrow> None)"

definition setPath :: "string \<Rightarrow> url \<Rightarrow> url option" where
  "setPath p u = (case unescape EncPath p of None \<Rightarrow> None
     | Some d \<Rightarrow> Some (u\<lparr>u_path := d, u_rawpath := (if escape EncPath d = p then [] else p)\<rparr>))"

definition setFragment :: "string \<Rightarrow> url \<Rightarrow> url option" where
  "setFragment f u = (case unescape EncFragment f of None \<Rightarrow> None
     | Some d \<Rightarrow> Some (u\<lparr>u_fragment := d, u_rawfragment := (if escape EncFragment d = f then [] else f)\<rparr>))"

definition emptyUrl :: url where
  "emptyUrl = \<lparr>u_scheme = [], u_opaque = [], u_user = None, u_host = [], u_path = [], u_rawpath = [],
     u_omithost = False, u_forcequery = False, u_rawquery = [], u_fragment = [], u_rawfragment = []\<rparr>"

definition hasCtl :: "string \<Rightarrow> bool" where
  "hasCtl s = list_ex (\<lambda>c. of_char c < (32 :: nat) \<or> of_char c = (127 :: nat)) s"

text \<open>Authority and path of what follows the scheme.\<close>

definition parseHier :: "url \<Rightarrow> string \<Rightarrow> url option" where
  "parseHier u rest =
     (if (u_scheme u \<noteq> [] \<or> \<not> hasPrefix rest ''///'') \<and> hasPrefix rest ''//'' then
        (case cutAt (CHR ''/'') (drop 2 rest) of (authority, p, slash) \<Rightarrow>
           let path = (if slash then CHR ''/'' # p else []) in
           (case cutLast (CHR ''@'') authority of
              None \<Rightarrow> (case parseHost authority of None \<Rightarrow> None
                 | Some h \<Rightarrow> setPath path (u\<lparr>u_host := h\<rparr>))
            | Some (ui, hp) \<Rightarrow>
                (case (parseHost hp, parseUserinfo ui) of
                   (Some h, Some us) \<Rightarrow> setPath path (u\<lparr>u_host := h, u_user := Some us\<rparr>)
                 | _ \<Rightarrow> None)))
      else setPath rest (u\<lparr>u_omithost := (u_scheme u \<noteq> [] \<and> hasPrefix rest ''/'')\<rparr>))"

definition parseNoFragment :: "string \<Rightarrow> url option" where
  "parseNoFragment s =
     (if hasCtl s then None
      else if s = ''*'' then Some (emptyUrl\<lparr>u_path := ''*''\<rparr>)
      else case getScheme s [] s of None \<Rightarrow> None
       | Some (sch, rest0) \<Rightarrow>
         let force = hasSuffix rest0 ''?'' \<and> length (filter (\<lambda>c. c = CHR ''?'') rest0) = 1;
             (rest, q) = (if force then (butlast rest0, [])
                          else case cutAt (CHR ''?'') rest0 of (a, b, f) \<Rightarrow> (a, b));
             u = emptyUrl\<lparr>u_scheme := toLower sch, u_forcequery := force, u_rawquery := q\<rparr>
         in if \<not> hasPrefix rest ''/'' \<and> sch \<noteq> [] then Some (u\<lparr>u_opaque := rest\<rparr>)
            else if \<not> hasPrefix rest ''/'' \<and> CHR '':'' \<in> set (fst (cutAt (CHR ''/'') rest)) then None
            else parseHier u rest)"

text \<open>\<open>url.Parse\<close>.\<close>

definition urlParse :: "string \<Rightarrow> url option" where
  "urlParse raw = (case cutAt (CHR ''#'') raw of (s, frag, f) \<Rightarrow>
     (case parseNoFragment s of None \<Rightarrow> None
      | Some u \<Rightarrow> if frag = [] then Some u else setFragment frag u))"

text \<open>\<open>validEncoded\<close>, which decides whether a raw path or fragment may be written as it is.\<close>

definition validEncoded :: "encMode \<Rightarrow> string \<Rightarrow> bool" where
  "validEncoded m s = list_all (\<lambda>c. c \<in> set ''!$&()*+,;=:@[]'' \<union> {CHR 0x25, CHR 0x27} \<or> \<not> shouldEscape m c) s"

definition escapedPath :: "url \<Rightarrow> string" where
  "escapedPath u = (if u_rawpath u \<noteq> [] \<and> validEncoded EncPath (u_rawpath u) \<and>
       unescape EncPath (u_rawpath u) = Some (u_path u) then u_rawpath u
     else if u_path u = ''*'' then ''*'' else escape EncPath (u_path u))"

definition escapedFragment :: "url \<Rightarrow> string" where
  "escapedFragment u = (if u_rawfragment u \<noteq> [] \<and> validEncoded EncFragment (u_rawfragment u) \<and>
       unescape EncFragment (u_rawfragment u) = Some (u_fragment u) then u_rawfragment u
     else escape EncFragment (u_fragment u))"

definition userString :: "string \<times> string option \<Rightarrow> string" where
  "userString us = (case us of (n, pw) \<Rightarrow> escape EncUser n @
     (case pw of None \<Rightarrow> [] | Some p \<Rightarrow> CHR '':'' # escape EncUser p))"

text \<open>\<open>(*URL).String\<close>.\<close>

definition urlString :: "url \<Rightarrow> string" where
  "urlString u =
     (if u_scheme u \<noteq> [] then u_scheme u @ '':'' else []) @
     (if u_opaque u \<noteq> [] then u_opaque u
      else
        (if (u_scheme u \<noteq> [] \<or> u_host u \<noteq> [] \<or> u_user u \<noteq> None) \<and>
            \<not> (u_omithost u \<and> u_host u = [] \<and> u_user u = None)
         then (if u_host u \<noteq> [] \<or> u_path u \<noteq> [] \<or> u_user u \<noteq> None then ''//'' else []) @
              (case u_user u of None \<Rightarrow> [] | Some us \<Rightarrow> userString us @ ''@'') @
              escape EncHost (u_host u)
         else []) @
        (let p = escapedPath u in
           (if p \<noteq> [] \<and> hd p \<noteq> CHR ''/'' \<and> u_host u \<noteq> [] then CHR ''/'' # p else p))) @
     (if u_forcequery u \<or> u_rawquery u \<noteq> [] then CHR ''?'' # u_rawquery u else []) @
     (if u_fragment u \<noteq> [] then CHR ''#'' # escapedFragment u else [])"

definition urlUsername :: "url \<Rightarrow> string" where
  "urlUsername u = (case u_user u of None \<Rightarrow> [] | Some (n, _) \<Rightarrow> n)"

text \<open>\<open>u.User.Password()\<close>: the password and whether it was given.\<close>

definition urlPassword :: "url \<Rightarrow> string \<times> bool" where
  "urlPassword u = (case u_user u of Some (_, Some p) \<Rightarrow> (p, True) | _ \<Rightarrow> ([], False))"

text \<open>\<open>u.Hostname()\<close>.\<close>

definition urlHostname :: "url \<Rightarrow> string" where
  "urlHostname u = (let h = u_host u;
       noPort = (case cutLast (CHR '':'') h of Some (a, p) \<Rightarrow>
           (if validOptionalPort (CHR '':'' # p) then a else h) | None \<Rightarrow> h)
     in if hasPrefix noPort ''['' \<and> hasSuffix noPort '']'' then tl (butlast noPort) else noPort)"

section \<open>Queries\<close>

type_synonym query = "(string \<times> string) list"

text \<open>\<open>url.ParseQuery\<close> with its error dropped: malformed pairs are left out.\<close>

definition parsePair :: "string \<Rightarrow> (string \<times> string) list" where
  "parsePair seg = (if CHR '';'' \<in> set seg \<or> seg = [] then []
     else case cutAt (CHR ''='') seg of (k, v, f) \<Rightarrow>
       (case (queryUnescape k, queryUnescape v) of (Some k', Some v') \<Rightarrow> [(k', v')] | _ \<Rightarrow> []))"

definition parseQuery :: "string \<Rightarrow> query" where
  "parseQuery s = concat (map parsePair (split s ''&''))"

text \<open>\<open>Values.Get\<close>: the first value of the key, or the empty string.\<close>

definition qget :: "query \<Rightarrow> string \<Rightarrow> string" where
  "qget q k = (case map_of q k of None \<Rightarrow> [] | Some v \<Rightarrow> v)"

section \<open>net.SplitHostPort\<close>

text \<open>Host and port; every error of the function leaves both empty.\<close>

definition splitHostPort :: "string \<Rightarrow> (string \<times> string) option" where
  "splitHostPort hp = (case cutLast (CHR '':'') hp of None \<Rightarrow> None
     | Some (h, port) \<Rightarrow>
       if hasPrefix hp ''['' then
         (case cutAt (CHR '']'') (tl hp) of (inner, after, f) \<Rightarrow>
            if f \<and> after = CHR '':'' # port \<and> CHR ''['' \<notin> set inner \<and>
               CHR ''['' \<notin> set port \<and> CHR '']'' \<notin> set port then Some (inner, port) else None)
       else if CHR '':'' \<in> set h \<or> CHR ''['' \<in> set hp \<or> CHR '']'' \<in> set hp then None
       else Some (h, port))"

definition hostPort0 :: "string \<Rightarrow> string \<times> string" where
  "hostPort0 hp = (case splitHostPort hp of None \<Rightarrow> ([], []) | Some r \<Rightarrow> r)"

lemma splitHostPort_plain:
  "CHR '':'' \<notin> set h \<Longrightarrow> CHR ''['' \<notin> set h \<Longrightarrow> CHR '']'' \<notin> set h \<Longrightarrow> list_all isDigit p \<Longrightarrow>
     splitHostPort (h @ CHR '':'' # p) = Some (h, p)"
proof -
  assume h: "CHR '':'' \<notin> set h" "CHR ''['' \<notin> set h" "CHR '']'' \<notin> set h" and p: "list_all isDigit p"
  have "CHR '':'' \<notin> set p" "CHR ''['' \<notin> set p" "CHR '']'' \<notin> set p"
    using p by (auto simp: list_all_iff isDigit_def)
  with h show ?thesis
    using cutLast_append [of "CHR '':''" p h]
    by (cases h) (auto simp: splitHostPort_def hasPrefix_def)
qed

lemma splitHostPort_no_port: "CHR '':'' \<notin> set h \<Longrightarrow> splitHostPort h = None"
  by (simp add: splitHostPort_def cutLast_none)

end
