(* ===== verification/GenLink.thy ===== *)
theory GenLink
  imports OutJson GoUrl
begin

text \<open>
  \<open>util/genLink.go\<close>: the share links of one client on one inbound, one link per published
  address.  A link is a URL text; the functions below follow the source branch by branch and
  keep its failed type assertions and its dereference of an unparsed URL as panics.
\<close>

type_synonym param = "string \<times> string"

section \<open>fmt and loops\<close>

text \<open>\<open>%s\<close> applied to an \<open>interface\{\}\<close>: anything but a string prints as a formatting error.\<close>

fun fmtS :: "jv \<Rightarrow> string"
  and fmtSs :: "jv list \<Rightarrow> string list"
  and fmtSm :: "obj \<Rightarrow> (string \<times> string) list" where
  "fmtS JNull = ''%!s(<nil>)''"
| "fmtS (JBool b) = ''%!s(bool='' @ (if b then ''true'' else ''false'') @ '')''"
| "fmtS (JNum n) = ''%!s(float64='' @ itoa n @ '')''"
| "fmtS (JInt n) = ''%!s(int='' @ itoa n @ '')''"
| "fmtS (JStr s) = s"
| "fmtS (JArr vs) = ''['' @ joinStr '' '' (fmtSs vs) @ '']''"
| "fmtS (JStrs ss) = ''['' @ joinStr '' '' ss @ '']''"
| "fmtS (JObj m) = ''map['' @ joinStr '' '' (map snd (sort_key fst (fmtSm m))) @ '']''"
| "fmtS (JRaw r) = rawText r"
| "fmtSs [] = []"
| "fmtSs (v # vs) = fmtS v # fmtSs vs"
| "fmtSm [] = []"
| "fmtSm ((k, v) # m) = (k, k @ '':'' @ fmtS v) # fmtSm m"

text \<open>
  A loop that appends one link per address; \<open>Inr None\<close> is the early
  \<open>return []string\{\}\<close> of the source.
\<close>

fun linkLoop :: "(obj \<Rightarrow> string option res) \<Rightarrow> string list \<Rightarrow> obj list \<Rightarrow> string list res" where
  "linkLoop f acc [] = Inr acc"
| "linkLoop f acc (a # as) = bindR (f a) (\<lambda>l. case l of None \<Rightarrow> Inr []
     | Some s \<Rightarrow> linkLoop f (acc @ [s]) as)"

definition eachAddr :: "(obj \<Rightarrow> string res) \<Rightarrow> obj list \<Rightarrow> string list res" where
  "eachAddr f addrs = mapR f addrs"

text \<open>\<open>if v, ok := m[k].(string); ok \{ append(params, \{name, v\}) \}\<close>.\<close>

definition strParam :: "obj \<Rightarrow> string \<Rightarrow> string \<Rightarrow> param list" where
  "strParam m k name = (case asStr (oget m k) of None \<Rightarrow> [] | Some s \<Rightarrow> [(name, s)])"

definition numParam :: "obj \<Rightarrow> string \<Rightarrow> string \<Rightarrow> param list" where
  "numParam m k name = (case asNum (oget m k) of None \<Rightarrow> [] | Some n \<Rightarrow> [(name, itoa n)])"

definition flagParam :: "obj \<Rightarrow> string \<Rightarrow> string \<Rightarrow> param list" where
  "flagParam m k name = (if asBool (oget m k) = Some True then [(name, ''1'')] else [])"

definition bit01 :: "obj \<Rightarrow> string \<Rightarrow> string \<Rightarrow> param list" where
  "bit01 m k name = [(name, if asBool (oget m k) = Some True then ''1'' else ''0'')]"

text \<open>An \<open>[]interface\{\}\<close> of strings joined with commas; a non-string element panics.\<close>

definition listParam :: "obj \<Rightarrow> string \<Rightarrow> string \<Rightarrow> param list res" where
  "listParam m k name = (case asArr (oget m k) of None \<Rightarrow> Inr []
     | Some vs \<Rightarrow> bindR (mustStrs vs) (\<lambda>ss. Inr [(name, joinStr '','' ss)]))"

section \<open>Parameters\<close>

definition toBase64 :: "string \<Rightarrow> string" where
  "toBase64 d = b64encode d"

definition paramText :: "param \<Rightarrow> string" where
  "paramText p = (case p of (k, v) \<Rightarrow> k @ ''='' @
     (if k \<in> {''mport'', ''alpn''} then v else queryEscape v))"

definition addParams :: "string \<Rightarrow> param list \<Rightarrow> string \<Rightarrow> string res" where
  "addParams uri params remark = (case urlParse uri of
       None \<Rightarrow> Inl (Panic ''nil pointer dereference'')
     | Some u \<Rightarrow> Inr (urlString (u\<lparr>u_rawquery := joinStr ''&'' (map paramText params),
                                    u_fragment := remark\<rparr>)))"

definition getTransportParams :: "jv \<Rightarrow> param list res" where
  "getTransportParams t =
     (let tr = objOr0 t;
          ty = (case asStr (oget tr ''type'') of None \<Rightarrow> ''tcp'' | Some s \<Rightarrow> s);
          base = [(''type'', ty)]
      in if ty = ''tcp'' then Inr base
         else if ty = ''http'' then
           bindR (listParam tr ''host'' ''host'') (\<lambda>h. Inr (base @ h @ strParam tr ''path'' ''path''))
         else if ty = ''ws'' then
           Inr (base @ strParam tr ''path'' ''path'' @
             strParam (objOr0 (oget tr ''headers'')) ''Host'' ''host'')
         else if ty = ''grpc'' then Inr (base @ strParam tr ''service_name'' ''serviceName'')
         else if ty = ''httpupgrade'' then
           Inr (base @ strParam tr ''host'' ''host'' @ strParam tr ''path'' ''path'')
         else Inr base)"

definition getTlsParams :: "obj \<Rightarrow> string \<Rightarrow> param list res" where
  "getTlsParams tls insecureKey =
     bindR (case asObj (oget tls ''reality'') of None \<Rightarrow> Inr None
       | Some r \<Rightarrow> bindR (mustBool (oget r ''enabled'')) (\<lambda>en. Inr (if en then Some r else None)))
     (\<lambda>real. let sec = (case real of
         Some r \<Rightarrow> (''security'', ''reality'') # strParam r ''public_key'' ''pbk'' @ strParam r ''short_id'' ''sid''
       | None \<Rightarrow> (''security'', ''tls'') # flagParam tls ''insecure'' insecureKey
                 @ flagParam tls ''disable_sni'' ''disable_sni'')
      in bindR (listParam tls ''alpn'' ''alpn'') (\<lambda>alpn.
         Inr (sec @ strParam (objOr0 (oget tls ''utls'')) ''fingerprint'' ''fp'' @
              strParam tls ''server_name'' ''sni'' @ alpn)))"

text \<open>\<open>if tls, ok := addr["tls"].(map); ok \{ getTlsParams(...) \}\<close>, and the form that also
  requires \<open>tls["enabled"].(bool)\<close>.\<close>

definition addrTls :: "obj \<Rightarrow> string \<Rightarrow> param list res" where
  "addrTls addr key = (case asObj (oget addr ''tls'') of None \<Rightarrow> Inr []
     | Some tls \<Rightarrow> getTlsParams tls key)"

definition enabledTls :: "jv \<Rightarrow> obj option res" where
  "enabledTls v = (case asObj v of None \<Rightarrow> Inr None
     | Some tls \<Rightarrow> bindR (mustBool (oget tls ''enabled'')) (\<lambda>en. Inr (if en then Some tls else None)))"

text \<open>\<open>scheme host:port\<close> with the remark, the shape most link kinds end with.\<close>

definition hostPort :: "string \<Rightarrow> obj \<Rightarrow> string res" where
  "hostPort base addr = bindR (mustStr (oget addr ''server'')) (\<lambda>srv.
     Inr (base @ srv @ '':'' @ itoa (numOr0 (oget addr ''server_port''))))"

definition finishLink :: "string \<Rightarrow> obj \<Rightarrow> param list \<Rightarrow> string res" where
  "finishLink base addr params = bindR (hostPort base addr) (\<lambda>uri.
     bindR (mustStr (oget addr ''remark'')) (\<lambda>rem. addParams uri params rem))"

section \<open>One function per protocol\<close>

definition portU :: "jv \<Rightarrow> string res" where
  "portU v = bindR (mustNum v) (\<lambda>n. Inr (itoa (n mod 2 ^ 64)))"

definition credsAt :: "string \<Rightarrow> obj \<Rightarrow> obj \<Rightarrow> string res" where
  "credsAt protocol cfg addr = bindR (mustStr (oget addr ''server'')) (\<lambda>srv.
     bindR (portU (oget addr ''server_port'')) (\<lambda>port.
       Inr (protocol @ ''://'' @ fmtS (oget cfg ''username'') @ '':'' @ fmtS (oget cfg ''password'') @
            ''@'' @ srv @ '':'' @ port)))"

definition socksLink :: "obj \<Rightarrow> obj list \<Rightarrow> string list res" where
  "socksLink cfg addrs = eachAddr (credsAt ''socks5'' cfg) addrs"

text \<open>The protocol is a variable of the whole loop: once an address has TLS it stays \<open>https\<close>.\<close>

fun httpLoop :: "string \<Rightarrow> obj \<Rightarrow> obj list \<Rightarrow> string list res" where
  "httpLoop protocol cfg [] = Inr []"
| "httpLoop protocol cfg (addr # addrs) =
     (let protocol' = (if oget addr ''tls'' \<noteq> JNull then ''https'' else protocol) in
      bindR (credsAt protocol' cfg addr) (\<lambda>l. bindR (httpLoop protocol' cfg addrs) (\<lambda>ls. Inr (l # ls))))"

definition httpLink :: "obj \<Rightarrow> obj list \<Rightarrow> string list res" where
  "httpLink cfg addrs = httpLoop ''http'' cfg addrs"

type_synonym configs = "(string \<times> obj) list"

definition cfgOf :: "configs \<Rightarrow> string \<Rightarrow> obj" where
  "cfgOf cs k = (case map_of cs k of None \<Rightarrow> [] | Some c \<Rightarrow> c)"

definition shadowsocksLink :: "configs \<Rightarrow> obj \<Rightarrow> obj list \<Rightarrow> string list res" where
  "shadowsocksLink cs ib addrs =
     (let m = strOr0 (oget ib ''method'');
          ups = (if hasPrefix m ''2022'' then [strOr0 (oget ib ''password'')] else []);
          pass = (if m = ''2022-blake3-aes-128-gcm'' then strOr0 (oget (cfgOf cs ''shadowsocks16'') ''password'')
                  else strOr0 (oget (cfgOf cs ''shadowsocks'') ''password''));
          uriBase = ''ss://'' @ toBase64 (m @ '':'' @ joinStr '':'' (ups @ [pass]))
      in eachAddr (\<lambda>addr. bindR (hostPort (uriBase @ ''@'') addr) (\<lambda>u.
           bindR (mustStr (oget addr ''remark'')) (\<lambda>rem. Inr (u @ ''#'' @ rem)))) addrs)"

definition naiveLink :: "obj \<Rightarrow> obj \<Rightarrow> obj list \<Rightarrow> string list res" where
  "naiveLink cfg ib addrs = eachAddr (\<lambda>addr.
     bindR (case asObj (oget addr ''tls'') of None \<Rightarrow> Inr []
       | Some tls \<Rightarrow> bindR (listParam tls ''alpn'' ''alpn'') (\<lambda>alpn.
           Inr (strParam tls ''server_name'' ''peer'' @ alpn @ flagParam tls ''insecure'' ''insecure'')))
     (\<lambda>tp. bindR (hostPort (strOr0 (oget cfg ''username'') @ '':'' @ strOr0 (oget cfg ''password'') @ ''@'') addr) (\<lambda>inner.
       bindR (mustStr (oget addr ''remark'')) (\<lambda>rem.
         addParams (''http2://'' @ toBase64 inner)
           ((''padding'', ''1'') # tp @ bit01 ib ''tcp_fast_open'' ''tfo'') rem)))) addrs"

text \<open>The limits of the server seen from the client.\<close>

definition mbpsParams :: "obj \<Rightarrow> param list" where
  "mbpsParams ib = numParam ib ''up_mbps'' ''downmbps'' @ numParam ib ''down_mbps'' ''upmbps''"

text \<open>The port list of \<open>out_json\<close>: \<open>None\<close> where \<open>out_json\<close> is not an object.\<close>

definition mportParam :: "obj \<Rightarrow> param list option res" where
  "mportParam ib = bindR (must ''json.RawMessage'' (asRaw (oget ib ''out_json''))) (\<lambda>r.
     case unmarshalObj r of Inl _ \<Rightarrow> Inr None
     | Inr m \<Rightarrow> bindR (listParam (nilObj m) ''server_ports'' ''mport'') (\<lambda>p. Inr (Some p)))"

definition hysteriaLink :: "obj \<Rightarrow> obj \<Rightarrow> obj list \<Rightarrow> string list res" where
  "hysteriaLink cfg ib addrs = linkLoop (\<lambda>addr.
     bindR (addrTls addr ''insecure'') (\<lambda>tp.
     bindR (mportParam ib) (\<lambda>mp. case mp of None \<Rightarrow> Inr None
       | Some mport \<Rightarrow> bindR (finishLink ''hysteria://'' addr
           (mbpsParams ib @ strParam cfg ''auth_str'' ''auth'' @ tp @ strParam ib ''obfs'' ''obfs'' @
            bit01 ib ''tcp_fast_open'' ''fastopen'' @ mport)) (\<lambda>l. Inr (Some l))))) [] addrs"

definition obfsParams :: "obj \<Rightarrow> param list" where
  "obfsParams ib = strParam (objOr0 (oget ib ''obfs'')) ''type'' ''obfs'' @
     strParam (objOr0 (oget ib ''obfs'')) ''password'' ''obfs-password''"

definition hysteria2Link :: "obj \<Rightarrow> obj \<Rightarrow> obj list \<Rightarrow> string list res" where
  "hysteria2Link cfg ib addrs = linkLoop (\<lambda>addr.
     bindR (addrTls addr ''insecure'') (\<lambda>tp.
     bindR (mportParam ib) (\<lambda>mp. case mp of None \<Rightarrow> Inr None
       | Some mport \<Rightarrow> bindR (finishLink (''hysteria2://'' @ strOr0 (oget cfg ''password'') @ ''@'') addr
           (mbpsParams ib @ tp @ obfsParams ib @ bit01 ib ''tcp_fast_open'' ''fastopen'' @ mport))
           (\<lambda>l. Inr (Some l))))) [] addrs"

definition anytlsLink :: "obj \<Rightarrow> obj list \<Rightarrow> string list res" where
  "anytlsLink cfg addrs = eachAddr (\<lambda>addr. bindR (addrTls addr ''insecure'') (\<lambda>tp.
     finishLink (''anytls://'' @ strOr0 (oget cfg ''password'') @ ''@'') addr tp)) addrs"

definition tuicLink :: "obj \<Rightarrow> obj \<Rightarrow> obj list \<Rightarrow> string list res" where
  "tuicLink cfg ib addrs =
     (let outJson = (case asRaw (oget ib ''out_json'') of None \<Rightarrow> []
           | Some r \<Rightarrow> (case unmarshalObj r of Inl _ \<Rightarrow> [] | Inr m \<Rightarrow> nilObj m));
          mode = strOr0 (oget outJson ''udp_relay_mode'')
      in eachAddr (\<lambda>addr. bindR (addrTls addr ''insecure'') (\<lambda>tp.
           finishLink (''tuic://'' @ strOr0 (oget cfg ''uuid'') @ '':'' @ strOr0 (oget cfg ''password'') @ ''@'') addr
             (tp @ strParam ib ''congestion_control'' ''congestion_control'' @
              (if mode = [] then [] else [(''udp_relay_mode'', mode)])))) addrs)"

definition vlessLink :: "obj \<Rightarrow> obj \<Rightarrow> obj list \<Rightarrow> string list res" where
  "vlessLink cfg ib addrs = bindR (getTransportParams (oget ib ''transport'')) (\<lambda>base.
     let isTcp = (length base = 1 \<and> snd (hd base) = ''tcp'') in
     eachAddr (\<lambda>addr. bindR (enabledTls (oget addr ''tls'')) (\<lambda>en.
       bindR (case en of None \<Rightarrow> Inr [] | Some tls \<Rightarrow>
           bindR (getTlsParams tls ''allowInsecure'') (\<lambda>tp.
             Inr (tp @ (if isTcp then strParam cfg ''flow'' ''flow'' else []))))
         (\<lambda>tp. finishLink (''vless://'' @ strOr0 (oget cfg ''uuid'') @ ''@'') addr (base @ tp)))) addrs)"

definition trojanLink :: "obj \<Rightarrow> obj \<Rightarrow> obj list \<Rightarrow> string list res" where
  "trojanLink cfg ib addrs = bindR (getTransportParams (oget ib ''transport'')) (\<lambda>base.
     eachAddr (\<lambda>addr. bindR (enabledTls (oget addr ''tls'')) (\<lambda>en.
       bindR (case en of None \<Rightarrow> Inr [] | Some tls \<Rightarrow> getTlsParams tls ''allowInsecure'')
         (\<lambda>tp. finishLink (''trojan://'' @ strOr0 (oget cfg ''password'') @ ''@'') addr (base @ tp)))) addrs)"

fun vmessTlsStep :: "param \<Rightarrow> obj \<Rightarrow> obj" where
  "vmessTlsStep (k, v) ob =
     (if k = ''allowInsecure'' then oset ''allowInsecure'' (JInt 1) ob
      else if k \<in> {''sni'', ''fp'', ''alpn''} then oset k (JStr v) ob else ob)"

definition populateVmessTlsParams :: "obj \<Rightarrow> jv \<Rightarrow> obj res" where
  "populateVmessTlsParams ob tlsConfig = bindR (enabledTls tlsConfig) (\<lambda>en. case en of
       None \<Rightarrow> Inr (oset ''tls'' (JStr ''none'') ob)
     | Some tls \<Rightarrow> bindR (getTlsParams tls ''allowInsecure'') (\<lambda>ps.
         Inr (fold vmessTlsStep ps (oset ''tls'' (JStr ''tls'') ob))))"

text \<open>The last parameter of a name, as the \<open>switch\<close> in a loop leaves it.\<close>

definition lastParam :: "param list \<Rightarrow> string \<Rightarrow> string" where
  "lastParam ps k = (case map_of (rev ps) k of None \<Rightarrow> [] | Some v \<Rightarrow> v)"

definition setIf :: "string \<Rightarrow> string \<Rightarrow> obj \<Rightarrow> obj" where
  "setIf k v ob = (if v = [] then ob else oset k (JStr v) ob)"

definition vmessLink :: "obj \<Rightarrow> obj \<Rightarrow> obj list \<Rightarrow> string list res" where
  "vmessLink cfg ib addrs = bindR (getTransportParams (oget ib ''transport'')) (\<lambda>tps.
     let net = lastParam tps ''type''; host = lastParam tps ''host''; path = lastParam tps ''path'';
         typ = (if net = ''http'' then ''http'' else []);
         base = [(''v'', JStr ''2''), (''id'', JStr (strOr0 (oget cfg ''uuid''))), (''aid'', JInt 0),
                 (''net'', JStr (if net = ''http'' \<or> net = ''tcp'' then ''tcp'' else net))]
     in eachAddr (\<lambda>addr.
          let o1 = oset ''add'' (JStr (strOr0 (oget addr ''server''))) base;
              o2 = oset ''port'' (JStr (itoa (numOr0 (oget addr ''server_port'')))) o1;
              o3 = oset ''ps'' (JStr (strOr0 (oget addr ''remark''))) o2
          in bindR (populateVmessTlsParams (setIf ''path'' path (setIf ''host'' host (setIf ''type'' typ o3)))
                 (oget addr ''tls'')) (\<lambda>ob. Inr (''vmess://'' @ toBase64 (jtext (JObj ob))))) addrs)"

section \<open>The generator\<close>

definition InboundTypeWithLink :: "string list" where
  "InboundTypeWithLink = [''socks'', ''http'', ''mixed'', ''shadowsocks'', ''naive'', ''hysteria'',
     ''hysteria2'', ''anytls'', ''tuic'', ''vless'', ''trojan'', ''vmess'']"

definition prepareTlsStep :: "(nat \<Rightarrow> nat) \<Rightarrow> string \<times> jv \<Rightarrow> obj option \<Rightarrow> obj option res" where
  "prepareTlsStep rnd kv oTls = (case kv of (k, v) \<Rightarrow>
     if k \<in> {''enabled'', ''server_name'', ''alpn''} then
       bindR (writable oTls) (\<lambda>m. Inr (Some (oset k v m)))
     else if k = ''reality'' then
       bindR (mustObj v) (\<lambda>reality.
       bindR (mustObj (oget (nilObj oTls) ''reality'')) (\<lambda>cr0.
         let cr1 = oset ''enabled'' (oget reality ''enabled'') cr0 in
         bindR (case asArr (oget reality ''short_id'') of None \<Rightarrow> Inr cr1
           | Some sids \<Rightarrow> if sids = [] then Inr cr1
               else bindR (nthR sids (RandomInt rnd (length sids))) (\<lambda>sid. Inr (oset ''short_id'' sid cr1)))
         (\<lambda>cr2. bindR (writable oTls) (\<lambda>m. Inr (Some (oset ''reality'' (JObj cr2) m))))))
     else Inr oTls)"

definition prepareTls :: "(nat \<Rightarrow> nat) \<Rightarrow> tls option \<Rightarrow> obj res" where
  "prepareTls rnd t = (case t of None \<Rightarrow> Inl (Panic ''nil pointer dereference'')
     | Some t' \<Rightarrow> (case unmarshalObj (t_client t') of Inl _ \<Rightarrow> Inr []
        | Inr oTls \<Rightarrow> (case unmarshalObj (t_server t') of Inl _ \<Rightarrow> Inr []
           | Inr iTls \<Rightarrow> bindR (foldR (prepareTlsStep rnd) (nilObj iTls) oTls) (\<lambda>m. Inr (nilObj m)))))"

text \<open>
  The addresses of the links: the stored list with the inbound's tag in front of every remark and
  the address's own TLS settings over the inbound's, or the panel's host alone.
\<close>

definition fillAddr :: "inbound \<Rightarrow> obj \<Rightarrow> obj option \<Rightarrow> obj res" where
  "fillAddr i tls addr = bindR (writable addr) (\<lambda>a.
     let a1 = oset ''remark'' (JStr (i_tag i @ strOr0 (oget a ''remark''))) a in
     Inr (if i_tls_id i > 0
          then oset ''tls'' (JObj (copyInto (objOr0 (oget a1 ''tls'')) (copyInto tls []))) a1
          else a1))"

definition linkAddrs :: "inbound \<Rightarrow> obj \<Rightarrow> obj \<Rightarrow> string \<Rightarrow> obj option list \<Rightarrow> obj list res" where
  "linkAddrs i ib tls hostname stored =
     (if stored = [] then
        (let a = [(''server'', JStr hostname), (''server_port'', oget ib ''listen_port''), (''remark'', JStr (i_tag i))]
         in Inr [if i_tls_id i > 0 then oset ''tls'' (JObj tls) a else a])
      else mapR (fillAddr i tls) stored)"

definition linkByType :: "string \<Rightarrow> configs \<Rightarrow> obj \<Rightarrow> obj list \<Rightarrow> string list res" where
  "linkByType ty cs ib addrs =
     (if ty = ''socks'' then socksLink (cfgOf cs ''socks'') addrs
      else if ty = ''http'' then httpLink (cfgOf cs ''http'') addrs
      else if ty = ''mixed'' then bindR (socksLink (cfgOf cs ''socks'') addrs) (\<lambda>a.
        bindR (httpLink (cfgOf cs ''http'') addrs) (\<lambda>b. Inr (a @ b)))
      else if ty = ''shadowsocks'' then shadowsocksLink cs ib addrs
      else if ty = ''naive'' then naiveLink (cfgOf cs ''naive'') ib addrs
      else if ty = ''hysteria'' then hysteriaLink (cfgOf cs ''hysteria'') ib addrs
      else if ty = ''hysteria2'' then hysteria2Link (cfgOf cs ''hysteria2'') ib addrs
      else if ty = ''tuic'' then tuicLink (cfgOf cs ''tuic'') ib addrs
      else if ty = ''vless'' then vlessLink (cfgOf cs ''vless'') ib addrs
      else if ty = ''anytls'' then anytlsLink (cfgOf cs ''anytls'') addrs
      else if ty = ''trojan'' then trojanLink (cfgOf cs ''trojan'') ib addrs
      else if ty = ''vmess'' then vmessLink (cfgOf cs ''vmess'') ib addrs
      else Inr [])"

definition LinkGenerator :: "(nat \<Rightarrow> nat) \<Rightarrow> raw \<Rightarrow> inbound \<Rightarrow> string \<Rightarrow> string list res" where
  "LinkGenerator rnd clientConfig i hostname =
     (case Inbound_MarshalFull i of Inl (Panic p) \<Rightarrow> Inl (Panic p) | Inl (Err e) \<Rightarrow> Inr []
      | Inr ib \<Rightarrow> bindR (if i_tls_id i > 0 then prepareTls rnd (i_tls i) else Inr []) (\<lambda>tls.
          case unmarshalConfigs clientConfig of Inl _ \<Rightarrow> Inr []
          | Inr cs \<Rightarrow> (case unmarshalObjs (i_addrs i) of Inl _ \<Rightarrow> Inr []
             | Inr stored \<Rightarrow> bindR (linkAddrs i ib tls hostname stored) (linkByType (i_type i) cs ib))))"

end
