(* ===== verification/LinkToJson.thy ===== *)
theory LinkToJson
  imports GenLink
begin

text \<open>
  \<open>util/linkToJson.go\<close>, \<open>util/subToJson.go\<close> and \<open>util/subInfo.go\<close>: reading a share link back
  into an outbound object, and reading a whole external subscription.  A result is the outbound
  and its tag, or an error.  The HTTP request of an external subscription is the argument
  \<open>body\<close>, the response text or \<open>None\<close>.
\<close>

type_synonym parsed = "(obj \<times> string) res"

section \<open>Shared steps of the link parsers\<close>

definition tagOf :: "int \<Rightarrow> string \<Rightarrow> string" where
  "tagOf i frag = (if i > 0 then itoa i @ ''.'' @ frag else frag)"

definition setStr :: "string \<Rightarrow> string \<Rightarrow> obj \<Rightarrow> obj" where
  "setStr k s m = (if s = [] then m else oset k (JStr s) m)"

definition setList :: "string \<Rightarrow> string \<Rightarrow> obj \<Rightarrow> obj" where
  "setList k s m = (if s = [] then m else oset k (JStrs (split s '','')) m)"

definition yes :: "string \<Rightarrow> bool" where
  "yes s \<longleftrightarrow> s = ''1'' \<or> s = ''true''"

definition setFlag :: "string \<Rightarrow> bool \<Rightarrow> obj \<Rightarrow> obj" where
  "setFlag k b m = (if b then oset k (JBool True) m else m)"

definition setPos :: "string \<Rightarrow> string \<Rightarrow> obj \<Rightarrow> obj" where
  "setPos k s m = (let n = fst (atoi s) in if n > 0 then oset k (JInt n) m else m)"

text \<open>The host and port of an authority, with the port the protocol falls back to.\<close>

definition hostAndPort :: "string \<Rightarrow> int \<Rightarrow> string \<times> int" where
  "hostAndPort authority fallback = (case hostPort0 authority of (h, p) \<Rightarrow>
     (h, if p \<noteq> [] then fst (atoi p) else fallback))"

definition orTls :: "string \<Rightarrow> string" where
  "orTls s = (if s = [] then ''tls'' else s)"

definition plainPort :: "string \<Rightarrow> int" where
  "plainPort security = (if security = ''tls'' \<or> security = ''reality'' then 443 else 80)"

section \<open>Transport and TLS\<close>

definition getTransport :: "string \<Rightarrow> query \<Rightarrow> obj" where
  "getTransport tp q =
     (let host = qget q ''host''; path = qget q ''path''; ty = toLower tp;
          http = oset ''path'' (JStr path) (setList ''host'' host [(''type'', JStr ''http'')])
      in if ty = ''tcp'' \<or> ty = [] then (if qget q ''headerType'' = ''http'' then http else [])
         else if ty = ''http'' \<or> ty = ''h2'' then http
         else if ty = ''ws'' then
           [(''type'', JStr ''ws''), (''path'', JStr path)] @
           (if host = [] then [] else [(''headers'', JObj [(''Host'', JStr host)])])
         else if ty = ''quic'' then [(''type'', JStr ''quic'')]
         else if ty = ''grpc'' then [(''type'', JStr ''grpc''), (''service_name'', JStr (qget q ''serviceName''))]
         else if ty = ''httpupgrade'' then
           [(''type'', JStr ''httpupgrade''), (''path'', JStr path), (''host'', JStr host)]
         else [])"

definition utlsObj :: "string \<Rightarrow> jv" where
  "utlsObj fp = JObj [(''enabled'', JBool True), (''fingerprint'', JStr fp)]"

definition getTls :: "string \<Rightarrow> query \<Rightarrow> obj" where
  "getTls security q =
     (let t0 = (if security = ''tls'' then [(''enabled'', JBool True)]
                else if security = ''reality'' then
                  [(''enabled'', JBool True),
                   (''reality'', JObj [(''enabled'', JBool True), (''public_key'', JStr (qget q ''pbk'')),
                                       (''short_id'', JStr (qget q ''sid''))])]
                else []);
          t1 = setStr ''server_name'' (qget q ''sni'') t0;
          t2 = setList ''alpn'' (qget q ''alpn'') t1;
          t3 = setFlag ''insecure'' (yes (qget q ''insecure'') \<or> yes (qget q ''allowInsecure'')) t2;
          t4 = (if qget q ''fp'' = [] then t3 else oset ''utls'' (utlsObj (qget q ''fp'')) t3);
          t5 = (if qget q ''ech'' = [] then t4
                else oset ''ech'' (JObj [(''enabled'', JBool True), (''config'', JStrs [qget q ''ech''])]) t4)
      in setFlag ''disable_sni'' (yes (qget q ''disable_sni'')) t5)"

section \<open>One parser per protocol\<close>

definition vmessTransport :: "obj \<Rightarrow> obj res" where
  "vmessTransport d =
     (let net = strOr0 (oget d ''net''); ty = strOr0 (oget d ''type'');
          host = strOr0 (oget d ''host''); path = strOr0 (oget d ''path''); n = toLower net;
          http = oset ''path'' (JStr path) (setList ''host'' host [(''type'', JStr ''http'')])
      in if n = ''tcp'' \<or> n = [] then Inr (if ty = ''http'' then http else [])
         else if n = ''http'' \<or> n = ''h2'' then Inr http
         else if n = ''ws'' then
           Inr ([(''type'', JStr net), (''path'', JStr path),
                 (''early_data_header_name'', JStr ''Sec-WebSocket-Protocol'')] @
                (if host = [] then [] else [(''headers'', JObj [(''Host'', JStr host)])]))
         else if n = ''quic'' then Inr [(''type'', JStr net)]
         else if n = ''grpc'' then Inr [(''type'', JStr net), (''service_name'', JStr path)]
         else if n = ''httpupgrade'' then
           Inr [(''type'', JStr net), (''path'', JStr path), (''host'', JStr host)]
         else Inl (Err ''Invalid vmess''))"

definition vmessTls :: "obj \<Rightarrow> obj" where
  "vmessTls d =
     (if strOr0 (oget d ''tls'') \<noteq> ''tls'' then []
      else let t1 = setStr ''server_name'' (strOr0 (oget d ''sni'')) [(''enabled'', JBool True)];
               t2 = setList ''alpn'' (strOr0 (oget d ''alpn'')) t1;
               t3 = setFlag ''insecure'' (ohas d ''allowInsecure'') t2;
               fp = strOr0 (oget d ''fp'')
           in if fp = [] then t3 else oset ''utls'' (utlsObj fp) t3)"

definition vmess :: "string \<Rightarrow> int \<Rightarrow> parsed" where
  "vmess data i = bindR (B64StrToByte data) (\<lambda>bytes.
     bindR (unmarshalObj (jparse bytes)) (\<lambda>m. let d = nilObj m in
     bindR (vmessTransport d) (\<lambda>transport.
       let tag = tagOf i (strOr0 (oget d ''ps'')) in
       Inr ([(''type'', JStr ''vmess''), (''tag'', JStr tag), (''server'', oget d ''add''),
             (''server_port'', oget d ''port''), (''uuid'', oget d ''id''), (''security'', JStr ''auto''),
             (''alter_id'', JInt (numOr0 (oget d ''aid''))), (''tls'', JObj (vmessTls d)),
             (''transport'', JObj transport)], tag))))"

definition vless :: "url \<Rightarrow> int \<Rightarrow> parsed" where
  "vless u i =
     (let q = parseQuery (u_rawquery u); sec = qget q ''security''; tag = tagOf i (u_fragment u)
      in case hostAndPort (u_host u) (plainPort sec) of (host, port) \<Rightarrow>
        Inr ([(''type'', JStr ''vless''), (''tag'', JStr tag), (''server'', JStr host),
              (''server_port'', JInt port), (''uuid'', JStr (urlUsername u)), (''flow'', JStr (qget q ''flow'')),
              (''tls'', JObj (getTls sec q)), (''transport'', JObj (getTransport (qget q ''type'') q))], tag))"

definition trojan :: "url \<Rightarrow> int \<Rightarrow> parsed" where
  "trojan u i =
     (let q = parseQuery (u_rawquery u); sec = qget q ''security''; tag = tagOf i (u_fragment u)
      in case hostAndPort (u_host u) (plainPort sec) of (host, port) \<Rightarrow>
        Inr ([(''type'', JStr ''trojan''), (''tag'', JStr tag), (''server'', JStr host),
              (''server_port'', JInt port), (''password'', JStr (urlUsername u)),
              (''tls'', JObj (getTls sec q)), (''transport'', JObj (getTransport (qget q ''type'') q))], tag))"

definition hy :: "url \<Rightarrow> int \<Rightarrow> parsed" where
  "hy u i =
     (let q = parseQuery (u_rawquery u); sec = orTls (qget q ''security''); tag = tagOf i (u_fragment u)
      in case hostAndPort (u_host u) 443 of (host, port) \<Rightarrow>
        Inr (setPos ''recv_window'' (qget q ''recv_window'')
            (setPos ''recv_window_conn'' (qget q ''recv_window_conn'')
            (setPos ''up_mbps'' (qget q ''upmbps'')
            (setPos ''down_mbps'' (qget q ''downmbps'')
             [(''type'', JStr ''hysteria''), (''tag'', JStr tag), (''server'', JStr host),
              (''server_port'', JInt port), (''obfs'', JStr (qget q ''obfsParam'')),
              (''auth_str'', JStr (qget q ''auth'')), (''tls'', JObj (getTls sec q))]))), tag))"

definition hy2 :: "url \<Rightarrow> int \<Rightarrow> parsed" where
  "hy2 u i =
     (let q = parseQuery (u_rawquery u); sec = orTls (qget q ''security''); tag = tagOf i (u_fragment u);
          mport = replaceAll (qget q ''mport'') ''-'' '':''
      in case hostAndPort (u_host u) 443 of (host, port) \<Rightarrow>
        let o0 = [(''type'', JStr ''hysteria2''), (''tag'', JStr tag), (''server'', JStr host),
              (''server_port'', JInt port), (''password'', JStr (urlUsername u)), (''tls'', JObj (getTls sec q))];
            o1 = setPos ''up_mbps'' (qget q ''upmbps'') (setPos ''down_mbps'' (qget q ''downmbps'') o0);
            o2 = (if qget q ''obfs'' = ''salamander''
                  then oset ''obfs'' (JObj [(''type'', JStr ''salamander''),
                        (''password'', JStr (qget q ''obfs-password''))]) o1 else o1)
        in Inr (setFlag ''fastopen'' (yes (qget q ''fastopen'')) (setList ''server_ports'' mport o2), tag))"

definition anytls :: "url \<Rightarrow> int \<Rightarrow> parsed" where
  "anytls u i =
     (let q = parseQuery (u_rawquery u); sec = orTls (qget q ''security''); tag = tagOf i (u_fragment u)
      in case hostAndPort (u_host u) 443 of (host, port) \<Rightarrow>
        Inr ([(''type'', JStr ''anytls''), (''tag'', JStr tag), (''server'', JStr host),
              (''server_port'', JInt port), (''password'', JStr (urlUsername u)), (''tls'', JObj (getTls sec q))], tag))"

definition tuic :: "url \<Rightarrow> int \<Rightarrow> parsed" where
  "tuic u i =
     (let q = parseQuery (u_rawquery u); sec = orTls (qget q ''security''); tag = tagOf i (u_fragment u)
      in case hostAndPort (u_host u) 443 of (host, port) \<Rightarrow>
        Inr ([(''type'', JStr ''tuic''), (''tag'', JStr tag), (''server'', JStr host),
              (''server_port'', JInt port), (''uuid'', JStr (urlUsername u)),
              (''password'', JStr (fst (urlPassword u))),
              (''congestion_control'', JStr (qget q ''congestion_control'')),
              (''udp_relay_mode'', JStr (qget q ''udp_relay_mode'')), (''tls'', JObj (getTls sec q))], tag))"

text \<open>Method and password of a Shadowsocks link: given apart, or as one base64 user name.\<close>

definition ssCreds :: "url \<Rightarrow> (string \<times> string) res" where
  "ssCreds u = (case urlPassword u of (pw, ok) \<Rightarrow>
     if ok then Inr (urlUsername u, pw)
     else (case split (StrOrBase64Encoded (urlUsername u)) '':'' of
         m # p # ps \<Rightarrow> Inr (m, joinStr '':'' (p # ps))
       | _ \<Rightarrow> Inl (Err ''Unsupported shadowsocks'')))"

definition ssV2ray :: "query \<Rightarrow> obj \<Rightarrow> obj" where
  "ssV2ray q out = (if qget q ''type'' = [] then out
     else oset ''plugin_opts'' (JStr (joinStr '';''
            ((if qget q ''security'' = ''tls'' then [''tls''] else []) @
             (if qget q ''type'' = ''quic'' then [''mode=quic''] else []) @
             (if qget q ''host'' = [] then [] else [''host='' @ qget q ''host'']))))
          (oset ''plugin'' (JStr ''v2ray-plugin'') out))"

definition ssPlugin :: "query \<Rightarrow> obj \<Rightarrow> obj" where
  "ssPlugin q out = (if qget q ''plugin'' = [] then out
     else let pl = split (qget q ''plugin'') '';'' in
          oset ''plugin_opts'' (JStr (joinStr '';'' (tl pl))) (oset ''plugin'' (JStr (hd pl)) out))"

definition ss :: "url \<Rightarrow> int \<Rightarrow> parsed" where
  "ss u i =
     (let q = parseQuery (u_rawquery u); tag = tagOf i (u_fragment u)
      in case hostAndPort (u_host u) 443 of (host, port) \<Rightarrow>
        bindR (ssCreds u) (\<lambda>(m, pw). Inr (ssPlugin q (ssV2ray q
          [(''type'', JStr ''shadowsocks''), (''tag'', JStr tag), (''server'', JStr host),
           (''server_port'', JInt port), (''method'', JStr m), (''password'', JStr pw)]), tag)))"

text \<open>Host, port, user and password of a Naive link.\<close>

definition naiveParts :: "url \<Rightarrow> (string \<times> int \<times> string \<times> string) res" where
  "naiveParts u =
     (if u_scheme u = ''http2'' then
        (case cutAt (CHR ''@'') (StrOrBase64Encoded (urlHostname u)) of (userInfo, rest, found) \<Rightarrow>
           if \<not> found then Inl (Err ''Invalid naive link (http2)'')
           else case cutAt (CHR '':'') userInfo of (name, pw, _) \<Rightarrow>
             case hostAndPort rest 443 of (h, p) \<Rightarrow> Inr (h, p, name, pw))
      else if u_scheme u = ''naive+https'' \<or> u_scheme u = ''naive+quic'' then
        (case hostAndPort (u_host u) 443 of (h, p) \<Rightarrow> Inr (h, p, urlUsername u, fst (urlPassword u)))
      else Inl (Err ''Unsupported naive scheme''))"

definition parseNaiveLink :: "url \<Rightarrow> int \<Rightarrow> parsed" where
  "parseNaiveLink u i = bindR (naiveParts u) (\<lambda>(host, port, name, pw).
     let tag0 = tagOf i (u_fragment u);
         tag = (if tag0 = [] then ''naive-'' @ itoa i else tag0);
         q = parseQuery (u_rawquery u);
         tls = setList ''alpn'' (qget q ''alpn'') (setFlag ''insecure'' (yes (qget q ''insecure''))
                 (setStr ''server_name'' (qget q ''peer'') [(''enabled'', JBool True)]))
     in Inr (setFlag ''quic'' (u_scheme u = ''naive+quic'')
          [(''type'', JStr ''naive''), (''tag'', JStr tag), (''server'', JStr host), (''server_port'', JInt port),
           (''username'', JStr name), (''password'', JStr pw), (''tls'', JObj tls)], tag))"

definition GetOutbound :: "string \<Rightarrow> int \<Rightarrow> parsed" where
  "GetOutbound uri i = (case urlParse uri of
       None \<Rightarrow> Inl (Err ''Unsupported link format'')
     | Some u \<Rightarrow> let s = u_scheme u in
       if s = ''vmess'' then vmess (u_host u) i
       else if s = ''vless'' then vless u i
       else if s = ''trojan'' then trojan u i
       else if s = ''hy'' \<or> s = ''hysteria'' then hy u i
       else if s = ''hy2'' \<or> s = ''hysteria2'' then hy2 u i
       else if s = ''anytls'' then anytls u i
       else if s = ''tuic'' then tuic u i
       else if s = ''ss'' \<or> s = ''shadowsocks'' then ss u i
       else if s = ''naive+https'' \<or> s = ''naive+quic'' \<or> s = ''http2'' then parseNaiveLink u i
       else Inl (Err ''Unsupported link format''))"

section \<open>External subscriptions\<close>

text \<open>\<open>GetExternalLink\<close> after the HTTP request; a failed request is the empty text.\<close>

definition GetExternalLink :: "(string \<Rightarrow> string option) \<Rightarrow> string \<Rightarrow> string" where
  "GetExternalLink http url = (case http url of None \<Rightarrow> [] | Some body \<Rightarrow> StrOrBase64Encoded body)"

definition keepOutbound :: "jv \<Rightarrow> obj list" where
  "keepOutbound v = (case v of
       JObj m \<Rightarrow> if m \<noteq> [] \<and> strOr0 (oget m ''type'') \<notin> {''urltest'', ''direct'', ''selector'', ''block''}
                then [m] else []
     | _ \<Rightarrow> [])"

text \<open>The outbounds of a subscription; where a JSON text has no \<open>outbounds\<close> array the source
  returns neither outbounds nor an error.\<close>

definition GetExternalSub :: "(string \<Rightarrow> string option) \<Rightarrow> string \<Rightarrow> obj list res" where
  "GetExternalSub http url =
     (if url = [] then Inl (Err ''no url'')
      else let data = GetExternalLink http url in
        if data = [] then Inl (Err ''no result'')
        else if hasPrefix data ''{'' \<and> hasSuffix data ''}'' then
          bindR (unmarshalObj (jparse data)) (\<lambda>m.
            case asArr (oget (nilObj m) ''outbounds'') of None \<Rightarrow> Inr []
            | Some obs \<Rightarrow> let res = concat (map keepOutbound obs) in
                if res = [] then Inl (Err ''no result'') else Inr res)
        else let res = concat (map (\<lambda>l. case GetOutbound l 0 of Inr (m, _) \<Rightarrow> [m] | Inl _ \<Rightarrow> [])
                                 (split data [CHR 0x0A]))
             in if res = [] then Inl (Err ''no result'') else Inr res)"

section \<open>util/subInfo.go\<close>

definition GetHeaders :: "client \<Rightarrow> int \<Rightarrow> string list" where
  "GetHeaders c updateInterval =
     [''upload='' @ itoa (c_up c) @ ''; download='' @ itoa (c_down c) @ ''; total='' @ itoa (c_volume c)
        @ ''; expire='' @ itoa (c_expiry c),
      itoa updateInterval, c_name c]"

end
