(* ===== verification/LinkRoundtrip.thy ===== *)
theory LinkRoundtrip
  imports LinkToJson
begin

text \<open>
  The links the panel writes are read back by the panel's own parser: lemmas on the URL texts of
  share links, on their query strings, and the round trips of the protocols.
\<close>

section \<open>Plain text\<close>

definition plainChar :: "char \<Rightarrow> bool" where
  "plainChar c \<longleftrightarrow> isAlnum c \<or> c \<in> {CHR ''-'', CHR ''.''}"

text \<open>A text that needs no escaping anywhere in a URL: letters, digits, dashes and dots.\<close>

definition plain :: "string \<Rightarrow> bool" where
  "plain s \<longleftrightarrow> list_all plainChar s"

lemma plain_simps [simp]:
  "plain []" "plain (c # s) \<longleftrightarrow> plainChar c \<and> plain s" "plain (s @ t) \<longleftrightarrow> plain s \<and> plain t"
  by (simp_all add: plain_def)

lemma special_not_plain: "c \<in> set '':/?#[]@&;=%+*,'' \<Longrightarrow> \<not> plainChar c"
  unfolding list.set by (elim insertE emptyE) (simp_all add: plainChar_def isAlnum_def)

lemma plainChar_code: "plainChar c \<Longrightarrow> \<not> of_char c < (32 :: nat) \<and> of_char c \<noteq> (127 :: nat)"
  unfolding plainChar_def isAlnum_def Let_def by (elim disjE insertE emptyE) auto

lemma plainChar_not: "plainChar c \<Longrightarrow> c \<noteq> CHR '':'' \<and> c \<noteq> CHR ''@'' \<and> c \<noteq> CHR ''['' \<and> c \<noteq> CHR 0x25 \<and> c \<noteq> CHR ''+''"
  by (intro conjI notI) (simp_all add: plainChar_def isAlnum_def)

lemma plain_not: "plain s \<Longrightarrow> c \<in> set '':/?#[]@&;=%+*,'' \<Longrightarrow> c \<notin> set s"
  using special_not_plain unfolding plain_def list_all_iff by blast

lemma plain_no_escape: "plainChar c \<Longrightarrow> \<not> shouldEscape m c"
  by (auto simp: plainChar_def shouldEscape_def)

lemma escape_plain: "plain s \<Longrightarrow> escape m s = s"
  by (induction s) (auto simp: escape_def escChar_def plain_no_escape)

lemma unescape_plain: "plain s \<Longrightarrow> unescape m s = Some s"
  by (induction s) (auto simp: plain_no_escape dest: plainChar_not)

lemma isDigit_plainChar: "isDigit c \<Longrightarrow> plainChar c"
  by (simp add: plainChar_def isAlnum_def isDigit_def Let_def)

lemma natDigits_plain: "plain (natDigits n)"
  using natDigits_digits [of n] isDigit_plainChar by (auto simp: plain_def list_all_iff)

section \<open>Reading the text of a share link\<close>

definition noCtl :: "string \<Rightarrow> bool" where
  "noCtl s \<longleftrightarrow> \<not> hasCtl s"

lemma noCtl_append [simp]: "noCtl (a @ b) \<longleftrightarrow> noCtl a \<and> noCtl b"
  by (simp add: noCtl_def hasCtl_def)

lemma noCtl_Cons [simp]: "noCtl (c # b) \<longleftrightarrow> \<not> of_char c < (32 :: nat) \<and> of_char c \<noteq> (127 :: nat) \<and> noCtl b"
  by (simp add: noCtl_def hasCtl_def)

lemma noCtl_Nil [simp]: "noCtl []"
  by (simp add: noCtl_def hasCtl_def)

lemma plain_noCtl: "plain s \<Longrightarrow> noCtl s"
  by (induction s) (simp_all add: plainChar_code)

definition schemeText :: "string \<Rightarrow> bool" where
  "schemeText s \<longleftrightarrow> s \<noteq> [] \<and> isLetter (hd s) \<and> list_all (\<lambda>c. isLetter c \<or> isDigit c) s \<and> toLower s = s"

lemma getScheme_read:
  "list_all (\<lambda>c. isLetter c \<or> isDigit c) s \<Longrightarrow> acc \<noteq> [] \<or> (s \<noteq> [] \<and> isLetter (hd s)) \<Longrightarrow>
     getScheme w acc (s @ CHR '':'' # r) = Some (rev acc @ s, r)"
proof (induction s arbitrary: acc)
  case Nil
  then show ?case by (simp add: isLetter_def isDigit_def)
qed auto

lemma schemeText_plain: "schemeText s \<Longrightarrow> plain s"
  by (auto simp: schemeText_def plain_def list_all_iff plainChar_def isAlnum_def isLetter_def isDigit_def Let_def)

lemma cutAt_query: "CHR ''?'' \<notin> set a \<Longrightarrow>
    cutAt (CHR ''?'') (a @ (if q = [] then [] else CHR ''?'' # q)) = (a, q, q \<noteq> [])"
  by (simp add: cutAt_append cutAt_none)

lemma no_forcequery: "CHR ''?'' \<notin> set a \<Longrightarrow> s = a @ (if q = [] then [] else CHR ''?'' # q) \<Longrightarrow>
    \<not> (hasSuffix s ''?'' \<and> length (filter (\<lambda>c. c = CHR ''?'') s) = 1)"
proof
  assume a: "CHR ''?'' \<notin> set a" and s: "s = a @ (if q = [] then [] else CHR ''?'' # q)"
    and f: "hasSuffix s ''?'' \<and> length (filter (\<lambda>c. c = CHR ''?'') s) = 1"
  have fa: "filter (\<lambda>c. c = CHR ''?'') a = []"
    using a by (auto simp: filter_empty_conv)
  have last: "s \<noteq> [] \<and> last s = CHR ''?''"
  proof -
    obtain t where "s = t @ ''?''"
      using f unfolding hasSuffix_def by (metis append_take_drop_id)
    then show ?thesis by simp
  qed
  show False
  proof (cases "q = []")
    case True
    then show False using last s a by (metis append_Nil2 last_in_set)
  next
    case False
    then have "CHR ''?'' \<in> set q"
      using last s by (simp) (metis last_in_set)
    then have "filter (\<lambda>c. c = CHR ''?'') q \<noteq> []"
      by (auto simp: filter_empty_conv)
    then show False using f s fa False by simp
  qed
qed

text \<open>The URL of a link: scheme, a user name, a host with a port, a query and a fragment.\<close>

definition linkUrl :: "string \<Rightarrow> (string \<times> string option) option \<Rightarrow> string \<Rightarrow> string \<Rightarrow> string \<Rightarrow> url" where
  "linkUrl sch us hp q f = emptyUrl\<lparr>u_scheme := sch, u_user := us, u_host := hp, u_rawquery := q, u_fragment := f\<rparr>"

definition hostPortText :: "string \<Rightarrow> nat \<Rightarrow> string" where
  "hostPortText h p = h @ CHR '':'' # natDigits p"

lemma hostChar_colon: "shouldEscape EncHost (CHR '':'') = False"
  by (simp add: shouldEscape_def)

lemma unescape_host: "plain a \<Longrightarrow> plain b \<Longrightarrow> unescape EncHost (a @ CHR '':'' # b) = Some (a @ CHR '':'' # b)"
  by (induction a) (simp_all add: unescape_plain plain_no_escape hostChar_colon plainChar_not)

lemma plain_no_bracket: "plain h \<Longrightarrow> \<not> hasPrefix (h @ CHR '':'' # t) ''[''"
  by (cases h) (auto simp: hasPrefix_def dest: plainChar_not)

lemma parseHost_plain: "plain h \<Longrightarrow> parseHost (hostPortText h p) = Some (hostPortText h p)"
proof -
  assume h: "plain h"
  have c: "CHR '':'' \<notin> set (natDigits p)"
    using plain_not [OF natDigits_plain] by simp
  show ?thesis
    using plain_no_bracket [OF h] unescape_host [OF h natDigits_plain] natDigits_digits
    by (simp add: parseHost_def hostPortText_def lastColon_def cutLast_append [OF c] validOptionalPort_def)
qed

lemma parseUserinfo_name: "plain u \<Longrightarrow> parseUserinfo u = Some (u, None)"
proof -
  assume u: "plain u"
  then have "validUserinfo u"
    by (auto simp: validUserinfo_def plain_def list_all_iff plainChar_def)
  with u show ?thesis
    using plain_not [OF u, of "CHR '':''"] by (simp add: parseUserinfo_def cutAt_none unescape_plain)
qed

lemma parseUserinfo_pair:
  "plain u \<Longrightarrow> plain p \<Longrightarrow> parseUserinfo (u @ CHR '':'' # p) = Some (u, Some p)"
proof -
  assume u: "plain u" and p: "plain p"
  then have "validUserinfo (u @ CHR '':'' # p)"
    by (auto simp: validUserinfo_def plain_def list_all_iff plainChar_def)
  with u p show ?thesis
    using plain_not [OF u, of "CHR '':''"] by (simp add: parseUserinfo_def cutAt_append unescape_plain)
qed

text \<open>The authority text of a user part: nothing, a name, or a name and a password.\<close>

fun authText :: "(string \<times> string option) option \<Rightarrow> string" where
  "authText None = []"
| "authText (Some (u, None)) = u @ ''@''"
| "authText (Some (u, Some p)) = u @ CHR '':'' # p @ ''@''"

fun plainUser :: "(string \<times> string option) option \<Rightarrow> bool" where
  "plainUser None = True"
| "plainUser (Some (u, None)) = plain u"
| "plainUser (Some (u, Some p)) = (plain u \<and> plain p)"

lemma authText_chars: "plainUser us \<Longrightarrow> c \<in> set ''/?#[]*'' \<Longrightarrow> c \<notin> set (authText us)"
  by (cases us rule: authText.cases) (auto dest: plain_not)

lemma authText_noCtl: "plainUser us \<Longrightarrow> noCtl (authText us)"
  by (cases us rule: authText.cases) (auto simp: plain_noCtl)

lemma hostPortText_chars: "plain h \<Longrightarrow> c \<in> set ''/?#[]@*'' \<Longrightarrow> c \<notin> set (hostPortText h p)"
  using natDigits_plain [of p] by (auto simp: hostPortText_def dest: plain_not)

lemma cutLast_auth: "plain h \<Longrightarrow> cutLast (CHR ''@'') (authText us @ hostPortText h p) = (case us of
     None \<Rightarrow> None | Some (u, None) \<Rightarrow> Some (u, hostPortText h p)
   | Some (u, Some w) \<Rightarrow> Some (u @ CHR '':'' # w, hostPortText h p))"
proof -
  assume "plain h"
  then have at: "CHR ''@'' \<notin> set (hostPortText h p)"
    by (rule hostPortText_chars) simp
  show ?thesis
    using cutLast_none [OF at] cutLast_append [OF at] cutLast_append [OF at, of "u @ CHR '':'' # w" for u w]
    by (cases us rule: authText.cases) simp_all
qed

lemma setPath_Nil: "u_path u = [] \<Longrightarrow> u_rawpath u = [] \<Longrightarrow> setPath [] u = Some u"
  by (simp add: setPath_def escape_def)

lemma parseHier_link:
  assumes "plain h" "plainUser us" "u_path u = []" "u_rawpath u = []" "u_user u = None"
  shows "parseHier u (''//'' @ authText us @ hostPortText h p) = Some (u\<lparr>u_host := hostPortText h p, u_user := us\<rparr>)"
proof -
  let ?a = "authText us @ hostPortText h p"
  have slash: "CHR ''/'' \<notin> set ?a"
    using authText_chars [OF assms(2), of "CHR ''/''"] hostPortText_chars [OF assms(1), of "CHR ''/''"] by simp
  have sl3: "\<not> hasPrefix (''//'' @ ?a) ''///''"
  proof -
    have "?a \<noteq> []" by (simp add: hostPortText_def)
    then obtain c r where "?a = c # r" by (meson neq_Nil_conv)
    with slash show ?thesis by (auto simp: hasPrefix_def)
  qed
  have pre: "hasPrefix (''//'' @ ?a) ''//''" "drop 2 (''//'' @ ?a) = ?a"
    by (simp_all add: hasPrefix_def)
  have "parseHier u (''//'' @ ?a) = (case cutLast (CHR ''@'') ?a of
      None \<Rightarrow> (case parseHost ?a of None \<Rightarrow> None | Some h \<Rightarrow> setPath [] (u\<lparr>u_host := h\<rparr>))
    | Some (ui, hp) \<Rightarrow> (case (parseHost hp, parseUserinfo ui) of
         (Some h, Some us) \<Rightarrow> setPath [] (u\<lparr>u_host := h, u_user := Some us\<rparr>) | _ \<Rightarrow> None))"
    unfolding parseHier_def pre cutAt_none [OF slash] using sl3 pre by (simp only: simp_thms if_True if_False prod.case Let_def)
  then show ?thesis
    unfolding cutLast_auth [OF assms(1)] using assms
    by (cases us rule: authText.cases)
      (simp_all add: parseHost_plain setPath_Nil parseUserinfo_name parseUserinfo_pair)
qed

definition linkText :: "string \<Rightarrow> (string \<times> string option) option \<Rightarrow> string \<Rightarrow> string \<Rightarrow> string \<Rightarrow> string" where
  "linkText sch us hp q f = sch @ ''://'' @ authText us @ hp @ (if q = [] then [] else CHR ''?'' # q) @
     (if f = [] then [] else CHR ''#'' # escape EncFragment f)"

lemma escape_eq_Nil [simp]: "escape m s = [] \<longleftrightarrow> s = []"
  by (cases s) (auto simp: escape_def escChar_def)

lemma setFragment_escape:
  "u_fragment u = [] \<Longrightarrow> u_rawfragment u = [] \<Longrightarrow> setFragment (escape EncFragment f) u = Some (u\<lparr>u_fragment := f\<rparr>)"
  by (simp add: setFragment_def fragment.dec_enc)

lemma parseNoFragment_link:
  assumes "schemeText sch" "plainUser us" "plain h" "noCtl q"
  shows "parseNoFragment (sch @ ''://'' @ authText us @ hostPortText h p @ (if q = [] then [] else CHR ''?'' # q))
    = Some (linkUrl sch us (hostPortText h p) q [])"
proof -
  let ?hier = "''//'' @ authText us @ hostPortText h p"
  let ?rest = "?hier @ (if q = [] then [] else CHR ''?'' # q)"
  let ?s = "sch @ CHR '':'' # ?rest"
  have pl: "plain sch" using assms(1) by (rule schemeText_plain)
  have ctl: "\<not> hasCtl ?s"
    using assms(2,3,4) plain_noCtl [OF pl] authText_noCtl [OF assms(2)] plain_noCtl [OF natDigits_plain [of p]]
    by (simp add: noCtl_def [symmetric] hostPortText_def plain_noCtl)
  have star: "?s \<noteq> ''*''" by (cases sch) auto
  have scheme: "getScheme ?s [] ?s = Some (sch, ?rest)"
    using getScheme_read [of sch "[]" ?s ?rest] assms(1) by (simp add: schemeText_def)
  have q: "CHR ''?'' \<notin> set ?hier"
    using authText_chars [OF assms(2), of "CHR ''?''"] hostPortText_chars [OF assms(3), of "CHR ''?''"] by simp
  note cut = cutAt_query [OF q, of q]
  note force = no_forcequery [OF q refl, of q]
  have slash: "hasPrefix ?hier ''/''" by (simp add: hasPrefix_def)
  have sch: "toLower sch = sch" "sch \<noteq> []" using assms(1) by (simp_all add: schemeText_def)
  let ?u = "emptyUrl\<lparr>u_scheme := sch, u_forcequery := False, u_rawquery := q\<rparr>"
  have hier: "parseHier ?u ?hier = Some (?u\<lparr>u_host := hostPortText h p, u_user := us\<rparr>)"
    by (rule parseHier_link [OF assms(3,2)]) (simp_all add: emptyUrl_def)
  have "parseNoFragment ?s = parseHier ?u ?hier"
    unfolding parseNoFragment_def if_not_P [OF ctl] if_not_P [OF star] scheme option.case prod.case Let_def
      if_not_P [OF force] cut sch(1)
    using slash sch force by (simp only: simp_thms if_True if_False prod.case)
  then have "parseNoFragment ?s = Some (?u\<lparr>u_host := hostPortText h p, u_user := us\<rparr>)"
    by (simp only: hier)
  then show ?thesis
    by (simp add: linkUrl_def emptyUrl_def)
qed

lemma urlParse_linkText:
  assumes "schemeText sch" "plainUser us" "plain h" "noCtl q" "CHR ''#'' \<notin> set q"
  shows "urlParse (linkText sch us (hostPortText h p) q f) = Some (linkUrl sch us (hostPortText h p) q f)"
proof -
  let ?s = "sch @ ''://'' @ authText us @ hostPortText h p @ (if q = [] then [] else CHR ''?'' # q)"
  have "CHR ''#'' \<notin> set ?s"
    using plain_not [OF schemeText_plain [OF assms(1)], of "CHR ''#''"] authText_chars [OF assms(2), of "CHR ''#''"]
      hostPortText_chars [OF assms(3), of "CHR ''#''"] assms(5) by simp
  then have cut: "cutAt (CHR ''#'') (?s @ (if f = [] then [] else CHR ''#'' # escape EncFragment f))
      = (?s, escape EncFragment f, f \<noteq> [])"
    using cutAt_append [of "CHR ''#''" ?s "escape EncFragment f"] cutAt_none [of "CHR ''#''" ?s]
    by (cases "f = []") (simp_all add: escape_def [of _ "[]"] del: append_assoc append_Cons)
  have whole: "linkText sch us (hostPortText h p) q f = ?s @ (if f = [] then [] else CHR ''#'' # escape EncFragment f)"
    by (simp add: linkText_def)
  have "setFragment (escape EncFragment f) (linkUrl sch us (hostPortText h p) q []) =
      Some (linkUrl sch us (hostPortText h p) q f)"
    by (subst setFragment_escape) (simp_all add: linkUrl_def emptyUrl_def)
  then show ?thesis
    unfolding whole urlParse_def cut prod.case parseNoFragment_link [OF assms(1-4)] option.case
    by (simp add: linkUrl_def)
qed

lemma userString_auth: "plainUser (Some us) \<Longrightarrow> userString us @ ''@'' = authText (Some us)"
  by (cases us; cases "snd us") (auto simp: userString_def escape_plain)

lemma escape_hostPort: "plain h \<Longrightarrow> escape EncHost (hostPortText h p) = hostPortText h p"
  using escape_plain [of h EncHost] escape_plain [OF natDigits_plain, of EncHost p]
  by (simp add: hostPortText_def escape_def escChar_def hostChar_colon)

lemma urlString_linkUrl:
  assumes "plainUser us" "plain h" "sch \<noteq> []"
  shows "urlString (linkUrl sch us (hostPortText h p) q f) = linkText sch us (hostPortText h p) q f"
proof -
  have hp: "hostPortText h p \<noteq> []" by (simp add: hostPortText_def)
  have "(case us of None \<Rightarrow> [] | Some x \<Rightarrow> userString x @ ''@'') = authText us"
    using assms(1) userString_auth by (cases us) auto
  then show ?thesis
    using assms(3) hp
    by (simp add: urlString_def linkUrl_def emptyUrl_def linkText_def escape_hostPort [OF assms(2)]
        escapedPath_def escapedFragment_def escape_def [of EncPath])
qed

text \<open>What \<open>addParams\<close> makes of the base of a link.\<close>

lemma addParams_link:
  assumes "schemeText sch" "plainUser us" "plain h"
  shows "addParams (sch @ ''://'' @ authText us @ hostPortText h p) ps r =
    Inr (linkText sch us (hostPortText h p) (joinStr ''&'' (map paramText ps)) r)"
proof -
  have "sch @ ''://'' @ authText us @ hostPortText h p = linkText sch us (hostPortText h p) [] []"
    by (simp add: linkText_def)
  then have "urlParse (sch @ ''://'' @ authText us @ hostPortText h p) = Some (linkUrl sch us (hostPortText h p) [] [])"
    using urlParse_linkText [OF assms, of "[]" p "[]"] by simp
  moreover have "sch \<noteq> []" using assms(1) by (auto simp: schemeText_def)
  ultimately show ?thesis
    using urlString_linkUrl [OF assms(2,3), of sch p "joinStr ''&'' (map paramText ps)" r]
    by (simp add: addParams_def linkUrl_def)
qed

section \<open>Query strings\<close>

definition qKey :: "string \<Rightarrow> bool" where
  "qKey k \<longleftrightarrow> list_all (\<lambda>c. isAlnum c \<or> c \<in> {CHR ''-'', CHR ''_''}) k"

text \<open>A value that survives a query string without being escaped.\<close>

definition qRaw :: "string \<Rightarrow> bool" where
  "qRaw v \<longleftrightarrow> noCtl v \<and> list_all (\<lambda>c. c \<notin> {CHR ''&'', CHR '';'', CHR 0x25, CHR ''+'', CHR ''#''}) v"

definition qParam :: "param \<Rightarrow> bool" where
  "qParam p \<longleftrightarrow> qKey (fst p) \<and> (fst p \<in> {''mport'', ''alpn''} \<longrightarrow> qRaw (snd p))"

lemma qKey_char: "isAlnum c \<or> c \<in> {CHR ''-'', CHR ''_''} \<Longrightarrow>
   c \<noteq> CHR ''&'' \<and> c \<noteq> CHR '';'' \<and> c \<noteq> CHR ''='' \<and> c \<noteq> CHR ''#'' \<and> c \<noteq> CHR 0x25 \<and> c \<noteq> CHR ''+'' \<and>
   \<not> of_char c < (32 :: nat) \<and> of_char c \<noteq> (127 :: nat)"
  by (intro conjI) (auto simp: isAlnum_def)

lemma qKey_not: "qKey k \<Longrightarrow> c \<in> {CHR ''&'', CHR '';'', CHR ''='', CHR ''#'', CHR 0x25, CHR ''+''} \<Longrightarrow> c \<notin> set k"
  using qKey_char unfolding qKey_def list_all_iff by blast

lemma qRaw_not: "qRaw v \<Longrightarrow> c \<in> {CHR ''&'', CHR '';'', CHR ''#'', CHR 0x25, CHR ''+''} \<Longrightarrow> c \<notin> set v"
  unfolding qRaw_def list_all_iff by blast

lemma unescape_query_id: "CHR 0x25 \<notin> set s \<Longrightarrow> CHR ''+'' \<notin> set s \<Longrightarrow> queryUnescape s = Some s"
  unfolding queryUnescape_def by (induction s) auto

lemma list_all_noCtl: "list_all (\<lambda>c. \<not> of_char c < (32 :: nat) \<and> of_char c \<noteq> (127 :: nat)) s \<Longrightarrow> noCtl s"
  by (induction s) auto

lemma queryEscape_noCtl: "noCtl (queryEscape s)"
proof (rule list_all_noCtl, unfold list_all_iff, rule ballI)
  fix c assume "c \<in> set (queryEscape s)"
  then have "isAlnum c \<or> c \<in> set ''-_.~+'' \<union> {CHR 0x25}" by (rule queryEscape_set)
  then show "\<not> of_char c < (32 :: nat) \<and> of_char c \<noteq> (127 :: nat)"
    by (elim disjE) (auto simp: isAlnum_def)
qed

lemma qKey_noCtl: "qKey k \<Longrightarrow> noCtl k"
  using qKey_char by (intro list_all_noCtl) (auto simp: qKey_def list_all_iff)

definition paramVal :: "param \<Rightarrow> string" where
  "paramVal p = (if fst p \<in> {''mport'', ''alpn''} then snd p else queryEscape (snd p))"

lemma paramText_val: "paramText p = fst p @ CHR ''='' # paramVal p"
  by (cases p) (simp add: paramText_def paramVal_def)

lemma paramVal_not: "qParam p \<Longrightarrow> c \<in> {CHR ''&'', CHR '';'', CHR ''#''} \<Longrightarrow> c \<notin> set (paramVal p)"
  using qRaw_not [of "snd p" c] queryEscape_no_sep [of "snd p"]
  by (cases "fst p \<in> {''mport'', ''alpn''}") (auto simp: paramVal_def qParam_def)

lemma paramVal_dec: "qParam p \<Longrightarrow> queryUnescape (paramVal p) = Some (snd p)"
  using qRaw_not [of "snd p" "CHR 0x25"] qRaw_not [of "snd p" "CHR ''+''"]
  by (cases "fst p \<in> {''mport'', ''alpn''}") (auto simp: paramVal_def qParam_def unescape_query_id query.dec_enc)

lemma parsePair_paramText: "qParam p \<Longrightarrow> parsePair (paramText p) = [p]"
proof -
  assume p: "qParam p"
  then have k: "qKey (fst p)" by (simp add: qParam_def)
  have "CHR '';'' \<notin> set (paramText p)"
    using qKey_not [OF k, of "CHR '';''"] paramVal_not [OF p, of "CHR '';''"] by (simp add: paramText_val)
  moreover have "cutAt (CHR ''='') (paramText p) = (fst p, paramVal p, True)"
    using qKey_not [OF k, of "CHR ''=''"] by (simp add: paramText_val cutAt_append)
  moreover have "queryUnescape (fst p) = Some (fst p)"
    using qKey_not [OF k, of "CHR 0x25"] qKey_not [OF k, of "CHR ''+''"] by (simp add: unescape_query_id)
  moreover have "paramText p \<noteq> []" by (simp add: paramText_val)
  ultimately show ?thesis
    by (simp add: parsePair_def paramVal_dec [OF p])
qed

lemma splitStr_char: "c \<notin> set a \<Longrightarrow> splitStr [c] acc (a @ c # r) = (rev acc @ a) # splitStr [c] [] r"
  by (induction a arbitrary: acc) (auto simp: hasPrefix_def)

lemma splitStr_char_end: "c \<notin> set a \<Longrightarrow> splitStr [c] acc a = [rev acc @ a]"
  by (induction a arbitrary: acc) (auto simp: hasPrefix_def)

lemma split_joinStr: "xs \<noteq> [] \<Longrightarrow> (\<forall>x \<in> set xs. c \<notin> set x) \<Longrightarrow> split (joinStr [c] xs) [c] = xs"
proof (induction "[c]" xs rule: joinStr.induct)
  case (3 x y xs)
  then show ?case by (simp add: split_def splitStr_char)
qed (auto simp: split_def splitStr_char_end)

lemma paramText_no_amp: "qParam p \<Longrightarrow> CHR ''&'' \<notin> set (paramText p)"
  using qKey_not [of "fst p" "CHR ''&''"] paramVal_not [of p "CHR ''&''"] by (simp add: paramText_val qParam_def)

text \<open>The query of a link is read back parameter by parameter.\<close>

lemma parseQuery_params: "(\<forall>p \<in> set ps. qParam p) \<Longrightarrow> parseQuery (joinStr ''&'' (map paramText ps)) = ps"
proof (cases "ps = []")
  case True
  then show ?thesis by (simp add: parseQuery_def split_def parsePair_def)
next
  case False
  assume ps: "\<forall>p \<in> set ps. qParam p"
  then have "split (joinStr ''&'' (map paramText ps)) ''&'' = map paramText ps"
    using False paramText_no_amp by (intro split_joinStr) auto
  moreover have "concat (map parsePair (map paramText ps)) = ps"
    using ps by (induction ps) (auto simp: parsePair_paramText)
  ultimately show ?thesis by (simp add: parseQuery_def)
qed

lemma joinStr_noCtl: "noCtl sep \<Longrightarrow> (\<forall>x \<in> set xs. noCtl x) \<Longrightarrow> noCtl (joinStr sep xs)"
  by (induction sep xs rule: joinStr.induct) auto

lemma joinStr_not: "c \<notin> set sep \<Longrightarrow> (\<forall>x \<in> set xs. c \<notin> set x) \<Longrightarrow> c \<notin> set (joinStr sep xs)"
  by (induction sep xs rule: joinStr.induct) auto

lemma paramText_safe: "qParam p \<Longrightarrow> noCtl (paramText p) \<and> CHR ''#'' \<notin> set (paramText p)"
  using qKey_not [of "fst p" "CHR ''#''"] paramVal_not [of p "CHR ''#''"] qKey_noCtl [of "fst p"]
  by (cases "fst p \<in> {''mport'', ''alpn''}")
    (auto simp: paramText_val qParam_def paramVal_def queryEscape_noCtl qRaw_def)

section \<open>From the generator to the parser\<close>

text \<open>A published address with a plain host, a port and a remark.\<close>

definition plainAddr :: "obj \<Rightarrow> string \<Rightarrow> nat \<Rightarrow> string \<Rightarrow> bool" where
  "plainAddr addr h p r \<longleftrightarrow> oget addr ''server'' = JStr h \<and> plain h \<and> oget addr ''server_port'' = JNum (int p) \<and>
     p < 65536 \<and> oget addr ''remark'' = JStr r"

lemma finishLink_plain:
  assumes "schemeText sch" "plainUser us" "plainAddr addr h p r"
  shows "finishLink (sch @ ''://'' @ authText us) addr ps =
    Inr (linkText sch us (hostPortText h p) (joinStr ''&'' (map paramText ps)) r)"
proof -
  have "itoa (int p) = natDigits p" by (simp add: itoa_def)
  then have "hostPort (sch @ ''://'' @ authText us) addr = Inr (sch @ ''://'' @ authText us @ hostPortText h p)"
    using assms(3) by (simp add: hostPort_def plainAddr_def numOr0_def hostPortText_def)
  with addParams_link [OF assms(1,2), of h p ps r] assms(3) show ?thesis
    by (simp add: finishLink_def plainAddr_def)
qed

lemma link_read_back:
  assumes "schemeText sch" "plainUser us" "plainAddr addr h p r" "\<forall>x \<in> set ps. qParam x"
  shows "urlParse (linkText sch us (hostPortText h p) (joinStr ''&'' (map paramText ps)) r) =
      Some (linkUrl sch us (hostPortText h p) (joinStr ''&'' (map paramText ps)) r)"
    "parseQuery (joinStr ''&'' (map paramText ps)) = ps"
    "hostAndPort (hostPortText h p) d = (h, int p)"
proof -
  let ?q = "joinStr ''&'' (map paramText ps)"
  have safe: "\<forall>x \<in> set (map paramText ps). noCtl x" "\<forall>x \<in> set (map paramText ps). CHR ''#'' \<notin> set x"
    using assms(4) paramText_safe by auto
  have "noCtl ?q" by (rule joinStr_noCtl [OF _ safe(1)]) simp
  moreover have "CHR ''#'' \<notin> set ?q" by (rule joinStr_not [OF _ safe(2)]) simp
  ultimately  show "urlParse (linkText sch us (hostPortText h p) ?q r) = Some (linkUrl sch us (hostPortText h p) ?q r)"
    using assms by (intro urlParse_linkText) (auto simp: plainAddr_def)
  show "parseQuery ?q = ps"
    using assms(4) by (rule parseQuery_params)
  have "plain h" and p: "p < 65536" using assms(3) by (simp_all add: plainAddr_def)
  then have "splitHostPort (hostPortText h p) = Some (h, natDigits p)"
    unfolding hostPortText_def
    using plain_not [of h] natDigits_digits by (intro splitHostPort_plain) auto
  moreover have "itoa (int p) = natDigits p" by (simp add: itoa_def)
  then have "atoi (natDigits p) = (int p, True)"
    using atoi_itoa [of "int p"] p by (simp add: minInt64_def maxInt64_def)
  ultimately show "hostAndPort (hostPortText h p) d = (h, int p)"
    by (simp add: hostAndPort_def hostPort0_def)
qed

lemma strParam_key: "kv \<in> set (strParam m k n) \<Longrightarrow> fst kv = n"
  by (auto simp: strParam_def split: option.splits)

lemma numParam_key: "kv \<in> set (numParam m k n) \<Longrightarrow> fst kv = n"
  by (auto simp: numParam_def split: option.splits)

lemma flagParam_key: "kv \<in> set (flagParam m k n) \<Longrightarrow> fst kv = n"
  by (auto simp: flagParam_def split: if_splits)

lemma listParam_key: "listParam m k n = Inr ps \<Longrightarrow> kv \<in> set ps \<Longrightarrow> fst kv = n"
  by (auto simp: listParam_def bindR_eq_Inr split: option.splits)

lemmas param_keys = strParam_key numParam_key flagParam_key listParam_key

definition tlsKeys :: "string set" where
  "tlsKeys = {''security'', ''pbk'', ''sid'', ''insecure'', ''disable_sni'', ''fp'', ''sni'', ''alpn''}"

lemma security_key: "kv \<in> set (case r of Some m \<Rightarrow> (''security'', ''reality'') # strParam m ''public_key'' ''pbk'' @ strParam m ''short_id'' ''sid''
     | None \<Rightarrow> (''security'', ''tls'') # flagParam tls ''insecure'' ''insecure'' @ flagParam tls ''disable_sni'' ''disable_sni'')
   \<Longrightarrow> fst kv \<in> tlsKeys"
  unfolding tlsKeys_def by (cases r) (auto dest!: param_keys)

lemma getTlsParams_keys:
  assumes "getTlsParams tls ''insecure'' = Inr ps" "kv \<in> set ps"
  shows "fst kv \<in> tlsKeys"
proof -
  obtain r al where al: "listParam tls ''alpn'' ''alpn'' = Inr al"
    and ps: "ps = (case r of Some m \<Rightarrow> (''security'', ''reality'') # strParam m ''public_key'' ''pbk'' @ strParam m ''short_id'' ''sid''
        | None \<Rightarrow> (''security'', ''tls'') # flagParam tls ''insecure'' ''insecure'' @ flagParam tls ''disable_sni'' ''disable_sni'')
      @ strParam (objOr0 (oget tls ''utls'')) ''fingerprint'' ''fp'' @ strParam tls ''server_name'' ''sni'' @ al"
    using assms(1) unfolding getTlsParams_def bindR_eq_Inr Let_def by blast
  have "fst kv \<in> {''fp'', ''sni'', ''alpn''} \<Longrightarrow> fst kv \<in> tlsKeys" by (auto simp: tlsKeys_def)
  moreover have "fst kv \<in> tlsKeys \<or> fst kv \<in> {''fp'', ''sni'', ''alpn''}"
    using assms(2) security_key [where kv = kv and r = r and tls = tls] listParam_key [OF al] strParam_key
    unfolding ps set_append Un_iff by blast
  ultimately show ?thesis by blast
qed

lemma addrTls_keys: "addrTls addr ''insecure'' = Inr ps \<Longrightarrow> kv \<in> set ps \<Longrightarrow> fst kv \<in> tlsKeys"
  using getTlsParams_keys by (auto simp: addrTls_def split: option.splits)

lemma tlsKeys_qKey: "k \<in> tlsKeys \<Longrightarrow> qKey k"
  unfolding tlsKeys_def by (elim insertE emptyE) (simp_all add: qKey_def isAlnum_def)

lemma map_of_skip: "(\<forall>kv \<in> set xs. fst kv \<noteq> k) \<Longrightarrow> map_of (xs @ ys) k = map_of ys k"
  by (induction xs) auto

lemma qget_skip: "(\<forall>kv \<in> set xs. fst kv \<noteq> k) \<Longrightarrow> qget (xs @ ys) k = qget ys k"
  using map_of_skip [of xs k ys] by (simp only: qget_def)

lemma qget_Cons: "qget ((k', v) # q) k = (if k = k' then v else qget q k)"
  by (simp add: qget_def)

lemma setPos_itoa: "0 < n \<Longrightarrow> n \<le> maxInt64 \<Longrightarrow> setPos k (itoa n) m = oset k (JInt n) m"
  by (simp add: setPos_def atoi_itoa minInt64_def)

text \<open>The parameters of a Hysteria2 link in the order the generator writes them.\<close>

definition hy2Params :: "obj \<Rightarrow> param list \<Rightarrow> param list \<Rightarrow> param list" where
  "hy2Params ib tp mport = mbpsParams ib @ tp @ obfsParams ib @ bit01 ib ''tcp_fast_open'' ''fastopen'' @ mport"

lemma mbps_keys: "kv \<in> set (mbpsParams ib) \<Longrightarrow> fst kv = ''downmbps'' \<or> fst kv = ''upmbps''"
  by (auto simp: mbpsParams_def dest!: param_keys)

lemma obfs_keys: "kv \<in> set (obfsParams ib) \<Longrightarrow> fst kv = ''obfs'' \<or> fst kv = ''obfs-password''"
  by (auto simp: obfsParams_def dest!: param_keys)

lemma mport_keys: "mportParam ib = Inr (Some mp) \<Longrightarrow> kv \<in> set mp \<Longrightarrow> fst kv = ''mport''"
  unfolding mportParam_def bindR_eq_Inr by (elim exE conjE) (auto simp: bindR_eq_Inr split: sum.splits dest: listParam_key)

lemma hy2Params_ok:
  assumes "addrTls addr ''insecure'' = Inr tp" "mportParam ib = Inr (Some mp)"
    and "\<forall>kv \<in> set (tp @ mp). fst kv \<in> {''mport'', ''alpn''} \<longrightarrow> qRaw (snd kv)"
  shows "\<forall>x \<in> set (hy2Params ib tp mp). qParam x"
proof
  fix x assume "x \<in> set (hy2Params ib tp mp)"
  then consider "x \<in> set (mbpsParams ib @ obfsParams ib @ bit01 ib ''tcp_fast_open'' ''fastopen'')"
    | "x \<in> set tp" | "x \<in> set mp" by (auto simp: hy2Params_def)
  then show "qParam x"
  proof cases
    case 1
    then have "fst x \<in> {''downmbps'', ''upmbps'', ''obfs'', ''obfs-password'', ''fastopen''}"
      using mbps_keys [of x ib] obfs_keys [of x ib] by (auto simp: bit01_def)
    then show ?thesis
      by (elim insertE emptyE) (simp_all add: qParam_def qKey_def isAlnum_def)
  next
    case 2
    then show ?thesis using assms(3) tlsKeys_qKey addrTls_keys [OF assms(1)] by (auto simp: qParam_def)
  next
    case 3
    then show ?thesis
      using assms(3) mport_keys [OF assms(2)] by (auto simp: qParam_def qKey_def isAlnum_def)
  qed
qed

lemma tlsKeys_not: "k \<in> {''downmbps'', ''upmbps'', ''obfs'', ''obfs-password''} \<Longrightarrow> k \<notin> tlsKeys"
  unfolding tlsKeys_def by (elim insertE emptyE) simp_all

lemma tp_skip:
  assumes "addrTls addr ''insecure'' = Inr tp" "k \<in> {''downmbps'', ''upmbps'', ''obfs'', ''obfs-password''}"
  shows "qget (tp @ ys) k = qget ys k"
  using addrTls_keys [OF assms(1)] tlsKeys_not [OF assms(2)] by (intro qget_skip) blast

lemma hy2Params_mbps:
  "oget ib ''up_mbps'' = JNum n \<Longrightarrow> qget (hy2Params ib tp mp) ''downmbps'' = itoa n"
  "oget ib ''down_mbps'' = JNum n \<Longrightarrow> qget (hy2Params ib tp mp) ''upmbps'' = itoa n"
  by (auto simp: hy2Params_def mbpsParams_def numParam_def qget_def split: option.split)

lemma hy2Params_obfs:
  assumes "addrTls addr ''insecure'' = Inr tp"
    and "oget ib ''obfs'' = JObj [(''type'', JStr ''salamander''), (''password'', JStr w)]"
  shows "qget (hy2Params ib tp mp) ''obfs'' = ''salamander''" "qget (hy2Params ib tp mp) ''obfs-password'' = w"
proof -
  have o: "obfsParams ib = [(''obfs'', ''salamander''), (''obfs-password'', w)]"
    using assms(2) by (simp add: obfsParams_def strParam_def objOr0_def oget_def)
  have m: "qget (mbpsParams ib @ ys) k = qget ys k" if "k \<noteq> ''downmbps''" "k \<noteq> ''upmbps''" for k ys
    using mbps_keys [of _ ib] that by (intro qget_skip) blast
  show "qget (hy2Params ib tp mp) ''obfs'' = ''salamander''" "qget (hy2Params ib tp mp) ''obfs-password'' = w"
    unfolding hy2Params_def o by (simp_all add: m tp_skip [OF assms(1)] qget_Cons)
qed

lemma hysteria2Link_text:
  assumes "oget cfg ''password'' = JStr pw" "plain pw" "plainAddr addr h p r"
    and "addrTls addr ''insecure'' = Inr tp" "mportParam ib = Inr (Some mp)"
  shows "hysteria2Link cfg ib [addr] = Inr [linkText ''hysteria2'' (Some (pw, None)) (hostPortText h p)
      (joinStr ''&'' (map paramText (hy2Params ib tp mp))) r]"
proof -
  have sch: "schemeText ''hysteria2''"
    by (simp add: schemeText_def isLetter_def isDigit_def toLower_def lowerChar_def)
  have "finishLink (''hysteria2'' @ ''://'' @ authText (Some (pw, None))) addr (hy2Params ib tp mp) =
      Inr (linkText ''hysteria2'' (Some (pw, None)) (hostPortText h p)
      (joinStr ''&'' (map paramText (hy2Params ib tp mp))) r)"
    using assms(2,3) by (intro finishLink_plain [OF sch]) auto
  then show ?thesis
    using assms(1,4,5) by (simp add: hysteria2Link_def strOr0_def hy2Params_def)
qed

lemma GetOutbound_hysteria2:
  "urlParse t = Some (linkUrl ''hysteria2'' us hp q r) \<Longrightarrow> GetOutbound t i = hy2 (linkUrl ''hysteria2'' us hp q r) i"
  by (simp add: GetOutbound_def linkUrl_def emptyUrl_def)

lemma map_of_setPos: "map_of (setPos k s m) k' = (if k' = k \<and> fst (atoi s) > 0 then Some (JInt (fst (atoi s))) else map_of m k')"
  by (simp add: setPos_def Let_def)

lemma map_of_setList: "map_of (setList k s m) k' = (if k' = k \<and> s \<noteq> [] then Some (JStrs (split s '','')) else map_of m k')"
  by (simp add: setList_def)

lemma map_of_setFlag: "map_of (setFlag k b m) k' = (if k' = k \<and> b then Some (JBool True) else map_of m k')"
  by (simp add: setFlag_def)

lemmas map_of_setters = map_of_setPos map_of_setList map_of_setFlag

lemma hy2_fields:
  assumes "parseQuery q = ps" "hostAndPort hp 443 = (h, port)"
  shows "\<exists>o1. hy2 (linkUrl sch (Some (pw, None)) hp q r) 0 = Inr (o1, r) \<and>
    map_of o1 ''type'' = Some (JStr ''hysteria2'') \<and> map_of o1 ''server'' = Some (JStr h) \<and>
    map_of o1 ''server_port'' = Some (JInt port) \<and> map_of o1 ''password'' = Some (JStr pw) \<and>
    (fst (atoi (qget ps ''downmbps'')) > 0 \<longrightarrow> map_of o1 ''down_mbps'' = Some (JInt (fst (atoi (qget ps ''downmbps''))))) \<and>
    (fst (atoi (qget ps ''upmbps'')) > 0 \<longrightarrow> map_of o1 ''up_mbps'' = Some (JInt (fst (atoi (qget ps ''upmbps''))))) \<and>
    (qget ps ''obfs'' = ''salamander'' \<longrightarrow> map_of o1 ''obfs'' =
       Some (JObj [(''type'', JStr ''salamander''), (''password'', JStr (qget ps ''obfs-password''))]))"
  unfolding hy2_def linkUrl_def emptyUrl_def url.simps Let_def assms prod.case
  by (simp add: assms map_of_setters tagOf_def urlUsername_def)


definition sample_hy2_ib :: obj where
  "sample_hy2_ib = [(''up_mbps'', JNum 100), (''down_mbps'', JNum 50),
     (''obfs'', JObj [(''type'', JStr ''salamander''), (''password'', JStr ''s3 cret&'')]),
     (''out_json'', JRaw (RText (JObj [(''server_ports'', JArr [JStr ''2000:3000''])])))]"

definition sample_hy2_addr :: obj where
  "sample_hy2_addr = [(''server'', JStr ''vpn.example.org''), (''server_port'', JNum 443), (''remark'', JStr ''my #1''),
     (''tls'', JObj [(''enabled'', JBool True), (''server_name'', JStr ''vpn.example.org'')])]"


section \<open>Two links that do not say what the inbound does\<close>

text \<open>Once one address of an HTTP inbound has TLS, every later link is an \<open>https\<close> link.\<close>

lemma httpLink_sticky_tls:
  "httpLink [(''username'', JStr ''u''), (''password'', JStr ''p'')]
     [[(''server'', JStr ''a''), (''server_port'', JNum 1), (''tls'', JObj [])],
      [(''server'', JStr ''b''), (''server_port'', JNum 2)]]
   = Inr [''https://u:p@a:1'', ''https://u:p@b:2'']"
  by (simp add: httpLink_def credsAt_def oget_def portU_def mustNum_def must_def itoa_def natDigits.simps digitChar_def char_of_eq_iff)

text \<open>A password that is not valid in a URL makes the generator dereference an unparsed URL.\<close>

lemma hysteria2Link_bad_password:
  "hysteria2Link [(''password'', JStr ''a b'')] [(''out_json'', JRaw (RText (JObj [])))]
     [[(''server'', JStr ''h''), (''server_port'', JNum 1), (''remark'', JStr ''r'')]]
   = Inl (Panic ''nil pointer dereference'')"
  by (simp add: hysteria2Link_def addrTls_def oget_def mportParam_def must_def nilObj_def listParam_def
      finishLink_def hostPort_def strOr0_def numOr0_def itoa_def natDigits.simps digitChar_def addParams_def
      urlParse_def parseNoFragment_def hasCtl_def isLetter_def isDigit_def toLower_def lowerChar_def
      hasSuffix_def parseHier_def hasPrefix_def parseHost_def parseUserinfo_def validUserinfo_def isAlnum_def
      lastColon_def validOptionalPort_def shouldEscape_def emptyUrl_def)

end
