(* ===== verification/Hy2Service.thy ===== *)
theory Hy2Service
  imports GoJson
begin

text \<open>
  The patched Hysteria2 service (\<open>forks/patched-files/sing-quic/hysteria2/service.go\<close> and
  \<open>forks/patched-files/sing-box/protocol/hysteria2/inbound.go\<close>): a map from passwords to user
  names that the panel swaps while the service runs, and the sessions that authenticated against
  it.  QUIC connections are identified by numbers.  The handshake of a session reads the map under
  one lock and records the authentication under another, so it is two steps here, and other
  steps may come between them; the panel's live update is a swap followed by an eviction.
\<close>

section \<open>State\<close>

record hsession =
  se_authed :: bool
  se_user :: string
  se_pw :: string
  se_pending :: "(string \<times> string) list"
  se_done :: bool

record hoptions =
  ho_sendBPS :: nat
  ho_receiveBPS :: nat
  ho_ignoreBandwidth :: bool
  ho_udpDisabled :: bool

record hservice =
  hv_opts :: hoptions
  hv_users :: "(string \<times> string) list"
  hv_sessions :: "(nat \<times> hsession) list"

definition NewService :: "hoptions \<Rightarrow> hservice" where
  "NewService opts = \<lparr>hv_opts = opts, hv_users = [], hv_sessions = []\<rparr>"

section \<open>The user map\<close>

text \<open>The loop of \<open>UpdateUsers\<close>: \<open>passwordList[i]\<close> panics where the second list is shorter.\<close>

fun buildUserMap :: "string list \<Rightarrow> string list \<Rightarrow> (string \<times> string) list \<Rightarrow> (string \<times> string) list res" where
  "buildUserMap [] pws m = Inr m"
| "buildUserMap (u # us) [] m = Inl (Panic ''index out of range'')"
| "buildUserMap (u # us) (p # pws) m = buildUserMap us pws (AList.update p u m)"

definition UpdateUsers :: "string list \<Rightarrow> string list \<Rightarrow> hservice \<Rightarrow> hservice res" where
  "UpdateUsers userList passwordList s =
     bindR (buildUserMap userList passwordList []) (\<lambda>m. Inr (s\<lparr>hv_users := m\<rparr>))"

section \<open>Sessions\<close>

definition newSession :: hsession where
  "newSession = \<lparr>se_authed = False, se_user = [], se_pw = [], se_pending = [], se_done = False\<rparr>"

definition addSession :: "nat \<Rightarrow> hservice \<Rightarrow> hservice" where
  "addSession c s = s\<lparr>hv_sessions := AList.update c newSession (hv_sessions s)\<rparr>"

definition removeSession :: "nat \<Rightarrow> hservice \<Rightarrow> hservice" where
  "removeSession c s = s\<lparr>hv_sessions := AList.delete c (hv_sessions s)\<rparr>"

definition closeWithError :: "hsession \<Rightarrow> hsession" where
  "closeWithError se = (if se_done se then se else se\<lparr>se_done := True\<rparr>)"

definition RetainUsers :: "string list \<Rightarrow> hservice \<Rightarrow> hservice" where
  "RetainUsers passwords s = s\<lparr>hv_sessions := map (\<lambda>(c, se).
     (c, if se_authed se \<and> se_pw se \<notin> set passwords then closeWithError se else se)) (hv_sessions s)\<rparr>"

section \<open>The handshake\<close>

record hrequest =
  rq_isAuth :: bool
  rq_auth :: string
  rq_rx :: nat

datatype congestion = KeepCC | Brutal nat | Bbr

datatype reply = Masquerade | AuthOK bool nat bool

text \<open>The read of the user map (under \<open>userAccess\<close>), and the write of the session (under
  \<open>authAccess\<close>).\<close>

definition lookupUser :: "string \<Rightarrow> hservice \<Rightarrow> string option" where
  "lookupUser pw s = map_of (hv_users s) pw"

definition markAuth :: "string \<Rightarrow> string \<Rightarrow> hsession \<Rightarrow> hsession" where
  "markAuth user pw se = se\<lparr>se_authed := True, se_user := user, se_pw := pw\<rparr>"

definition bandwidth :: "hoptions \<Rightarrow> nat \<Rightarrow> reply \<times> congestion" where
  "bandwidth opt rx =
     (if ho_receiveBPS opt > 0 \<and> ho_ignoreBandwidth opt \<and> rx = 0 then (Masquerade, KeepCC)
      else if \<not> (ho_receiveBPS opt = 0 \<and> ho_ignoreBandwidth opt) \<and> rx > 0 then
        (AuthOK (\<not> ho_udpDisabled opt) (ho_receiveBPS opt) False,
         Brutal (if ho_sendBPS opt > 0 \<and> rx > ho_sendBPS opt then ho_sendBPS opt else rx))
      else (AuthOK (\<not> ho_udpDisabled opt) (ho_receiveBPS opt) True, Bbr))"

definition ServeHTTP :: "hrequest \<Rightarrow> hservice \<Rightarrow> hsession \<Rightarrow> reply \<times> congestion \<times> hsession" where
  "ServeHTTP rq s se =
     (if \<not> rq_isAuth rq then (Masquerade, KeepCC, se)
      else if se_authed se then
        (AuthOK (\<not> ho_udpDisabled (hv_opts s)) (ho_receiveBPS (hv_opts s))
           (ho_receiveBPS (hv_opts s) = 0 \<and> ho_ignoreBandwidth (hv_opts s)), KeepCC, se)
      else case lookupUser (rq_auth rq) s of
          None \<Rightarrow> (Masquerade, KeepCC, se)
        | Some user \<Rightarrow> (case bandwidth (hv_opts s) (rq_rx rq) of (rep, cc) \<Rightarrow>
            (rep, cc, markAuth user (rq_auth rq) se)))"

text \<open>A stream of a session that is not authenticated, or of another frame type, goes to HTTP/3.\<close>

definition dispatchStream :: "hsession \<Rightarrow> bool \<Rightarrow> bool \<Rightarrow> bool" where
  "dispatchStream se isTCPRequest err \<longleftrightarrow> se_authed se \<and> \<not> err \<and> isTCPRequest"

text \<open>The user the router accounts a dispatched stream under (\<open>NewConnectionEx\<close>).\<close>

definition streamUser :: "hsession \<Rightarrow> string" where
  "streamUser se = se_user se"

section \<open>The service as a transition system\<close>

text \<open>
  The events: a connection arrives or leaves, a handshake reads the user map, a handshake that
  has read it commits, the panel swaps the users, the panel evicts the removed ones.
\<close>

datatype hevent = Connect nat | Disconnect nat | HsRead nat string | HsCommit nat string string
  | Swap "string list" "string list" | Evict "string list"

definition updSession :: "nat \<Rightarrow> (hsession \<Rightarrow> hsession) \<Rightarrow> hservice \<Rightarrow> hservice" where
  "updSession c f s = (case map_of (hv_sessions s) c of None \<Rightarrow> s
     | Some se \<Rightarrow> s\<lparr>hv_sessions := AList.update c (f se) (hv_sessions s)\<rparr>)"

inductive hstep :: "hservice \<Rightarrow> hevent \<Rightarrow> hservice \<Rightarrow> bool" where
  connect: "map_of (hv_sessions s) c = None \<Longrightarrow> hstep s (Connect c) (addSession c s)"
| disconnect: "hstep s (Disconnect c) (removeSession c s)"
| hsRead: "map_of (hv_sessions s) c = Some se \<Longrightarrow> \<not> se_authed se \<Longrightarrow> lookupUser pw s = Some u \<Longrightarrow>
    hstep s (HsRead c pw) (updSession c (\<lambda>se. se\<lparr>se_pending := (u, pw) # se_pending se\<rparr>) s)"
| hsCommit: "map_of (hv_sessions s) c = Some se \<Longrightarrow> (u, pw) \<in> set (se_pending se) \<Longrightarrow>
    hstep s (HsCommit c u pw) (updSession c (\<lambda>se. markAuth u pw
      (se\<lparr>se_pending := remove1 (u, pw) (se_pending se)\<rparr>)) s)"
| swap: "UpdateUsers us pws s = Inr s' \<Longrightarrow> hstep s (Swap us pws) s'"
| evict: "hstep s (Evict pws) (RetainUsers pws s)"

inductive_cases hstepE: "hstep s e s'"

inductive hsteps :: "hservice \<Rightarrow> hevent list \<Rightarrow> hservice \<Rightarrow> bool" where
  refl: "hsteps s [] s"
| step: "hstep s e s1 \<Longrightarrow> hsteps s1 es s2 \<Longrightarrow> hsteps s (e # es) s2"

inductive_simps hsteps_Nil [simp]: "hsteps s [] s'"
inductive_simps hsteps_Cons: "hsteps s (e # es) s'"

definition liveSession :: "hservice \<Rightarrow> nat \<Rightarrow> hsession \<Rightarrow> bool" where
  "liveSession s c se \<longleftrightarrow> map_of (hv_sessions s) c = Some se \<and> se_authed se \<and> \<not> se_done se"

section \<open>Lemmas on the operations\<close>

lemma buildUserMap_map:
  "length us \<le> length pws \<Longrightarrow> \<exists>m'. buildUserMap us pws m = Inr m' \<and>
     map_of m' = map_of m ++ map_of (rev (zip pws us))"
proof (induction us pws m rule: buildUserMap.induct)
  case (3 u us p pws m)
  from 3(2) have "length us \<le> length pws" by simp
  from 3(1) [OF this] obtain m' where "buildUserMap us pws (AList.update p u m) = Inr m'"
    and "map_of m' = map_of (AList.update p u m) ++ map_of (rev (zip pws us))" by blast
  then show ?case by (simp add: fun_eq_iff map_add_def split: option.split)
qed auto

lemma UpdateUsers_map:
  assumes "length us \<le> length pws"
  shows "\<exists>s'. UpdateUsers us pws s = Inr s' \<and> hv_sessions s' = hv_sessions s \<and>
    hv_opts s' = hv_opts s \<and> (\<forall>pw. lookupUser pw s' = map_of (rev (zip pws us)) pw)"
  using buildUserMap_map [OF assms, of "[]"] by (auto simp: UpdateUsers_def lookupUser_def)

lemma UpdateUsers_sessions: "UpdateUsers us pws s = Inr s' \<Longrightarrow> hv_sessions s' = hv_sessions s"
  by (auto simp: UpdateUsers_def bindR_eq_Inr)

lemma map_of_map_snd: "map_of (map (\<lambda>(k, v). (k, f v)) m) k = map_option f (map_of m k)"
  by (induction m) auto

lemma RetainUsers_session: "map_of (hv_sessions (RetainUsers pws s)) c =
    map_option (\<lambda>se. if se_authed se \<and> se_pw se \<notin> set pws then closeWithError se else se) (map_of (hv_sessions s) c)"
  by (simp add: RetainUsers_def map_of_map_snd)

lemma closeWithError_simps [simp]:
  "se_done (closeWithError se)" "se_authed (closeWithError se) = se_authed se"
  "se_pw (closeWithError se) = se_pw se" "se_user (closeWithError se) = se_user se"
  "se_pending (closeWithError se) = se_pending se"
  by (simp_all add: closeWithError_def)

lemma map_of_updSession: "map_of (hv_sessions (updSession c f s)) c' =
    (if c' = c then map_option f (map_of (hv_sessions s) c) else map_of (hv_sessions s) c')"
  by (simp add: updSession_def split: option.split)

lemma updSession_users [simp]: "hv_users (updSession c f s) = hv_users s"
  by (simp add: updSession_def split: option.split)

lemma UpdateUsers_exact_set:
  assumes "UpdateUsers us pws s = Inr s'" "length us = length pws"
  shows "(lookupUser pw s' \<noteq> None) = (pw \<in> set pws)"
proof -
  have "lookupUser pw s' = map_of (rev (zip pws us)) pw"
    using UpdateUsers_map [of us pws s] assms by auto
  moreover have "fst ` set (zip pws us) = set pws"
    using assms(2) by (metis list.set_map map_fst_zip)
  ultimately show ?thesis by (simp add: map_of_eq_None_iff del: not_None_eq)
qed

text \<open>
  The swap installs exactly the panel's list: a password authenticates if and only if the panel
  listed it, under the name that stands beside its last occurrence, and it touches no session.
\<close>

lemma UpdateUsers_exact:
  assumes "length us = length pws"
  shows "\<exists>s'. UpdateUsers us pws s = Inr s' \<and> hv_sessions s' = hv_sessions s \<and>
    (\<forall>pw. (lookupUser pw s' \<noteq> None) = (pw \<in> set pws)) \<and>
    (\<forall>i < length pws. (\<forall>j < length pws. i < j \<longrightarrow> pws ! j \<noteq> pws ! i) \<longrightarrow> lookupUser (pws ! i) s' = Some (us ! i))"
proof -
  obtain s' where s': "UpdateUsers us pws s = Inr s'" "hv_sessions s' = hv_sessions s"
    and look: "\<And>pw. lookupUser pw s' = map_of (rev (zip pws us)) pw"
    using UpdateUsers_map [of us pws s] assms by auto
  have "(lookupUser pw s' \<noteq> None) = (pw \<in> set pws)" for pw
    by (rule UpdateUsers_exact_set [OF s'(1) assms])
  moreover have "lookupUser (pws ! i) s' = Some (us ! i)"
    if i: "i < length pws" and lastp: "\<forall>j < length pws. i < j \<longrightarrow> pws ! j \<noteq> pws ! i" for i
  proof -
    have "zip pws us = zip (take i pws) (take i us) @ (pws ! i, us ! i) # zip (drop (Suc i) pws) (drop (Suc i) us)"
      using i assms by (metis Cons_nth_drop_Suc append_take_drop_id length_take min.absorb4 zip_Cons_Cons zip_append)
    moreover have "pws ! i \<notin> set (drop (Suc i) pws)"
      using lastp i by (auto simp: in_set_conv_nth)
    then have "map_of (rev (zip (drop (Suc i) pws) (drop (Suc i) us))) (pws ! i) = None"
      by (auto simp: map_of_eq_None_iff dest: set_zip_leftD)
    ultimately show ?thesis by (simp add: look map_add_def)
  qed
  ultimately show ?thesis using s' by blast
qed

theorem UpdateUsers_exact_witness:
  "\<exists>s'. UpdateUsers [''ann'', ''bob''] [''pa'', ''pb''] (NewService \<lparr>ho_sendBPS = 0, ho_receiveBPS = 0,
      ho_ignoreBandwidth = False, ho_udpDisabled = False\<rparr>) = Inr s' \<and>
    lookupUser ''pb'' s' = Some ''bob'' \<and> lookupUser ''px'' s' = None"
proof -
  have l: "length [''ann'', ''bob''] = length [''pa'', ''pb'']" by simp
  let ?s = "NewService \<lparr>ho_sendBPS = 0, ho_receiveBPS = 0, ho_ignoreBandwidth = False, ho_udpDisabled = False\<rparr>"
  obtain s' where s': "UpdateUsers [''ann'', ''bob''] [''pa'', ''pb''] ?s = Inr s'"
    and dom: "\<forall>pw. (lookupUser pw s' \<noteq> None) = (pw \<in> set [''pa'', ''pb''])"
    and val: "\<forall>i < length [''pa'', ''pb'']. (\<forall>j < length [''pa'', ''pb'']. i < j \<longrightarrow> [''pa'', ''pb''] ! j \<noteq> [''pa'', ''pb''] ! i)
      \<longrightarrow> lookupUser ([''pa'', ''pb''] ! i) s' = Some ([''ann'', ''bob''] ! i)"
    using UpdateUsers_exact [OF l, of ?s] by blast
  have "lookupUser ''px'' s' = None"
    using spec [OF dom, of "''px''"] by simp
  moreover have "lookupUser ''pb'' s' = Some ''bob''"
    using spec [OF val, of 1] by simp
  ultimately show ?thesis using s' by blast
qed

text \<open>
  The eviction closes exactly the sessions whose password was removed: every authenticated session
  with a password outside the list is closed, and every other session is left exactly as it was, so
  a live update never drops the connection of a user who stays.
\<close>

lemma RetainUsers_exact:
  "(\<forall>se. \<not> (liveSession (RetainUsers pws s) c se \<and> se_pw se \<notin> set pws)) \<and>
   (\<forall>se. liveSession s c se \<and> se_pw se \<in> set pws \<longrightarrow> liveSession (RetainUsers pws s) c se) \<and>
   (\<forall>se. map_of (hv_sessions s) c = Some se \<and> \<not> se_authed se \<longrightarrow> map_of (hv_sessions (RetainUsers pws s)) c = Some se)"
  by (auto simp: liveSession_def RetainUsers_session split: if_splits)

definition two_sessions :: hservice where
  "two_sessions = \<lparr>hv_opts = \<lparr>ho_sendBPS = 0, ho_receiveBPS = 0, ho_ignoreBandwidth = False, ho_udpDisabled = False\<rparr>,
     hv_users = [(''pa'', ''ann''), (''pb'', ''bob'')],
     hv_sessions = [(1, \<lparr>se_authed = True, se_user = ''ann'', se_pw = ''pa'', se_pending = [], se_done = False\<rparr>),
                    (2, \<lparr>se_authed = True, se_user = ''bob'', se_pw = ''pb'', se_pending = [], se_done = False\<rparr>)]\<rparr>"

theorem RetainUsers_exact_witness:
  "liveSession (RetainUsers [''pb''] two_sessions) 2
     \<lparr>se_authed = True, se_user = ''bob'', se_pw = ''pb'', se_pending = [], se_done = False\<rparr> \<and>
   \<not> liveSession (RetainUsers [''pb''] two_sessions) 1
     \<lparr>se_authed = True, se_user = ''ann'', se_pw = ''pa'', se_pending = [], se_done = False\<rparr>"
proof -
  let ?b = "\<lparr>se_authed = True, se_user = ''bob'', se_pw = ''pb'', se_pending = [], se_done = False\<rparr>"
  have "liveSession two_sessions 2 ?b \<and> se_pw ?b \<in> set [''pb'']"
    by (simp add: liveSession_def two_sessions_def)
  then have "liveSession (RetainUsers [''pb''] two_sessions) 2 ?b"
    using RetainUsers_exact [of "[''pb'']" two_sessions 2] by blast
  moreover have "\<not> liveSession (RetainUsers [''pb''] two_sessions) 1
     \<lparr>se_authed = True, se_user = ''ann'', se_pw = ''pa'', se_pending = [], se_done = False\<rparr>"
    using RetainUsers_exact [of "[''pb'']" two_sessions 1] by fastforce
  ultimately show ?thesis ..
qed

section \<open>What every run keeps\<close>

text \<open>
  With no handshake between its two halves when the panel swaps the users, the swap and the
  eviction together cut off everyone who was removed, for as long as the list is in force.
\<close>

definition noPending :: "hservice \<Rightarrow> bool" where
  "noPending s \<longleftrightarrow> (\<forall>c se. map_of (hv_sessions s) c = Some se \<longrightarrow> se_pending se = [])"

text \<open>Every live session and every handshake under way belongs to the list in force.\<close>

definition sessionListed :: "string list \<Rightarrow> hsession \<Rightarrow> bool" where
  "sessionListed pws se \<longleftrightarrow> snd ` set (se_pending se) \<subseteq> set pws \<and>
     (se_authed se \<and> \<not> se_done se \<longrightarrow> se_pw se \<in> set pws)"

definition onlyListed :: "string list \<Rightarrow> hservice \<Rightarrow> bool" where
  "onlyListed pws s \<longleftrightarrow> (\<forall>pw. lookupUser pw s \<noteq> None \<longrightarrow> pw \<in> set pws) \<and>
     (\<forall>c se. map_of (hv_sessions s) c = Some se \<longrightarrow> sessionListed pws se)"

definition quietEvent :: "string list \<Rightarrow> hevent \<Rightarrow> bool" where
  "quietEvent pws e = (case e of Swap us ps \<Rightarrow> ps = pws \<and> length us = length ps | _ \<Rightarrow> True)"

lemma sessionListed_simps [simp]:
  "sessionListed pws newSession"
  "sessionListed pws (se\<lparr>se_pending := (u, pw) # se_pending se\<rparr>) \<longleftrightarrow> pw \<in> set pws \<and> sessionListed pws se"
  by (auto simp: sessionListed_def newSession_def)

lemma sessionListed_commit: "sessionListed pws se \<Longrightarrow> (u, pw) \<in> set (se_pending se) \<Longrightarrow>
    sessionListed pws (markAuth u pw (se\<lparr>se_pending := remove1 (u, pw) (se_pending se)\<rparr>))"
  using set_remove1_subset [of "(u, pw)" "se_pending se"] by (fastforce simp: sessionListed_def markAuth_def)

lemma sessionListed_close: "sessionListed pws se \<Longrightarrow> sessionListed pws (closeWithError se)"
  by (simp add: sessionListed_def)

lemma onlyListed_step:
  assumes "hstep s e s'" "onlyListed pws s" "quietEvent pws e"
  shows "onlyListed pws s'"
  using assms(1)
proof cases
  case (connect c)
  then show ?thesis using assms(2) by (auto simp: onlyListed_def lookupUser_def addSession_def)
next
  case (disconnect c)
  then show ?thesis using assms(2) by (auto simp: onlyListed_def lookupUser_def removeSession_def split: if_splits)
next
  case (hsRead c se pw u)
  then show ?thesis using assms(2)
    by (auto simp: onlyListed_def lookupUser_def map_of_updSession split: if_splits)
next
  case (hsCommit c se u pw)
  then show ?thesis using assms(2) sessionListed_commit
    by (auto simp: onlyListed_def lookupUser_def map_of_updSession split: if_splits)
next
  case (swap us ps)
  then have "ps = pws" "length us = length ps" using assms(3) by (simp_all add: quietEvent_def)
  then show ?thesis
    using assms(2) swap UpdateUsers_exact_set [of us ps s s'] UpdateUsers_sessions [of us ps s s'] by (auto simp: onlyListed_def)
next
  case (evict ps)
  then show ?thesis using assms(2) sessionListed_close
    by (auto simp: onlyListed_def lookupUser_def RetainUsers_def map_of_map_snd split: if_splits)
qed

lemma onlyListed_run:
  "hsteps s es s' \<Longrightarrow> onlyListed pws s \<Longrightarrow> list_all (quietEvent pws) es \<Longrightarrow> onlyListed pws s'"
  by (induction rule: hsteps.induct) (auto intro: onlyListed_step)

lemma cutoff_start:
  assumes "UpdateUsers us pws s = Inr s1" "length us = length pws" "noPending s"
  shows "onlyListed pws (RetainUsers pws s1)"
proof -
  have "sessionListed pws se" if "map_of (hv_sessions (RetainUsers pws s1)) c = Some se" for c se
  proof -
    note h = that
    obtain z where z: "map_of (hv_sessions s) c = Some z"
      and se: "se = (if se_authed z \<and> se_pw z \<notin> set pws then closeWithError z else z)"
      using h UpdateUsers_sessions [OF assms(1)] by (auto simp: RetainUsers_session)
    have "se_pending z = []" using z assms(3) by (simp add: noPending_def)
    then show ?thesis by (simp add: se sessionListed_def)
  qed
  moreover have "lookupUser pw (RetainUsers pws s1) \<noteq> None \<longrightarrow> pw \<in> set pws" for pw
    using UpdateUsers_exact_set [OF assms(1,2), of pw] by (simp add: lookupUser_def RetainUsers_def)
  ultimately show ?thesis by (simp add: onlyListed_def)
qed

text \<open>C16
  With no handshake between its two halves at the swap, a live update is final: after the swap and
  the eviction, and after any further connections, handshakes, disconnections and repetitions of
  the same update, no live session belongs to a removed password.
\<close>

theorem live_update_final:
  assumes "noPending s" "length us = length pws" "UpdateUsers us pws s = Inr s1"
    and "hsteps (RetainUsers pws s1) es s2" "list_all (quietEvent pws) es" "liveSession s2 c se"
  shows "se_pw se \<in> set pws"
  using onlyListed_run [OF assms(4) cutoff_start [OF assms(3,2,1)] assms(5)] assms(6)
  by (auto simp: onlyListed_def liveSession_def sessionListed_def)

definition bob_only :: hservice where
  "bob_only = two_sessions\<lparr>hv_users := [(''pb'', ''bob'')]\<rparr>"

theorem live_update_final_witness:
  "liveSession (RetainUsers [''pb''] bob_only) 2 (snd (hv_sessions two_sessions ! 1)) \<and>
   se_pw (snd (hv_sessions two_sessions ! 1)) \<in> set [''pb'']"
proof -
  have 1: "noPending two_sessions" by (simp add: noPending_def two_sessions_def)
  have 2: "length [''bob''] = length [''pb'']" by simp
  have 3: "UpdateUsers [''bob''] [''pb''] two_sessions = Inr bob_only"
    by (simp add: UpdateUsers_def bob_only_def)
  have 4: "hsteps (RetainUsers [''pb''] bob_only) [] (RetainUsers [''pb''] bob_only)" by simp
  have 5: "list_all (quietEvent [''pb'']) []" by simp
  have 6: "liveSession (RetainUsers [''pb''] bob_only) 2 (snd (hv_sessions two_sessions ! 1))"
    by (simp add: liveSession_def RetainUsers_session bob_only_def two_sessions_def)
  show ?thesis
    using 6 live_update_final [OF 1 2 3 4 5 6] by blast
qed

text \<open>C39
  The panel's kick is not immediate for a handshake that has read the user map but not yet recorded
  it: it commits after the eviction, and a live session then authenticates with a password that the
  map in force does not hold.
\<close>

theorem kick_can_be_overtaken:
  "\<exists>s es s' se. hsteps (NewService opts) es s \<and>
     hsteps s [Swap [] [], Evict [], HsCommit 1 ''eve'' ''pe''] s' \<and>
     hv_users s' = [] \<and> liveSession s' 1 se \<and> se_user se = ''eve'' \<and> se_pw se = ''pe''"
proof -
  let ?es = "[Swap [''eve''] [''pe''], Connect 1, HsRead 1 ''pe'']"
  let ?s1 = "(NewService opts)\<lparr>hv_users := [(''pe'', ''eve'')]\<rparr>"
  let ?s2 = "addSession 1 ?s1"
  let ?s3 = "updSession 1 (\<lambda>se. se\<lparr>se_pending := (''eve'', ''pe'') # se_pending se\<rparr>) ?s2"
  let ?s4 = "?s3\<lparr>hv_users := []\<rparr>"
  let ?s5 = "RetainUsers [] ?s4"
  let ?s6 = "updSession 1 (\<lambda>se. markAuth ''eve'' ''pe'' (se\<lparr>se_pending := remove1 (''eve'', ''pe'') (se_pending se)\<rparr>)) ?s5"
  let ?p = "newSession\<lparr>se_pending := [(''eve'', ''pe'')]\<rparr>"
  have s3: "map_of (hv_sessions ?s3) 1 = Some ?p"
    by (simp add: map_of_updSession addSession_def newSession_def)
  have s5: "map_of (hv_sessions ?s5) 1 = Some ?p"
    using s3 by (simp add: RetainUsers_session newSession_def)
  have "hstep (NewService opts) (Swap [''eve''] [''pe'']) ?s1"
    by (rule hstep.swap) (simp add: UpdateUsers_def NewService_def)
  moreover have "hstep ?s1 (Connect 1) ?s2"
    by (rule hstep.connect) (simp add: NewService_def)
  moreover have "hstep ?s2 (HsRead 1 ''pe'') ?s3"
    by (rule hstep.hsRead [where se = newSession]) (simp_all add: addSession_def lookupUser_def newSession_def)
  ultimately have run1: "hsteps (NewService opts) ?es ?s3"
    by (blast intro: hsteps.intros)
  have "hstep ?s3 (Swap [] []) ?s4"
    by (rule hstep.swap) (simp add: UpdateUsers_def)
  moreover have "hstep ?s4 (Evict []) ?s5"
    by (rule hstep.evict)
  moreover have "hstep ?s5 (HsCommit 1 ''eve'' ''pe'') ?s6"
    by (rule hstep.hsCommit [OF s5]) simp
  ultimately have run2: "hsteps ?s3 [Swap [] [], Evict [], HsCommit 1 ''eve'' ''pe''] ?s6"
    by (blast intro: hsteps.intros)
  have "map_of (hv_sessions ?s6) 1 = Some (markAuth ''eve'' ''pe'' (?p\<lparr>se_pending := []\<rparr>))"
    using s5 by (simp add: map_of_updSession)
  then have "liveSession ?s6 1 (markAuth ''eve'' ''pe'' (?p\<lparr>se_pending := []\<rparr>))"
    by (simp add: liveSession_def markAuth_def newSession_def)
  moreover have "hv_users ?s6 = []" by (simp add: RetainUsers_def)
  ultimately show ?thesis
    using run1 run2 by (intro exI conjI) (auto simp: markAuth_def)
qed

section \<open>A proxied stream\<close>

text \<open>
  \<open>serverConn\<close>: the answer to the TCP request goes out exactly once, before or with the first
  payload.  \<open>resp ok msg payload\<close> is the encoding of the answer by the protocol package.
\<close>

record sconn =
  sc_written :: bool
  sc_out :: "string list"

datatype connop = OpFailure string | OpSuccess | OpWrite string

definition HandshakeFailure :: "(bool \<Rightarrow> string \<Rightarrow> string \<Rightarrow> string) \<Rightarrow> string \<Rightarrow> sconn \<Rightarrow> unit res \<times> sconn" where
  "HandshakeFailure resp msg c = (if sc_written c then (Inl (Err ''invalid argument''), c)
     else (Inr (), \<lparr>sc_written = True, sc_out = sc_out c @ [resp False msg []]\<rparr>))"

definition HandshakeSuccess :: "(bool \<Rightarrow> string \<Rightarrow> string \<Rightarrow> string) \<Rightarrow> sconn \<Rightarrow> unit res \<times> sconn" where
  "HandshakeSuccess resp c = (if sc_written c then (Inr (), c)
     else (Inr (), \<lparr>sc_written = True, sc_out = sc_out c @ [resp True [] []]\<rparr>))"

definition connWrite :: "(bool \<Rightarrow> string \<Rightarrow> string \<Rightarrow> string) \<Rightarrow> string \<Rightarrow> sconn \<Rightarrow> unit res \<times> sconn" where
  "connWrite resp p c = (if sc_written c then (Inr (), c\<lparr>sc_out := sc_out c @ [p]\<rparr>)
     else (Inr (), \<lparr>sc_written = True, sc_out = sc_out c @ [resp True [] p]\<rparr>))"

fun connStep :: "(bool \<Rightarrow> string \<Rightarrow> string \<Rightarrow> string) \<Rightarrow> connop \<Rightarrow> sconn \<Rightarrow> sconn" where
  "connStep resp (OpFailure m) c = snd (HandshakeFailure resp m c)"
| "connStep resp OpSuccess c = snd (HandshakeSuccess resp c)"
| "connStep resp (OpWrite p) c = snd (connWrite resp p c)"

text \<open>The payload a later operation adds once the answer is out.\<close>

fun opPayload :: "connop \<Rightarrow> string list" where
  "opPayload (OpWrite p) = [p]" | "opPayload _ = []"

fun opAnswer :: "(bool \<Rightarrow> string \<Rightarrow> string \<Rightarrow> string) \<Rightarrow> connop \<Rightarrow> string" where
  "opAnswer resp (OpFailure m) = resp False m []"
| "opAnswer resp OpSuccess = resp True [] []"
| "opAnswer resp (OpWrite p) = resp True [] p"

lemma connSteps_written:
  "sc_written c \<Longrightarrow> sc_out (fold (connStep resp) ops c) = sc_out c @ concat (map opPayload ops)"
proof (induction ops arbitrary: c)
  case (Cons op' ops)
  have "sc_written (connStep resp op' c)" "sc_out (connStep resp op' c) = sc_out c @ opPayload op'"
    using Cons.prems by (cases op'; simp add: HandshakeFailure_def HandshakeSuccess_def connWrite_def)+
  with Cons.IH [of "connStep resp op' c"] show ?case by simp
qed simp

text \<open>
  Whatever order the proxy answers and writes in, the peer of a Hysteria2 stream sees one answer,
  the one of the first operation, and after it exactly the payloads written.
\<close>

lemma serverConn_single_answer:
  "sc_out (fold (connStep resp) (op1 # ops) \<lparr>sc_written = False, sc_out = []\<rparr>) =
     opAnswer resp op1 # concat (map opPayload ops)"
proof -
  let ?c = "connStep resp op1 \<lparr>sc_written = False, sc_out = []\<rparr>"
  have "sc_written ?c" "sc_out ?c = [opAnswer resp op1]"
    by (cases op1; simp add: HandshakeFailure_def HandshakeSuccess_def connWrite_def)+
  then show ?thesis using connSteps_written [of ?c resp ops] by simp
qed

end
