(* ===== verification/CoreTrackers.thy ===== *)
theory CoreTrackers
  imports Models
begin

text \<open>
  \<open>core/tracker_conn.go\<close> and \<open>core/tracker_stats.go\<close>: the two trackers every routed
  connection passes through.  The connection tracker knows which connections came in through which
  inbound, so that the panel can close them when the inbound is rebuilt; the statistics tracker
  counts the bytes of inbounds, outbounds and users until the panel collects them.  Connections are
  named by the identifier the tracker draws for them, an argument here.
\<close>

section \<open>The connection tracker\<close>

record conninfo =
  cn_packet :: bool
  cn_inbound :: string

text \<open>
  \<open>ct_closed\<close> lists the connections whose socket was closed, \<open>ct_once\<close> the wrappers whose
  \<open>untrackOnce\<close> has run.
\<close>

record ctracker =
  ct_conns :: "(string \<times> conninfo) list"
  ct_closed :: "string list"
  ct_once :: "string list"

definition NewConnTracker :: ctracker where
  "NewConnTracker = \<lparr>ct_conns = [], ct_closed = [], ct_once = []\<rparr>"

definition ctReset :: "ctracker \<Rightarrow> ctracker" where
  "ctReset t = t\<lparr>ct_closed := map fst (ct_conns t) @ ct_closed t, ct_conns := []\<rparr>"

definition trackConnection :: "string \<Rightarrow> conninfo \<Rightarrow> ctracker \<Rightarrow> ctracker" where
  "trackConnection cid ci t = t\<lparr>ct_conns := AList.update cid ci (ct_conns t)\<rparr>"

definition untrackConnection :: "string \<Rightarrow> ctracker \<Rightarrow> ctracker" where
  "untrackConnection cid t = t\<lparr>ct_conns := AList.delete cid (ct_conns t)\<rparr>"

definition ctRoutedConnection :: "string \<Rightarrow> string \<Rightarrow> ctracker \<Rightarrow> ctracker" where
  "ctRoutedConnection cid inb t = trackConnection cid \<lparr>cn_packet = False, cn_inbound = inb\<rparr> t"

definition ctRoutedPacketConnection :: "string \<Rightarrow> string \<Rightarrow> ctracker \<Rightarrow> ctracker" where
  "ctRoutedPacketConnection cid inb t = trackConnection cid \<lparr>cn_packet = True, cn_inbound = inb\<rparr> t"

definition CloseConnByInbound :: "string \<Rightarrow> ctracker \<Rightarrow> nat \<times> ctracker" where
  "CloseConnByInbound inb t =
     (let victims = filter (\<lambda>(cid, ci). cn_inbound ci = inb) (ct_conns t)
      in (length victims, t\<lparr>ct_conns := filter (\<lambda>(cid, ci). cn_inbound ci \<noteq> inb) (ct_conns t),
            ct_closed := map fst victims @ ct_closed t\<rparr>))"

text \<open>The result of an I/O call on the socket, as \<open>shouldUntrackIOErr\<close> classifies it.\<close>

datatype ioerr = NoErr | IoEOF | NetErr bool | OtherErr

fun shouldUntrackIOErr :: "ioerr \<Rightarrow> bool" where
  "shouldUntrackIOErr NoErr = False"
| "shouldUntrackIOErr IoEOF = True"
| "shouldUntrackIOErr (NetErr temporary) = (\<not> temporary)"
| "shouldUntrackIOErr OtherErr = True"

definition doUntrack :: "string \<Rightarrow> ctracker \<Rightarrow> ctracker" where
  "doUntrack cid t = (if cid \<in> set (ct_once t) then t
     else untrackConnection cid (t\<lparr>ct_once := cid # ct_once t\<rparr>))"

text \<open>\<open>Read\<close>, \<open>Write\<close> and \<open>Close\<close> of the wrapped connection, and their counterparts of the wrapped packet connection.\<close>

definition wrappedRead :: "string \<Rightarrow> ioerr \<Rightarrow> ctracker \<Rightarrow> ctracker" where
  "wrappedRead cid e t = (if shouldUntrackIOErr e then doUntrack cid t else t)"

definition wrappedWrite :: "string \<Rightarrow> ioerr \<Rightarrow> ctracker \<Rightarrow> ctracker" where
  "wrappedWrite cid e t = (if e \<noteq> NoErr \<and> shouldUntrackIOErr e then doUntrack cid t else t)"

definition wrappedClose :: "string \<Rightarrow> ctracker \<Rightarrow> ctracker" where
  "wrappedClose cid t = (doUntrack cid t)\<lparr>ct_closed := cid # ct_closed t\<rparr>"

definition wrappedReadPacket :: "string \<Rightarrow> ioerr \<Rightarrow> ctracker \<Rightarrow> ctracker" where
  "wrappedReadPacket cid e t = (if shouldUntrackIOErr e then doUntrack cid t else t)"

definition wrappedWritePacket :: "string \<Rightarrow> ioerr \<Rightarrow> ctracker \<Rightarrow> ctracker" where
  "wrappedWritePacket cid e t = (if e \<noteq> NoErr \<and> shouldUntrackIOErr e then doUntrack cid t else t)"

definition wrappedClosePacket :: "string \<Rightarrow> ctracker \<Rightarrow> ctracker" where
  "wrappedClosePacket cid t = (doUntrack cid t)\<lparr>ct_closed := cid # ct_closed t\<rparr>"

lemmas wrapper_defs = wrappedRead_def wrappedWrite_def wrappedClose_def wrappedReadPacket_def wrappedWritePacket_def wrappedClosePacket_def

datatype ctevent = EvConn string string | EvPacket string string | EvRead string ioerr | EvWrite string ioerr | EvClose string
  | EvReadPacket string ioerr | EvWritePacket string ioerr | EvClosePacket string | EvCloseInbound string | EvReset

fun ctStep :: "ctevent \<Rightarrow> ctracker \<Rightarrow> ctracker" where
  "ctStep (EvConn cid inb) t = ctRoutedConnection cid inb t"
| "ctStep (EvPacket cid inb) t = ctRoutedPacketConnection cid inb t"
| "ctStep (EvRead cid e) t = wrappedRead cid e t"
| "ctStep (EvWrite cid e) t = wrappedWrite cid e t"
| "ctStep (EvClose cid) t = wrappedClose cid t"
| "ctStep (EvReadPacket cid e) t = wrappedReadPacket cid e t"
| "ctStep (EvWritePacket cid e) t = wrappedWritePacket cid e t"
| "ctStep (EvClosePacket cid) t = wrappedClosePacket cid t"
| "ctStep (EvCloseInbound inb) t = snd (CloseConnByInbound inb t)"
| "ctStep EvReset t = ctReset t"

text \<open>Every connection gets an identifier of its own, as a random UUID is taken to be.\<close>

fun openedId :: "ctevent \<Rightarrow> string list" where
  "openedId (EvConn cid inb) = [cid]"
| "openedId (EvPacket cid inb) = [cid]"
| "openedId _ = []"

definition openedIds :: "ctevent list \<Rightarrow> string list" where
  "openedIds es = concat (map openedId es)"

text \<open>The tracker after a run of events.\<close>

definition ctRun :: "ctevent list \<Rightarrow> ctracker \<Rightarrow> ctracker" where
  "ctRun es t = fold ctStep es t"

text \<open>A connection is tracked, or its socket was closed, or its wrapper saw it end.\<close>

definition accounted :: "string \<Rightarrow> ctracker \<Rightarrow> bool" where
  "accounted cid t \<longleftrightarrow> map_of (ct_conns t) cid \<noteq> None \<or> cid \<in> set (ct_closed t) \<or> cid \<in> set (ct_once t)"

lemma map_of_filter_snd:
  "distinct (map fst m) \<Longrightarrow> map_of (filter (\<lambda>(k, v). P v) m) k =
     (case map_of m k of None \<Rightarrow> None | Some v \<Rightarrow> if P v then Some v else None)"
proof (induction m)
  case (Cons kv m)
  obtain k' v where kv: "kv = (k', v)" by (cases kv)
  have "map_of m k' = None" using Cons.prems by (simp add: kv map_of_eq_None_iff)
  with Cons show ?case by (auto simp: kv split: option.splits)
qed simp

lemma ctStep_distinct: "distinct (map fst (ct_conns t)) \<Longrightarrow> distinct (map fst (ct_conns (ctStep e t)))"
  by (cases e) (auto simp: ctRoutedConnection_def ctRoutedPacketConnection_def trackConnection_def wrapper_defs
      doUntrack_def untrackConnection_def CloseConnByInbound_def ctReset_def Let_def
      AList.distinct_delete distinct_map_filter)

lemma doUntrack_accounted: "accounted cid t \<Longrightarrow> accounted cid (doUntrack cid' t)"
  by (auto simp: accounted_def doUntrack_def untrackConnection_def)

lemma closeInbound_accounted:
  assumes "distinct (map fst (ct_conns t))" "accounted cid t"
  shows "accounted cid (snd (CloseConnByInbound inb t))"
proof (cases "map_of (ct_conns t) cid")
  case None
  with assms(2) show ?thesis by (auto simp: accounted_def CloseConnByInbound_def Let_def)
next
  case (Some ci)
  show ?thesis
  proof (cases "cn_inbound ci = inb")
    case True
    with Some have "cid \<in> fst ` set (filter (\<lambda>(cid, ci). cn_inbound ci = inb) (ct_conns t))"
      using map_of_SomeD [OF Some] by force
    then show ?thesis by (simp add: accounted_def CloseConnByInbound_def Let_def)
  next
    case False
    with Some show ?thesis
      using map_of_filter_snd [OF assms(1), of "\<lambda>ci. cn_inbound ci \<noteq> inb" cid]
      by (simp add: accounted_def CloseConnByInbound_def Let_def)
  qed
qed

lemma ctStep_accounted:
  assumes "distinct (map fst (ct_conns t))" "accounted cid t"
  shows "accounted cid (ctStep e t)"
proof (cases e)
  case (EvCloseInbound inb)
  then show ?thesis using closeInbound_accounted [OF assms] by simp
next
  case EvReset
  have "cid \<in> fst ` set (ct_conns t)" if "map_of (ct_conns t) cid \<noteq> None"
    using that by (simp add: map_of_eq_None_iff)
  then show ?thesis using assms(2) EvReset by (auto simp: accounted_def ctReset_def)
next
  case (EvClose cid')
  then show ?thesis using assms(2) by (auto simp: accounted_def wrappedClose_def doUntrack_def untrackConnection_def)
next
  case (EvClosePacket cid')
  then show ?thesis using assms(2) by (auto simp: accounted_def wrappedClosePacket_def doUntrack_def untrackConnection_def)
qed (use assms(2) doUntrack_accounted in \<open>auto simp: accounted_def ctRoutedConnection_def
    ctRoutedPacketConnection_def trackConnection_def wrapper_defs\<close>)

lemma ctStep_opens: "cid \<in> set (openedId e) \<Longrightarrow> accounted cid (ctStep e t)"
  by (cases e) (auto simp: accounted_def ctRoutedConnection_def ctRoutedPacketConnection_def trackConnection_def)

lemma ctRun_accounted:
  "distinct (map fst (ct_conns t)) \<Longrightarrow> accounted cid t \<or> cid \<in> set (openedIds es) \<Longrightarrow> accounted cid (ctRun es t)"
proof (induction es arbitrary: t)
  case (Cons e es)
  have "accounted cid (ctStep e t) \<or> cid \<in> set (openedIds es)"
    using Cons.prems ctStep_accounted ctStep_opens by (auto simp: openedIds_def)
  with Cons.IH [OF ctStep_distinct [OF Cons.prems(1)]] show ?case by (simp add: ctRun_def)
qed (simp add: ctRun_def openedIds_def)



text \<open>
  Rebuilding an inbound cuts exactly its own connections: they are closed and no longer tracked,
  the returned number is how many there were, and the connections of every other inbound stay
  tracked and open.
\<close>

lemma CloseConnByInbound_exact:
  assumes "distinct (map fst (ct_conns t))" "CloseConnByInbound inb t = (n, t')"
  shows "(\<forall>cid ci. map_of (ct_conns t) cid = Some ci \<and> cn_inbound ci = inb \<longrightarrow>
       map_of (ct_conns t') cid = None \<and> cid \<in> set (ct_closed t')) \<and>
     (\<forall>cid ci. map_of (ct_conns t) cid = Some ci \<and> cn_inbound ci \<noteq> inb \<longrightarrow>
       map_of (ct_conns t') cid = Some ci \<and> (cid \<in> set (ct_closed t') \<longleftrightarrow> cid \<in> set (ct_closed t))) \<and>
     n = card {cid. \<exists>ci. map_of (ct_conns t) cid = Some ci \<and> cn_inbound ci = inb}"
proof -
  let ?v = "filter (\<lambda>(cid, ci). cn_inbound ci = inb) (ct_conns t)"
  have t': "ct_conns t' = filter (\<lambda>(cid, ci). cn_inbound ci \<noteq> inb) (ct_conns t)"
    "ct_closed t' = map fst ?v @ ct_closed t" "n = length ?v"
    using assms(2) by (auto simp: CloseConnByInbound_def Let_def)
  have mem: "(cid, ci) \<in> set (ct_conns t) \<longleftrightarrow> map_of (ct_conns t) cid = Some ci" for cid ci
    using assms(1) by (auto dest: map_of_is_SomeI map_of_SomeD)
  then have victims: "fst ` set ?v = {cid. \<exists>ci. map_of (ct_conns t) cid = Some ci \<and> cn_inbound ci = inb}"
    by force
  have "length ?v = card (set (map fst ?v))"
    using distinct_map_filter [OF assms(1)] distinct_card by (metis length_map)
  then have "n = card {cid. \<exists>ci. map_of (ct_conns t) cid = Some ci \<and> cn_inbound ci = inb}"
    using t'(3) victims by simp
  moreover have "cid \<in> set (ct_closed t') \<longleftrightarrow> cid \<in> fst ` set ?v \<or> cid \<in> set (ct_closed t)" for cid
    by (simp add: t'(2))
  ultimately show ?thesis
    unfolding victims using map_of_filter_snd [OF assms(1), of "\<lambda>ci. cn_inbound ci \<noteq> inb"]
    by (auto simp: t'(1))
qed

definition three_conns :: ctracker where
  "three_conns = ctRun [EvConn ''a'' ''in1'', EvPacket ''b'' ''in2'', EvConn ''c'' ''in1''] NewConnTracker"

theorem CloseConnByInbound_exact_witness:
  "\<exists>n t'. CloseConnByInbound ''in1'' three_conns = (n, t') \<and> map_of (ct_conns t') ''a'' = None \<and>
     map_of (ct_conns t') ''b'' = Some \<lparr>cn_packet = True, cn_inbound = ''in2''\<rparr>"
proof -
  have conns: "ct_conns three_conns = [(''a'', \<lparr>cn_packet = False, cn_inbound = ''in1''\<rparr>),
      (''b'', \<lparr>cn_packet = True, cn_inbound = ''in2''\<rparr>), (''c'', \<lparr>cn_packet = False, cn_inbound = ''in1''\<rparr>)]"
    by (simp add: three_conns_def ctRun_def NewConnTracker_def ctRoutedConnection_def ctRoutedPacketConnection_def trackConnection_def)
  have d: "distinct (map fst (ct_conns three_conns))" by (simp add: conns)
  obtain n t' where r: "CloseConnByInbound ''in1'' three_conns = (n, t')" by fastforce
  have "map_of (ct_conns three_conns) ''a'' = Some \<lparr>cn_packet = False, cn_inbound = ''in1''\<rparr>"
    "map_of (ct_conns three_conns) ''b'' = Some \<lparr>cn_packet = True, cn_inbound = ''in2''\<rparr>"
    by (simp_all add: conns)
  with CloseConnByInbound_exact [OF d r] r show ?thesis by fastforce
qed

section \<open>The statistics tracker\<close>

text \<open>
  Counters are shared by reference between the tracker's maps and the connections that write to
  them, so they live in a store and the maps hold their addresses.  \<open>read\<close> counts what clients
  upload and \<open>write\<close> what they download.
\<close>

type_synonym counter = "int \<times> int"

record strack =
  tr_inbounds :: "(string \<times> nat) list"
  tr_outbounds :: "(string \<times> nat) list"
  tr_users :: "(string \<times> nat) list"
  tr_store :: "counter list"

definition NewStatsTracker :: strack where
  "NewStatsTracker = \<lparr>tr_inbounds = [], tr_outbounds = [], tr_users = [], tr_store = []\<rparr>"

text \<open>New maps; the counters connections already hold stay where they are.\<close>

definition stReset :: "strack \<Rightarrow> strack" where
  "stReset t = t\<lparr>tr_inbounds := [], tr_outbounds := [], tr_users := []\<rparr>"

definition loadOrCreateCounter :: "(string \<times> nat) list \<Rightarrow> string \<Rightarrow> counter list \<Rightarrow> nat \<times> (string \<times> nat) list \<times> counter list" where
  "loadOrCreateCounter m name st = (case map_of m name of
       Some a \<Rightarrow> (a, m, st)
     | None \<Rightarrow> (length st, AList.update name (length st) m, st @ [(0, 0)]))"

text \<open>The addresses of the counters of one connection; an empty name has none.\<close>

definition countersFor :: "(string \<times> nat) list \<Rightarrow> string \<Rightarrow> counter list \<Rightarrow> nat list \<times> (string \<times> nat) list \<times> counter list" where
  "countersFor m name st = (if name = [] then ([], m, st)
     else case loadOrCreateCounter m name st of (a, m', st') \<Rightarrow> ([a], m', st'))"

definition getReadCounters :: "string \<Rightarrow> string \<Rightarrow> string \<Rightarrow> strack \<Rightarrow> nat list \<times> strack" where
  "getReadCounters inb outb usr t =
     (case countersFor (tr_inbounds t) inb (tr_store t) of (a1, m1, s1) \<Rightarrow>
      case countersFor (tr_outbounds t) outb s1 of (a2, m2, s2) \<Rightarrow>
      case countersFor (tr_users t) usr s2 of (a3, m3, s3) \<Rightarrow>
        (a1 @ a2 @ a3, \<lparr>tr_inbounds = m1, tr_outbounds = m2, tr_users = m3, tr_store = s3\<rparr>))"

text \<open>A routed connection, or packet connection, counts into these addresses for as long as it lives.\<close>

definition stRoutedConnection :: "string \<Rightarrow> string \<Rightarrow> string \<Rightarrow> strack \<Rightarrow> nat list \<times> strack" where
  "stRoutedConnection inb outTag usr t = getReadCounters inb outTag usr t"

definition stRoutedPacketConnection :: "string \<Rightarrow> string \<Rightarrow> string \<Rightarrow> strack \<Rightarrow> nat list \<times> strack" where
  "stRoutedPacketConnection inb outTag usr t = getReadCounters inb outTag usr t"

text \<open>What the counting connection does with its counters: atomic additions.\<close>

definition countRead :: "int \<Rightarrow> nat \<Rightarrow> counter list \<Rightarrow> counter list" where
  "countRead n a st = st[a := (wrap64 (fst (st ! a) + n), snd (st ! a))]"

definition countWrite :: "int \<Rightarrow> nat \<Rightarrow> counter list \<Rightarrow> counter list" where
  "countWrite n a st = st[a := (fst (st ! a), wrap64 (snd (st ! a) + n))]"

definition connRead :: "nat list \<Rightarrow> int \<Rightarrow> strack \<Rightarrow> strack" where
  "connRead addrs n t = t\<lparr>tr_store := fold (countRead n) addrs (tr_store t)\<rparr>"

definition connWrote :: "nat list \<Rightarrow> int \<Rightarrow> strack \<Rightarrow> strack" where
  "connWrote addrs n t = t\<lparr>tr_store := fold (countWrite n) addrs (tr_store t)\<rparr>"

definition statPair :: "int \<Rightarrow> string \<Rightarrow> string \<Rightarrow> counter \<Rightarrow> stat list" where
  "statPair dt res tag c = (if snd c > 0 \<or> fst c > 0
     then [\<lparr>st_datetime = dt, st_resource = res, st_tag = tag, st_direction = False, st_traffic = snd c\<rparr>,
           \<lparr>st_datetime = dt, st_resource = res, st_tag = tag, st_direction = True, st_traffic = fst c\<rparr>]
     else [])"

fun swapAll :: "int \<Rightarrow> string \<Rightarrow> (string \<times> nat) list \<Rightarrow> counter list \<Rightarrow> stat list \<times> counter list" where
  "swapAll dt res [] st = ([], st)"
| "swapAll dt res ((tag, a) # m) st =
     (case swapAll dt res m (st[a := (0, 0)]) of (ss, st') \<Rightarrow> (statPair dt res tag (st ! a) @ ss, st'))"

definition trackerGetStats :: "int \<Rightarrow> strack \<Rightarrow> stat list \<times> strack" where
  "trackerGetStats dt t =
     (case swapAll dt ''inbound'' (tr_inbounds t) (tr_store t) of (s1, st1) \<Rightarrow>
      case swapAll dt ''outbound'' (tr_outbounds t) st1 of (s2, st2) \<Rightarrow>
      case swapAll dt ''user'' (tr_users t) st2 of (s3, st3) \<Rightarrow>
        (s1 @ s2 @ s3, t\<lparr>tr_store := st3\<rparr>))"

text \<open>No two names share a counter, and every counter exists.\<close>

definition addrsOf :: "strack \<Rightarrow> nat list" where
  "addrsOf t = map snd (tr_inbounds t) @ map snd (tr_outbounds t) @ map snd (tr_users t)"

definition wfTracker :: "strack \<Rightarrow> bool" where
  "wfTracker t \<longleftrightarrow> distinct (addrsOf t) \<and> (\<forall>a \<in> set (addrsOf t). a < length (tr_store t)) \<and>
     distinct (map fst (tr_users t))"

lemma update_new: "map_of m k = None \<Longrightarrow> AList.update k v m = m @ [(k, v)]"
proof (induction m)
  case (Cons kv m)
  then show ?case by (cases kv) (simp split: if_splits)
qed simp

lemma countersFor_cases:
  assumes "countersFor m n st = (as, m', st')"
  shows "(m' = m \<and> st' = st) \<or> (m' = m @ [(n, length st)] \<and> st' = st @ [(0, 0)] \<and> n \<notin> fst ` set m)"
proof (cases "map_of m n")
  case None
  then have "n \<notin> fst ` set m" by (simp add: map_of_eq_None_iff)
  with None assms show ?thesis
    by (cases "n = []") (auto simp: countersFor_def loadOrCreateCounter_def update_new)
next
  case (Some a)
  with assms show ?thesis by (cases "n = []") (auto simp: countersFor_def loadOrCreateCounter_def)
qed

lemma countersFor_wf:
  assumes "countersFor m n st = (as, m', st')" "distinct (xs @ map snd m @ ys)"
    "\<forall>a \<in> set (xs @ map snd m @ ys). a < length st"
  shows "distinct (xs @ map snd m' @ ys) \<and> (\<forall>a \<in> set (xs @ map snd m' @ ys). a < length st') \<and>
    (distinct (map fst m) \<longrightarrow> distinct (map fst m'))"
  using countersFor_cases [OF assms(1)]
proof (elim disjE conjE)
  assume n: "m' = m @ [(n, length st)]" "st' = st @ [(0, 0)]" "n \<notin> fst ` set m"
  have "length st \<notin> set (xs @ map snd m @ ys)" using assms(3) by blast
  with n assms(2,3) show ?thesis by (auto simp: less_Suc_eq)
qed (use assms in simp)

text \<open>Routing a connection keeps the tracker well formed.\<close>

lemma getReadCounters_wf:
  assumes "wfTracker t"
  shows "wfTracker (snd (getReadCounters inb outb usr t))"
proof -
  obtain a1 m1 s1 where 1: "countersFor (tr_inbounds t) inb (tr_store t) = (a1, m1, s1)" by (metis prod_cases3)
  obtain a2 m2 s2 where 2: "countersFor (tr_outbounds t) outb s1 = (a2, m2, s2)" by (metis prod_cases3)
  obtain a3 m3 s3 where 3: "countersFor (tr_users t) usr s2 = (a3, m3, s3)" by (metis prod_cases3)
  have r: "snd (getReadCounters inb outb usr t) = \<lparr>tr_inbounds = m1, tr_outbounds = m2, tr_users = m3, tr_store = s3\<rparr>"
    by (simp add: getReadCounters_def 1 2 3)
  have w: "distinct ([] @ map snd (tr_inbounds t) @ (map snd (tr_outbounds t) @ map snd (tr_users t)))"
    "\<forall>a \<in> set ([] @ map snd (tr_inbounds t) @ (map snd (tr_outbounds t) @ map snd (tr_users t))). a < length (tr_store t)"
    "distinct (map fst (tr_users t))"
    using assms by (auto simp: wfTracker_def addrsOf_def)
  note w1 = countersFor_wf [OF 1 w(1,2)]
  have "distinct (map snd m1 @ map snd (tr_outbounds t) @ map snd (tr_users t))"
    "\<forall>a \<in> set (map snd m1 @ map snd (tr_outbounds t) @ map snd (tr_users t)). a < length s1"
    using w1 by simp_all
  note w2 = countersFor_wf [OF 2 this]
  have "distinct ((map snd m1 @ map snd m2) @ map snd (tr_users t) @ [])"
    "\<forall>a \<in> set ((map snd m1 @ map snd m2) @ map snd (tr_users t) @ []). a < length s2"
    using w2 by simp_all
  note w3 = countersFor_wf [OF 3 this]
  show ?thesis
    unfolding r wfTracker_def addrsOf_def strack.simps using w3 w(3) by simp
qed

lemma length_swapAll [simp]: "length (snd (swapAll dt res m st)) = length st"
  by (induction dt res m st rule: swapAll.induct) (auto split: prod.splits)

lemma swapAll_other: "a \<notin> snd ` set m \<Longrightarrow> snd (swapAll dt res m st) ! a = st ! a"
  by (induction dt res m st rule: swapAll.induct) (auto split: prod.splits)

lemma swapAll_zero: "distinct (map snd m) \<Longrightarrow> \<forall>a \<in> snd ` set m. a < length st \<Longrightarrow> a \<in> snd ` set m \<Longrightarrow>
    snd (swapAll dt res m st) ! a = (0, 0)"
proof (induction dt res m st rule: swapAll.induct)
  case (2 dt res tag b m st)
  show ?case
  proof (cases "a = b")
    case True
    with 2(2,3) have "a \<notin> snd ` set m" "a < length st" by auto
    with True show ?thesis using swapAll_other [of a m dt res "st[b := (0, 0)]"] by (auto split: prod.splits)
  next
    case False
    with 2 show ?thesis by (auto split: prod.splits)
  qed
qed simp

lemma swapAll_stats: "distinct (map snd m) \<Longrightarrow>
    fst (swapAll dt res m st) = concat (map (\<lambda>(tag, a). statPair dt res tag (st ! a)) m)"
proof (induction m arbitrary: st)
  case (Cons ta m)
  obtain tag a where ta: "ta = (tag, a)" by (cases ta)
  have "st[a := (0, 0)] ! b = st ! b" if "(x, b) \<in> set m" for x b
    using Cons.prems that by (auto simp: ta intro!: nth_list_update_neq) (metis imageI snd_conv)
  then have "map (\<lambda>(tag, b). statPair dt res tag (st[a := (0, 0)] ! b)) m = map (\<lambda>(tag, b). statPair dt res tag (st ! b)) m"
    by auto
  with Cons.IH [of "st[a := (0, 0)]"] Cons.prems show ?case
    by (cases "swapAll dt res m (st[a := (0, 0)])") (simp add: ta)
qed simp

lemma collect_all:
  assumes "wfTracker t" "trackerGetStats dt t = (ss, t')"
  shows "filter (\<lambda>s. st_resource s = ''user'') ss =
      concat (map (\<lambda>(u, a). statPair dt ''user'' u (tr_store t ! a)) (tr_users t)) \<and>
    (\<forall>a \<in> set (addrsOf t). tr_store t' ! a = (0, 0)) \<and> addrsOf t' = addrsOf t"
proof -
  let ?i = "swapAll dt ''inbound'' (tr_inbounds t) (tr_store t)"
  let ?o = "swapAll dt ''outbound'' (tr_outbounds t) (snd ?i)"
  let ?u = "swapAll dt ''user'' (tr_users t) (snd ?o)"
  have r: "ss = fst ?i @ fst ?o @ fst ?u" "t' = t\<lparr>tr_store := snd ?u\<rparr>"
    using assms(2) by (auto simp: trackerGetStats_def split: prod.splits)
  have dist: "distinct (map snd (tr_inbounds t))" "distinct (map snd (tr_outbounds t))" "distinct (map snd (tr_users t))"
    and bound: "\<forall>a \<in> set (addrsOf t). a < length (tr_store t)"
    and disj: "snd ` set (tr_users t) \<inter> snd ` set (tr_outbounds t) = {}"
      "snd ` set (tr_users t) \<inter> snd ` set (tr_inbounds t) = {}" "snd ` set (tr_outbounds t) \<inter> snd ` set (tr_inbounds t) = {}"
    using assms(1) by (auto simp: wfTracker_def addrsOf_def)
  have other: "filter (\<lambda>s. st_resource s = ''user'') (fst (swapAll dt res m st)) = []" if "res \<noteq> ''user''" "distinct (map snd m)" for res m st
    using that by (auto simp: swapAll_stats filter_empty_conv statPair_def split: if_splits)
  have users: "filter (\<lambda>s. st_resource s = ''user'') (fst ?u) = fst ?u"
    using dist(3) by (auto simp: swapAll_stats filter_id_conv statPair_def split: if_splits)
  have same: "snd ?o ! a = tr_store t ! a" if "a \<in> snd ` set (tr_users t)" for a
    using that disj by (subst swapAll_other; (subst swapAll_other)?) auto
  have "fst ?u = concat (map (\<lambda>(u, a). statPair dt ''user'' u (tr_store t ! a)) (tr_users t))"
    unfolding swapAll_stats [OF dist(3)]
    by (intro arg_cong [where f = concat] map_cong refl) (use same in force)
  moreover have "filter (\<lambda>s. st_resource s = ''user'') ss = fst ?u"
    using r(1) users other [of "''inbound''"] other [of "''outbound''"] dist by simp
  moreover have "snd ?u ! a = (0, 0)" if "a \<in> set (addrsOf t)" for a
  proof -
    have "\<forall>a \<in> snd ` set (tr_users t). a < length (snd ?o)" "\<forall>a \<in> snd ` set (tr_outbounds t). a < length (snd ?i)"
      "\<forall>a \<in> snd ` set (tr_inbounds t). a < length (tr_store t)"
      using bound by (auto simp: addrsOf_def)
    note z = swapAll_zero [OF dist(3) this(1)] swapAll_zero [OF dist(2) this(2)] swapAll_zero [OF dist(1) this(3)]
    consider "a \<in> snd ` set (tr_users t)" | "a \<in> snd ` set (tr_outbounds t)" "a \<notin> snd ` set (tr_users t)"
      | "a \<in> snd ` set (tr_inbounds t)" "a \<notin> snd ` set (tr_users t)" "a \<notin> snd ` set (tr_outbounds t)"
      using \<open>a \<in> set (addrsOf t)\<close> disj by (auto simp: addrsOf_def)
    then show ?thesis
      by cases (simp_all add: z swapAll_other)
  qed
  ultimately show ?thesis using r by (auto simp: addrsOf_def)
qed

text \<open>
  Collecting the statistics reports every counted byte once: each user with traffic is reported
  with exactly the bytes counted for the user, in both directions, and afterwards every counter
  the tracker still knows is zero, so nothing is reported again.
\<close>

lemma trackerGetStats_exact:
  assumes "wfTracker t" "trackerGetStats dt t = (ss, t')"
  shows "filter (\<lambda>s. st_resource s = ''user'') ss =
      concat (map (\<lambda>(u, a). statPair dt ''user'' u (tr_store t ! a)) (tr_users t)) \<and>
    (\<forall>a \<in> set (addrsOf t). tr_store t' ! a = (0, 0)) \<and> addrsOf t' = addrsOf t"
  using collect_all [OF assms] .

definition busy_tracker :: strack where
  "busy_tracker = \<lparr>tr_inbounds = [(''in'', 0)], tr_outbounds = [(''out'', 1)], tr_users = [(''ann'', 2)],
     tr_store = [(10, 20), (10, 20), (10, 20)]\<rparr>"

theorem trackerGetStats_exact_witness:
  "\<exists>ss t'. trackerGetStats 7 busy_tracker = (ss, t') \<and>
     filter (\<lambda>s. st_resource s = ''user'') ss = statPair 7 ''user'' ''ann'' (10, 20) \<and> tr_store t' ! 2 = (0, 0)"
proof -
  have w: "wfTracker busy_tracker" by (simp add: wfTracker_def addrsOf_def busy_tracker_def)
  obtain ss t' where r: "trackerGetStats 7 busy_tracker = (ss, t')" by fastforce
  from trackerGetStats_exact [OF w r] r show ?thesis
    by (auto simp: busy_tracker_def addrsOf_def)
qed

end
