(* ===== verification/World.thy ===== *)
theory World
  imports GenLink Hy2Service CoreTrackers
begin

text \<open>
  The state the panel's services share: the database (\<open>database/\<close>), the running sing-box
  core (\<open>core/main.go\<close>, \<open>core/endpoint.go\<close>) and the package variables of \<open>service/\<close>.
  An operation is an action: it reads the environment (clock, randomness, what the database
  driver and sing-box do), and returns a result and the next state.  Tables are lists of rows in the order
  of their identifiers; a SQL condition is a predicate on rows.  The environment may make any SQL
  statement fail (\<open>e_dbfail\<close>), any configuration be refused by sing-box (\<open>e_create\<close>,
  \<open>e_start\<close>) and any close fail (\<open>e_close\<close>); those are parameters of the model.
\<close>

section \<open>Environment and state\<close>

record env =
  e_now :: int
  e_rnd :: "nat \<Rightarrow> nat"
  e_dbfail :: "nat \<Rightarrow> bool"
  e_newid :: "nat list \<Rightarrow> nat"
  e_create :: "string \<Rightarrow> raw \<Rightarrow> bool"
  e_decode :: "raw \<Rightarrow> raw"
  e_start :: "raw \<Rightarrow> bool"
  e_close :: "string \<Rightarrow> bool"
  e_mbpsToBps :: nat
  e_file :: "string \<Rightarrow> bool"
  e_secret :: string
  e_version :: string

record dbase =
  db_settings :: "setting list"
  db_tls :: "tls list"
  db_inbounds :: "inbound list"
  db_outbounds :: "outbound list"
  db_services :: "service list"
  db_endpoints :: "endpoint list"
  db_users :: "user list"
  db_tokens :: "token list"
  db_stats :: "stat list"
  db_clients :: "client list"
  db_changes :: "change list"

record livein =
  li_type :: string
  li_conf :: raw
  li_hy2 :: hservice

record core =
  co_running :: bool
  co_instance :: bool
  co_inbounds :: "(string \<times> livein) list"
  co_outbounds :: "(string \<times> raw) list"
  co_endpoints :: "(string \<times> raw) list"
  co_services :: "(string \<times> raw) list"
  co_conns :: ctracker
  co_stats :: strack

record onlines =
  on_inbound :: "string list"
  on_user :: "string list"
  on_outbound :: "string list"

text \<open>\<open>w_jobs\<close>: the restarts \<open>Save\<close> has started as goroutines and that have not run yet.\<close>

record world =
  w_db :: dbase
  w_core :: core
  w_stmt :: nat
  w_lastUpdate :: int
  w_inProgress :: bool
  w_lastFail :: "int option"
  w_onlines :: onlines
  w_jobs :: "raw list"

section \<open>Actions\<close>

type_synonym 'a act = "env \<Rightarrow> world \<Rightarrow> 'a res \<times> world"

definition retA :: "'a \<Rightarrow> 'a act" where
  "retA x = (\<lambda>e w. (Inr x, w))"

definition failA :: "goerr \<Rightarrow> 'a act" where
  "failA x = (\<lambda>e w. (Inl x, w))"

definition liftR :: "'a res \<Rightarrow> 'a act" where
  "liftR r = (\<lambda>e w. (r, w))"

definition bindA :: "'a act \<Rightarrow> ('a \<Rightarrow> 'b act) \<Rightarrow> 'b act" where
  "bindA a f = (\<lambda>e w. case a e w of (Inl x, w') \<Rightarrow> (Inl x, w') | (Inr v, w') \<Rightarrow> f v e w')"

definition askE :: "(env \<Rightarrow> 'a) \<Rightarrow> 'a act" where
  "askE f = (\<lambda>e w. (Inr (f e), w))"

definition askW :: "(world \<Rightarrow> 'a) \<Rightarrow> 'a act" where
  "askW f = (\<lambda>e w. (Inr (f w), w))"

definition modW :: "(world \<Rightarrow> world) \<Rightarrow> unit act" where
  "modW f = (\<lambda>e w. (Inr (), f w))"

definition thenA :: "'a act \<Rightarrow> 'b act \<Rightarrow> 'b act" where
  "thenA a b = bindA a (\<lambda>_. b)"

fun forA :: "('a \<Rightarrow> unit act) \<Rightarrow> 'a list \<Rightarrow> unit act" where
  "forA f [] = retA ()"
| "forA f (x # xs) = thenA (f x) (forA f xs)"

fun foldA :: "('a \<Rightarrow> 's \<Rightarrow> 's act) \<Rightarrow> 'a list \<Rightarrow> 's \<Rightarrow> 's act" where
  "foldA f [] s = retA s"
| "foldA f (x # xs) s = bindA (f x s) (foldA f xs)"

fun mapA :: "('a \<Rightarrow> 'b act) \<Rightarrow> 'a list \<Rightarrow> 'b list act" where
  "mapA f [] = retA []"
| "mapA f (x # xs) = bindA (f x) (\<lambda>y. bindA (mapA f xs) (\<lambda>ys. retA (y # ys)))"

text \<open>\<open>if err != nil && err != os.ErrInvalid \{ return err \}\<close>.\<close>

definition errInvalid :: goerr where
  "errInvalid = Err ''invalid argument''"

definition ignoreInvalid :: "unit act \<Rightarrow> unit act" where
  "ignoreInvalid a = (\<lambda>e w. case a e w of (Inl x, w') \<Rightarrow> ((if x = errInvalid then Inr () else Inl x), w')
     | r \<Rightarrow> r)"

text \<open>The error of an action is only logged; a panic still unwinds.\<close>

definition logErr :: "unit act \<Rightarrow> unit act" where
  "logErr a = (\<lambda>e w. case a e w of (Inl (Err m), w') \<Rightarrow> (Inr (), w') | r \<Rightarrow> r)"

lemma act_simps [simp]:
  "retA x e w = (Inr x, w)" "failA y e w = (Inl y, w)" "liftR r e w = (r, w)"
  "askE f e w = (Inr (f e), w)" "askW h e w = (Inr (h w), w)" "modW k e w = (Inr (), k w)"
  by (simp_all add: retA_def failA_def liftR_def askE_def askW_def modW_def)

lemma bindA_Inr: "bindA a f e w = (Inr y, w') \<longleftrightarrow> (\<exists>x w1. a e w = (Inr x, w1) \<and> f x e w1 = (Inr y, w'))"
  by (auto simp: bindA_def split: prod.splits sum.splits)

lemma bindA_Inl: "bindA a f e w = (Inl x, w') \<longleftrightarrow> a e w = (Inl x, w') \<or> (\<exists>v w1. a e w = (Inr v, w1) \<and> f v e w1 = (Inl x, w'))"
  by (auto simp: bindA_def split: prod.splits sum.splits)

lemma bindA_run [simp]:
  "a e w = (Inr x, w1) \<Longrightarrow> bindA a f e w = f x e w1"
  "a e w = (Inl y, w1) \<Longrightarrow> bindA a f e w = (Inl y, w1)"
  by (simp_all add: bindA_def)

lemma thenA_run [simp]:
  "a e w = (Inr x, w1) \<Longrightarrow> thenA a b e w = b e w1"
  "a e w = (Inl y, w1) \<Longrightarrow> thenA a b e w = (Inl y, w1)"
  by (simp_all add: thenA_def)

section \<open>What an action leaves alone\<close>

text \<open>\<open>within R a\<close>: every run of \<open>a\<close>, failed ones included, moves the state along \<open>R\<close>.\<close>

definition within :: "(world \<Rightarrow> world \<Rightarrow> bool) \<Rightarrow> 'a act \<Rightarrow> bool" where
  "within R a \<longleftrightarrow> (\<forall>e w. R w (snd (a e w)))"

named_theorems within_intros "actions and the relations their runs stay in"

locale frame =
  fixes R :: "world \<Rightarrow> world \<Rightarrow> bool"
  assumes R_refl: "R w w"
    and R_trans: "R w1 w2 \<Longrightarrow> R w2 w3 \<Longrightarrow> R w1 w3"
begin

lemma within_pure: "within R (retA x)" "within R (failA y)" "within R (liftR r)" "within R (askE f)" "within R (askW h)"
  by (simp_all add: within_def R_refl)

lemma within_bind: "within R a \<Longrightarrow> (\<And>x. within R (f x)) \<Longrightarrow> within R (bindA a f)"
  unfolding within_def bindA_def
  by (clarsimp split: prod.splits sum.splits) (metis R_trans snd_conv)

lemma within_then: "within R a \<Longrightarrow> within R b \<Longrightarrow> within R (thenA a b)"
  by (simp add: thenA_def within_bind)

lemma within_for: "(\<And>x. within R (f x)) \<Longrightarrow> within R (forA f xs)"
  by (induction xs) (auto intro: within_then within_pure)

lemma within_fold: "(\<And>x s. within R (f x s)) \<Longrightarrow> within R (foldA f xs s)"
  by (induction xs arbitrary: s) (auto intro: within_bind within_pure)

lemma within_map: "(\<And>x. within R (f x)) \<Longrightarrow> within R (mapA f xs)"
  by (induction xs) (auto intro!: within_bind within_pure)

lemma within_if: "within R a \<Longrightarrow> within R b \<Longrightarrow> within R (if c then a else b)"
  by simp

lemma within_ignore: "within R a \<Longrightarrow> within R (ignoreInvalid a)"
  by (simp add: within_def ignoreInvalid_def split: prod.split sum.split) (metis snd_conv)

lemma within_log: "within R a \<Longrightarrow> within R (logErr a)"
  by (simp add: within_def logErr_def split: prod.split sum.split goerr.split) (metis snd_conv)

lemmas within_rules = within_pure within_bind within_then within_for within_fold within_map within_if within_ignore within_log

end

definition sameCore :: "world \<Rightarrow> world \<Rightarrow> bool" where
  "sameCore w w' \<longleftrightarrow> w_core w' = w_core w"

definition sameDb :: "world \<Rightarrow> world \<Rightarrow> bool" where
  "sameDb w w' \<longleftrightarrow> w_db w' = w_db w"

interpretation keepCore: frame sameCore
  by unfold_locales (auto simp: sameCore_def)

interpretation keepDb: frame sameDb
  by unfold_locales (auto simp: sameDb_def)

section \<open>SQL\<close>

definition sqlErr :: goerr where
  "sqlErr = Err ''database error''"

text \<open>A query, and a statement that may change the tables; each is one statement of the schedule.\<close>

definition sqlq :: "(dbase \<Rightarrow> 'a res) \<Rightarrow> 'a act" where
  "sqlq q = (\<lambda>e w. let w' = w\<lparr>w_stmt := Suc (w_stmt w)\<rparr> in
     if e_dbfail e (w_stmt w) then (Inl sqlErr, w') else (q (w_db w), w'))"

definition sqlu :: "(env \<Rightarrow> dbase \<Rightarrow> ('a \<times> dbase) res) \<Rightarrow> 'a act" where
  "sqlu u = (\<lambda>e w. let w' = w\<lparr>w_stmt := Suc (w_stmt w)\<rparr> in
     if e_dbfail e (w_stmt w) then (Inl sqlErr, w')
     else case u e (w_db w) of Inl x \<Rightarrow> (Inl x, w') | Inr (v, d) \<Rightarrow> (Inr v, w'\<lparr>w_db := d\<rparr>))"

text \<open>A statement with no result of its own.\<close>

definition sqlx :: "(dbase \<Rightarrow> dbase) \<Rightarrow> unit act" where
  "sqlx f = sqlu (\<lambda>e d. Inr ((), f d))"

definition rowsWhere :: "(dbase \<Rightarrow> 'r list) \<Rightarrow> ('r \<Rightarrow> bool) \<Rightarrow> 'r list act" where
  "rowsWhere t P = sqlq (\<lambda>d. Inr (filter P (t d)))"

definition notFound :: goerr where
  "notFound = Err ''record not found''"

text \<open>gorm's \<open>First\<close>: the row of the lowest identifier, or \<open>ErrRecordNotFound\<close>.\<close>

definition firstWhere :: "(dbase \<Rightarrow> 'r list) \<Rightarrow> ('r \<Rightarrow> bool) \<Rightarrow> 'r act" where
  "firstWhere t P = sqlq (\<lambda>d. case filter P (t d) of [] \<Rightarrow> Inl notFound | r # _ \<Rightarrow> Inr r)"

lemma within_sqlq [within_intros]: "within sameCore (sqlq q)" "within sameDb (sqlq q)"
  by (auto simp: within_def sameCore_def sameDb_def sqlq_def Let_def)

lemma within_sqlu [within_intros]: "within sameCore (sqlu u)"
  by (auto simp: within_def sameCore_def sqlu_def Let_def split: sum.splits)

lemma within_sqlx [within_intros]: "within sameCore (sqlx f)"
  by (simp add: sqlx_def within_sqlu)

lemma within_rows [within_intros]: "within sameCore (rowsWhere t P)" "within sameDb (rowsWhere t P)"
  "within sameCore (firstWhere t P)" "within sameDb (firstWhere t P)"
  by (simp_all add: rowsWhere_def firstWhere_def within_sqlq)

lemma rowsWhere_Inr: "rowsWhere t P e w = (Inr rs, w') \<Longrightarrow> rs = filter P (t (w_db w)) \<and> w' = w\<lparr>w_stmt := Suc (w_stmt w)\<rparr>"
  by (auto simp: rowsWhere_def sqlq_def Let_def split: if_splits)

lemma firstWhere_Inr: "firstWhere t P e w = (Inr r, w') \<Longrightarrow> r \<in> set (t (w_db w)) \<and> P r \<and> w' = w\<lparr>w_stmt := Suc (w_stmt w)\<rparr>"
  by (auto simp: firstWhere_def sqlq_def Let_def split: if_splits list.splits dest: filter_eq_ConsD)

text \<open>Successful runs, statement by statement.\<close>

lemma run_pure [simp]:
  "bindA (retA x) f e w = f x e w" "bindA (askE g) f e w = f (g e) e w" "bindA (askW h) f e w = f (h w) e w"
  "bindA (modW k) f e w = f () e (k w)" "bindA (liftR (Inr x)) f e w = f x e w"
  "thenA (retA x) a e w = a e w" "thenA (modW k) a e w = a e (k w)"
  by (simp_all add: bindA_def thenA_def)

lemma run_sqlq: "bindA (sqlq q) f e w = (Inr y, w') \<longleftrightarrow> \<not> e_dbfail e (w_stmt w) \<and>
    (\<exists>x. q (w_db w) = Inr x \<and> f x e (w\<lparr>w_stmt := Suc (w_stmt w)\<rparr>) = (Inr y, w'))"
  by (auto simp: bindA_def sqlq_def Let_def split: sum.splits)

lemma run_rows: "bindA (rowsWhere t P) f e w = (Inr y, w') \<longleftrightarrow> \<not> e_dbfail e (w_stmt w) \<and>
    f (filter P (t (w_db w))) e (w\<lparr>w_stmt := Suc (w_stmt w)\<rparr>) = (Inr y, w')"
  by (simp add: rowsWhere_def run_sqlq)

lemma run_first: "bindA (firstWhere t P) f e w = (Inr y, w') \<longleftrightarrow> \<not> e_dbfail e (w_stmt w) \<and>
    (\<exists>r rs. filter P (t (w_db w)) = r # rs \<and> f r e (w\<lparr>w_stmt := Suc (w_stmt w)\<rparr>) = (Inr y, w'))"
  by (auto simp: firstWhere_def run_sqlq split: list.splits)

lemma run_sqlu: "bindA (sqlu u) f e w = (Inr y, w') \<longleftrightarrow> \<not> e_dbfail e (w_stmt w) \<and>
    (\<exists>v d. u e (w_db w) = Inr (v, d) \<and> f v e (w\<lparr>w_stmt := Suc (w_stmt w), w_db := d\<rparr>) = (Inr y, w'))"
  by (auto simp: bindA_def sqlu_def Let_def split: sum.splits)

lemma run_sqlx: "thenA (sqlx g) a e w = (Inr y, w') \<longleftrightarrow> \<not> e_dbfail e (w_stmt w) \<and>
    a e (w\<lparr>w_stmt := Suc (w_stmt w), w_db := g (w_db w)\<rparr>) = (Inr y, w')"
  by (simp add: thenA_def sqlx_def run_sqlu)

lemma thenA_assoc: "thenA (thenA a b) c = thenA a (thenA b c)"
  by (auto simp: thenA_def bindA_def fun_eq_iff split: prod.splits sum.splits)

lemmas run_iffs = run_sqlq run_rows run_first run_sqlu run_sqlx thenA_assoc

subsection \<open>JSON columns in SQL\<close>

text \<open>
  \<open>json_each(col)\<close>: the elements of an array, the members of an object, or the value itself;
  no rows for NULL and an error for a text that is not JSON.
\<close>

fun jsonEach :: "raw \<Rightarrow> jv list res" where
  "jsonEach RNil = Inr []"
| "jsonEach (RBad t) = Inl (Err ''malformed JSON'')"
| "jsonEach (RText (JArr vs)) = Inr vs"
| "jsonEach (RText (JObj m)) = Inr (map snd m)"
| "jsonEach (RText v) = Inr [v]"

text \<open>The integer a value compares equal to (SQLite reads a JSON boolean as 0 or 1).\<close>

fun sqlInt :: "jv \<Rightarrow> int option" where
  "sqlInt (JNum n) = Some n"
| "sqlInt (JBool b) = Some (if b then 1 else 0)"
| "sqlInt _ = None"

definition eachHas :: "nat \<Rightarrow> raw \<Rightarrow> bool res" where
  "eachHas i r = bindR (jsonEach r) (\<lambda>vs. Inr (Some (int i) \<in> set (map sqlInt vs)))"

text \<open>\<open>json_extract(col, "$.k1.k2")\<close>: \<open>None\<close> is SQL NULL.\<close>

fun extractPath :: "jv \<Rightarrow> string list \<Rightarrow> jv option" where
  "extractPath v [] = (if v = JNull then None else Some v)"
| "extractPath (JObj m) (k # ks) = (case map_of m k of None \<Rightarrow> None | Some v \<Rightarrow> extractPath v ks)"
| "extractPath _ (k # ks) = None"

definition jsonExtract :: "raw \<Rightarrow> string list \<Rightarrow> jv option res" where
  "jsonExtract r ks = (case r of RNil \<Rightarrow> Inr None | RBad t \<Rightarrow> Inl (Err ''malformed JSON'')
     | RText v \<Rightarrow> Inr (extractPath v ks))"

text \<open>The text a SQL value scans into a Go string: JSON for objects and arrays.\<close>

fun sqlText :: "jv \<Rightarrow> string" where
  "sqlText (JStr s) = s"
| "sqlText (JBool b) = (if b then ''1'' else ''0'')"
| "sqlText v = jtext v"

text \<open>A condition that may itself be an error, over the rows of a table.\<close>

fun filterR :: "('r \<Rightarrow> bool res) \<Rightarrow> 'r list \<Rightarrow> 'r list res" where
  "filterR P [] = Inr []"
| "filterR P (r # rs) = bindR (P r) (\<lambda>b. bindR (filterR P rs) (\<lambda>rs'. Inr (if b then r # rs' else rs')))"

lemma filterR_total: "(\<And>r. r \<in> set rs \<Longrightarrow> P r = Inr (Q r)) \<Longrightarrow> filterR P rs = Inr (filter Q rs)"
  by (induction rs) auto

lemma filterR_set: "filterR P rs = Inr rs' \<Longrightarrow> r \<in> set rs' \<longleftrightarrow> r \<in> set rs \<and> P r = Inr True"
  by (induction rs arbitrary: rs') (auto simp: bindR_eq_Inr split: if_splits)

text \<open>A list of identifiers as the SQL text \<open>id in (...)\<close> reads it.\<close>

definition textIds :: "string \<Rightarrow> int list" where
  "textIds s = map fst (filter snd (map atoi (split s '','')))"

subsection \<open>Saving rows\<close>

text \<open>
  gorm's \<open>Save\<close>: a row without identifier is inserted under a fresh one, a row with an
  identifier replaces the row that has it, or is inserted under it.
\<close>

definition upsertRow :: "('r \<Rightarrow> nat) \<Rightarrow> 'r \<Rightarrow> 'r list \<Rightarrow> 'r list" where
  "upsertRow key r rows = (if key r \<in> key ` set rows
     then map (\<lambda>x. if key x = key r then r else x) rows else insort_key key r rows)"

definition saveRow :: "('r \<Rightarrow> nat) \<Rightarrow> (nat \<Rightarrow> 'r \<Rightarrow> 'r) \<Rightarrow> (nat list \<Rightarrow> nat) \<Rightarrow> 'r \<Rightarrow> 'r list \<Rightarrow> 'r \<times> 'r list" where
  "saveRow key setKey newid r rows =
     (let r' = (if key r = 0 then setKey (newid (map key rows)) r else r) in (r', upsertRow key r' rows))"

text \<open>A new identifier is one no row has, and not 0.\<close>

definition newid_ok :: "(nat list \<Rightarrow> nat) \<Rightarrow> bool" where
  "newid_ok f \<longleftrightarrow> (\<forall>ids. f ids \<notin> set ids \<and> f ids > 0)"

text \<open>The contract of a table whose rows are found by their identifier.\<close>

locale keyed =
  fixes key :: "'r \<Rightarrow> nat"
    and setKey :: "nat \<Rightarrow> 'r \<Rightarrow> 'r"
  assumes key_setKey: "key (setKey n r) = n"
begin

lemma key_upsert: "key ` set (upsertRow key r rows) = insert (key r) (key ` set rows)"
proof (cases "key r \<in> key ` set rows")
  case True
  then show ?thesis
    by (auto simp: upsertRow_def image_iff split: if_splits)
next
  case False
  then show ?thesis by (simp add: upsertRow_def set_insort_key)
qed

lemma set_upsert: "x \<in> set (upsertRow key r rows) \<longleftrightarrow> x = r \<or> (x \<in> set rows \<and> key x \<noteq> key r)"
proof (cases "key r \<in> key ` set rows")
  case True
  then show ?thesis
    by (auto simp: upsertRow_def image_iff split: if_splits)
next
  case False
  have "key x \<noteq> key r" if "x \<in> set rows" for x
    using False that by (metis imageI)
  with False show ?thesis by (auto simp: upsertRow_def set_insort_key)
qed

lemma distinct_insort_rows:
  "key r \<notin> key ` set rows \<Longrightarrow> distinct (map key rows) \<Longrightarrow> distinct (map key (insort_key key r rows))"
  by (induction rows) (auto simp: set_insort_key)

lemma distinct_upsert: "distinct (map key rows) \<Longrightarrow> distinct (map key (upsertRow key r rows))"
proof (cases "key r \<in> key ` set rows")
  case True
  have "map key (map (\<lambda>x. if key x = key r then r else x) rows) = map key rows"
    by auto
  then show "distinct (map key rows) \<Longrightarrow> ?thesis" using True by (simp only: upsertRow_def if_True)
next
  case False
  then show "distinct (map key rows) \<Longrightarrow> ?thesis"
    by (simp add: upsertRow_def distinct_insort_rows)
qed

lemma saveRow_key: "saveRow key setKey newid r rows = (r', rows') \<Longrightarrow> newid_ok newid \<Longrightarrow> key r' > 0"
  by (auto simp: saveRow_def Let_def newid_ok_def key_setKey split: if_splits)

lemma saveRow_rows: "saveRow key setKey newid r rows = (r', rows') \<Longrightarrow>
    x \<in> set rows' \<longleftrightarrow> x = r' \<or> (x \<in> set rows \<and> key x \<noteq> key r')"
  by (auto simp: saveRow_def Let_def set_upsert)

end

interpretation clients: keyed c_id "\<lambda>n c. c\<lparr>c_id := n\<rparr>" by unfold_locales simp
interpretation inbounds: keyed i_id "\<lambda>n i. i\<lparr>i_id := n\<rparr>" by unfold_locales simp
interpretation outbounds: keyed o_id "\<lambda>n x. x\<lparr>o_id := n\<rparr>" by unfold_locales simp
interpretation endpoints: keyed p_id "\<lambda>n x. x\<lparr>p_id := n\<rparr>" by unfold_locales simp
interpretation services: keyed v_id "\<lambda>n x. x\<lparr>v_id := n\<rparr>" by unfold_locales simp
interpretation tlsRows: keyed t_id "\<lambda>n t. t\<lparr>t_id := n\<rparr>" by unfold_locales simp

definition saveClient :: "client \<Rightarrow> client act" where
  "saveClient c = sqlu (\<lambda>e d. case saveRow c_id (\<lambda>n c. c\<lparr>c_id := n\<rparr>) (e_newid e) c (db_clients d) of
     (c', rows) \<Rightarrow> Inr (c', d\<lparr>db_clients := rows\<rparr>))"

text \<open>A slice is saved in one statement; gorm refuses an empty one.\<close>

definition emptySlice :: goerr where
  "emptySlice = Err ''empty slice found''"

definition saveClients :: "client list \<Rightarrow> unit act" where
  "saveClients cs = sqlu (\<lambda>e d. if cs = [] then Inl emptySlice else Inr ((), d\<lparr>db_clients :=
     fold (\<lambda>c rows. snd (saveRow c_id (\<lambda>n c. c\<lparr>c_id := n\<rparr>) (e_newid e) c rows)) cs (db_clients d)\<rparr>))"

definition saveTls :: "tls \<Rightarrow> tls act" where
  "saveTls t = sqlu (\<lambda>e d. case saveRow t_id (\<lambda>n t. t\<lparr>t_id := n\<rparr>) (e_newid e) t (db_tls d) of
     (t', rows) \<Rightarrow> Inr (t', d\<lparr>db_tls := rows\<rparr>))"

definition uniqueErr :: goerr where
  "uniqueErr = Err ''UNIQUE constraint failed''"

text \<open>A table with a unique tag refuses a row whose tag another row has.\<close>

definition saveTagged :: "('r \<Rightarrow> nat) \<Rightarrow> (nat \<Rightarrow> 'r \<Rightarrow> 'r) \<Rightarrow> ('r \<Rightarrow> string) \<Rightarrow> (nat list \<Rightarrow> nat) \<Rightarrow> 'r \<Rightarrow> 'r list \<Rightarrow> ('r \<times> 'r list) res" where
  "saveTagged key setKey tagOf newid r rows =
     (if \<exists>x \<in> set rows. tagOf x = tagOf r \<and> key x \<noteq> key r then Inl uniqueErr
      else Inr (saveRow key setKey newid r rows))"

text \<open>
  Saving a row that refers to a TLS row also saves that reference: gorm inserts the TLS row
  unless one with its identifier exists, and stores the identifier in the row.
\<close>

definition saveTlsRef :: "(nat list \<Rightarrow> nat) \<Rightarrow> tls option \<Rightarrow> nat \<Rightarrow> tls list \<Rightarrow> nat \<times> tls list" where
  "saveTlsRef newid t tlsId rows = (case t of None \<Rightarrow> (tlsId, rows)
     | Some x \<Rightarrow> if t_id x \<noteq> 0 \<and> t_id x \<in> t_id ` set rows then (t_id x, rows)
         else case saveRow t_id (\<lambda>n t. t\<lparr>t_id := n\<rparr>) newid x rows of (x', rows') \<Rightarrow> (t_id x', rows'))"

definition saveInbound :: "inbound \<Rightarrow> inbound act" where
  "saveInbound i = sqlu (\<lambda>e d. case saveTlsRef (e_newid e) (i_tls i) (i_tls_id i) (db_tls d) of (tid, trows) \<Rightarrow>
     bindR (saveTagged i_id (\<lambda>n i. i\<lparr>i_id := n\<rparr>) i_tag (e_newid e) (i\<lparr>i_tls_id := tid\<rparr>) (db_inbounds d))
       (\<lambda>(i', rows). Inr (i', d\<lparr>db_inbounds := rows, db_tls := trows\<rparr>)))"

definition saveService :: "service \<Rightarrow> service act" where
  "saveService v = sqlu (\<lambda>e d. case saveTlsRef (e_newid e) (v_tls v) (v_tls_id v) (db_tls d) of (tid, trows) \<Rightarrow>
     bindR (saveTagged v_id (\<lambda>n v. v\<lparr>v_id := n\<rparr>) v_tag (e_newid e) (v\<lparr>v_tls_id := tid\<rparr>) (db_services d))
       (\<lambda>(v', rows). Inr (v', d\<lparr>db_services := rows, db_tls := trows\<rparr>)))"

definition saveOutbound :: "outbound \<Rightarrow> outbound act" where
  "saveOutbound x = sqlu (\<lambda>e d.
     bindR (saveTagged o_id (\<lambda>n x. x\<lparr>o_id := n\<rparr>) o_tag (e_newid e) x (db_outbounds d))
       (\<lambda>(x', rows). Inr (x', d\<lparr>db_outbounds := rows\<rparr>)))"

definition saveEndpoint :: "endpoint \<Rightarrow> endpoint act" where
  "saveEndpoint x = sqlu (\<lambda>e d.
     bindR (saveTagged p_id (\<lambda>n x. x\<lparr>p_id := n\<rparr>) p_tag (e_newid e) x (db_endpoints d))
       (\<lambda>(x', rows). Inr (x', d\<lparr>db_endpoints := rows\<rparr>)))"

definition createChanges :: "change list \<Rightarrow> unit act" where
  "createChanges cs = sqlx (\<lambda>d. d\<lparr>db_changes := db_changes d @ cs\<rparr>)"

lemma within_save [within_intros]:
  "within sameCore (saveClient c)" "within sameCore (saveClients cs)" "within sameCore (saveTls t)"
  "within sameCore (saveInbound i)" "within sameCore (saveService v)" "within sameCore (saveOutbound ob)"
  "within sameCore (saveEndpoint p)" "within sameCore (createChanges chs)"
  by (simp_all add: saveClient_def saveClients_def saveTls_def saveInbound_def saveService_def saveOutbound_def
      saveEndpoint_def createChanges_def within_sqlu within_sqlx)

text \<open>\<open>Preload("Tls")\<close>: the referenced row, if there is one.\<close>

definition findTls :: "nat \<Rightarrow> tls list \<Rightarrow> tls option" where
  "findTls i rows = (case filter (\<lambda>t. t_id t = i) rows of [] \<Rightarrow> None | t # _ \<Rightarrow> Some t)"

definition preloadInb :: "dbase \<Rightarrow> inbound \<Rightarrow> inbound" where
  "preloadInb d i = i\<lparr>i_tls := findTls (i_tls_id i) (db_tls d)\<rparr>"

definition inboundsWhere :: "(inbound \<Rightarrow> bool) \<Rightarrow> inbound list act" where
  "inboundsWhere P = sqlq (\<lambda>d. Inr (map (preloadInb d) (filter P (db_inbounds d))))"

definition servicesWhere :: "(service \<Rightarrow> bool) \<Rightarrow> service list act" where
  "servicesWhere P = sqlq (\<lambda>d. Inr (map (\<lambda>v. v\<lparr>v_tls := findTls (v_tls_id v) (db_tls d)\<rparr>) (filter P (db_services d))))"

lemma within_preload [within_intros]:
  "within sameCore (inboundsWhere P)" "within sameDb (inboundsWhere P)"
  "within sameCore (servicesWhere Q)" "within sameDb (servicesWhere Q)"
  by (simp_all add: inboundsWhere_def servicesWhere_def within_sqlq)

section \<open>Transactions\<close>

text \<open>
  The pattern of \<open>Save\<close>, \<open>DepleteClients\<close> and \<open>SaveStats\<close>: a deferred function commits
  when the variable \<open>err\<close> is nil and rolls back otherwise.  A panic leaves \<open>err\<close> nil, so it
  commits what was done so far; the result of the commit is dropped.  Where \<open>Begin\<close> fails, every
  statement of the transaction fails.  Only the tables are rolled back.
\<close>

definition commitOr :: "env \<Rightarrow> dbase \<Rightarrow> world \<Rightarrow> world" where
  "commitOr e d0 w = (let w' = w\<lparr>w_stmt := Suc (w_stmt w)\<rparr> in
     if e_dbfail e (w_stmt w) then w'\<lparr>w_db := d0\<rparr> else w')"

definition beginTx :: "env \<Rightarrow> world \<Rightarrow> env \<times> world" where
  "beginTx e w = ((if e_dbfail e (w_stmt w) then e\<lparr>e_dbfail := \<lambda>_. True\<rparr> else e), w\<lparr>w_stmt := Suc (w_stmt w)\<rparr>)"

definition inTx :: "'a act \<Rightarrow> 'a act" where
  "inTx body = (\<lambda>e w. case beginTx e w of (e', w1) \<Rightarrow>
     (case body e' w1 of
        (Inl (Err m), w2) \<Rightarrow> (Inl (Err m), w2\<lparr>w_db := w_db w\<rparr>)
      | (r, w2) \<Rightarrow> (r, commitOr e' (w_db w) w2)))"

lemma inTx_Err: "inTx body e w = (Inl (Err m), w') \<Longrightarrow> w_db w' = w_db w"
  by (auto simp: inTx_def beginTx_def split: prod.splits sum.splits goerr.splits)

lemma commitOr_core [simp]: "w_core (commitOr e d0 w) = w_core w"
  by (simp add: commitOr_def Let_def)

lemma within_inTx: "within sameCore body \<Longrightarrow> within sameCore (inTx body)"
  unfolding within_def
proof (intro allI)
  fix e w
  assume body: "\<forall>e w. sameCore w (snd (body e w))"
  obtain e' w1 where 1: "beginTx e w = (e', w1)" by fastforce
  then have "w_core w1 = w_core w" by (auto simp: beginTx_def)
  moreover obtain r w2 where 2: "body e' w1 = (r, w2)" by fastforce
  with body have "w_core w2 = w_core w1" by (metis sameCore_def snd_conv)
  ultimately show "sameCore w (snd (inTx body e w))"
    by (auto simp: inTx_def 1 2 sameCore_def split: sum.split goerr.split)
qed

section \<open>The core\<close>

definition notRunning :: goerr where
  "notRunning = Err ''sing-box is not running''"

definition isRunning :: "bool act" where
  "isRunning = askW (\<lambda>w. co_running (w_core w))"

text \<open>The tag and type sing-box reads from a configuration.\<close>

definition confStr :: "raw \<Rightarrow> string \<Rightarrow> string" where
  "confStr r k = (case r of RText (JObj m) \<Rightarrow> strOr0 (oget m k) | _ \<Rightarrow> [])"

definition confNat :: "raw \<Rightarrow> string \<Rightarrow> nat" where
  "confNat r k = (case r of RText (JObj m) \<Rightarrow> nat (numOr0 (oget m k)) | _ \<Rightarrow> 0)"

definition confUsers :: "raw \<Rightarrow> obj list" where
  "confUsers r = (case r of RText (JObj m) \<Rightarrow>
       (case asArr (oget m ''users'') of None \<Rightarrow> [] | Some vs \<Rightarrow> map objOr0 vs) | _ \<Rightarrow> [])"

text \<open>\<open>NewInbound\<close> of the patched Hysteria2 protocol: a service with the configured users.\<close>

definition hy2NewInbound :: "nat \<Rightarrow> raw \<Rightarrow> hservice" where
  "hy2NewInbound mbps conf =
     (let us = confUsers conf;
          s = NewService \<lparr>ho_sendBPS = confNat conf ''up_mbps'' * mbps, ho_receiveBPS = confNat conf ''down_mbps'' * mbps,
                ho_ignoreBandwidth = (case conf of RText (JObj m) \<Rightarrow> asBool (oget m ''ignore_client_bandwidth'') = Some True | _ \<Rightarrow> False),
                ho_udpDisabled = False\<rparr>
      in case UpdateUsers (map (\<lambda>u. strOr0 (oget u ''name'')) us) (map (\<lambda>u. strOr0 (oget u ''password'')) us) s of
           Inr s' \<Rightarrow> s' | Inl _ \<Rightarrow> s)"

definition liveOf :: "nat \<Rightarrow> raw \<Rightarrow> string \<times> livein" where
  "liveOf mbps conf = (confStr conf ''tag'', \<lparr>li_type = confStr conf ''type'', li_conf = conf, li_hy2 = hy2NewInbound mbps conf\<rparr>)"

definition AddInbound :: "raw \<Rightarrow> unit act" where
  "AddInbound conf = (\<lambda>e w. if \<not> co_running (w_core w) then (Inl notRunning, w)
     else if \<not> e_create e ''inbound'' conf then (Inl (Err ''create inbound''), w)
     else case liveOf (e_mbpsToBps e) conf of (tag, l) \<Rightarrow>
       (Inr (), w\<lparr>w_core := (w_core w)\<lparr>co_inbounds := AList.update tag l (co_inbounds (w_core w))\<rparr>\<rparr>))"

definition RemoveInbound :: "string \<Rightarrow> unit act" where
  "RemoveInbound tag = (\<lambda>e w. if \<not> co_running (w_core w) then (Inl notRunning, w)
     else if map_of (co_inbounds (w_core w)) tag = None then (Inl errInvalid, w)
     else let w' = w\<lparr>w_core := (w_core w)\<lparr>co_inbounds := AList.delete tag (co_inbounds (w_core w))\<rparr>\<rparr> in
       if e_close e tag then (Inr (), w') else (Inl (Err ''close inbound''), w'))"

text \<open>\<open>hysteria2Inbound\<close>: the live inbound behind a tag, or why there is none.\<close>

definition hysteria2Inbound :: "string \<Rightarrow> livein act" where
  "hysteria2Inbound tag = (\<lambda>e w. if \<not> co_running (w_core w) then (Inl notRunning, w)
     else case map_of (co_inbounds (w_core w)) tag of
         None \<Rightarrow> (Inl (Err ''inbound not found''), w)
       | Some l \<Rightarrow> if li_type l = ''hysteria2'' then (Inr l, w) else (Inl (Err ''inbound is not hysteria2''), w))"

definition UpdateInboundUsersLive :: "string \<Rightarrow> string list \<Rightarrow> string list \<Rightarrow> unit act" where
  "UpdateInboundUsersLive tag names passwords = bindA (hysteria2Inbound tag) (\<lambda>l.
     bindA (liftR (UpdateUsers names passwords (li_hy2 l))) (\<lambda>h.
       modW (\<lambda>w. w\<lparr>w_core := (w_core w)\<lparr>co_inbounds :=
         AList.update tag (l\<lparr>li_hy2 := RetainUsers passwords h\<rparr>) (co_inbounds (w_core w))\<rparr>\<rparr>)))"

text \<open>Outbounds, endpoints and services: the same two operations on a registry of the core.\<close>

definition addTo :: "string \<Rightarrow> (core \<Rightarrow> (string \<times> raw) list) \<Rightarrow> ((string \<times> raw) list \<Rightarrow> core \<Rightarrow> core) \<Rightarrow> raw \<Rightarrow> unit act" where
  "addTo kind get put conf = (\<lambda>e w. if \<not> co_running (w_core w) then (Inl notRunning, w)
     else if \<not> e_create e kind conf then (Inl (Err (''create '' @ kind)), w)
     else (Inr (), w\<lparr>w_core := put (AList.update (confStr conf ''tag'') conf (get (w_core w))) (w_core w)\<rparr>))"

definition removeFrom :: "(core \<Rightarrow> (string \<times> raw) list) \<Rightarrow> ((string \<times> raw) list \<Rightarrow> core \<Rightarrow> core) \<Rightarrow> string \<Rightarrow> unit act" where
  "removeFrom get put tag = (\<lambda>e w. if \<not> co_running (w_core w) then (Inl notRunning, w)
     else if map_of (get (w_core w)) tag = None then (Inl errInvalid, w)
     else let w' = w\<lparr>w_core := put (AList.delete tag (get (w_core w))) (w_core w)\<rparr> in
       if e_close e tag then (Inr (), w') else (Inl (Err ''close''), w'))"

definition AddOutbound :: "raw \<Rightarrow> unit act" where
  "AddOutbound = addTo ''outbound'' co_outbounds (\<lambda>x c. c\<lparr>co_outbounds := x\<rparr>)"

definition RemoveOutbound :: "string \<Rightarrow> unit act" where
  "RemoveOutbound = removeFrom co_outbounds (\<lambda>x c. c\<lparr>co_outbounds := x\<rparr>)"

definition AddEndpoint :: "raw \<Rightarrow> unit act" where
  "AddEndpoint = addTo ''endpoint'' co_endpoints (\<lambda>x c. c\<lparr>co_endpoints := x\<rparr>)"

definition RemoveEndpoint :: "string \<Rightarrow> unit act" where
  "RemoveEndpoint = removeFrom co_endpoints (\<lambda>x c. c\<lparr>co_endpoints := x\<rparr>)"

definition AddService :: "raw \<Rightarrow> unit act" where
  "AddService = addTo ''service'' co_services (\<lambda>x c. c\<lparr>co_services := x\<rparr>)"

definition RemoveService :: "string \<Rightarrow> unit act" where
  "RemoveService = removeFrom co_services (\<lambda>x c. c\<lparr>co_services := x\<rparr>)"

text \<open>\<open>CloseConnByInbound\<close> on the tracker of the running instance.\<close>

definition closeConns :: "string \<Rightarrow> unit act" where
  "closeConns tag = modW (\<lambda>w. w\<lparr>w_core := (w_core w)\<lparr>co_conns := snd (CloseConnByInbound tag (co_conns (w_core w)))\<rparr>\<rparr>)"

lemma within_core [within_intros]:
  "within sameDb isRunning" "within sameDb (AddInbound c)" "within sameDb (RemoveInbound t)"
  "within sameDb (UpdateInboundUsersLive t ns ps)" "within sameDb (closeConns t)"
  "within sameDb (AddOutbound c)" "within sameDb (RemoveOutbound t)" "within sameDb (AddEndpoint c)"
  "within sameDb (RemoveEndpoint t)" "within sameDb (AddService c)" "within sameDb (RemoveService t)"
  by (auto simp: within_def sameDb_def isRunning_def AddInbound_def RemoveInbound_def UpdateInboundUsersLive_def bindA_def
      hysteria2Inbound_def closeConns_def addTo_def removeFrom_def AddOutbound_def RemoveOutbound_def
      AddEndpoint_def RemoveEndpoint_def AddService_def RemoveService_def Let_def
      split: prod.splits sum.splits option.splits)

text \<open>The list of configurations under a key of a whole configuration.\<close>

definition confList :: "raw \<Rightarrow> string \<Rightarrow> raw list" where
  "confList r k = (case r of RText (JObj m) \<Rightarrow>
       (case asArr (oget m k) of None \<Rightarrow> [] | Some vs \<Rightarrow> map RText vs) | _ \<Rightarrow> [])"

definition tagged :: "raw list \<Rightarrow> (string \<times> raw) list" where
  "tagged rs = fold (\<lambda>r m. AList.update (confStr r ''tag'') r m) rs []"

text \<open>
  \<open>Core.Start\<close>: a text the decoder refuses is only logged, and the box is built from what the
  decoder left in the options (\<open>e_decode\<close>).
\<close>

definition coreStart :: "raw \<Rightarrow> unit act" where
  "coreStart conf = (\<lambda>e w. let opt = e_decode e conf in
     if \<not> e_start e opt then (Inl (Err ''start box''), w\<lparr>w_core := (w_core w)\<lparr>co_instance := False\<rparr>\<rparr>)
     else (Inr (), w\<lparr>w_core := \<lparr>co_running = True, co_instance = True,
         co_inbounds = fold (\<lambda>r m. case liveOf (e_mbpsToBps e) r of (t, l) \<Rightarrow> AList.update t l m) (confList opt ''inbounds'') [],
         co_outbounds = tagged (confList opt ''outbounds''), co_endpoints = tagged (confList opt ''endpoints''),
         co_services = tagged (confList opt ''services''), co_conns = NewConnTracker, co_stats = NewStatsTracker\<rparr>\<rparr>))"

definition coreStop :: "unit act" where
  "coreStop = (\<lambda>e w. let c = (w_core w)\<lparr>co_running := False\<rparr> in
     if \<not> co_instance (w_core w) then (Inr (), w\<lparr>w_core := c\<rparr>)
     else let w' = w\<lparr>w_core := c\<lparr>co_instance := False, co_inbounds := [], co_outbounds := [], co_endpoints := [], co_services := []\<rparr>\<rparr>
       in if e_close e ''box'' then (Inr (), w') else (Inl (Err ''close box''), w'))"

lemma within_coreRun [within_intros]: "within sameDb (coreStart conf)" "within sameDb coreStop"
  by (auto simp: within_def sameDb_def coreStart_def coreStop_def Let_def)

end
