(* ===== verification/ClientService.thy ===== *)
theory ClientService
  imports World
begin

text \<open>
  \<open>service/client.go\<close>: saving clients (with their share links), keeping the clients' inbound
  lists and links in step with the inbounds, and the periodic job that resets and depletes
  clients.  The conditions of the SQL statements are predicates on a client row; the updates of a
  row are functions of a row.
\<close>

section \<open>Reading a submitted client\<close>

text \<open>A struct field of \<open>encoding/json\<close>: absent and \<open>null\<close> leave the zero value.\<close>

definition field :: "obj \<Rightarrow> string \<Rightarrow> (jv \<Rightarrow> 'a option) \<Rightarrow> 'a \<Rightarrow> 'a res" where
  "field m k f z = (case map_of m k of None \<Rightarrow> Inr z | Some JNull \<Rightarrow> Inr z
     | Some v \<Rightarrow> (case f v of None \<Rightarrow> jsonErr | Some x \<Rightarrow> Inr x))"

definition rawField :: "obj \<Rightarrow> string \<Rightarrow> raw" where
  "rawField m k = (case map_of m k of None \<Rightarrow> RNil | Some v \<Rightarrow> RText v)"

definition asUintO :: "jv \<Rightarrow> nat option" where
  "asUintO v = (case asUint v of (n, ok) \<Rightarrow> if ok then Some n else None)"

definition asInt64 :: "jv \<Rightarrow> int option" where
  "asInt64 v = (case asNum v of None \<Rightarrow> None | Some n \<Rightarrow> if inInt64 n then Some n else None)"

definition decodeClient :: "jv \<Rightarrow> client res" where
  "decodeClient v = (case v of JObj m \<Rightarrow>
     bindR (field m ''id'' asUintO 0) (\<lambda>i. bindR (field m ''enable'' asBool False) (\<lambda>en.
     bindR (field m ''name'' asStr []) (\<lambda>nm. bindR (field m ''volume'' asInt64 0) (\<lambda>vol.
     bindR (field m ''expiry'' asInt64 0) (\<lambda>ex. bindR (field m ''down'' asInt64 0) (\<lambda>dn.
     bindR (field m ''up'' asInt64 0) (\<lambda>u. bindR (field m ''desc'' asStr []) (\<lambda>ds.
     bindR (field m ''group'' asStr []) (\<lambda>gr. bindR (field m ''banned'' asBool False) (\<lambda>bn.
     bindR (field m ''bannedAt'' asInt64 0) (\<lambda>ba. bindR (field m ''delayStart'' asBool False) (\<lambda>dl.
     bindR (field m ''autoReset'' asBool False) (\<lambda>ar. bindR (field m ''resetDays'' asInt64 0) (\<lambda>rd.
     bindR (field m ''nextReset'' asInt64 0) (\<lambda>nr. bindR (field m ''totalUp'' asInt64 0) (\<lambda>tu.
     bindR (field m ''totalDown'' asInt64 0) (\<lambda>td.
       Inr \<lparr>c_id = i, c_enable = en, c_name = nm, c_config = rawField m ''config'',
         c_inbounds = rawField m ''inbounds'', c_links = rawField m ''links'', c_volume = vol, c_expiry = ex,
         c_down = dn, c_up = u, c_desc = ds, c_group = gr, c_banned = bn, c_banned_at = ba, c_delay_start = dl,
         c_auto_reset = ar, c_reset_days = rd, c_next_reset = nr, c_total_up = tu, c_total_down = td\<rparr>)))))))))))))))))
   | _ \<Rightarrow> jsonErr)"

definition zeroClient :: client where
  "zeroClient = \<lparr>c_id = 0, c_enable = False, c_name = [], c_config = RNil, c_inbounds = RNil, c_links = RNil,
     c_volume = 0, c_expiry = 0, c_down = 0, c_up = 0, c_desc = [], c_group = [], c_banned = False, c_banned_at = 0,
     c_delay_start = False, c_auto_reset = False, c_reset_days = 0, c_next_reset = 0, c_total_up = 0, c_total_down = 0\<rparr>"

fun unmarshalClient :: "raw \<Rightarrow> client res" where
  "unmarshalClient (RText JNull) = Inr zeroClient"
| "unmarshalClient (RText v) = decodeClient v"
| "unmarshalClient _ = jsonErr"

text \<open>\<open>[]*model.Client\<close>: an element may be a nil pointer, which the first access panics on.\<close>

fun unmarshalClients :: "raw \<Rightarrow> client option list res" where
  "unmarshalClients (RText (JArr vs)) = mapR (\<lambda>v. if v = JNull then Inr None else bindR (decodeClient v) (\<lambda>c. Inr (Some c))) vs"
| "unmarshalClients (RText JNull) = Inr []"
| "unmarshalClients _ = jsonErr"

definition deref :: "'a option \<Rightarrow> 'a res" where
  "deref x = (case x of None \<Rightarrow> Inl (Panic ''nil pointer dereference'') | Some y \<Rightarrow> Inr y)"

section \<open>Lists\<close>

text \<open>The list selects some columns only; the others are left at their zero values.\<close>

definition listedClient :: "client \<Rightarrow> client" where
  "listedClient c = zeroClient\<lparr>c_id := c_id c, c_enable := c_enable c, c_name := c_name c, c_desc := c_desc c,
     c_group := c_group c, c_inbounds := c_inbounds c, c_up := c_up c, c_down := c_down c, c_volume := c_volume c,
     c_expiry := c_expiry c\<rparr>"

definition Client_GetAll :: "client list act" where
  "Client_GetAll = sqlq (\<lambda>d. Inr (map listedClient (db_clients d)))"

definition Client_getById :: "string \<Rightarrow> client list act" where
  "Client_getById ids = rowsWhere db_clients (\<lambda>c. int (c_id c) \<in> set (textIds ids))"

definition Client_Get :: "string \<Rightarrow> client list act" where
  "Client_Get ids = (if ids = [] then Client_GetAll else Client_getById ids)"

section \<open>Identity, links and changed inbounds\<close>

definition identify :: "string \<Rightarrow> obj \<Rightarrow> obj" where
  "identify name cfg = (if ohas cfg ''name'' then oset ''name'' (JStr name) cfg
     else if ohas cfg ''username'' then oset ''username'' (JStr name) cfg else cfg)"

definition identifyAll :: "string \<Rightarrow> obj \<Rightarrow> obj" where
  "identifyAll name m = map (\<lambda>(k, v). (k, case v of JObj c \<Rightarrow> JObj (identify name c) | _ \<Rightarrow> v)) m"

definition setConfigIdentity :: "client \<Rightarrow> client res" where
  "setConfigIdentity c = (if c_name c = [] \<or> length (rawText (c_config c)) < 2 then Inr c
     else bindR (unmarshalConfigs (c_config c)) (\<lambda>_.
       Inr (c\<lparr>c_config := RText (case c_config c of RText (JObj m) \<Rightarrow> JObj (identifyAll (c_name c) m) | _ \<Rightarrow> JNull)\<rparr>)))"

definition localLink :: "string \<Rightarrow> string \<Rightarrow> link" where
  "localLink tag uri = [(''remark'', tag), (''type'', ''local''), (''uri'', uri)]"

text \<open>The local links of one client on the inbounds it lists, for those that were loaded.\<close>

definition linksFor :: "(nat \<Rightarrow> nat) \<Rightarrow> raw \<Rightarrow> (nat \<times> inbound) list \<Rightarrow> string \<Rightarrow> nat list \<Rightarrow> link list res" where
  "linksFor rnd config byId hostname ids = bindR (mapR (\<lambda>i. case map_of byId i of
       None \<Rightarrow> Inr []
     | Some ib \<Rightarrow> bindR (LinkGenerator rnd config ib hostname) (\<lambda>uris. Inr (map (localLink (i_tag ib)) uris))) ids)
     (\<lambda>lss. Inr (concat lss))"

definition updateLinksWithFixedInbounds :: "client list \<Rightarrow> string \<Rightarrow> client list act" where
  "updateLinksWithFixedInbounds cs hostname =
     bindA (liftR (mapR (\<lambda>c. unmarshalUints (c_inbounds c)) cs)) (\<lambda>idss.
     let allIds = fold (\<lambda>ids acc. UnionUintArray acc ids) idss [] in
     bindA (if allIds = [] then retA []
            else inboundsWhere (\<lambda>i. i_id i \<in> set allIds \<and> i_type i \<in> set InboundTypeWithLink)) (\<lambda>ibs.
     let byId = map (\<lambda>i. (i_id i, i)) ibs in
     bindA (askE e_rnd) (\<lambda>rnd. liftR (mapR (\<lambda>(c, ids).
       bindR (unmarshalLinks (c_links c)) (\<lambda>old.
       bindR (linksFor rnd (c_config c) byId hostname ids) (\<lambda>new.
         Inr (c\<lparr>c_links := marshalLinks (new @ filter (\<lambda>l. lget l ''type'' \<noteq> ''local'') old)\<rparr>)))) (zip cs idss)))))"

text \<open>The client as it will be saved, and the inbounds its change concerns.\<close>

definition findInboundsChanges :: "client \<Rightarrow> bool \<Rightarrow> (client \<times> nat list) act" where
  "findInboundsChanges c fillOmitted =
     bindA (firstWhere db_clients (\<lambda>x. c_id x = c_id c)) (\<lambda>old.
     let c1 = (if fillOmitted then c\<lparr>c_links := c_links old, c_config := c_config old\<rparr> else c) in
     bindA (liftR (unmarshalUints (c_inbounds old))) (\<lambda>oldIds.
     bindA (liftR (unmarshalUints (c_inbounds c1))) (\<lambda>newIds.
       retA (c1, if rawText (c_config old) \<noteq> rawText (c_config c1) \<or> c_name old \<noteq> c_name c1 \<or>
                    c_enable old \<noteq> c_enable c1
                 then UnionUintArray oldIds newIds else DiffUintArray oldIds newIds))))"

section \<open>Save\<close>

definition deleteClients :: "(client \<Rightarrow> bool) \<Rightarrow> unit act" where
  "deleteClients P = sqlx (\<lambda>d. d\<lparr>db_clients := filter (\<lambda>c. \<not> P c) (db_clients d)\<rparr>)"

definition saveOne :: "bool \<Rightarrow> raw \<Rightarrow> string \<Rightarrow> nat list act" where
  "saveOne edit data hostname =
     bindA (liftR (unmarshalClient data)) (\<lambda>c0.
     bindA (liftR (setConfigIdentity c0)) (\<lambda>c1.
     bindA (updateLinksWithFixedInbounds [c1] hostname) (\<lambda>cs.
     let c2 = hd cs in
     bindA (if edit then bindA (findInboundsChanges c2 False) (\<lambda>r. retA (snd r))
            else liftR (unmarshalUints (c_inbounds c2))) (\<lambda>ids.
     thenA (saveClient c2) (retA ids)))))"

definition addBulk :: "raw \<Rightarrow> string \<Rightarrow> nat list act" where
  "addBulk data hostname =
     bindA (liftR (unmarshalClients data)) (\<lambda>ps.
     bindA (foldA (\<lambda>p (cs, ids).
         bindA (liftR (deref p)) (\<lambda>c. bindA (liftR (setConfigIdentity c)) (\<lambda>c1.
         bindA (liftR (unmarshalUints (c_inbounds c1))) (\<lambda>is. retA (cs @ [c1], UnionUintArray ids is))))) ps ([], []))
       (\<lambda>(cs, ids).
     bindA (updateLinksWithFixedInbounds cs hostname) (\<lambda>cs'.
     thenA (saveClients cs') (retA ids))))"

definition editBulk :: "raw \<Rightarrow> string \<Rightarrow> nat list act" where
  "editBulk data hostname =
     bindA (liftR (unmarshalClients data)) (\<lambda>ps.
     bindA (foldA (\<lambda>p (cs, ids).
         bindA (liftR (deref p)) (\<lambda>c. bindA (findInboundsChanges c True) (\<lambda>(c1, is).
         bindA (liftR (setConfigIdentity c1)) (\<lambda>c2.
           retA (cs @ [c2], if is = [] then ids else UnionUintArray ids is))))) ps ([], []))
       (\<lambda>(cs, ids).
     bindA (if ids = [] then retA cs else updateLinksWithFixedInbounds cs hostname) (\<lambda>cs'.
     thenA (saveClients cs') (retA ids))))"

definition delBulk :: "raw \<Rightarrow> nat list act" where
  "delBulk data =
     bindA (liftR (unmarshalUints data)) (\<lambda>ids.
     bindA (foldA (\<lambda>i acc.
         bindA (firstWhere db_clients (\<lambda>c. c_id c = i)) (\<lambda>c.
         bindA (liftR (unmarshalUints (c_inbounds c))) (\<lambda>is. retA (UnionUintArray acc is)))) ids []) (\<lambda>res.
     thenA (deleteClients (\<lambda>c. c_id c \<in> set ids)) (retA res)))"

definition delOne :: "raw \<Rightarrow> nat list act" where
  "delOne data =
     bindA (liftR (unmarshalUint data)) (\<lambda>i.
     bindA (firstWhere db_clients (\<lambda>c. c_id c = i)) (\<lambda>c.
     bindA (liftR (unmarshalUints (c_inbounds c))) (\<lambda>ids.
     thenA (deleteClients (\<lambda>c. c_id c = i)) (retA ids))))"

definition ClientService_Save :: "string \<Rightarrow> raw \<Rightarrow> string \<Rightarrow> nat list act" where
  "ClientService_Save act data hostname =
     (if act = ''new'' then saveOne False data hostname
      else if act = ''edit'' then saveOne True data hostname
      else if act = ''addbulk'' then addBulk data hostname
      else if act = ''editbulk'' then editBulk data hostname
      else if act = ''delbulk'' then delBulk data
      else if act = ''del'' then delOne data
      else failA (Err (''unknown action: '' @ act)))"

section \<open>Following the inbounds\<close>

definition zeroInbound :: inbound where
  "zeroInbound = \<lparr>i_id = 0, i_type = [], i_tag = [], i_tls_id = 0, i_tls = None, i_addrs = RNil,
     i_out_json = RNil, i_options = RNil\<rparr>"

definition UpdateClientsOnInboundAdd :: "string \<Rightarrow> nat \<Rightarrow> string \<Rightarrow> unit act" where
  "UpdateClientsOnInboundAdd initIds inboundId hostname =
     bindA (rowsWhere db_clients (\<lambda>c. int (c_id c) \<in> set (textIds initIds))) (\<lambda>cs.
     bindA (inboundsWhere (\<lambda>i. i_id i = inboundId)) (\<lambda>ibs.
     let ib = (case ibs of [] \<Rightarrow> zeroInbound | i # _ \<Rightarrow> i) in
     bindA (askE e_rnd) (\<lambda>rnd. forA (\<lambda>c.
       bindA (liftR (LinkGenerator rnd (c_config c) ib hostname)) (\<lambda>uris.
       let new = map (localLink (i_tag ib)) uris @
                 filter (\<lambda>l. lget l ''remark'' \<noteq> i_tag ib) (fst (linksOf (c_links c))) in
       bindA (saveClient (c\<lparr>c_inbounds := marshalUints (fst (uintsOf (c_inbounds c)) @ [inboundId]),
                            c_links := marshalLinksNil new\<rparr>)) (\<lambda>_. retA ()))) cs)))"

text \<open>The clients attached to an inbound, found by the two queries of the source.\<close>

definition clientsOf :: "nat \<Rightarrow> client list act" where
  "clientsOf inboundId =
     bindA (sqlq (\<lambda>d. bindR (filterR (\<lambda>c. eachHas inboundId (c_inbounds c)) (db_clients d)) (\<lambda>cs. Inr (map c_id cs)))) (\<lambda>ids.
     if ids = [] then retA [] else rowsWhere db_clients (\<lambda>c. c_id c \<in> set ids))"

definition UpdateClientsOnInboundDelete :: "nat \<Rightarrow> string \<Rightarrow> unit act" where
  "UpdateClientsOnInboundDelete inboundId tag =
     bindA (clientsOf inboundId) (forA (\<lambda>c.
       bindA (saveClient (c\<lparr>c_inbounds := marshalUintsNil (filter (\<lambda>i. i \<noteq> inboundId) (fst (uintsOf (c_inbounds c)))),
                            c_links := marshalLinksNil (filter (\<lambda>l. lget l ''remark'' \<noteq> tag) (fst (linksOf (c_links c))))\<rparr>))
         (\<lambda>_. retA ())))"

definition UpdateLinksByInboundChange :: "inbound list \<Rightarrow> string \<Rightarrow> string \<Rightarrow> unit act" where
  "UpdateLinksByInboundChange ibs hostname oldTag = forA (\<lambda>ib.
     bindA (clientsOf (i_id ib)) (\<lambda>cs. bindA (askE e_rnd) (\<lambda>rnd. forA (\<lambda>c.
       bindA (liftR (LinkGenerator rnd (c_config c) ib hostname)) (\<lambda>uris.
       let new = map (localLink (i_tag ib)) uris @
                 filter (\<lambda>l. lget l ''type'' \<noteq> ''local'' \<or> (lget l ''remark'' \<noteq> i_tag ib \<and> lget l ''remark'' \<noteq> oldTag))
                   (fst (linksOf (c_links c))) in
       bindA (saveClient (c\<lparr>c_links := marshalLinksNil new\<rparr>)) (\<lambda>_. retA ()))) cs))) ibs"

section \<open>Reset and depletion\<close>

definition overLimit :: "int \<Rightarrow> client \<Rightarrow> bool" where
  "overLimit dt c \<longleftrightarrow> (c_volume c > 0 \<and> c_up c + c_down c > c_volume c) \<or> (c_expiry c > 0 \<and> c_expiry c < dt)"

definition mustDeplete :: "int \<Rightarrow> client \<Rightarrow> bool" where
  "mustDeplete dt c \<longleftrightarrow> c_enable c \<and> overLimit dt c"

definition startsOnce :: "client \<Rightarrow> bool" where
  "startsOnce c \<longleftrightarrow> c_enable c \<and> c_delay_start c \<and> \<not> c_auto_reset c \<and> c_up c + c_down c > 0"

definition startsPeriodic :: "client \<Rightarrow> bool" where
  "startsPeriodic c \<longleftrightarrow> c_enable c \<and> c_delay_start c \<and> c_auto_reset c \<and> c_up c + c_down c > 0"

definition resetDue :: "int \<Rightarrow> client \<Rightarrow> bool" where
  "resetDue dt c \<longleftrightarrow> \<not> c_delay_start c \<and> c_auto_reset c \<and> c_next_reset c < dt"

definition daysAfter :: "int \<Rightarrow> int \<Rightarrow> int" where
  "daysAfter dt n = wrap64 (dt + wrap64 (n * 86400))"

definition startOnce :: "int \<Rightarrow> client \<Rightarrow> client" where
  "startOnce dt c = c\<lparr>c_expiry := daysAfter dt (c_reset_days c), c_delay_start := False\<rparr>"

definition startPeriodic :: "int \<Rightarrow> client \<Rightarrow> client" where
  "startPeriodic dt c = c\<lparr>c_next_reset := daysAfter dt (c_reset_days c), c_delay_start := False\<rparr>"

text \<open>A banned client is never re-enabled by its periodic reset.\<close>

definition renew :: "int \<Rightarrow> client \<Rightarrow> client" where
  "renew dt c = c\<lparr>c_next_reset := daysAfter dt (c_reset_days c),
     c_total_up := wrap64 (c_total_up c + c_up c), c_total_down := wrap64 (c_total_down c + c_down c),
     c_up := 0, c_down := 0, c_enable := (c_enable c \<or> \<not> c_banned c)\<rparr>"

definition revived :: "client \<Rightarrow> bool" where
  "revived c \<longleftrightarrow> \<not> c_enable c \<and> \<not> c_banned c"

definition clientChange :: "int \<Rightarrow> string \<Rightarrow> string \<Rightarrow> client \<Rightarrow> change" where
  "clientChange dt actor action c = \<lparr>ch_datetime = dt, ch_actor = actor, ch_key = ''clients'', ch_action = action,
     ch_obj = jparse (CHR 0x22 # c_name c @ [CHR 0x22])\<rparr>"

definition setLastUpdate :: "int \<Rightarrow> unit act" where
  "setLastUpdate t = modW (\<lambda>w. w\<lparr>w_lastUpdate := t\<rparr>)"

definition unionInbounds :: "client list \<Rightarrow> nat list \<Rightarrow> nat list" where
  "unionInbounds cs ids = fold (\<lambda>c acc. UnionUintArray acc (fst (uintsOf (c_inbounds c)))) cs ids"

definition ResetClients :: "int \<Rightarrow> nat list act" where
  "ResetClients dt =
     bindA (rowsWhere db_clients startsOnce) (\<lambda>r1.
     bindA (rowsWhere db_clients startsPeriodic) (\<lambda>r2.
     bindA (rowsWhere db_clients (resetDue dt)) (\<lambda>r3.
     let all = map (startOnce dt) r1 @ map (startPeriodic dt) r2 @ map (renew dt) r3;
         changes = map (clientChange dt ''ResetJob'' ''reset'') (r1 @ r2);
         ids = unionInbounds (filter revived r3) [] in
     thenA (if all = [] then retA () else saveClients all)
     (thenA (if changes = [] then retA () else thenA (createChanges changes) (setLastUpdate dt))
     (retA ids)))))"

definition updateClients :: "(client \<Rightarrow> bool) \<Rightarrow> (client \<Rightarrow> client) \<Rightarrow> unit act" where
  "updateClients P f = sqlx (\<lambda>d. d\<lparr>db_clients := map (\<lambda>c. if P c then f c else c) (db_clients d)\<rparr>)"

definition depleteBody :: "int \<Rightarrow> nat list act" where
  "depleteBody dt =
     bindA (ResetClients dt) (\<lambda>ids.
     bindA (rowsWhere db_clients (mustDeplete dt)) (\<lambda>cs.
     let ids' = unionInbounds cs ids; changes = map (clientChange dt ''DepleteJob'' ''disable'') cs in
     thenA (if changes = [] then retA ()
            else thenA (updateClients (mustDeplete dt) (\<lambda>c. c\<lparr>c_enable := False\<rparr>))
                (thenA (createChanges changes) (setLastUpdate dt)))
     (retA ids')))"

text \<open>The transaction, and the checkpoint that follows a commit (its error is only logged).\<close>

definition DepleteClients :: "nat list act" where
  "DepleteClients = (\<lambda>e w. case inTx (depleteBody (e_now e)) e w of
       (Inl (Err m), w') \<Rightarrow> (Inl (Err m), w')
     | (r, w') \<Rightarrow> (r, w'\<lparr>w_stmt := Suc (w_stmt w')\<rparr>))"

end
