(* ===== verification/ClientLaws.thy ===== *)
theory ClientLaws
  imports ClientService
begin

text \<open>
  What the periodic job of \<open>service/client.go\<close> does, stated on rows: the job is one function
  applied to every client row, and from that function follow the guarantees of quotas, bans and
  traffic totals.
\<close>

section \<open>Saving several rows of one table\<close>

lemma find_append: "find P (xs @ ys) = (case find P xs of None \<Rightarrow> find P ys | Some x \<Rightarrow> Some x)"
  by (induction xs) auto

context keyed
begin

lemma saveRow_present:
  "key x \<noteq> 0 \<Longrightarrow> key x \<in> key ` set rows \<Longrightarrow> saveRow key setKey f x rows = (x, map (\<lambda>y. if key y = key x then x else y) rows)"
  by (simp add: saveRow_def upsertRow_def)

lemma find_none: "key r \<notin> key ` set xs \<Longrightarrow> find (\<lambda>x. key x = key r) xs = None"
  by (auto simp: find_None_iff) (metis imageI)

lemma fold_saveRow:
  "distinct (map key xs) \<Longrightarrow> (\<forall>x \<in> set xs. key x \<noteq> 0 \<and> key x \<in> key ` set rows) \<Longrightarrow>
     fold (\<lambda>x rows. snd (saveRow key setKey f x rows)) xs rows =
     map (\<lambda>r. case find (\<lambda>x. key x = key r) xs of Some x \<Rightarrow> x | None \<Rightarrow> r) rows"
proof (induction xs arbitrary: rows)
  case (Cons x xs)
  let ?rows = "map (\<lambda>y. if key y = key x then x else y) rows"
  have "map key ?rows = map key rows" using Cons.prems(2) by auto
  then have keys: "key ` set ?rows = key ` set rows" by (metis list.set_map)
  have "find (\<lambda>z. key z = key x) xs = None"
    using Cons.prems(1) by (intro find_none) simp
  then have "map (\<lambda>r. case find (\<lambda>x. key x = key r) xs of Some x \<Rightarrow> x | None \<Rightarrow> r) ?rows =
      map (\<lambda>r. case find (\<lambda>x. key x = key r) (x # xs) of Some x \<Rightarrow> x | None \<Rightarrow> r) rows"
    by (auto split: option.splits)
  moreover have "saveRow key setKey f x rows = (x, ?rows)"
    using Cons.prems(2) by (intro saveRow_present) auto
  moreover have "\<forall>y \<in> set xs. key y \<noteq> 0 \<and> key y \<in> key ` set ?rows"
    unfolding keys using Cons.prems(2) by simp
  ultimately show ?case
    using Cons.IH [of ?rows] Cons.prems(1) by simp
qed simp

lemma find_map_filter:
  assumes "distinct (map key rows)" "r \<in> set rows" "\<And>x. key (g x) = key x"
  shows "find (\<lambda>x. key x = key r) (map g (filter P rows)) = (if P r then Some (g r) else None)"
  using assms(1,2)
proof (induction rows)
  case (Cons y rows)
  show ?case
  proof (cases "y = r")
    case True
    then have "key r \<notin> key ` set (map g (filter P rows))"
      using Cons.prems(1) assms(3) by auto
    then show ?thesis using True assms(3) find_none by simp
  next
    case False
    with Cons.prems have "key y \<noteq> key r" "r \<in> set rows" by auto
    with Cons False assms(3) show ?thesis by auto
  qed
qed simp

end

section \<open>One row\<close>

definition resetRow :: "int \<Rightarrow> client \<Rightarrow> client" where
  "resetRow dt c = (if startsOnce c then startOnce dt c
     else if startsPeriodic c then startPeriodic dt c
     else if resetDue dt c then renew dt c else c)"

definition depleteRow :: "int \<Rightarrow> client \<Rightarrow> client" where
  "depleteRow dt c = (if mustDeplete dt c then c\<lparr>c_enable := False\<rparr> else c)"

definition jobRow :: "int \<Rightarrow> client \<Rightarrow> client" where
  "jobRow dt c = depleteRow dt (resetRow dt c)"

text \<open>The three kinds of reset never apply to the same row.\<close>

lemma reset_kinds_disjoint:
  "startsOnce c \<Longrightarrow> \<not> startsPeriodic c \<and> \<not> resetDue dt c" "startsPeriodic c \<Longrightarrow> \<not> resetDue dt c"
  by (auto simp: startsOnce_def startsPeriodic_def resetDue_def)

lemma row_keeps [simp]:
  "c_id (startOnce dt c) = c_id c" "c_id (startPeriodic dt c) = c_id c" "c_id (renew dt c) = c_id c"
  by (simp_all add: startOnce_def startPeriodic_def renew_def)

definition goodIds :: "client list \<Rightarrow> bool" where
  "goodIds cs \<longleftrightarrow> distinct (map c_id cs) \<and> (\<forall>c \<in> set cs. c_id c \<noteq> 0)"

section \<open>The reset queries together\<close>

definition resetAll :: "int \<Rightarrow> client list \<Rightarrow> client list" where
  "resetAll dt rows = map (startOnce dt) (filter startsOnce rows) @
     map (startPeriodic dt) (filter startsPeriodic rows) @ map (renew dt) (filter (resetDue dt) rows)"

lemma fold_save_resetAll:
  assumes "goodIds rows"
  shows "fold (\<lambda>c rows. snd (saveRow c_id (\<lambda>n c. c\<lparr>c_id := n\<rparr>) f c rows)) (resetAll dt rows) rows = map (resetRow dt) rows"
proof -
  have dist: "distinct (map c_id rows)" and pos: "\<forall>c \<in> set rows. c_id c \<noteq> 0"
    using assms by (simp_all add: goodIds_def)
  have fnd: "find (\<lambda>x. c_id x = c_id r) (resetAll dt rows) = (if startsOnce r then Some (startOnce dt r)
      else if startsPeriodic r then Some (startPeriodic dt r) else if resetDue dt r then Some (renew dt r) else None)"
    if "r \<in> set rows" for r
    using clients.find_map_filter [OF dist that, of "startOnce dt" startsOnce]
      clients.find_map_filter [OF dist that, of "startPeriodic dt" startsPeriodic]
      clients.find_map_filter [OF dist that, of "renew dt" "resetDue dt"]
    by (simp add: find_append resetAll_def)
  have ids: "map c_id (resetAll dt rows) = map c_id (filter startsOnce rows) @ map c_id (filter startsPeriodic rows) @ map c_id (filter (resetDue dt) rows)"
    by (simp add: resetAll_def comp_def)
  have uniq: "x = y" if "x \<in> set rows" "y \<in> set rows" "c_id x = c_id y" for x y
    using that dist by (meson distinct_map inj_onD)
  have "distinct (map c_id (resetAll dt rows))"
    unfolding ids by (auto simp: distinct_map_filter [OF dist]) (metis uniq reset_kinds_disjoint)+
  moreover have "\<forall>x \<in> set (resetAll dt rows). c_id x \<noteq> 0 \<and> c_id x \<in> c_id ` set rows"
    using pos by (auto simp: resetAll_def)
  ultimately show ?thesis
    unfolding clients.fold_saveRow by (intro clients.fold_saveRow [THEN trans] map_cong) (auto simp: fnd resetRow_def)
qed

lemma resetAll_Nil: "resetAll dt rows = [] \<Longrightarrow> map (resetRow dt) rows = rows"
  by (intro map_idI) (auto simp: resetAll_def resetRow_def filter_empty_conv)

lemma ResetClients_rows:
  assumes "ResetClients dt e w = (Inr ids, w')" "goodIds (db_clients (w_db w))"
  shows "db_clients (w_db w') = map (resetRow dt) (db_clients (w_db w)) \<and>
    ids = unionInbounds (filter revived (filter (resetDue dt) (db_clients (w_db w)))) []"
proof -
  let ?rows = "db_clients (w_db w)"
  let ?ch = "map (clientChange dt ''ResetJob'' ''reset'') (filter startsOnce ?rows @ filter startsPeriodic ?rows)"
  let ?tail = "thenA (if ?ch = [] then retA () else thenA (createChanges ?ch) (setLastUpdate dt))
      (retA (unionInbounds (filter revived (filter (resetDue dt) ?rows)) []))"
  have tail: "db_clients (w_db w2) = db_clients (w_db w1) \<and> ids = unionInbounds (filter revived (filter (resetDue dt) ?rows)) []"
    if "?tail e w1 = (Inr ids, w2)" for w1 w2
    using that by (cases "?ch = []") (auto simp: createChanges_def setLastUpdate_def run_iffs)
  let ?w3 = "w\<lparr>w_stmt := Suc (Suc (Suc (w_stmt w)))\<rparr>"
  have run: "thenA (if resetAll dt ?rows = [] then retA () else saveClients (resetAll dt ?rows)) ?tail e ?w3 = (Inr ids, w')"
    using assms(1) unfolding ResetClients_def resetAll_def by (simp add: run_iffs Let_def cong: if_cong)
  show ?thesis
  proof (cases "resetAll dt ?rows = []")
    case True
    then show ?thesis using run tail [of ?w3 w'] resetAll_Nil by simp
  next
    case False
    then obtain w4 where w4: "?tail e w4 = (Inr ids, w')"
      and d: "db_clients (w_db w4) = map (resetRow dt) ?rows"
      using run fold_save_resetAll [OF assms(2)]
      by (auto simp: thenA_def saveClients_def run_iffs)
    show ?thesis using tail [OF w4] d by simp
  qed
qed

section \<open>The whole job\<close>

text \<open>Actions that fail only when the database does.\<close>

definition sqlOnly :: "'a act \<Rightarrow> bool" where
  "sqlOnly a \<longleftrightarrow> (\<forall>e w x w'. a e w = (Inl x, w') \<longrightarrow> x = sqlErr \<and> (\<exists>n. e_dbfail e n))"

lemma sqlOnly_intros:
  "sqlOnly (retA x)" "sqlOnly (modW k)" "sqlOnly (rowsWhere t P)" "sqlOnly (sqlx g)" "cs \<noteq> [] \<Longrightarrow> sqlOnly (saveClients cs)"
  by (auto simp: sqlOnly_def rowsWhere_def sqlq_def sqlx_def sqlu_def saveClients_def Let_def split: if_splits)

lemma sqlOnly_bind: "sqlOnly a \<Longrightarrow> (\<And>x. sqlOnly (f x)) \<Longrightarrow> sqlOnly (bindA a f)"
  unfolding sqlOnly_def bindA_Inl by blast

lemma sqlOnly_then: "sqlOnly a \<Longrightarrow> sqlOnly b \<Longrightarrow> sqlOnly (thenA a b)"
  by (simp add: thenA_def sqlOnly_bind)

lemma sqlOnly_if: "(c \<Longrightarrow> sqlOnly a) \<Longrightarrow> (\<not> c \<Longrightarrow> sqlOnly b) \<Longrightarrow> sqlOnly (if c then a else b)"
  by simp

lemma depleteBody_sqlOnly: "sqlOnly (depleteBody dt)"
  unfolding depleteBody_def ResetClients_def createChanges_def updateClients_def setLastUpdate_def Let_def
  by (intro sqlOnly_bind sqlOnly_then sqlOnly_if sqlOnly_intros)

lemma depleteBody_rows:
  assumes "depleteBody dt e w = (Inr ids, w')" "goodIds (db_clients (w_db w))"
  shows "db_clients (w_db w') = map (jobRow dt) (db_clients (w_db w)) \<and>
    ids = unionInbounds (filter (mustDeplete dt) (map (resetRow dt) (db_clients (w_db w))))
      (unionInbounds (filter revived (filter (resetDue dt) (db_clients (w_db w)))) [])"
proof -
  let ?rows = "db_clients (w_db w)"
  obtain ids1 w1 where r: "ResetClients dt e w = (Inr ids1, w1)"
    and rest: "bindA (rowsWhere db_clients (mustDeplete dt)) (\<lambda>cs.
       thenA (if map (clientChange dt ''DepleteJob'' ''disable'') cs = [] then retA ()
            else thenA (updateClients (mustDeplete dt) (\<lambda>c. c\<lparr>c_enable := False\<rparr>))
                (thenA (createChanges (map (clientChange dt ''DepleteJob'' ''disable'') cs)) (setLastUpdate dt)))
         (retA (unionInbounds cs ids1))) e w1 = (Inr ids, w')"
    using assms(1) unfolding depleteBody_def Let_def bindA_Inr [of "ResetClients dt"] by blast
  note reset = ResetClients_rows [OF r assms(2)]
  have none: "map (depleteRow dt) cs = cs" if "filter (mustDeplete dt) cs = []" for cs
    using that by (intro map_idI) (auto simp: depleteRow_def filter_empty_conv)
  have "db_clients (w_db w') = map (depleteRow dt) (db_clients (w_db w1)) \<and>
      ids = unionInbounds (filter (mustDeplete dt) (db_clients (w_db w1))) ids1"
    using rest none [of "db_clients (w_db w1)"]
    by (cases "filter (mustDeplete dt) (db_clients (w_db w1)) = []")
      (auto simp: updateClients_def createChanges_def setLastUpdate_def run_iffs depleteRow_def)
  then show ?thesis using reset by (simp add: jobRow_def)
qed

lemma DepleteClients_cases:
  assumes "DepleteClients e w = (r, w')"
  obtains (failed) "r = Inl sqlErr" "w_db w' = w_db w" "\<exists>n. e_dbfail e n"
    | (ran) ids w1 w2 where "r = Inr ids" "w_db w1 = w_db w" "depleteBody (e_now e) e w1 = (Inr ids, w2)"
      "w_db w' = w_db w2 \<or> (w_db w' = w_db w \<and> (\<exists>n. e_dbfail e n))"
proof -
  obtain e' w1 where b: "beginTx e w = (e', w1)" by fastforce
  obtain r2 w2 where d: "depleteBody (e_now e) e' w1 = (r2, w2)" by fastforce
  have w1: "w_db w1 = w_db w" and e': "e' = e \<or> ((\<exists>n. e_dbfail e n) \<and> (\<forall>n. e_dbfail e' n))"
    using b by (auto simp: beginTx_def split: if_splits)
  have fail: "\<exists>n. e_dbfail e n" if "e_dbfail e' n" for n using that e' by auto
  show ?thesis
  proof (cases r2)
    case (Inl x)
    with d have x: "x = sqlErr" "\<exists>n. e_dbfail e' n" using depleteBody_sqlOnly [of "e_now e"] unfolding sqlOnly_def by blast+
    then have "r = Inl sqlErr \<and> w_db w' = w_db w"
      using assms d Inl by (auto simp: DepleteClients_def inTx_def b sqlErr_def)
    with x fail failed show ?thesis by blast
  next
    case (Inr ids)
    have "\<not> e_dbfail e' (w_stmt w1)"
      using d Inr unfolding depleteBody_def ResetClients_def by (auto simp: bindA_Inr rowsWhere_def sqlq_def Let_def split: if_splits)
    with e' have "e' = e" by blast
    moreover have "r = Inr ids \<and> (w_db w' = w_db w2 \<or> (w_db w' = w_db w \<and> (\<exists>n. e_dbfail e n)))"
      using assms d Inr \<open>e' = e\<close> by (auto simp: DepleteClients_def inTx_def b commitOr_def Let_def split: if_splits)
    ultimately show ?thesis using ran [of ids w1 w2] w1 d Inr by blast
  qed
qed

text \<open>C17
  The periodic job is atomic and refines its specification: whatever SQL statement fails, the
  client table is either untouched or every row has been moved by the row function \<open>jobRow\<close> (reset,
  then depletion), and it is the latter, with a result, whenever the database works.
\<close>

theorem DepleteClients_refines:
  assumes "goodIds (db_clients (w_db w))" "DepleteClients e w = (r, w')"
  shows "(db_clients (w_db w') = db_clients (w_db w) \<or>
      db_clients (w_db w') = map (jobRow (e_now e)) (db_clients (w_db w))) \<and>
    ((\<forall>n. \<not> e_dbfail e n) \<longrightarrow> (\<exists>ids. r = Inr ids) \<and>
      db_clients (w_db w') = map (jobRow (e_now e)) (db_clients (w_db w)))"
  using assms(2)
proof (cases rule: DepleteClients_cases)
  case failed
  then show ?thesis by simp
next
  case (ran ids w1 w2)
  with assms(1) depleteBody_rows [OF ran(3)] show ?thesis by auto
qed

section \<open>What the job guarantees\<close>

lemma jobRow_within: "c_enable (jobRow dt c) \<Longrightarrow> \<not> overLimit dt (jobRow dt c)"
  by (auto simp: jobRow_def depleteRow_def mustDeplete_def split: if_splits)

lemma jobRow_banned: "c_banned c \<Longrightarrow> \<not> c_enable c \<Longrightarrow> c_banned (jobRow dt c) \<and> \<not> c_enable (jobRow dt c)"
  by (auto simp: jobRow_def depleteRow_def resetRow_def startsOnce_def startsPeriodic_def renew_def startOnce_def startPeriodic_def)

definition banInv :: "client list \<Rightarrow> bool" where
  "banInv cs \<longleftrightarrow> (\<forall>c \<in> set cs. c_banned c \<longrightarrow> \<not> c_enable c)"

definition exampleClient :: "nat \<Rightarrow> client" where
  "exampleClient i = zeroClient\<lparr>c_id := i, c_name := ''ann'', c_enable := True, c_volume := 100, c_up := 70, c_down := 60,
     c_inbounds := RText (JArr [JNum 5]), c_auto_reset := True, c_next_reset := 9000\<rparr>"

definition quietEnv :: env where
  "quietEnv = \<lparr>e_now = 10000, e_rnd = (\<lambda>_. 0), e_dbfail = (\<lambda>_. False), e_newid = (\<lambda>ids. Suc (Max (set (0 # ids)))),
     e_create = (\<lambda>_ _. True), e_decode = (\<lambda>r. r), e_start = (\<lambda>_. True), e_close = (\<lambda>_. True), e_mbpsToBps = 125000,
     e_file = (\<lambda>_. True), e_secret = ''s3cret'', e_version = ''1.0.0''\<rparr>"

definition emptyDb :: dbase where
  "emptyDb = \<lparr>db_settings = [], db_tls = [], db_inbounds = [], db_outbounds = [], db_services = [], db_endpoints = [],
     db_users = [], db_tokens = [], db_stats = [], db_clients = [], db_changes = []\<rparr>"

definition stoppedCore :: core where
  "stoppedCore = \<lparr>co_running = False, co_instance = False, co_inbounds = [], co_outbounds = [], co_endpoints = [],
     co_services = [], co_conns = NewConnTracker, co_stats = NewStatsTracker\<rparr>"

definition worldWith :: "client list \<Rightarrow> world" where
  "worldWith cs = \<lparr>w_db = emptyDb\<lparr>db_clients := cs\<rparr>, w_core = stoppedCore, w_stmt = 0, w_lastUpdate = 0,
     w_inProgress = False, w_lastFail = None, w_onlines = \<lparr>on_inbound = [], on_user = [], on_outbound = []\<rparr>, w_jobs = []\<rparr>"

definition jobClients :: "client list" where
  "jobClients = [exampleClient 1, (exampleClient 2)\<lparr>c_auto_reset := False, c_volume := 1000, c_expiry := 500\<rparr>,
     (exampleClient 3)\<lparr>c_enable := False, c_banned := True\<rparr>]"

lemma job_world [simp]: "db_clients (w_db (worldWith cs)) = cs" "e_now quietEnv = 10000" "\<not> e_dbfail quietEnv n"
  by (simp_all add: worldWith_def quietEnv_def)

lemma goodIds_job: "goodIds jobClients"
  by (simp add: goodIds_def jobClients_def exampleClient_def)

theorem DepleteClients_refines_witness:
  "\<exists>ids w'. DepleteClients quietEnv (worldWith jobClients) = (Inr ids, w') \<and>
     db_clients (w_db w') = map (jobRow 10000) jobClients"
proof -
  have g: "goodIds (db_clients (w_db (worldWith jobClients)))" by (simp add: goodIds_job)
  obtain r w' where r: "DepleteClients quietEnv (worldWith jobClients) = (r, w')" by fastforce
  from DepleteClients_refines [OF g r] r show ?thesis by simp
qed

text \<open>C34
  After the job has committed no enabled client is over its quota or past its expiry.
\<close>

theorem depletion_complete:
  assumes "goodIds (db_clients (w_db w))" "DepleteClients e w = (Inr ids, w')" "\<forall>n. \<not> e_dbfail e n"
    and "c \<in> set (db_clients (w_db w'))" "c_enable c"
  shows "\<not> (c_volume c > 0 \<and> c_up c + c_down c > c_volume c) \<and> \<not> (c_expiry c > 0 \<and> c_expiry c < e_now e)"
proof -
  have "db_clients (w_db w') = map (jobRow (e_now e)) (db_clients (w_db w))"
    using assms(2)
  proof (cases rule: DepleteClients_cases)
    case (ran ids' w1 w2)
    with assms(1,3) depleteBody_rows [OF ran(3)] show ?thesis by auto
  qed simp
  then show ?thesis
    using assms(4,5) jobRow_within [of "e_now e"] by (auto simp: overLimit_def)
qed

theorem depletion_complete_witness:
  "\<exists>ids w'. DepleteClients quietEnv (worldWith jobClients) = (Inr ids, w') \<and> c_up (jobRow 10000 (exampleClient 1)) = 0 \<and>
     \<not> (c_volume (jobRow 10000 (exampleClient 1)) > 0 \<and>
        c_up (jobRow 10000 (exampleClient 1)) + c_down (jobRow 10000 (exampleClient 1)) > c_volume (jobRow 10000 (exampleClient 1)))"
proof -
  have g: "goodIds (db_clients (w_db (worldWith jobClients)))" by (simp add: goodIds_job)
  obtain r w' where r0: "DepleteClients quietEnv (worldWith jobClients) = (r, w')" by fastforce
  have rows: "db_clients (w_db w') = map (jobRow 10000) jobClients" and "\<exists>ids. r = Inr ids"
    using r0
    by (cases rule: DepleteClients_cases; use g depleteBody_rows in fastforce)+
  then obtain ids where r: "DepleteClients quietEnv (worldWith jobClients) = (Inr ids, w')" using r0 by auto
  have m: "jobRow 10000 (exampleClient 1) \<in> set (db_clients (w_db w'))" unfolding rows by (simp add: jobClients_def)
  have en: "c_enable (jobRow 10000 (exampleClient 1))" "c_up (jobRow 10000 (exampleClient 1)) = 0"
    by (simp_all add: jobRow_def depleteRow_def mustDeplete_def overLimit_def resetRow_def startsOnce_def startsPeriodic_def
        resetDue_def renew_def exampleClient_def zeroClient_def)
  from depletion_complete [OF g r _ m en(1)] r en(2) show ?thesis by auto
qed

text \<open>
  The job never lifts a ban: if every banned client is disabled before it runs, that is so after it,
  whether it commits, rolls back or fails; a reset that is due renews the counters of a banned
  client but leaves the client disabled.
\<close>

lemma job_keeps_bans:
  assumes "goodIds (db_clients (w_db w))" "banInv (db_clients (w_db w))"
  shows "banInv (db_clients (w_db (snd (DepleteClients e w))))"
proof -
  obtain r w' where r: "DepleteClients e w = (r, w')" by fastforce
  have inv: "banInv (map (jobRow (e_now e)) (db_clients (w_db w)))"
  proof -
    have "\<not> c_enable (jobRow dt c)" if "c \<in> set (db_clients (w_db w))" "c_banned (jobRow dt c)" for dt c
    proof -
      have "c_banned (jobRow dt c) = c_banned c"
        by (simp add: jobRow_def depleteRow_def resetRow_def startOnce_def startPeriodic_def renew_def)
      with that assms(2) jobRow_banned [of c dt] show ?thesis by (simp add: banInv_def)
    qed
    then show ?thesis by (simp add: banInv_def)
  qed
  from r show ?thesis
  proof (cases rule: DepleteClients_cases)
    case failed
    with r assms(2) show ?thesis by simp
  next
    case (ran ids w1 w2)
    with r inv assms depleteBody_rows [OF ran(3)] show ?thesis by auto
  qed
qed

theorem job_keeps_bans_witness:
  "banInv (db_clients (w_db (snd (DepleteClients quietEnv (worldWith jobClients)))))"
  by (rule job_keeps_bans) (simp_all add: goodIds_job, simp add: banInv_def jobClients_def exampleClient_def zeroClient_def)

text \<open>
  The job moves traffic but never loses it: for every client, what was counted in the current period
  together with the totals of the past ones is the same before and after, and its identity, its
  configuration, its inbounds and its quota are untouched.
\<close>

lemma job_conserves_traffic:
  assumes "goodIds (db_clients (w_db w))" "(Inr ids, w') = DepleteClients e w"
    and "c \<in> set (db_clients (w_db w))" "inInt64 (c_total_up c + c_up c)" "inInt64 (c_total_down c + c_down c)"
  shows "\<exists>c' \<in> set (db_clients (w_db w')). c_id c' = c_id c \<and>
    c_total_up c' + c_up c' = c_total_up c + c_up c \<and> c_total_down c' + c_down c' = c_total_down c + c_down c \<and>
    c_name c' = c_name c \<and> c_config c' = c_config c \<and> c_inbounds c' = c_inbounds c \<and> c_volume c' = c_volume c"
proof -
  let ?c = "jobRow (e_now e) c"
  have row: "c_id ?c = c_id c \<and> c_total_up ?c + c_up ?c = c_total_up c + c_up c \<and>
    c_total_down ?c + c_down ?c = c_total_down c + c_down c \<and> c_name ?c = c_name c \<and> c_config ?c = c_config c \<and>
    c_inbounds ?c = c_inbounds c \<and> c_volume ?c = c_volume c"
    using assms(4,5) by (simp add: jobRow_def depleteRow_def resetRow_def startOnce_def startPeriodic_def renew_def wrap64_id)
  from assms(2) [symmetric] show ?thesis
  proof (cases rule: DepleteClients_cases)
    case (ran ids' w1 w2)
    with assms(1,3) row depleteBody_rows [OF ran(3)] show ?thesis by auto
  qed simp
qed

theorem job_conserves_traffic_witness:
  "\<exists>ids w' c'. DepleteClients quietEnv (worldWith jobClients) = (Inr ids, w') \<and> c' \<in> set (db_clients (w_db w')) \<and>
     c_id c' = 1 \<and> c_total_up c' + c_up c' = 70"
proof -
  have g: "goodIds (db_clients (w_db (worldWith jobClients)))" by (simp add: goodIds_job)
  obtain r w' where r0: "DepleteClients quietEnv (worldWith jobClients) = (r, w')" by fastforce
  have "\<exists>ids. r = Inr ids" using r0 by (cases rule: DepleteClients_cases) auto
  then obtain ids where r: "(Inr ids, w') = DepleteClients quietEnv (worldWith jobClients)" using r0 by auto
  have m: "exampleClient 1 \<in> set (db_clients (w_db (worldWith jobClients)))" by (simp add: jobClients_def)
  have i: "inInt64 (c_total_up (exampleClient 1) + c_up (exampleClient 1))" "inInt64 (c_total_down (exampleClient 1) + c_down (exampleClient 1))"
    by (simp_all add: exampleClient_def zeroClient_def inInt64_def minInt64_def maxInt64_def)
  have v: "c_id (exampleClient 1) = 1" "c_total_up (exampleClient 1) + c_up (exampleClient 1) = 70"
    by (simp_all add: exampleClient_def zeroClient_def)
  from job_conserves_traffic [OF g r m i] r [symmetric] v show ?thesis by auto
qed

lemma set_unionInbounds: "set (unionInbounds cs ids) = set ids \<union> (\<Union>c \<in> set cs. set (fst (uintsOf (c_inbounds c))))"
  by (induction cs arbitrary: ids) (auto simp: unionInbounds_def)

lemma changed_reported:
  assumes "goodIds (db_clients (w_db w))" "DepleteClients e w = (Inr ids, w')"
    and "c \<in> set (db_clients (w_db w))" "c' \<in> set (db_clients (w_db w'))" "c_id c' = c_id c" "c_enable c' \<noteq> c_enable c"
  shows "set (fst (uintsOf (c_inbounds c))) \<subseteq> set ids"
  using assms(2)
proof (cases rule: DepleteClients_cases)
  case (ran ids' w1 w2)
  let ?dt = "e_now e" and ?rows = "db_clients (w_db w)"
  have same: "x = y" if "x \<in> set ?rows" "y \<in> set ?rows" "c_id x = c_id y" for x y
    using that assms(1) by (metis goodIds_def distinct_map inj_onD)
  note rows = depleteBody_rows [OF ran(3), unfolded ran(2), OF assms(1)]
  show ?thesis
  proof (cases "w_db w' = w_db w2")
    case True
    with assms(4) rows obtain c0 where c0: "c0 \<in> set ?rows" "c' = jobRow ?dt c0" by auto
    have "c_id c0 = c_id c" using c0(2) assms(5)
      by (simp add: jobRow_def depleteRow_def resetRow_def split: if_splits)
    with same c0 assms(3) have c': "c' = jobRow ?dt c" by blast
    have "(resetDue ?dt c \<and> revived c) \<or> mustDeplete ?dt (resetRow ?dt c)"
      using assms(6) unfolding c'
      by (auto simp: jobRow_def depleteRow_def resetRow_def startOnce_def startPeriodic_def renew_def revived_def
          startsOnce_def startsPeriodic_def split: if_splits)
    moreover have "c_inbounds (resetRow ?dt c) = c_inbounds c"
      by (simp add: resetRow_def startOnce_def startPeriodic_def renew_def)
    ultimately have "set (fst (uintsOf (c_inbounds c))) \<subseteq> set ids'"
      using assms(3) rows by (force simp: set_unionInbounds)
    then show ?thesis using ran(1) by simp
  next
    case False
    with ran(4) have "w_db w' = w_db w" by blast
    with assms(3-6) same show ?thesis by metis
  qed
qed simp

text \<open>
  The core hears of every change of access: whenever the job enables or disables a client, every
  inbound of that client is among the identifiers it returns, which the caller then updates.
\<close>

lemma job_reports_inbounds:
  assumes "goodIds (db_clients (w_db w))" "DepleteClients e w = (Inr ids, w')"
    and "c \<in> set (db_clients (w_db w))" "c' \<in> set (db_clients (w_db w'))" "c_id c' = c_id c" "c_enable c' \<noteq> c_enable c"
  shows "set (fst (uintsOf (c_inbounds c))) \<subseteq> set ids"
  by (rule changed_reported [OF assms])

theorem job_reports_inbounds_witness:
  "\<exists>ids w'. DepleteClients quietEnv (worldWith jobClients) = (Inr ids, w') \<and> 5 \<in> set ids"
proof -
  let ?c = "(exampleClient 2)\<lparr>c_auto_reset := False, c_volume := 1000, c_expiry := 500\<rparr>"
  have g: "goodIds (db_clients (w_db (worldWith jobClients)))" by (simp add: goodIds_job)
  obtain r w' where r0: "DepleteClients quietEnv (worldWith jobClients) = (r, w')" by fastforce
  have rows: "db_clients (w_db w') = map (jobRow 10000) jobClients" and "\<exists>ids. r = Inr ids"
    using r0 by (cases rule: DepleteClients_cases; use g depleteBody_rows in fastforce)+
  then obtain ids where r: "DepleteClients quietEnv (worldWith jobClients) = (Inr ids, w')" using r0 by auto
  have c: "?c \<in> set (db_clients (w_db (worldWith jobClients)))" "jobRow 10000 ?c \<in> set (db_clients (w_db w'))"
    unfolding rows by (simp_all add: jobClients_def)
  have "c_id (jobRow 10000 ?c) = c_id ?c" "c_enable (jobRow 10000 ?c) \<noteq> c_enable ?c" "fst (uintsOf (c_inbounds ?c)) = [5]"
    by (simp_all add: jobRow_def depleteRow_def mustDeplete_def overLimit_def resetRow_def startsOnce_def startsPeriodic_def
        resetDue_def renew_def exampleClient_def zeroClient_def)
  with job_reports_inbounds [OF g r c] r show ?thesis by simp
qed

end
