(* ===== verification/StatsService.thy ===== *)
theory StatsService
  imports ClientLaws
begin

text \<open>
  \<open>service/stats.go\<close>: the periodic collection of traffic (billing of the clients, the list of what
  is online, the statistics table), the charts and the clean-up.
\<close>

section \<open>Saving\<close>

text \<open>One statistic in the transaction: the client row it bills, then the list of what is online.\<close>

definition billRow :: "stat \<Rightarrow> client \<Rightarrow> client" where
  "billRow s c = (if st_resource s = ''user'' \<and> c_name c = st_tag s
     then (if st_direction s then c\<lparr>c_up := c_up c + st_traffic s\<rparr> else c\<lparr>c_down := c_down c + st_traffic s\<rparr>) else c)"

definition markOnline :: "stat \<Rightarrow> onlines \<Rightarrow> onlines" where
  "markOnline s on = (if \<not> st_direction s then on
     else if st_resource s = ''inbound'' then on\<lparr>on_inbound := on_inbound on @ [st_tag s]\<rparr>
     else if st_resource s = ''outbound'' then on\<lparr>on_outbound := on_outbound on @ [st_tag s]\<rparr>
     else if st_resource s = ''user'' then on\<lparr>on_user := on_user on @ [st_tag s]\<rparr> else on)"

definition saveStat :: "stat \<Rightarrow> unit act" where
  "saveStat s = thenA (if st_resource s = ''user''
       then sqlx (\<lambda>d. d\<lparr>db_clients := map (billRow s) (db_clients d)\<rparr>) else retA ())
     (modW (\<lambda>w. w\<lparr>w_onlines := markOnline s (w_onlines w)\<rparr>))"

text \<open>The counters are read and reset in the core before the transaction begins.\<close>

definition collect :: "stat list act" where
  "collect = (\<lambda>e w. case trackerGetStats (e_now e) (co_stats (w_core w)) of (ss, t) \<Rightarrow>
     (Inr ss, w\<lparr>w_core := (w_core w)\<lparr>co_stats := t\<rparr>, w_onlines := \<lparr>on_inbound = [], on_user = [], on_outbound = []\<rparr>\<rparr>))"

definition SaveStats :: "bool \<Rightarrow> unit act" where
  "SaveStats enableTraffic = (\<lambda>e w. if \<not> co_running (w_core w) \<or> \<not> co_instance (w_core w) then (Inr (), w)
     else bindA collect (\<lambda>ss. if ss = [] then retA ()
       else inTx (thenA (forA saveStat ss)
         (if enableTraffic then sqlx (\<lambda>d. d\<lparr>db_stats := db_stats d @ ss\<rparr>) else retA ()))) e w)"

section \<open>Charts\<close>

definition bucketOf :: "int \<Rightarrow> int \<Rightarrow> int \<Rightarrow> stat \<Rightarrow> int" where
  "bucketOf startTime span buckets s =
     (let b = goDiv (wrap64 (st_datetime s - startTime)) span in
      let b1 = (if b < 0 then 0 else b) in if b1 \<ge> buckets then buckets - 1 else b1)"

text \<open>The sums of a bucket, up and down, in \<open>int64\<close>.\<close>

definition addToBucket :: "stat \<Rightarrow> int \<times> int \<Rightarrow> int \<times> int" where
  "addToBucket s p = (if st_direction s then (wrap64 (fst p + st_traffic s), snd p) else (fst p, wrap64 (snd p + st_traffic s)))"

definition downsampleStats :: "stat list \<Rightarrow> int \<Rightarrow> int \<Rightarrow> int \<Rightarrow> (int \<times> int \<times> int) list \<times> int \<times> int" where
  "downsampleStats ss startTime endTime buckets =
     (let span0 = goDiv (wrap64 (endTime - startTime)) buckets;
          span = (if span0 = 0 then 1 else span0)
      in (fold (\<lambda>s m. let b = bucketOf startTime span buckets s in
            AList.update b (addToBucket s (case map_of m b of None \<Rightarrow> (0, 0) | Some p \<Rightarrow> p)) m) ss [], startTime, span))"

definition GetStats :: "string \<Rightarrow> string \<Rightarrow> int \<Rightarrow> ((int \<times> int \<times> int) list \<times> int \<times> int) act" where
  "GetStats resource tag limit = bindA (askE e_now) (\<lambda>now.
     let start = wrap64 (now - wrap64 (limit * 3600));
         resources = (if resource = ''endpoint'' then [''inbound'', ''outbound''] else [resource])
     in bindA (rowsWhere db_stats (\<lambda>s. st_resource s \<in> set resources \<and> st_tag s = tag \<and> st_datetime s > start)) (\<lambda>rs.
          retA (downsampleStats (sort_key st_datetime rs) start now 360)))"

definition GetOnlines :: "onlines act" where
  "GetOnlines = askW w_onlines"

text \<open>\<open>daysAgo\<close> is the calendar arithmetic of \<open>AddDate\<close>.\<close>

definition DelOldStats :: "(int \<Rightarrow> int \<Rightarrow> int) \<Rightarrow> int \<Rightarrow> unit act" where
  "DelOldStats daysAgo days = bindA (askE e_now) (\<lambda>now.
     sqlx (\<lambda>d. d\<lparr>db_stats := filter (\<lambda>s. \<not> st_datetime s < daysAgo now days) (db_stats d)\<rparr>))"

end
