(* ===== verification/Settings.thy ===== *)
theory Settings
  imports World
begin

text \<open>
  \<open>service/setting.go\<close>: the panel's settings, a table of key/value rows over a map of defaults.
  The random secret of a fresh process and the program version are in the environment.
\<close>

section \<open>Defaults\<close>

definition defaultConfig :: string where
  \<open>defaultConfig = joinStr [CHR 0x0A]
     [''{'', ''  "log": {'', ''    "level": "info"'', ''  },'',
      ''  "dns": {'', ''    "servers": [],'', ''    "rules": []'', ''  },'',
      ''  "route": {'', ''    "rules": ['', [CHR 0x09, CHR 0x09] @ ''  {'', ''        "action": "sniff"'', ''      },'',
      ''      {'', ''        "protocol": ['', ''          "dns"'', ''        ],'', ''        "action": "hijack-dns"'',
      ''      }'', ''    ]'', ''  },'', ''  "experimental": {}'', ''}'']\<close>

definition defaultValueMap :: "env \<Rightarrow> (string \<times> string) list" where
  "defaultValueMap e =
     [(''webListen'', []), (''webDomain'', []), (''webPort'', ''2095''), (''secret'', e_secret e),
      (''webCertFile'', []), (''webKeyFile'', []), (''webPath'', ''/app/''), (''webURI'', []),
      (''sessionMaxAge'', ''0''), (''trafficAge'', ''30''), (''timeLocation'', ''Asia/Tehran''),
      (''subListen'', []), (''subPort'', ''2096''), (''subPath'', ''/sub/''), (''subDomain'', []),
      (''subCertFile'', []), (''subKeyFile'', []), (''subUpdates'', ''12''), (''subEncode'', ''true''),
      (''subShowInfo'', ''false''), (''subURI'', []), (''subJsonExt'', []), (''subClashExt'', []),
      (''hy2LiveUpdate'', ''true''), (''config'', defaultConfig), (''version'', e_version e)]"

section \<open>The store\<close>

text \<open>The row a key is read from, and the row a save changes or adds.\<close>

definition settingOf :: "string \<Rightarrow> setting list \<Rightarrow> string option" where
  "settingOf k rows = (case filter (\<lambda>s. s_key s = k) rows of [] \<Rightarrow> None | s # _ \<Rightarrow> Some (s_value s))"

fun putSetting :: "string \<Rightarrow> string \<Rightarrow> setting list \<Rightarrow> setting list" where
  "putSetting k v [] = [\<lparr>s_key = k, s_value = v\<rparr>]"
| "putSetting k v (s # rows) = (if s_key s = k then s\<lparr>s_value := v\<rparr> # rows else s # putSetting k v rows)"

text \<open>The contract of a key/value store.\<close>

locale kvstore =
  fixes get :: "'k \<Rightarrow> 's \<Rightarrow> 'v option"
    and put :: "'k \<Rightarrow> 'v \<Rightarrow> 's \<Rightarrow> 's"
  assumes get_put: "get k (put k v s) = Some v"
    and get_put_other: "k' \<noteq> k \<Longrightarrow> get k' (put k v s) = get k' s"
begin

lemma get_put_iff: "get k' (put k v s) = (if k' = k then Some v else get k' s)"
  by (simp add: get_put get_put_other)

lemma get_fold_put: "k \<notin> fst ` set kvs \<Longrightarrow> get k (fold (\<lambda>(k, v). put k v) kvs s) = get k s"
  by (induction kvs arbitrary: s) (auto simp: get_put_iff)

end

interpretation settings: kvstore settingOf putSetting
proof
  fix k k' :: string and v s
  show "settingOf k (putSetting k v s) = Some v"
    by (induction s) (auto simp: settingOf_def)
  show "settingOf k' (putSetting k v s) = settingOf k' s" if "k' \<noteq> k"
    using that by (induction s) (auto simp: settingOf_def)
qed

definition getSetting :: "string \<Rightarrow> setting act" where
  "getSetting k = firstWhere db_settings (\<lambda>s. s_key s = k)"

definition onNotFound :: "'a act \<Rightarrow> 'b act \<Rightarrow> ('a \<Rightarrow> 'b act) \<Rightarrow> 'b act" where
  "onNotFound a none some' = (\<lambda>e w. case a e w of
       (Inl x, w') \<Rightarrow> (if x = notFound then none e w' else (Inl x, w'))
     | (Inr v, w') \<Rightarrow> some' v e w')"

definition getString :: "string \<Rightarrow> string act" where
  "getString k = onNotFound (getSetting k)
     (bindA (askE (\<lambda>e. map_of (defaultValueMap e) k)) (\<lambda>d. case d of
          None \<Rightarrow> failA (Err (''key <'' @ k @ ''> not in defaultValueMap'')) | Some v \<Rightarrow> retA v))
     (\<lambda>s. retA (s_value s))"

definition saveSetting :: "string \<Rightarrow> string \<Rightarrow> unit act" where
  "saveSetting k v = onNotFound (getSetting k)
     (sqlx (\<lambda>d. d\<lparr>db_settings := putSetting k v (db_settings d)\<rparr>))
     (\<lambda>s. sqlx (\<lambda>d. d\<lparr>db_settings := putSetting k v (db_settings d)\<rparr>))"

definition setString :: "string \<Rightarrow> string \<Rightarrow> unit act" where
  "setString k v = saveSetting k v"

definition getBool :: "string \<Rightarrow> bool act" where
  "getBool k = bindA (getString k) (\<lambda>s. liftR (parseBool s))"

definition getInt :: "string \<Rightarrow> int act" where
  "getInt k = bindA (getString k) (\<lambda>s. case atoi s of (n, ok) \<Rightarrow>
     if ok then retA n else failA (Err ''strconv.Atoi: invalid syntax''))"

definition setInt :: "string \<Rightarrow> int \<Rightarrow> unit act" where
  "setInt k n = setString k (itoa n)"

definition ResetSettings :: "unit act" where
  "ResetSettings = sqlx (\<lambda>d. d\<lparr>db_settings := []\<rparr>)"

text \<open>Every row, then the missing defaults, which are saved; the protected keys are left out.\<close>

definition GetAllSetting :: "(string \<times> string) list act" where
  "GetAllSetting = bindA (rowsWhere db_settings (\<lambda>_. True)) (\<lambda>rows.
     let have0 = fold (\<lambda>s m. AList.update (s_key s) (s_value s) m) rows [] in
     bindA (askE defaultValueMap) (\<lambda>defs.
     bindA (foldA (\<lambda>(k, v) m. if map_of m k \<noteq> None then retA m
         else thenA (saveSetting k v) (retA (AList.update k v m))) defs have0) (\<lambda>m.
       retA (AList.delete ''version'' (AList.delete ''config'' (AList.delete ''secret'' m))))))"

section \<open>Typed access\<close>

definition GetListen :: "string act" where "GetListen = getString ''webListen''"
definition GetWebDomain :: "string act" where "GetWebDomain = getString ''webDomain''"
definition GetPort :: "int act" where "GetPort = getInt ''webPort''"
definition SetPort :: "int \<Rightarrow> unit act" where "SetPort p = setInt ''webPort'' p"
definition GetCertFile :: "string act" where "GetCertFile = getString ''webCertFile''"
definition GetKeyFile :: "string act" where "GetKeyFile = getString ''webKeyFile''"
definition GetSessionMaxAge :: "int act" where "GetSessionMaxAge = getInt ''sessionMaxAge''"
definition GetTrafficAge :: "int act" where "GetTrafficAge = getInt ''trafficAge''"
definition GetSubListen :: "string act" where "GetSubListen = getString ''subListen''"
definition GetSubPort :: "int act" where "GetSubPort = getInt ''subPort''"
definition SetSubPort :: "int \<Rightarrow> unit act" where "SetSubPort p = setInt ''subPort'' p"
definition GetSubDomain :: "string act" where "GetSubDomain = getString ''subDomain''"
definition GetSubCertFile :: "string act" where "GetSubCertFile = getString ''subCertFile''"
definition GetSubKeyFile :: "string act" where "GetSubKeyFile = getString ''subKeyFile''"
definition GetSubUpdates :: "int act" where "GetSubUpdates = getInt ''subUpdates''"
definition GetSubEncode :: "bool act" where "GetSubEncode = getBool ''subEncode''"
definition GetSubShowInfo :: "bool act" where "GetSubShowInfo = getBool ''subShowInfo''"
definition GetSubURI :: "string act" where "GetSubURI = getString ''subURI''"
definition SettingGetConfig :: "string act" where "SettingGetConfig = getString ''config''"
definition SetConfig :: "string \<Rightarrow> unit act" where "SetConfig c = setString ''config'' c"
definition GetHy2LiveUpdate :: "bool act" where "GetHy2LiveUpdate = getBool ''hy2LiveUpdate''"
definition GetSubJsonExt :: "string act" where "GetSubJsonExt = getString ''subJsonExt''"
definition GetSubClashExt :: "string act" where "GetSubClashExt = getString ''subClashExt''"

text \<open>A path starts and ends with a slash.\<close>

definition normPath :: "string \<Rightarrow> string" where
  "normPath p = (let q = (if hasPrefix p ''/'' then p else CHR ''/'' # p)
     in if hasSuffix q ''/'' then q else q @ ''/'')"

definition GetWebPath :: "string act" where
  "GetWebPath = bindA (getString ''webPath'') (\<lambda>p. retA (normPath p))"

definition SetWebPath :: "string \<Rightarrow> unit act" where
  "SetWebPath p = setString ''webPath'' (normPath p)"

definition GetSubPath :: "string act" where
  "GetSubPath = bindA (getString ''subPath'') (\<lambda>p. retA (normPath p))"

definition SetSubPath :: "string \<Rightarrow> unit act" where
  "SetSubPath p = setString ''subPath'' (normPath p)"

text \<open>The session secret: while it is still the process's own default it is saved on every read;
  a failed save is only logged.\<close>

definition GetSecret :: "string act" where
  "GetSecret = bindA (getString ''secret'') (\<lambda>s. bindA (askE e_secret) (\<lambda>d.
     if s = d then thenA (logErr (saveSetting ''secret'' s)) (retA s) else retA s))"

text \<open>The location of the time zone; an unknown one falls back to the default (\<open>load\<close> is the
  time-zone database, \<open>windows\<close> the platform).\<close>

definition GetTimeLocation :: "bool \<Rightarrow> (string \<Rightarrow> 'l option) \<Rightarrow> 'l act" where
  "GetTimeLocation windows load = bindA (getString ''timeLocation'') (\<lambda>l0.
     let l = (if windows then ''Local'' else l0) in
     case load l of Some z \<Rightarrow> retA z
     | None \<Rightarrow> (case load ''Asia/Tehran'' of Some z \<Rightarrow> retA z
          | None \<Rightarrow> failA (Err ''unknown time zone Asia/Tehran'')))"

definition finalSubURI :: "(string \<times> string) list \<Rightarrow> string \<Rightarrow> string" where
  "finalSubURI m host =
     (let g = (\<lambda>k. case map_of m k of None \<Rightarrow> [] | Some v \<Rightarrow> v);
          protocol = (if g ''subKeyFile'' \<noteq> [] \<and> g ''subCertFile'' \<noteq> [] then ''https'' else ''http'');
          host' = (if g ''subDomain'' \<noteq> [] then g ''subDomain'' else host);
          port0 = CHR '':'' # g ''subPort'';
          port = (if (port0 = ''80'' \<and> protocol = ''http'') \<or> (port0 = ''443'' \<and> protocol = ''https'') then [] else port0)
      in if g ''subURI'' \<noteq> [] then g ''subURI''
         else protocol @ ''://'' @ host' @ port @ g ''subPath'')"

definition GetFinalSubURI :: "string \<Rightarrow> string act" where
  "GetFinalSubURI host = bindA GetAllSetting (\<lambda>m. retA (finalSubURI m host))"

section \<open>Saving\<close>

text \<open>\<open>UPDATE settings SET value = ? WHERE key = ?\<close>: every row of the key, and none is added.\<close>

definition updateSetting :: "string \<Rightarrow> string \<Rightarrow> unit act" where
  "updateSetting k v = sqlx (\<lambda>d. d\<lparr>db_settings := map (\<lambda>s. if s_key s = k then s\<lparr>s_value := v\<rparr> else s) (db_settings d)\<rparr>)"

definition SaveConfig :: "raw \<Rightarrow> unit act" where
  "SaveConfig config = (case config of RNil \<Rightarrow> updateSetting ''config'' ''null''
     | RBad t \<Rightarrow> failA (Err ''json: error calling MarshalJSON'')
     | RText v \<Rightarrow> updateSetting ''config'' (jindent 0 v))"

definition fileKeys :: "string set" where
  "fileKeys = {''webCertFile'', ''webKeyFile'', ''subCertFile'', ''subKeyFile''}"

definition pathKeys :: "string set" where
  "pathKeys = {''webPath'', ''subPath''}"

definition saveOneSetting :: "string \<times> string \<Rightarrow> unit act" where
  "saveOneSetting kv = (case kv of (k, v) \<Rightarrow>
     bindA (askE (\<lambda>e. e_file e v)) (\<lambda>exists.
     if v \<noteq> [] \<and> k \<in> fileKeys \<and> \<not> exists then failA (Err ('' -> '' @ v @ '' is not exists''))
     else let v' = (if k \<in> pathKeys then normPath v else v) in
       thenA (if k = ''trafficAge'' \<and> v' = ''0'' then sqlx (\<lambda>d. d\<lparr>db_stats := []\<rparr>) else retA ())
         (updateSetting k v')))"

definition SettingSave :: "raw \<Rightarrow> unit act" where
  "SettingSave data = (case data of RText JNull \<Rightarrow> retA ()
     | _ \<Rightarrow> bindA (liftR (unmarshalStrMap data)) (\<lambda>m. forA saveOneSetting m))"

section \<open>Properties\<close>

lemma hasPrefix_char: "hasPrefix s [c] \<longleftrightarrow> (\<exists>r. s = c # r)"
  by (cases s) (auto simp: hasPrefix_def)

lemma hasSuffix_char: "hasSuffix s [c] \<longleftrightarrow> (\<exists>r. s = r @ [c])"
  by (cases s rule: rev_cases) (auto simp: hasSuffix_def)

lemma normPath_slashes: "hasPrefix (normPath p) ''/'' \<and> hasSuffix (normPath p) ''/''"
  by (auto simp: normPath_def hasPrefix_char hasSuffix_char Let_def)

text \<open>
  The base paths of the panel and of the subscriptions are always usable as URL prefixes: whatever an
  operator stored, the path read back starts and ends with a slash, and normalising it again changes
  nothing, so saving what was read is stable.
\<close>

lemma normPath_stable:
  "hasPrefix (normPath p) ''/'' \<and> hasSuffix (normPath p) ''/'' \<and> normPath (normPath p) = normPath p"
  using normPath_slashes [of p] by (simp add: normPath_def [of "normPath p"])

lemma getString_found:
  "\<not> e_dbfail e (w_stmt w) \<Longrightarrow> settingOf k (db_settings (w_db w)) = Some v \<Longrightarrow>
     getString k e w = (Inr v, w\<lparr>w_stmt := Suc (w_stmt w)\<rparr>)"
  by (auto simp: getString_def onNotFound_def getSetting_def firstWhere_def sqlq_def settingOf_def Let_def split: list.splits)

lemma getString_default:
  "\<not> e_dbfail e (w_stmt w) \<Longrightarrow> settingOf k (db_settings (w_db w)) = None \<Longrightarrow> map_of (defaultValueMap e) k = Some v \<Longrightarrow>
     getString k e w = (Inr v, w\<lparr>w_stmt := Suc (w_stmt w)\<rparr>)"
  by (auto simp: getString_def onNotFound_def getSetting_def firstWhere_def sqlq_def settingOf_def Let_def split: list.splits)

lemma saveSetting_run:
  assumes "saveSetting k v e w = (Inr u, w')"
  shows "db_settings (w_db w') = putSetting k v (db_settings (w_db w)) \<and> w_stmt w' = w_stmt w + 2"
  using assms
  by (auto simp: saveSetting_def onNotFound_def getSetting_def firstWhere_def sqlq_def sqlx_def sqlu_def Let_def
      split: prod.splits sum.splits if_splits list.splits)

text \<open>
  A setting that was saved is the setting that is read: after a successful save, reading the key
  returns the saved value, and every other key reads as before, from its row or from its default.
\<close>

lemma setting_roundtrip:
  assumes "saveSetting k v e w = (Inr u, w1)" "\<forall>n. \<not> e_dbfail e n"
  shows "fst (getString k e w1) = Inr v \<and>
    (k' \<noteq> k \<and> (settingOf k' (db_settings (w_db w)) \<noteq> None \<or> map_of (defaultValueMap e) k' \<noteq> None) \<longrightarrow>
       fst (getString k' e w1) = fst (getString k' e w))"
proof -
  have rows: "settingOf q (db_settings (w_db w1)) = (if q = k then Some v else settingOf q (db_settings (w_db w)))" for q
    using saveSetting_run [OF assms(1)] settings.get_put_iff by simp
  have "fst (getString k' e w1) = fst (getString k' e w)"
    if "k' \<noteq> k" "settingOf k' (db_settings (w_db w)) \<noteq> None \<or> map_of (defaultValueMap e) k' \<noteq> None"
  proof (cases "settingOf k' (db_settings (w_db w))")
    case None
    with that rows [of k'] assms(2) show ?thesis by (auto simp: getString_default)
  next
    case (Some x)
    with that rows [of k'] assms(2) show ?thesis by (simp add: getString_found)
  qed
  then show ?thesis using rows [of k] assms(2) by (simp add: getString_found)
qed

definition settingsWorld :: world where
  "settingsWorld = \<lparr>w_db = \<lparr>db_settings = [\<lparr>s_key = ''subPort'', s_value = ''443''\<rparr>], db_tls = [], db_inbounds = [], db_outbounds = [],
       db_services = [], db_endpoints = [], db_users = [], db_tokens = [], db_stats = [], db_clients = [], db_changes = []\<rparr>,
     w_core = \<lparr>co_running = False, co_instance = False, co_inbounds = [], co_outbounds = [], co_endpoints = [], co_services = [],
       co_conns = NewConnTracker, co_stats = NewStatsTracker\<rparr>,
     w_stmt = 0, w_lastUpdate = 0, w_inProgress = False, w_lastFail = None,
     w_onlines = \<lparr>on_inbound = [], on_user = [], on_outbound = []\<rparr>, w_jobs = []\<rparr>"

definition settingsEnv :: env where
  "settingsEnv = \<lparr>e_now = 0, e_rnd = (\<lambda>_. 0), e_dbfail = (\<lambda>_. False), e_newid = (\<lambda>_. 1), e_create = (\<lambda>_ _. True),
     e_decode = (\<lambda>r. r), e_start = (\<lambda>_. True), e_close = (\<lambda>_. True), e_mbpsToBps = 125000, e_file = (\<lambda>_. True),
     e_secret = ''s3cret'', e_version = ''1.0.0''\<rparr>"

theorem setting_roundtrip_witness:
  "\<exists>u w1. saveSetting ''webPort'' ''8443'' settingsEnv settingsWorld = (Inr u, w1) \<and>
     fst (getString ''webPort'' settingsEnv w1) = Inr ''8443'' \<and>
     fst (getString ''subPort'' settingsEnv w1) = fst (getString ''subPort'' settingsEnv settingsWorld)"
proof -
  have "\<exists>u w1. saveSetting ''webPort'' ''8443'' settingsEnv settingsWorld = (Inr u, w1)"
    by (simp add: saveSetting_def onNotFound_def getSetting_def firstWhere_def sqlq_def sqlx_def sqlu_def settingsWorld_def settingsEnv_def Let_def)
  then obtain u w1 where r: "saveSetting ''webPort'' ''8443'' settingsEnv settingsWorld = (Inr u, w1)" by blast
  have f: "\<forall>n. \<not> e_dbfail settingsEnv n" by (simp add: settingsEnv_def)
  have d: "''subPort'' \<noteq> ''webPort'' \<and> (settingOf ''subPort'' (db_settings (w_db settingsWorld)) \<noteq> None \<or>
      map_of (defaultValueMap settingsEnv) ''subPort'' \<noteq> None)"
    by (simp add: settingsWorld_def settingOf_def)
  show ?thesis using setting_roundtrip [OF r f, of "''subPort''"] d r by blast
qed

text \<open>
  The subscription address always carries the port: with no address configured it is protocol, host,
  colon, port and path, also where the port is the default one of the protocol, because the text
  compared with the default ports already starts with the colon.
\<close>

lemma finalSubURI_keeps_port:
  assumes "map_of m ''subURI'' \<in> {None, Some []}" "map_of m ''subPort'' = Some p" "map_of m ''subPath'' = Some q"
    and "map_of m ''subDomain'' \<in> {None, Some []}"
  shows "\<exists>proto \<in> {''http'', ''https''}. finalSubURI m host = proto @ ''://'' @ host @ CHR '':'' # p @ q"
  using assms by (auto simp: finalSubURI_def Let_def)

theorem finalSubURI_keeps_port_witness:
  "\<exists>proto \<in> {''http'', ''https''}. finalSubURI [(''subPort'', ''80''), (''subPath'', ''/sub/'')] ''vpn.example'' =
     proto @ ''://'' @ ''vpn.example'' @ CHR '':'' # ''80'' @ ''/sub/''"
  by (rule finalSubURI_keeps_port) simp_all

end
