(* ===== verification/InboundService.thy ===== *)
theory InboundService
  imports ClientLaws Settings
begin

text \<open>
  \<open>service/inbounds.go\<close>: the inbounds as the panel lists them, as the core runs them, and the
  propagation of client changes to the running core (a live user swap for Hysteria2, a rebuild for
  everything else).
\<close>

section \<open>Users of an inbound\<close>

definition hasUser :: "string \<Rightarrow> bool" where
  "hasUser ty \<longleftrightarrow> ty \<in> set [''mixed'', ''socks'', ''http'', ''shadowsocks'', ''vmess'', ''trojan'', ''naive'',
     ''hysteria'', ''shadowtls'', ''tuic'', ''hysteria2'', ''vless'', ''anytls'']"

text \<open>The key of a client's configuration an inbound authenticates with.\<close>

definition userKey :: "string \<Rightarrow> obj \<Rightarrow> string" where
  "userKey ty ib = (if ty = ''shadowsocks'' \<and> strOr0 (oget ib ''method'') = ''2022-blake3-aes-128-gcm''
     then ''shadowsocks16'' else ty)"

text \<open>
  One user as the query returns it, scanned into a Go string (a client without the key is a scan
  error), without the vision flow where the inbound cannot carry it, and parsed again as the JSON
  it is embedded as.
\<close>

definition userJson :: "bool \<Rightarrow> jv option \<Rightarrow> raw res" where
  "userJson stripVision v = (case v of None \<Rightarrow> Inl (Err ''converting NULL to string is unsupported'')
     | Some x \<Rightarrow> Inr (if stripVision then jparse (replaceAll (sqlText x) ''xtls-rprx-vision'' [])
         else (case x of JStr s \<Rightarrow> jparse s | JBool b \<Rightarrow> RText (JNum (if b then 1 else 0)) | _ \<Rightarrow> RText x)))"

text \<open>The condition is SQL text, so it may be an error of the statement.\<close>

definition fetchUsers :: "string \<Rightarrow> (client \<Rightarrow> bool res) res \<Rightarrow> obj \<Rightarrow> raw list act" where
  "fetchUsers ty cond ib =
     (if ty = ''shadowtls'' \<and> numOr0 (oget ib ''version'') < 3 then retA []
      else bindA (sqlq (\<lambda>d. bindR cond (\<lambda>P. bindR (filterR (\<lambda>c. if c_enable c then P c else Inr False) (db_clients d)) (\<lambda>cs.
             mapR (\<lambda>c. jsonExtract (c_config c) [userKey ty ib]) cs)))) (\<lambda>vs.
        let strip = (ty = ''vless'' \<and> (objOr0 (oget ib ''transport'') \<noteq> [] \<or> oget ib ''tls'' = JNull)) in
        liftR (mapR (userJson strip) vs)))"

text \<open>\<open>inbound["users"] = users\<close> and the marshalling of the whole.\<close>

definition withUsers :: "obj option \<Rightarrow> raw list \<Rightarrow> raw res" where
  "withUsers m us = bindR (writable m) (\<lambda>ib.
     marshal (JObj (oset ''users'' (if us = [] then JNull else JArr (map JRaw us)) ib)))"

definition addUsers :: "raw \<Rightarrow> nat \<Rightarrow> string \<Rightarrow> raw act" where
  "addUsers conf inboundId ty = (if \<not> hasUser ty then retA conf
     else bindA (liftR (unmarshalObj conf)) (\<lambda>m.
       bindA (fetchUsers ty (Inr (\<lambda>c. eachHas inboundId (c_inbounds c))) (nilObj m)) (\<lambda>us.
         liftR (withUsers m us))))"

text \<open>
  The identifiers of \<open>id IN (...)\<close> as they stand in the SQL text; a list that is not one of
  numbers is refused here (the source splices the text into the statement).
\<close>

definition sqlIds :: "string \<Rightarrow> int list res" where
  "sqlIds s = (if s = [] then Inr [] else mapR (\<lambda>t. case atoi t of (n, ok) \<Rightarrow>
     if ok then Inr n else Inl (Err ''SQL logic error'')) (split s '',''))"

definition initUsers :: "raw \<Rightarrow> string \<Rightarrow> string \<Rightarrow> raw act" where
  "initUsers conf clientIds ty = (if \<not> hasUser ty then retA conf
     else bindA (liftR (unmarshalObj conf)) (\<lambda>m.
       bindA (fetchUsers ty (bindR (sqlIds clientIds) (\<lambda>ids. Inr (\<lambda>c. Inr (int (c_id c) \<in> set ids)))) (nilObj m)) (\<lambda>us.
         liftR (withUsers m us))))"

section \<open>Lists\<close>

definition Inbound_getById :: "string \<Rightarrow> obj list act" where
  "Inbound_getById ids = bindA (rowsWhere db_inbounds (\<lambda>i. int (i_id i) \<in> set (textIds ids))) (\<lambda>is.
     liftR (mapR Inbound_MarshalFull is))"

text \<open>One entry of the list: the options' listener, and the names of its users where it has some.\<close>

definition inboundEntry :: "inbound \<Rightarrow> obj act" where
  "inboundEntry i =
     (let base = [(''id'', JInt (int (i_id i))), (''type'', JStr (i_type i)), (''tag'', JStr (i_tag i)),
                  (''tls_id'', JInt (int (i_tls_id i)))]
      in bindA (liftR (if i_options i = RNil then Inr (None :: obj option)
                 else bindR (unmarshalObj (i_options i)) (\<lambda>m. Inr (Some (nilObj m))))) (\<lambda>rest.
         let rawOf = (\<lambda>k. case rest of None \<Rightarrow> RNil | Some m \<Rightarrow> rawField m k);
             d1 = (case rest of None \<Rightarrow> base
               | Some m \<Rightarrow> oset ''listen_port'' (JRaw (rawOf ''listen_port'')) (oset ''listen'' (JRaw (rawOf ''listen'')) base));
             version = (if i_type i = ''shadowtls'' then (case unmarshalUint (rawOf ''version'') of Inr n \<Rightarrow> n | Inl _ \<Rightarrow> 0) else 0);
             managed = (i_type i = ''shadowsocks'' \<and> rawOf ''managed'' = RText (JBool True))
         in if hasUser (i_type i) \<and> \<not> (i_type i = ''shadowtls'' \<and> version < 3) \<and> \<not> (i_type i = ''shadowsocks'' \<and> managed)
            then bindA (sqlq (\<lambda>d. bindR (filterR (\<lambda>c. eachHas (i_id i) (c_inbounds c)) (db_clients d)) (\<lambda>cs. Inr (map c_name cs))))
              (\<lambda>names. retA (oset ''users'' (JStrs names) d1))
            else retA d1))"

definition Inbound_GetAll :: "obj list act" where
  "Inbound_GetAll = bindA (rowsWhere db_inbounds (\<lambda>_. True)) (mapA inboundEntry)"

definition Inbound_Get :: "string \<Rightarrow> obj list act" where
  "Inbound_Get ids = (if ids = [] then Inbound_GetAll else Inbound_getById ids)"

definition FromIds :: "nat list \<Rightarrow> inbound list act" where
  "FromIds ids = rowsWhere db_inbounds (\<lambda>i. i_id i \<in> set ids)"

definition Inbound_GetAllConfig :: "raw list act" where
  "Inbound_GetAllConfig = bindA (inboundsWhere (\<lambda>_. True)) (mapA (\<lambda>i.
     bindA (liftR (Inbound_MarshalJSON i)) (\<lambda>j. addUsers j (i_id i) (i_type i))))"

section \<open>Saving an inbound\<close>

definition zeroTls :: tls where
  "zeroTls = \<lparr>t_id = 0, t_name = [], t_server = RNil, t_client = RNil\<rparr>"

text \<open>\<open>Find(&inbound.Tls)\<close> allocates the TLS row: a missing one is the zero row.\<close>

definition loadTls :: "nat \<Rightarrow> tls option act" where
  "loadTls tid = (if tid > 0 then sqlq (\<lambda>d. Inr (Some (case findTls tid (db_tls d) of None \<Rightarrow> zeroTls | Some t \<Rightarrow> t)))
     else retA None)"

definition scanTag :: "(inbound \<Rightarrow> bool) \<Rightarrow> string act" where
  "scanTag P = bindA (rowsWhere db_inbounds P) (\<lambda>is. retA (case is of [] \<Rightarrow> [] | i # _ \<Rightarrow> i_tag i))"

definition saveNewOrEdit :: "bool \<Rightarrow> raw \<Rightarrow> string \<Rightarrow> string \<Rightarrow> unit act" where
  "saveNewOrEdit edit data initUserIds hostname =
     bindA (liftR (Inbound_UnmarshalJSON data)) (\<lambda>i0.
     bindA (loadTls (i_tls_id i0)) (\<lambda>t. let i1 = i0\<lparr>i_tls := t\<rparr> in
     bindA (if edit then scanTag (\<lambda>i. i_id i = i_id i1) else retA []) (\<lambda>oldTag.
     bindA isRunning (\<lambda>running.
     thenA (if \<not> running then retA ()
       else thenA (if edit then ignoreInvalid (RemoveInbound oldTag) else retA ())
         (bindA (liftR (Inbound_MarshalJSON i1)) (\<lambda>conf.
          bindA (if edit then addUsers conf (i_id i1) (i_type i1) else initUsers conf initUserIds (i_type i1)) AddInbound)))
     (bindA (askE e_rnd) (\<lambda>rnd. bindA (liftR (FillOutJson rnd i1 hostname)) (\<lambda>i2.
      bindA (saveInbound i2) (\<lambda>i3.
        if edit then UpdateLinksByInboundChange [i3] hostname oldTag
        else UpdateClientsOnInboundAdd initUserIds (i_id i3) hostname)))))))) "

definition deleteInbound :: "raw \<Rightarrow> unit act" where
  "deleteInbound data =
     bindA (liftR (unmarshalStr data)) (\<lambda>tag.
     bindA isRunning (\<lambda>running.
     thenA (if running then ignoreInvalid (RemoveInbound tag) else retA ())
     (bindA (rowsWhere db_inbounds (\<lambda>i. i_tag i = tag)) (\<lambda>is.
       let iid = (case is of [] \<Rightarrow> 0 | i # _ \<Rightarrow> i_id i) in
       thenA (UpdateClientsOnInboundDelete iid tag)
         (sqlx (\<lambda>d. d\<lparr>db_inbounds := filter (\<lambda>i. i_tag i \<noteq> tag) (db_inbounds d)\<rparr>))))))"

definition InboundService_Save :: "string \<Rightarrow> raw \<Rightarrow> string \<Rightarrow> string \<Rightarrow> unit act" where
  "InboundService_Save act data initUserIds hostname =
     (if act = ''new'' then saveNewOrEdit False data initUserIds hostname
      else if act = ''edit'' then saveNewOrEdit True data initUserIds hostname
      else if act = ''del'' then deleteInbound data
      else failA (Err (''unknown action: '' @ act)))"

definition UpdateOutJsons :: "nat list \<Rightarrow> string \<Rightarrow> unit act" where
  "UpdateOutJsons ids hostname =
     bindA (inboundsWhere (\<lambda>i. i_id i \<in> set ids)) (\<lambda>is. bindA (askE e_rnd) (\<lambda>rnd. forA (\<lambda>i.
       bindA (liftR (FillOutJson rnd i hostname)) (\<lambda>i'.
         sqlx (\<lambda>d. d\<lparr>db_inbounds := map (\<lambda>x. if i_tag x = i_tag i' then x\<lparr>i_out_json := i_out_json i'\<rparr> else x) (db_inbounds d)\<rparr>))) is))"

section \<open>Changes of users in the running core\<close>

text \<open>The pairs a Hysteria2 inbound authenticates: enabled clients that are not banned, attached to
  the inbound, with a non-empty password.\<close>

definition hy2Users :: "nat \<Rightarrow> (string \<times> string) list act" where
  "hy2Users inboundId = sqlq (\<lambda>d.
     bindR (filterR (\<lambda>c. if \<not> (c_enable c \<and> \<not> c_banned c) then Inr False
         else bindR (jsonExtract (c_config c) [''hysteria2'', ''password'']) (\<lambda>p.
           if p = None then Inr False else eachHas inboundId (c_inbounds c))) (db_clients d)) (\<lambda>cs.
     bindR (mapR (\<lambda>c. bindR (jsonExtract (c_config c) [''hysteria2'', ''password'']) (\<lambda>p.
         Inr (c_name c, case p of None \<Rightarrow> [] | Some v \<Rightarrow> sqlText v))) cs) (\<lambda>rows.
       Inr (filter (\<lambda>r. snd r \<noteq> []) rows))))"

definition UpdateInboundUsers :: "nat \<Rightarrow> unit act" where
  "UpdateInboundUsers inboundId = bindA isRunning (\<lambda>running. if \<not> running then retA ()
     else bindA (scanTag (\<lambda>i. i_id i = inboundId)) (\<lambda>tag.
       if tag = [] then retA ()
       else bindA (hy2Users inboundId) (\<lambda>us. UpdateInboundUsersLive tag (map fst us) (map snd us))))"

definition restartOne :: "inbound \<Rightarrow> unit act" where
  "restartOne i = thenA (ignoreInvalid (RemoveInbound (i_tag i)))
     (thenA (closeConns (i_tag i))
     (bindA (liftR (Inbound_MarshalJSON i)) (\<lambda>conf.
      bindA (addUsers conf (i_id i) (i_type i)) AddInbound)))"

definition RestartInbounds :: "nat list \<Rightarrow> unit act" where
  "RestartInbounds ids = bindA isRunning (\<lambda>running. if \<not> running then retA ()
     else bindA (inboundsWhere (\<lambda>i. i_id i \<in> set ids)) (forA restartOne))"

text \<open>A failed read of the switch counts as on.\<close>

definition liveSwitch :: "bool act" where
  "liveSwitch = (\<lambda>e w. case GetHy2LiveUpdate e w of (Inl (Err m), w') \<Rightarrow> (Inr True, w') | r \<Rightarrow> r)"

definition ApplyUserChanges :: "nat list \<Rightarrow> unit act" where
  "ApplyUserChanges ids = bindA isRunning (\<lambda>running. if \<not> running \<or> ids = [] then retA ()
     else bindA liveSwitch (\<lambda>live.
       bindA (if live then bindA (rowsWhere db_inbounds (\<lambda>i. i_id i \<in> set ids \<and> i_type i = ''hysteria2'')) (\<lambda>is. retA (map i_id is))
              else retA []) (\<lambda>hy2Set.
       let hy2Ids = filter (\<lambda>i. i \<in> set hy2Set) ids;
           otherIds = (if live then filter (\<lambda>i. i \<notin> set hy2Set) ids else ids)
       in thenA (forA UpdateInboundUsers hy2Ids)
            (if otherIds = [] then retA () else RestartInbounds otherIds))))"

end
