(* ===== verification/InboundLaws.thy ===== *)
theory InboundLaws
  imports InboundService
begin

text \<open>
  What a client change does to the running core: the live update installs exactly the users the
  database grants, agrees with a rebuild of the inbound, and restarts nothing.
\<close>

section \<open>The users the database grants\<close>

text \<open>A client whose Hysteria2 configuration is the one the panel writes: its own name and a password.\<close>

definition hy2Client :: "client \<Rightarrow> string \<Rightarrow> bool" where
  "hy2Client c p \<longleftrightarrow> (\<exists>m h. c_config c = RText (JObj m) \<and> map_of m ''hysteria2'' = Some (JObj h) \<and>
     map_of h ''name'' = Some (JStr (c_name c)) \<and> map_of h ''password'' = Some (JStr p) \<and> p \<noteq> [])"

definition wellFormed :: "client list \<Rightarrow> bool" where
  "wellFormed cs \<longleftrightarrow> (\<forall>c \<in> set cs. (\<exists>p. hy2Client c p) \<and> (\<exists>vs. c_inbounds c = RText (JArr vs)))"

definition pwOf :: "client \<Rightarrow> string" where
  "pwOf c = (case jsonExtract (c_config c) [''hysteria2'', ''password''] of Inr (Some (JStr p)) \<Rightarrow> p | _ \<Rightarrow> [])"

definition attached :: "nat \<Rightarrow> client \<Rightarrow> bool" where
  "attached i c \<longleftrightarrow> eachHas i (c_inbounds c) = Inr True"

definition granted :: "nat \<Rightarrow> client list \<Rightarrow> client list" where
  "granted i cs = filter (\<lambda>c. c_enable c \<and> \<not> c_banned c \<and> attached i c) cs"

lemma hy2Client_extract:
  assumes "hy2Client c p"
  shows "jsonExtract (c_config c) [''hysteria2'', ''password''] = Inr (Some (JStr p))" "pwOf c = p" "p \<noteq> []"
  using assms by (auto simp: hy2Client_def jsonExtract_def pwOf_def)

lemma eachHas_array: "c_inbounds c = RText (JArr vs) \<Longrightarrow> eachHas i (c_inbounds c) = Inr (attached i c)"
  by (simp add: eachHas_def attached_def)

lemma wellFormed_row:
  assumes "wellFormed cs" "c \<in> set cs"
  shows "jsonExtract (c_config c) [''hysteria2'', ''password''] = Inr (Some (JStr (pwOf c)))" "pwOf c \<noteq> []"
    "eachHas i (c_inbounds c) = Inr (attached i c)"
  using assms hy2Client_extract eachHas_array by (fastforce simp: wellFormed_def)+

lemma hy2Users_granted:
  assumes "hy2Users i e w = (Inr us, w')" "wellFormed (db_clients (w_db w))"
  shows "us = map (\<lambda>c. (c_name c, pwOf c)) (granted i (db_clients (w_db w))) \<and> w_db w' = w_db w \<and> w_core w' = w_core w"
proof -
  let ?cs = "db_clients (w_db w)"
  have f: "filterR (\<lambda>c. if \<not> (c_enable c \<and> \<not> c_banned c) then Inr False
         else bindR (jsonExtract (c_config c) [''hysteria2'', ''password'']) (\<lambda>p.
           if p = None then Inr False else eachHas i (c_inbounds c))) ?cs = Inr (granted i ?cs)"
    unfolding granted_def using wellFormed_row [OF assms(2)] by (intro filterR_total) auto
  have m: "mapR (\<lambda>c. bindR (jsonExtract (c_config c) [''hysteria2'', ''password'']) (\<lambda>p.
         Inr (c_name c, case p of None \<Rightarrow> [] | Some v \<Rightarrow> sqlText v))) (granted i ?cs) = Inr (map (\<lambda>c. (c_name c, pwOf c)) (granted i ?cs))"
    using wellFormed_row(1) [OF assms(2)] by (intro mapR_total) (auto simp: granted_def)
  have "filter (\<lambda>r. snd r \<noteq> []) (map (\<lambda>c. (c_name c, pwOf c)) (granted i ?cs)) = map (\<lambda>c. (c_name c, pwOf c)) (granted i ?cs)"
    using wellFormed_row(2) [OF assms(2)] by (auto simp: filter_id_conv granted_def)
  with assms(1) show ?thesis
    unfolding hy2Users_def sqlq_def Let_def f bindR_simps m by (auto split: if_splits)
qed

section \<open>The live update installs them\<close>

lemma UpdateInboundUsersLive_run:
  assumes "UpdateInboundUsersLive tag ns ps e w = (Inr u, w')"
  obtains l h where "map_of (co_inbounds (w_core w)) tag = Some l" "li_type l = ''hysteria2''"
    "UpdateUsers ns ps (li_hy2 l) = Inr h"
    "w' = w\<lparr>w_core := (w_core w)\<lparr>co_inbounds := AList.update tag (l\<lparr>li_hy2 := RetainUsers ps h\<rparr>) (co_inbounds (w_core w))\<rparr>\<rparr>"
  using assms unfolding UpdateInboundUsersLive_def
  by (auto simp: bindA_Inr hysteria2Inbound_def split: if_splits option.splits)

lemma UpdateInboundUsersLive_db: "UpdateInboundUsersLive tag ns ps e w = (r, w') \<Longrightarrow> w_db w' = w_db w"
  using within_core(4) [of tag ns ps] by (auto simp: within_def sameDb_def) (metis snd_conv)

lemma scanTag_run: "scanTag P e w = (Inr t, w') \<Longrightarrow>
    t = (case filter P (db_inbounds (w_db w)) of [] \<Rightarrow> [] | i # _ \<Rightarrow> i_tag i) \<and> w_db w' = w_db w \<and> w_core w' = w_core w"
  by (auto simp: scanTag_def bindA_Inr dest!: rowsWhere_Inr)

lemma live_kept:
  assumes "liveSession (RetainUsers pws h) c se"
  shows "se_pw se \<in> set pws"
proof -
  obtain z where "se = (if se_authed z \<and> se_pw z \<notin> set pws then closeWithError z else z)" "se_authed se" "\<not> se_done se"
    using assms by (auto simp: liveSession_def RetainUsers_session)
  then show ?thesis by (metis closeWithError_simps(1))
qed

text \<open>An inbound whose running service accepts exactly the passwords the database grants.\<close>

definition inStep :: "world \<Rightarrow> nat \<Rightarrow> string \<Rightarrow> bool" where
  "inStep w i t \<longleftrightarrow> (\<exists>l. map_of (co_inbounds (w_core w)) t = Some l \<and>
    (\<forall>pw. lookupUser pw (li_hy2 l) \<noteq> None \<longleftrightarrow>
       (\<exists>c \<in> set (db_clients (w_db w)). c_enable c \<and> \<not> c_banned c \<and> attached i c \<and> pwOf c = pw)) \<and>
    (\<forall>c se. liveSession (li_hy2 l) c se \<longrightarrow>
       (\<exists>k \<in> set (db_clients (w_db w)). c_enable k \<and> \<not> c_banned k \<and> attached i k \<and> pwOf k = se_pw se)))"

lemma UpdateInboundUsers_inStep:
  assumes "UpdateInboundUsers i e w = (Inr u, w')" "co_running (w_core w)" "wellFormed (db_clients (w_db w))"
    and "filter (\<lambda>x. i_id x = i) (db_inbounds (w_db w)) = ib # rest" "i_tag ib \<noteq> []"
  shows "inStep w' i (i_tag ib) \<and> w_db w' = w_db w"
proof -
  let ?g = "granted i (db_clients (w_db w))"
  obtain w1 where w1: "w_db w1 = w_db w" "w_core w1 = w_core w"
    and run: "bindA (hy2Users i) (\<lambda>us. UpdateInboundUsersLive (i_tag ib) (map fst us) (map snd us)) e w1 = (Inr u, w')"
    using assms(1,2,4,5) unfolding UpdateInboundUsers_def isRunning_def
    by (auto simp: bindA_Inr [of "scanTag P" for P] dest!: scanTag_run)
  then obtain us w2 where us: "hy2Users i e w1 = (Inr us, w2)"
    and live: "UpdateInboundUsersLive (i_tag ib) (map fst us) (map snd us) e w2 = (Inr u, w')"
    by (auto simp: bindA_Inr)
  have us': "us = map (\<lambda>c. (c_name c, pwOf c)) ?g"
    using hy2Users_granted [OF us] assms(3) w1 by simp
  have db: "w_db w' = w_db w"
    using hy2Users_granted [OF us] assms(3) w1 UpdateInboundUsersLive_db [OF live] by simp
  obtain l h where h: "UpdateUsers (map fst us) (map snd us) (li_hy2 l) = Inr h"
    and w': "w' = w2\<lparr>w_core := (w_core w2)\<lparr>co_inbounds := AList.update (i_tag ib) (l\<lparr>li_hy2 := RetainUsers (map snd us) h\<rparr>)
      (co_inbounds (w_core w2))\<rparr>\<rparr>"
    using UpdateInboundUsersLive_run [OF live] by metis
  have look: "lookupUser pw (RetainUsers (map snd us) h) \<noteq> None \<longleftrightarrow> pw \<in> set (map snd us)" for pw
    using UpdateUsers_exact_set [OF h, of pw] by (simp add: lookupUser_def RetainUsers_def)
  have sess: "se_pw se \<in> set (map snd us)" if "liveSession (RetainUsers (map snd us) h) c se" for c se
    by (rule live_kept [OF that])
  have "pw \<in> set (map snd us) \<longleftrightarrow>
      (\<exists>c \<in> set (db_clients (w_db w)). c_enable c \<and> \<not> c_banned c \<and> attached i c \<and> pwOf c = pw)" for pw
    by (auto simp: us' granted_def)
  with look sess w' show ?thesis unfolding inStep_def db by (simp add: db)
qed

text \<open>C21
  A live update makes the running inbound accept exactly the passwords the database grants: after it
  succeeds, a password authenticates if and only if some client has it that is enabled, not banned and
  attached to the inbound, and no session that is authenticated with another password stays open.
\<close>

theorem UpdateInboundUsers_exact:
  assumes "UpdateInboundUsers i e w = (Inr u, w')" "co_running (w_core w)" "wellFormed (db_clients (w_db w))"
    and "filter (\<lambda>x. i_id x = i) (db_inbounds (w_db w)) = ib # rest" "i_tag ib \<noteq> []"
  shows "\<exists>l. map_of (co_inbounds (w_core w')) (i_tag ib) = Some l \<and>
    (\<forall>pw. lookupUser pw (li_hy2 l) \<noteq> None \<longleftrightarrow>
       (\<exists>c \<in> set (db_clients (w_db w)). c_enable c \<and> \<not> c_banned c \<and> attached i c \<and> pwOf c = pw)) \<and>
    (\<forall>c se. liveSession (li_hy2 l) c se \<longrightarrow>
       (\<exists>k \<in> set (db_clients (w_db w)). c_enable k \<and> \<not> c_banned k \<and> attached i k \<and> pwOf k = se_pw se))"
  using UpdateInboundUsers_inStep [OF assms] by (auto simp: inStep_def)

definition hy2Config :: "string \<Rightarrow> string \<Rightarrow> raw" where
  "hy2Config n p = RText (JObj [(''hysteria2'', JObj [(''name'', JStr n), (''password'', JStr p)])])"

definition ann :: client where
  "ann = zeroClient\<lparr>c_id := 1, c_name := ''ann'', c_enable := True, c_config := hy2Config ''ann'' ''pa'', c_inbounds := RText (JArr [JNum 7])\<rparr>"

definition eve :: client where
  "eve = zeroClient\<lparr>c_id := 2, c_name := ''eve'', c_banned := True, c_config := hy2Config ''eve'' ''pe'', c_inbounds := RText (JArr [JNum 7])\<rparr>"

definition hy2Row :: inbound where
  "hy2Row = zeroInbound\<lparr>i_id := 7, i_type := ''hysteria2'', i_tag := ''hy2'', i_options := RText (JObj [(''listen_port'', JNum 443)])\<rparr>"

definition hy2Live :: livein where
  "hy2Live = \<lparr>li_type = ''hysteria2'', li_conf = RNil, li_hy2 = two_sessions\<rparr>"

definition hy2World :: world where
  "hy2World = (worldWith [ann, eve])\<lparr>w_db := emptyDb\<lparr>db_clients := [ann, eve], db_inbounds := [hy2Row]\<rparr>,
     w_core := stoppedCore\<lparr>co_running := True, co_instance := True, co_inbounds := [(''hy2'', hy2Live)]\<rparr>\<rparr>"

lemma hy2World_wf: "wellFormed (db_clients (w_db hy2World))"
  by (simp add: wellFormed_def hy2World_def hy2Client_def ann_def eve_def hy2Config_def)

lemma ann_simps:
  "c_id ann = 1" "c_name ann = ''ann''" "c_enable ann" "\<not> c_banned ann" "c_config ann = hy2Config ''ann'' ''pa''"
  "c_inbounds ann = RText (JArr [JNum 7])"
  "c_id eve = 2" "c_name eve = ''eve''" "\<not> c_enable eve" "c_banned eve" "c_config eve = hy2Config ''eve'' ''pe''"
  "c_inbounds eve = RText (JArr [JNum 7])"
  by (simp_all add: ann_def eve_def zeroClient_def)

lemma hy2Config_simps:
  "jsonExtract (hy2Config n p) [''hysteria2'', ''password''] = Inr (Some (JStr p))"
  "jsonExtract (hy2Config n p) [''hysteria2''] = Inr (Some (JObj [(''name'', JStr n), (''password'', JStr p)]))"
  by (simp_all add: hy2Config_def jsonExtract_def)

lemma seven: "eachHas 7 (RText (JArr [JNum 7])) = Inr True"
  by (simp add: eachHas_def)

lemma quietEnv_ok: "e_dbfail quietEnv n = False"
  by (simp add: quietEnv_def)

lemma hy2World_simps:
  "db_clients (w_db hy2World) = [ann, eve]" "db_inbounds (w_db hy2World) = [hy2Row]" "w_db (hy2World\<lparr>w_stmt := n\<rparr>) = w_db hy2World"
  "co_running (w_core hy2World)" "co_inbounds (w_core hy2World) = [(''hy2'', hy2Live)]"
  by (simp_all add: hy2World_def)

lemmas hy2_eval = ann_simps hy2Config_simps seven quietEnv_ok hy2World_simps

lemma hy2Users_world: "w_db w = w_db hy2World \<Longrightarrow> hy2Users 7 quietEnv w = (Inr [(''ann'', ''pa'')], w\<lparr>w_stmt := Suc (w_stmt w)\<rparr>)"
  by (simp add: hy2Users_def sqlq_def hy2_eval Let_def)

lemma scanTag_world: "scanTag (\<lambda>i. i_id i = 7) quietEnv hy2World = (Inr ''hy2'', hy2World\<lparr>w_stmt := Suc (w_stmt hy2World)\<rparr>)"
  by (simp add: scanTag_def rowsWhere_def sqlq_def bindA_def hy2_eval Let_def hy2Row_def)

lemma live_world:
  assumes "w_core w = w_core hy2World"
  shows "\<exists>w'. UpdateInboundUsersLive ''hy2'' [''ann''] [''pa''] quietEnv w = (Inr (), w')"
proof -
  have "hysteria2Inbound ''hy2'' quietEnv w = (Inr hy2Live, w)"
    by (simp add: hysteria2Inbound_def assms hy2World_simps) (simp add: hy2Live_def)
  moreover have "UpdateUsers [''ann''] [''pa''] (li_hy2 hy2Live) = Inr ((li_hy2 hy2Live)\<lparr>hv_users := [(''pa'', ''ann'')]\<rparr>)"
    by (simp add: UpdateUsers_def)
  ultimately show ?thesis
    unfolding UpdateInboundUsersLive_def by simp
qed

lemma hy2World_run: "\<exists>w'. UpdateInboundUsers 7 quietEnv hy2World = (Inr (), w')"
proof -
  obtain w1 where s: "scanTag (\<lambda>i. i_id i = 7) quietEnv hy2World = (Inr ''hy2'', w1)"
    and w1: "w_db w1 = w_db hy2World" "w_core w1 = w_core hy2World" by (simp add: scanTag_world)
  obtain w2 where u: "hy2Users 7 quietEnv w1 = (Inr [(''ann'', ''pa'')], w2)" and w2: "w_core w2 = w_core hy2World"
    using hy2Users_world [OF w1(1)] w1(2) by simp
  have r: "co_running (w_core hy2World)" by (simp add: hy2World_simps)
  obtain w' where "UpdateInboundUsersLive ''hy2'' [''ann''] [''pa''] quietEnv w2 = (Inr (), w')"
    using live_world [OF w2] by blast
  with s u r show ?thesis by (simp add: UpdateInboundUsers_def isRunning_def)
qed

theorem UpdateInboundUsers_exact_witness:
  "\<exists>w' l. UpdateInboundUsers 7 quietEnv hy2World = (Inr (), w') \<and> map_of (co_inbounds (w_core w')) ''hy2'' = Some l \<and>
     lookupUser ''pa'' (li_hy2 l) \<noteq> None \<and> lookupUser ''pe'' (li_hy2 l) = None"
proof -
  obtain w' where r: "UpdateInboundUsers 7 quietEnv hy2World = (Inr (), w')" using hy2World_run by blast
  have run: "co_running (w_core hy2World)" by (simp add: hy2World_def)
  have row: "filter (\<lambda>x. i_id x = 7) (db_inbounds (w_db hy2World)) = hy2Row # []" "i_tag hy2Row \<noteq> []"
    by (simp_all add: hy2World_def hy2Row_def)
  obtain l where l: "map_of (co_inbounds (w_core w')) (i_tag hy2Row) = Some l"
    and look: "\<forall>pw. lookupUser pw (li_hy2 l) \<noteq> None \<longleftrightarrow>
       (\<exists>c \<in> set (db_clients (w_db hy2World)). c_enable c \<and> \<not> c_banned c \<and> attached 7 c \<and> pwOf c = pw)"
    using UpdateInboundUsers_exact [OF r run hy2World_wf row] by blast
  have cs: "set (db_clients (w_db hy2World)) = {ann, eve}" by (simp add: hy2World_def)
  have "attached 7 ann" "pwOf ann = ''pa''" "c_enable ann" "\<not> c_banned ann" "c_banned eve"
    by (simp_all add: attached_def eachHas_def ann_def eve_def pwOf_def jsonExtract_def hy2Config_def zeroClient_def)
  note facts = this
  have "lookupUser ''pa'' (li_hy2 l) \<noteq> None"
    using facts by (intro look [rule_format, THEN iffD2]) (auto simp only: cs)
  moreover have "\<not> lookupUser ''pe'' (li_hy2 l) \<noteq> None"
  proof
    assume "lookupUser ''pe'' (li_hy2 l) \<noteq> None"
    then obtain c where c: "c \<in> {ann, eve}" "\<not> c_banned c" "pwOf c = ''pe''" using look cs by blast
    then have "c = ann" using \<open>c_banned eve\<close> by blast
    then show False using c(3) \<open>pwOf ann = ''pa''\<close> by simp
  qed
  moreover have "i_tag hy2Row = ''hy2''" by (simp add: hy2Row_def)
  ultimately show ?thesis using r l by metis
qed

section \<open>A live update and a rebuild agree\<close>

lemma hy2Client_whole: "hy2Client c p \<Longrightarrow>
    \<exists>h. jsonExtract (c_config c) [''hysteria2''] = Inr (Some (JObj h)) \<and> oget h ''name'' = JStr (c_name c) \<and> oget h ''password'' = JStr p"
  by (auto simp: hy2Client_def jsonExtract_def oget_def)

definition userObj :: "client \<Rightarrow> obj" where
  "userObj c = (case jsonExtract (c_config c) [''hysteria2''] of Inr (Some (JObj h)) \<Rightarrow> h | _ \<Rightarrow> [])"

lemma userObj_row:
  assumes "wellFormed cs" "c \<in> set cs"
  shows "jsonExtract (c_config c) [''hysteria2''] = Inr (Some (JObj (userObj c)))"
    "strOr0 (oget (userObj c) ''name'') = c_name c" "strOr0 (oget (userObj c) ''password'') = pwOf c"
proof -
  obtain p where p: "hy2Client c p" using assms by (auto simp: wellFormed_def)
  obtain h where h: "jsonExtract (c_config c) [''hysteria2''] = Inr (Some (JObj h))"
    "oget h ''name'' = JStr (c_name c)" "oget h ''password'' = JStr p"
    using hy2Client_whole [OF p] by blast
  then show "jsonExtract (c_config c) [''hysteria2''] = Inr (Some (JObj (userObj c)))"
    "strOr0 (oget (userObj c) ''name'') = c_name c" "strOr0 (oget (userObj c) ''password'') = pwOf c"
    using hy2Client_extract(2) [OF p] by (simp_all add: userObj_def strOr0_def)
qed

lemma fetchUsers_hy2:
  assumes "fetchUsers ''hysteria2'' (Inr (\<lambda>c. eachHas i (c_inbounds c))) ib e w = (Inr us, w')"
    and "wellFormed (db_clients (w_db w))"
  shows "us = map (\<lambda>c. RText (JObj (userObj c))) (filter (\<lambda>c. c_enable c \<and> attached i c) (db_clients (w_db w)))"
proof -
  let ?cs = "db_clients (w_db w)" and ?on = "\<lambda>c. c_enable c \<and> attached i c"
  have f: "filterR (\<lambda>c. if c_enable c then eachHas i (c_inbounds c) else Inr False) ?cs = Inr (filter ?on ?cs)"
    using wellFormed_row(3) [OF assms(2)] by (intro filterR_total) auto
  have m: "mapR (\<lambda>c. jsonExtract (c_config c) [''hysteria2'']) (filter ?on ?cs) = Inr (map (\<lambda>c. Some (JObj (userObj c))) (filter ?on ?cs))"
    using userObj_row(1) [OF assms(2)] by (intro mapR_total) auto
  have u: "mapR (userJson False) (map (\<lambda>c. Some (JObj (userObj c))) (filter ?on ?cs)) =
      Inr (map (\<lambda>c. RText (JObj (userObj c))) (filter ?on ?cs))"
    by (subst mapR_total [where g = "\<lambda>v. RText (the v)"]) (auto simp: userJson_def)
  show ?thesis
    using assms(1) unfolding fetchUsers_def userKey_def
    by (simp add: run_iffs bindA_def sqlq_def f m u Let_def split: if_splits)
qed

lemma toDocs_raw: "toDocs (map (\<lambda>x. JRaw (RText (f x))) xs) = Some (map f xs)"
  by (induction xs) auto

text \<open>C22
  A live update and a rebuild of a Hysteria2 inbound grant the same access: for clients as the panel
  writes them, with no client both banned and enabled, the configuration an inbound is rebuilt from
  makes a fresh service with the very user map the live update installs.
\<close>

theorem live_update_agrees_with_rebuild:
  assumes "wellFormed (db_clients (w_db w))" "banInv (db_clients (w_db w))"
    and "addUsers (RText (JObj ib)) i ''hysteria2'' e w = (Inr conf, w1)" "hy2Users i e w = (Inr us, w2)"
  shows "\<exists>s'. UpdateUsers (map fst us) (map snd us) s = Inr s' \<and> hv_users s' = hv_users (hy2NewInbound mbps conf)"
proof -
  let ?on = "filter (\<lambda>c. c_enable c \<and> attached i c) (db_clients (w_db w))"
  have on: "granted i (db_clients (w_db w)) = ?on"
    using assms(2) by (auto simp: granted_def banInv_def intro!: filter_cong)
  have us: "us = map (\<lambda>c. (c_name c, pwOf c)) ?on"
    using hy2Users_granted [OF assms(4,1)] on by simp
  obtain fs where fs: "fetchUsers ''hysteria2'' (Inr (\<lambda>c. eachHas i (c_inbounds c))) ib e w = (Inr fs, w1)"
    and conf: "withUsers (Some ib) fs = Inr conf"
    using assms(3) by (auto simp: addUsers_def hasUser_def bindA_Inr nilObj_def)
  note fs' = fetchUsers_hy2 [OF fs assms(1)]
  obtain d where d: "toDocMembers (oset ''users'' (if fs = [] then JNull else JArr (map JRaw fs)) ib) = Some d" "conf = RText (JObj d)"
    using conf by (auto simp: withUsers_def writable_def marshal_def split: option.splits)
  have "map_of d ''users'' = toDoc (if fs = [] then JNull else JArr (map JRaw fs))"
    using toDocMembers_map_of [OF d(1), of "''users''"] by simp
  also have "\<dots> = Some (if ?on = [] then JNull else JArr (map (\<lambda>c. JObj (userObj c)) ?on))"
    using toDocs_raw [of "\<lambda>c. JObj (userObj c)" ?on] by (simp add: fs' comp_def)
  finally have users: "confUsers conf = map userObj ?on"
    by (auto simp: confUsers_def d(2) oget_def objOr0_def comp_def)
  have "map (\<lambda>u. strOr0 (oget u ''name'')) (map userObj ?on) = map fst us"
    "map (\<lambda>u. strOr0 (oget u ''password'')) (map userObj ?on) = map snd us"
    using userObj_row [OF assms(1)] by (auto simp: us)
  moreover obtain m where "buildUserMap (map fst us) (map snd us) [] = Inr m"
    using buildUserMap_map [of "map fst us" "map snd us" "[]"] by auto
  ultimately show ?thesis
    by (simp add: UpdateUsers_def hy2NewInbound_def users Let_def)
qed

lemma addUsers_world:
  assumes "w_stmt w = n" "filterR (\<lambda>c. if c_enable c then eachHas 7 (c_inbounds c) else Inr False) (db_clients (w_db w)) = Inr [c]"
    and "c_config c = hy2Config m p"
  shows "addUsers (RText (JObj [])) 7 ''hysteria2'' quietEnv w =
    (Inr (RText (JObj [(''users'', JArr [JObj [(''name'', JStr m), (''password'', JStr p)]])])), w\<lparr>w_stmt := Suc n\<rparr>)"
  using assms
  by (simp add: addUsers_def hasUser_def fetchUsers_def userKey_def sqlq_def bindA_def hy2_eval Let_def userJson_def withUsers_def
      writable_def marshal_def nilObj_def)

theorem live_update_agrees_with_rebuild_witness:
  "\<exists>conf us s'. fst (addUsers (RText (JObj [])) 7 ''hysteria2'' quietEnv hy2World) = Inr conf \<and>
     fst (hy2Users 7 quietEnv hy2World) = Inr us \<and>
     UpdateUsers (map fst us) (map snd us) two_sessions = Inr s' \<and> hv_users s' = hv_users (hy2NewInbound 125000 conf)"
proof -
  have "filterR (\<lambda>c. if c_enable c then eachHas 7 (c_inbounds c) else Inr False) (db_clients (w_db hy2World)) = Inr [ann]"
    by (simp add: hy2_eval)
  then obtain conf w1 where c: "addUsers (RText (JObj [])) 7 ''hysteria2'' quietEnv hy2World = (Inr conf, w1)"
    using addUsers_world [OF HOL.refl _ ann_simps(5)] by blast
  obtain us w2 where u: "hy2Users 7 quietEnv hy2World = (Inr us, w2)" using hy2Users_world by blast
  have b: "banInv (db_clients (w_db hy2World))" by (simp add: banInv_def hy2_eval)
  from live_update_agrees_with_rebuild [OF hy2World_wf b c u] c u show ?thesis by auto
qed

text \<open>Where a banned client is enabled, a rebuild grants the access the live update refuses.\<close>

definition contraryWorld :: world where
  "contraryWorld = hy2World\<lparr>w_db := emptyDb\<lparr>db_clients := [eve\<lparr>c_enable := True\<rparr>]\<rparr>\<rparr>"

lemma rebuild_grants_banned:
  "\<exists>conf w1 w2. addUsers (RText (JObj [])) 7 ''hysteria2'' quietEnv contraryWorld = (Inr conf, w1) \<and>
     lookupUser ''pe'' (hy2NewInbound 125000 conf) = Some ''eve'' \<and> hy2Users 7 quietEnv contraryWorld = (Inr [], w2)"
proof -
  let ?eve = "eve\<lparr>c_enable := True\<rparr>"
  let ?conf = "RText (JObj [(''users'', JArr [JObj [(''name'', JStr ''eve''), (''password'', JStr ''pe'')]])])"
  have "filterR (\<lambda>c. if c_enable c then eachHas 7 (c_inbounds c) else Inr False) (db_clients (w_db contraryWorld)) = Inr [?eve]"
    by (simp add: contraryWorld_def hy2_eval)
  then have "\<exists>w1. addUsers (RText (JObj [])) 7 ''hysteria2'' quietEnv contraryWorld = (Inr ?conf, w1)"
    using addUsers_world [OF HOL.refl, of contraryWorld ?eve "''eve''" "''pe''"] by (simp add: hy2_eval)
  moreover have "lookupUser ''pe'' (hy2NewInbound 125000 ?conf) = Some ''eve''"
    by (simp add: lookupUser_def hy2NewInbound_def confUsers_def oget_def UpdateUsers_def strOr0_def objOr0_def Let_def)
  moreover have "\<exists>w2. hy2Users 7 quietEnv contraryWorld = (Inr [], w2)"
    by (simp add: hy2Users_def sqlq_def contraryWorld_def hy2_eval Let_def)
  ultimately show ?thesis by blast
qed

section \<open>Nothing is restarted\<close>

text \<open>The same inbounds run with the same configurations, and no connection was closed by the tracker.\<close>

definition noRestart :: "world \<Rightarrow> world \<Rightarrow> bool" where
  "noRestart w w' \<longleftrightarrow> co_conns (w_core w') = co_conns (w_core w) \<and> co_running (w_core w') = co_running (w_core w) \<and>
     (\<forall>t. map_option li_conf (map_of (co_inbounds (w_core w')) t) = map_option li_conf (map_of (co_inbounds (w_core w)) t))"

interpretation noRestart: frame noRestart
  by unfold_locales (auto simp: noRestart_def)

lemma sameCore_noRestart: "within sameCore a \<Longrightarrow> within noRestart a"
  by (simp add: within_def sameCore_def noRestart_def)

lemma within_hysteria2Inbound: "within noRestart (hysteria2Inbound t)"
  by (auto simp: within_def noRestart_def hysteria2Inbound_def split: option.split)

lemma live_noRestart: "within noRestart (UpdateInboundUsersLive t ns ps)"
proof -
  have "noRestart w (snd (UpdateInboundUsersLive t ns ps e w))" for e w
  proof (cases "UpdateInboundUsersLive t ns ps e w")
    case (Pair r w')
    show ?thesis
    proof (cases r)
      case (Inl x)
      then have "w' = w"
        using Pair by (auto simp: UpdateInboundUsersLive_def bindA_Inl hysteria2Inbound_def modW_def split: if_splits option.splits)
      then show ?thesis using Pair noRestart.R_refl by simp
    next
      case (Inr u)
      with Pair have "UpdateInboundUsersLive t ns ps e w = (Inr u, w')" by simp
      then show ?thesis
        by (rule UpdateInboundUsersLive_run) (auto simp: Pair noRestart_def)
    qed
  qed
  then show ?thesis by (simp add: within_def)
qed

lemma UpdateInboundUsers_noRestart: "within noRestart (UpdateInboundUsers i)"
  unfolding UpdateInboundUsers_def isRunning_def scanTag_def hy2Users_def
  by (intro noRestart.within_rules live_noRestart sameCore_noRestart [OF within_rows(1)] sameCore_noRestart [OF within_sqlq(1)])

lemma liveSwitch_same: "w_core (snd (liveSwitch e w)) = w_core w \<and> w_db (snd (liveSwitch e w)) = w_db w"
  by (auto simp: liveSwitch_def GetHy2LiveUpdate_def getBool_def getString_def onNotFound_def getSetting_def firstWhere_def sqlq_def
      bindA_def askE_def failA_def retA_def liftR_def Let_def split: prod.split sum.split goerr.split option.split list.split)

lemma ApplyUserChanges_hy2:
  assumes "fst (liveSwitch e w) = Inr True" "co_running (w_core w)" "ids \<noteq> []"
    and "\<forall>i \<in> set ids. \<exists>x \<in> set (db_inbounds (w_db w)). i_id x = i \<and> i_type x = ''hysteria2''"
  shows "\<exists>w2. w_db w2 = w_db w \<and> w_core w2 = w_core w \<and>
    (ApplyUserChanges ids e w = (Inl sqlErr, w2) \<and> (\<exists>n. e_dbfail e n) \<or> ApplyUserChanges ids e w = forA UpdateInboundUsers ids e w2)"
proof -
  obtain w1 where l: "liveSwitch e w = (Inr True, w1)" using assms(1) by (cases "liveSwitch e w") auto
  with liveSwitch_same [of e w] have w1: "w_core w1 = w_core w" "w_db w1 = w_db w" by auto
  let ?w2 = "w1\<lparr>w_stmt := Suc (w_stmt w1)\<rparr>"
  let ?P = "\<lambda>i. i_id i \<in> set ids \<and> i_type i = ''hysteria2''"
  have eq: "ApplyUserChanges ids e w = (if e_dbfail e (w_stmt w1) then (Inl sqlErr, ?w2) else forA UpdateInboundUsers ids e ?w2)"
  proof (cases "e_dbfail e (w_stmt w1)")
    case True
    with assms(2,3) l show ?thesis
      by (simp add: ApplyUserChanges_def isRunning_def rowsWhere_def sqlq_def bindA_def Let_def)
  next
    case False
    have hy: "filter (\<lambda>i. i \<in> set (map i_id (filter ?P (db_inbounds (w_db w1))))) ids = ids"
      "filter (\<lambda>i. i \<notin> set (map i_id (filter ?P (db_inbounds (w_db w1))))) ids = []"
      using assms(4) w1(2) by (auto simp: filter_id_conv filter_empty_conv)
    have "bindA (if True then bindA (rowsWhere db_inbounds ?P) (\<lambda>is. retA (map i_id is)) else retA []) f e w1 =
        f (map i_id (filter ?P (db_inbounds (w_db w1)))) e ?w2" for f :: "nat list \<Rightarrow> unit act"
      using False by (simp add: bindA_def rowsWhere_def sqlq_def retA_def Let_def)
    then have "ApplyUserChanges ids e w = thenA (forA UpdateInboundUsers ids) (retA ()) e ?w2"
      using assms(2,3) l unfolding ApplyUserChanges_def isRunning_def
      by (simp add: hy del: filter_filter set_map set_filter)
    then show ?thesis
      using False by (simp add: thenA_def bindA_def split: prod.split sum.split)
  qed
  then show ?thesis using w1 by (intro exI [of _ ?w2]) auto
qed

text \<open>
  With live updates on, a change of clients of Hysteria2 inbounds restarts nothing: every inbound of the
  core keeps running with its configuration and no tracked connection is closed, whether the
  update succeeds or fails.
\<close>

lemma ApplyUserChanges_live:
  assumes "fst (liveSwitch e w) = Inr True"
    and "\<forall>i \<in> set ids. \<exists>x \<in> set (db_inbounds (w_db w)). i_id x = i \<and> i_type x = ''hysteria2''"
  shows "noRestart w (snd (ApplyUserChanges ids e w))"
proof (cases "co_running (w_core w) \<and> ids \<noteq> []")
  case False
  then show ?thesis using noRestart.R_refl by (auto simp: ApplyUserChanges_def isRunning_def)
next
  case True
  then obtain w2 where w2: "w_core w2 = w_core w"
    and eq: "ApplyUserChanges ids e w = (Inl sqlErr, w2) \<or> ApplyUserChanges ids e w = forA UpdateInboundUsers ids e w2"
    using ApplyUserChanges_hy2 [OF assms(1) _ _ assms(2)] by blast
  have "noRestart w w2" using w2 by (simp add: noRestart_def)
  moreover have "noRestart w2 (snd (forA UpdateInboundUsers ids e w2))"
    using noRestart.within_for [of UpdateInboundUsers ids, OF UpdateInboundUsers_noRestart] by (simp add: within_def)
  ultimately show ?thesis
    using eq noRestart.R_trans by auto
qed

theorem ApplyUserChanges_live_witness:
  "noRestart hy2World (snd (ApplyUserChanges [7] quietEnv hy2World))"
proof (rule ApplyUserChanges_live)
  show "fst (liveSwitch quietEnv hy2World) = Inr True"
    by (simp add: liveSwitch_def GetHy2LiveUpdate_def getBool_def bindA_def getString_default hy2World_def emptyDb_def settingOf_def
        defaultValueMap_def parseBool_def)
qed (simp add: hy2World_def hy2Row_def)

end
