(* ===== verification/StatsLaws.thy ===== *)
theory StatsLaws
  imports StatsService InboundLaws
begin

text \<open>
  What the collection of traffic guarantees: every byte the core counted for a user is billed to the
  client of that name exactly once, and what a failing database does to that; and that the charts
  keep every byte of the rows they summarise.
\<close>

section \<open>Billing\<close>

text \<open>The bytes the tracker has counted for a user since the last collection.\<close>

definition userCount :: "strack \<Rightarrow> string \<Rightarrow> counter" where
  "userCount t n = (case map_of (tr_users t) n of None \<Rightarrow> (0, 0) | Some a \<Rightarrow> tr_store t ! a)"

definition billOf :: "bool \<Rightarrow> string \<Rightarrow> stat list \<Rightarrow> int" where
  "billOf dir n ss = sum_list (map st_traffic (filter (\<lambda>s. st_tag s = n \<and> st_direction s = dir) (filter (\<lambda>s. st_resource s = ''user'') ss)))"

definition billed :: "(string \<Rightarrow> int \<times> int) \<Rightarrow> client \<Rightarrow> client" where
  "billed f c = c\<lparr>c_up := c_up c + fst (f (c_name c)), c_down := c_down c + snd (f (c_name c))\<rparr>"

lemma billOf_simps:
  "billOf dir n [] = 0"
  "billOf dir n (s # ss) = (if st_resource s = ''user'' \<and> st_tag s = n \<and> st_direction s = dir then st_traffic s else 0) + billOf dir n ss"
  by (simp_all add: billOf_def)

lemma fold_billRow: "fold billRow ss c = billed (\<lambda>n. (billOf True n ss, billOf False n ss)) c"
proof (induction ss arbitrary: c)
  case Nil
  show ?case by (simp add: billed_def billOf_simps)
next
  case (Cons s ss)
  have "billRow s c = billed (\<lambda>n. (billOf True n [s], billOf False n [s])) c"
    by (simp add: billRow_def billed_def billOf_simps)
  then show ?case
    by (simp add: Cons.IH) (simp add: billed_def billOf_simps)
qed

lemma billOf_users:
  assumes "distinct (map fst m)" "\<forall>a \<in> snd ` set m. fst (st ! a) \<ge> 0 \<and> snd (st ! a) \<ge> 0"
  shows "billOf dir n (concat (map (\<lambda>(u, a). statPair dt ''user'' u (st ! a)) m)) =
    (case map_of m n of None \<Rightarrow> 0 | Some a \<Rightarrow> (if dir then fst (st ! a) else snd (st ! a)))"
  using assms
proof (induction m)
  case Nil
  show ?case by (simp add: billOf_simps)
next
  case (Cons ua m)
  obtain u a where ua: "ua = (u, a)" by (cases ua)
  have app: "billOf dir n (xs @ ys) = billOf dir n xs + billOf dir n ys" for xs ys
    by (simp add: billOf_def)
  have one: "billOf dir n (statPair dt ''user'' u (st ! a)) = (if u = n then (if dir then fst (st ! a) else snd (st ! a)) else 0)"
    using Cons.prems(2) by (auto simp: ua statPair_def billOf_simps)
  have "map_of m u = None" using Cons.prems(1) by (simp add: ua map_of_eq_None_iff)
  then show ?case using Cons one by (auto simp: ua app)
qed

lemma billOf_filter: "billOf dir n (filter (\<lambda>s. st_resource s = ''user'') ss) = billOf dir n ss"
  by (simp add: billOf_def)

lemma collected_bill:
  assumes "wfTracker t" "trackerGetStats dt t = (ss, t')" "\<forall>a \<in> set (addrsOf t). fst (tr_store t ! a) \<ge> 0 \<and> snd (tr_store t ! a) \<ge> 0"
  shows "(billOf True n ss, billOf False n ss) = userCount t n"
proof -
  have "distinct (map fst (tr_users t))" "\<forall>a \<in> snd ` set (tr_users t). fst (tr_store t ! a) \<ge> 0 \<and> snd (tr_store t ! a) \<ge> 0"
    using assms(1,3) by (auto simp: wfTracker_def addrsOf_def)
  note bill = billOf_users [OF this]
  have "filter (\<lambda>s. st_resource s = ''user'') ss = concat (map (\<lambda>(u, a). statPair dt ''user'' u (tr_store t ! a)) (tr_users t))"
    using collect_all [OF assms(1,2)] by blast
  then have "billOf dir n ss = (case map_of (tr_users t) n of None \<Rightarrow> 0 | Some a \<Rightarrow> (if dir then fst (tr_store t ! a) else snd (tr_store t ! a)))" for dir
    using bill [of dir n dt] billOf_filter [of dir n ss] by simp
  then show ?thesis by (simp add: userCount_def split: option.split)
qed

text \<open>The loop of the transaction, with a database that works.\<close>

lemma forA_saveStat:
  assumes "\<forall>n. \<not> e_dbfail e n"
  shows "\<exists>w'. forA saveStat ss e w = (Inr (), w') \<and> w_core w' = w_core w \<and>
    w_db w' = (w_db w)\<lparr>db_clients := map (fold billRow ss) (db_clients (w_db w))\<rparr>"
proof (induction ss arbitrary: w)
  case Nil
  show ?case by (simp add: id_def)
next
  case (Cons s ss)
  have idle: "billRow s = id" if "st_resource s \<noteq> ''user''"
    using that by (simp add: fun_eq_iff billRow_def)
  have "\<exists>w1. saveStat s e w = (Inr (), w1) \<and> w_core w1 = w_core w \<and>
      w_db w1 = (w_db w)\<lparr>db_clients := map (billRow s) (db_clients (w_db w))\<rparr>"
    using assms idle by (cases "st_resource s = ''user''") (simp_all add: saveStat_def sqlx_def sqlu_def thenA_def bindA_def Let_def)
  then obtain w1 where w1: "saveStat s e w = (Inr (), w1)" "w_core w1 = w_core w"
    "w_db w1 = (w_db w)\<lparr>db_clients := map (billRow s) (db_clients (w_db w))\<rparr>" by blast
  obtain w' where w': "forA saveStat ss e w1 = (Inr (), w')" "w_core w' = w_core w1"
    "w_db w' = (w_db w1)\<lparr>db_clients := map (fold billRow ss) (db_clients (w_db w1))\<rparr>" using Cons.IH by blast
  have "forA saveStat (s # ss) e w = (Inr (), w')" using w1(1) w'(1) by (simp add: thenA_def)
  moreover have "w_db w' = (w_db w)\<lparr>db_clients := map (fold billRow (s # ss)) (db_clients (w_db w))\<rparr>"
    unfolding w'(3) w1(3) by (simp add: comp_def)
  ultimately show ?case using w1(2) w'(2) by auto
qed

lemma inTx_runs:
  assumes "\<forall>n. \<not> e_dbfail e n" "body e (w\<lparr>w_stmt := Suc (w_stmt w)\<rparr>) = (Inr x, w1)"
  shows "inTx body e w = (Inr x, w1\<lparr>w_stmt := Suc (w_stmt w1)\<rparr>)"
  using assms by (simp add: inTx_def beginTx_def commitOr_def Let_def)

text \<open>C40
  Every byte is billed once: a collection adds to each client exactly what the core counted for
  the user of its name since the last one, in both directions, and leaves every counter at zero,
  so the next collection does not bill it again.
\<close>

theorem SaveStats_bills_once:
  assumes "co_running (w_core w)" "co_instance (w_core w)" "\<forall>n. \<not> e_dbfail e n" "wfTracker (co_stats (w_core w))"
    and "\<forall>a \<in> set (addrsOf (co_stats (w_core w))). fst (tr_store (co_stats (w_core w)) ! a) \<ge> 0 \<and> snd (tr_store (co_stats (w_core w)) ! a) \<ge> 0"
    and "SaveStats en e w = (r, w')"
  shows "r = Inr () \<and> db_clients (w_db w') = map (billed (userCount (co_stats (w_core w)))) (db_clients (w_db w)) \<and>
    (\<forall>a \<in> set (addrsOf (co_stats (w_core w'))). tr_store (co_stats (w_core w')) ! a = (0, 0))"
proof -
  let ?t = "co_stats (w_core w)"
  obtain ss t' where s: "trackerGetStats (e_now e) ?t = (ss, t')" by fastforce
  have zero: "\<forall>a \<in> set (addrsOf t'). tr_store t' ! a = (0, 0)" using collect_all [OF assms(4) s] by simp
  have bill: "(\<lambda>n. (billOf True n ss, billOf False n ss)) = userCount ?t"
    using collected_bill [OF assms(4) s assms(5)] by blast
  obtain w1 where c: "collect e w = (Inr ss, w1)" "w_db w1 = w_db w" "co_stats (w_core w1) = t'"
    by (simp add: collect_def s)
  show ?thesis
  proof (cases "ss = []")
    case True
    then have "r = Inr ()" "w' = w1" using assms(1,2,6) c(1) by (simp_all add: SaveStats_def bindA_def)
    moreover have "billed (userCount ?t) = id"
      using True by (simp add: bill [symmetric] fun_eq_iff billed_def billOf_simps)
    ultimately show ?thesis using c zero by simp
  next
    case False
    let ?w2 = "w1\<lparr>w_stmt := Suc (w_stmt w1)\<rparr>"
    let ?fin = "if en then sqlx (\<lambda>d. d\<lparr>db_stats := db_stats d @ ss\<rparr>) else retA ()"
    obtain w3 where w3: "forA saveStat ss e ?w2 = (Inr (), w3)" "w_core w3 = w_core w1"
      "w_db w3 = (w_db w1)\<lparr>db_clients := map (fold billRow ss) (db_clients (w_db w1))\<rparr>"
      using forA_saveStat [OF assms(3), of ss ?w2] by auto
    have "\<exists>w4. ?fin e w3 = (Inr (), w4) \<and> w_core w4 = w_core w3 \<and> db_clients (w_db w4) = db_clients (w_db w3)"
      using assms(3) by (simp add: sqlx_def sqlu_def Let_def)
    then obtain w4 where w4: "?fin e w3 = (Inr (), w4)" "w_core w4 = w_core w3" "db_clients (w_db w4) = db_clients (w_db w3)" by blast
    have "thenA (forA saveStat ss) ?fin e ?w2 = (Inr (), w4)" using w3(1) w4(1) by simp
    then have "inTx (thenA (forA saveStat ss) ?fin) e w1 = (Inr (), w4\<lparr>w_stmt := Suc (w_stmt w4)\<rparr>)"
      by (rule inTx_runs [OF assms(3)])
    then have r: "r = Inr ()" "w' = w4\<lparr>w_stmt := Suc (w_stmt w4)\<rparr>"
      using assms(1,2,6) c(1) False by (simp_all add: SaveStats_def bindA_def)
    have "fold billRow ss = billed (userCount ?t)" by (simp add: fun_eq_iff fold_billRow bill)
    then show ?thesis using r w4 w3 c zero by simp
  qed
qed

definition countingWorld :: world where
  "countingWorld = (worldWith [ann, eve])\<lparr>w_core := stoppedCore\<lparr>co_running := True, co_instance := True, co_stats := busy_tracker\<rparr>\<rparr>"

lemma counting_simps:
  "co_running (w_core countingWorld)" "co_instance (w_core countingWorld)" "co_stats (w_core countingWorld) = busy_tracker"
  "db_clients (w_db countingWorld) = [ann, eve]" "wfTracker busy_tracker"
  "\<forall>a \<in> set (addrsOf busy_tracker). fst (tr_store busy_tracker ! a) \<ge> 0 \<and> snd (tr_store busy_tracker ! a) \<ge> 0"
  by (simp_all add: countingWorld_def stoppedCore_def wfTracker_def addrsOf_def busy_tracker_def)

theorem SaveStats_bills_once_witness:
  "\<exists>w'. SaveStats True quietEnv countingWorld = (Inr (), w') \<and> db_clients (w_db w') = [ann\<lparr>c_up := 10, c_down := 20\<rparr>, eve]"
proof -
  obtain r w' where r: "SaveStats True quietEnv countingWorld = (r, w')" by fastforce
  have d: "\<forall>n. \<not> e_dbfail quietEnv n" by simp
  have "r = Inr () \<and> db_clients (w_db w') = map (billed (userCount busy_tracker)) [ann, eve]"
    using SaveStats_bills_once [OF counting_simps(1,2) d _ _ r] counting_simps(3-6) by simp
  moreover have "map (billed (userCount busy_tracker)) [ann, eve] = [ann\<lparr>c_up := 10, c_down := 20\<rparr>, eve]"
    by (simp add: billed_def userCount_def busy_tracker_def ann_def eve_def zeroClient_def)
  ultimately show ?thesis using r by simp
qed

lemma keepCoreD: "within sameCore a \<Longrightarrow> w_core (snd (a e w)) = w_core w"
  by (simp add: within_def sameCore_def)

text \<open>
  A collection that fails is not repeated: the database is as before, but the counters of the core are
  zero already, so the traffic of the interval is never billed.
\<close>

lemma SaveStats_failure_loses:
  assumes "wfTracker (co_stats (w_core w))" "SaveStats en e w = (Inl (Err m), w')"
  shows "w_db w' = w_db w \<and> (\<forall>a \<in> set (addrsOf (co_stats (w_core w))). tr_store (co_stats (w_core w')) ! a = (0, 0))"
proof -
  obtain ss t' where s: "trackerGetStats (e_now e) (co_stats (w_core w)) = (ss, t')" by fastforce
  have zero: "\<forall>a \<in> set (addrsOf (co_stats (w_core w))). tr_store t' ! a = (0, 0)" using collect_all [OF assms(1) s] by simp
  obtain w1 where c: "collect e w = (Inr ss, w1)" "w_db w1 = w_db w" "co_stats (w_core w1) = t'"
    by (simp add: collect_def s)
  let ?body = "thenA (forA saveStat ss) (if en then sqlx (\<lambda>d. d\<lparr>db_stats := db_stats d @ ss\<rparr>) else retA ())"
  have run: "inTx ?body e w1 = (Inl (Err m), w')"
    using assms(2) c(1) by (auto simp: SaveStats_def bindA_def split: if_splits)
  have "within sameCore ?body"
    unfolding saveStat_def
    by (intro keepCore.within_rules within_sqlx) (simp add: within_def sameCore_def)
  then have "w_core w' = w_core w1"
    using keepCoreD [OF within_inTx, of ?body e w1] run by simp
  with inTx_Err [OF run] c zero show ?thesis by simp
qed

definition brokenEnv :: env where
  "brokenEnv = quietEnv\<lparr>e_dbfail := \<lambda>n. n > 0\<rparr>"

theorem SaveStats_failure_loses_witness:
  "\<exists>m w'. SaveStats True brokenEnv countingWorld = (Inl (Err m), w') \<and> w_db w' = w_db countingWorld \<and>
     tr_store (co_stats (w_core w')) ! 2 = (0, 0)"
proof -
  have "wfTracker (co_stats (w_core countingWorld))" using counting_simps by simp
  moreover have "\<exists>m w'. SaveStats True brokenEnv countingWorld = (Inl (Err m), w')"
  proof -
    obtain ss t' where s: "trackerGetStats 10000 busy_tracker = (ss, t')" by fastforce
    have ss: "ss = [\<lparr>st_datetime = 10000, st_resource = ''inbound'', st_tag = ''in'', st_direction = False, st_traffic = 20\<rparr>,
        \<lparr>st_datetime = 10000, st_resource = ''inbound'', st_tag = ''in'', st_direction = True, st_traffic = 10\<rparr>,
        \<lparr>st_datetime = 10000, st_resource = ''outbound'', st_tag = ''out'', st_direction = False, st_traffic = 20\<rparr>,
        \<lparr>st_datetime = 10000, st_resource = ''outbound'', st_tag = ''out'', st_direction = True, st_traffic = 10\<rparr>,
        \<lparr>st_datetime = 10000, st_resource = ''user'', st_tag = ''ann'', st_direction = False, st_traffic = 20\<rparr>,
        \<lparr>st_datetime = 10000, st_resource = ''user'', st_tag = ''ann'', st_direction = True, st_traffic = 10\<rparr>]"
      using s by (simp add: trackerGetStats_def busy_tracker_def statPair_def)
    have e: "e_now brokenEnv = 10000" "\<And>n. e_dbfail brokenEnv n = (n > 0)" "w_stmt countingWorld = 0"
      by (simp_all add: brokenEnv_def quietEnv_def countingWorld_def worldWith_def)
    show ?thesis
      by (simp add: SaveStats_def counting_simps(1-3) bindA_def collect_def e s) (simp add: ss inTx_def beginTx_def e thenA_def bindA_def saveStat_def sqlx_def sqlu_def sqlErr_def)
  qed
  ultimately show ?thesis
    using SaveStats_failure_loses [of countingWorld] by (fastforce simp: counting_simps(3) addrsOf_def busy_tracker_def)
qed

section \<open>Charts\<close>

lemma wrap64_add: "wrap64 (wrap64 a + b) = wrap64 (a + b)"
proof -
  have "((a + 2 ^ 63) mod 2 ^ 64 + b) mod (2 ^ 64 :: int) = (a + 2 ^ 63 + b) mod 2 ^ 64"
    by (rule mod_add_left_eq)
  moreover have "(a + 2 ^ 63) mod 2 ^ 64 - 2 ^ 63 + b + 2 ^ 63 = (a + 2 ^ 63) mod 2 ^ 64 + (b::int)" "a + b + 2 ^ 63 = a + 2 ^ 63 + (b::int)"
    by (simp_all only: algebra_simps)
  ultimately show ?thesis unfolding wrap64_def by metis
qed

lemma sum_update:
  "distinct (map fst m) \<Longrightarrow> sum_list (map (g \<circ> snd) (AList.update k v m)) =
     sum_list (map (g \<circ> snd) m) + g v - (case map_of m k of None \<Rightarrow> (0::int) | Some x \<Rightarrow> g x)"
proof (induction m)
  case (Cons ka m)
  then show ?case by (cases ka) (auto split: option.splits)
qed simp

text \<open>The bytes in all buckets.\<close>

definition upSum :: "(int \<times> int \<times> int) list \<Rightarrow> int" where
  "upSum m = sum_list (map (fst \<circ> snd) m)"

definition downSum :: "(int \<times> int \<times> int) list \<Rightarrow> int" where
  "downSum m = sum_list (map (snd \<circ> snd) m)"

definition bucketStep :: "int \<Rightarrow> int \<Rightarrow> int \<Rightarrow> stat \<Rightarrow> (int \<times> int \<times> int) list \<Rightarrow> (int \<times> int \<times> int) list" where
  "bucketStep startTime span buckets s m = (let b = bucketOf startTime span buckets s in
     AList.update b (addToBucket s (case map_of m b of None \<Rightarrow> (0, 0) | Some p \<Rightarrow> p)) m)"

lemma bucketStep_laws:
  assumes "distinct (map fst m)" "\<forall>b \<in> fst ` set m. 0 \<le> b \<and> b < n" "n > 0"
  shows "distinct (map fst (bucketStep t span n s m))" "\<forall>b \<in> fst ` set (bucketStep t span n s m). 0 \<le> b \<and> b < n"
    "wrap64 (upSum (bucketStep t span n s m)) = wrap64 (upSum m + (if st_direction s then st_traffic s else 0))"
    "wrap64 (downSum (bucketStep t span n s m)) = wrap64 (downSum m + (if st_direction s then 0 else st_traffic s))"
proof -
  let ?b = "bucketOf t span n s"
  have b: "0 \<le> ?b" "?b < n" using assms(3) by (auto simp: bucketOf_def Let_def)
  show "distinct (map fst (bucketStep t span n s m))"
    using assms(1) by (simp add: bucketStep_def Let_def distinct_update)
  show "\<forall>b \<in> fst ` set (bucketStep t span n s m). 0 \<le> b \<and> b < n"
    using assms(2) b by (auto simp: bucketStep_def Let_def dom_update)
  let ?p = "case map_of m ?b of None \<Rightarrow> (0, 0) | Some p \<Rightarrow> p"
  have w: "wrap64 (x + wrap64 (y + z) - y) = wrap64 (x + z)" for x y z
    using wrap64_add [of "y + z" "x - y"] by (simp add: algebra_simps)
  have f: "(case map_of m ?b of None \<Rightarrow> 0 | Some x \<Rightarrow> fst x) = fst ?p" "(case map_of m ?b of None \<Rightarrow> 0 | Some x \<Rightarrow> snd x) = snd ?p"
    by (simp_all split: option.split)
  show "wrap64 (upSum (bucketStep t span n s m)) = wrap64 (upSum m + (if st_direction s then st_traffic s else 0))"
    "wrap64 (downSum (bucketStep t span n s m)) = wrap64 (downSum m + (if st_direction s then 0 else st_traffic s))"
    unfolding upSum_def downSum_def bucketStep_def Let_def sum_update [OF assms(1)] f by (simp_all add: addToBucket_def w)
qed

text \<open>
  A chart keeps every byte: whatever rows are summarised, the buckets are those from 0 to the last
  one, each at most once, and the sums over the buckets are the sums over the rows, up and down, in
  the arithmetic of \<open>int64\<close>; rows before the start or after the end are counted in the outermost
  buckets instead of being dropped.
\<close>

lemma downsample_keeps_bytes:
  assumes "downsampleStats ss t0 t1 n = (m, t, span)" "n > 0"
  shows "distinct (map fst m) \<and> (\<forall>b \<in> fst ` set m. 0 \<le> b \<and> b < n) \<and> span \<noteq> 0 \<and>
    wrap64 (upSum m) = wrap64 (sum_list (map st_traffic (filter st_direction ss))) \<and>
    wrap64 (downSum m) = wrap64 (sum_list (map st_traffic (filter (\<lambda>s. \<not> st_direction s) ss)))"
proof -
  have m: "m = fold (bucketStep t0 span n) ss []"
    and "span = (if goDiv (wrap64 (t1 - t0)) n = 0 then 1 else goDiv (wrap64 (t1 - t0)) n)"
    using assms(1) by (auto simp: downsampleStats_def Let_def bucketStep_def [abs_def])
  then have span: "span \<noteq> 0" by (cases "goDiv (wrap64 (t1 - t0)) n = 0") simp_all
  have "distinct (map fst (fold (bucketStep t0 span n) ss m0)) \<and> (\<forall>b \<in> fst ` set (fold (bucketStep t0 span n) ss m0). 0 \<le> b \<and> b < n) \<and>
      wrap64 (upSum (fold (bucketStep t0 span n) ss m0)) =
        wrap64 (upSum m0 + sum_list (map st_traffic (filter st_direction ss))) \<and>
      wrap64 (downSum (fold (bucketStep t0 span n) ss m0)) =
        wrap64 (downSum m0 + sum_list (map st_traffic (filter (\<lambda>s. \<not> st_direction s) ss)))"
    if "distinct (map fst m0)" "\<forall>b \<in> fst ` set m0. 0 \<le> b \<and> b < n" for m0
    using that
  proof (induction ss arbitrary: m0)
    case (Cons s ss)
    note step = bucketStep_laws [OF Cons.prems assms(2), of t0 span s]
    have w: "wrap64 (a + c) = wrap64 (b + c)" if "wrap64 a = wrap64 b" for a b c
      using wrap64_add [of a c] wrap64_add [of b c] that by simp
    show ?case
      using Cons.IH [OF step(1,2)] w [OF step(3)] w [OF step(4)] by (simp add: algebra_simps)
  qed simp
  from this [of "[]"] m span show ?thesis by (simp add: upSum_def downSum_def)
qed

theorem downsample_keeps_bytes_witness:
  "\<exists>m t span. downsampleStats [\<lparr>st_datetime = 50, st_resource = ''user'', st_tag = ''ann'', st_direction = True, st_traffic = 7\<rparr>,
      \<lparr>st_datetime = 9000, st_resource = ''user'', st_tag = ''ann'', st_direction = True, st_traffic = 5\<rparr>] 100 4600 360 = (m, t, span) \<and>
     wrap64 (upSum m) = 12"
proof -
  let ?ss = "[\<lparr>st_datetime = 50, st_resource = ''user'', st_tag = ''ann'', st_direction = True, st_traffic = 7\<rparr>,
      \<lparr>st_datetime = 9000, st_resource = ''user'', st_tag = ''ann'', st_direction = True, st_traffic = 5\<rparr>]"
  obtain m t span where r: "downsampleStats ?ss 100 4600 360 = (m, t, span)" by (metis prod_cases3)
  have "wrap64 12 = 12" by (simp add: wrap64_def)
  with downsample_keeps_bytes [OF r] r show ?thesis by auto
qed

end
