(* ===== verification/Warp.thy ===== *)
theory Warp
  imports World GoBase64
begin

text \<open>
  \<open>service/warp.go\<close>: a WARP device registered with the Cloudflare client interface, and its
  licence.  The HTTP exchange, the key pair, the host name and the time stamp are parameters;
  what the panel sends and what it makes of the answers is modelled, with every type assertion
  that can panic.
\<close>

record warpenv =
  wp_http :: "string \<Rightarrow> string \<Rightarrow> (string \<times> string) list \<Rightarrow> string \<Rightarrow> (nat \<times> raw) res"
  wp_private :: string
  wp_public :: string
  wp_host :: string
  wp_tos :: string

section \<open>The reserved bytes of a client identifier\<close>

definition hex02 :: "nat \<Rightarrow> string" where
  "hex02 n = [hexDigit (n div 16), hexDigit (n mod 16)]"

text \<open>The text is read back two digits at a time; nil where one is not hexadecimal.\<close>

fun hexPairs :: "string \<Rightarrow> int list option" where
  "hexPairs [] = Some []"
| "hexPairs (a # b # s) = (case (unhex a, unhex b, hexPairs s) of
     (Some i, Some j, Some r) \<Rightarrow> Some (int (i * 16 + j) # r) | _ \<Rightarrow> None)"
| "hexPairs [a] = None"

definition getReserved :: "string \<Rightarrow> int list" where
  "getReserved clientID = (case b64decode clientID of None \<Rightarrow> []
     | Some bytes \<Rightarrow> (case hexPairs (concat (map (\<lambda>c. hex02 (of_char c)) bytes)) of None \<Rightarrow> [] | Some r \<Rightarrow> r))"

section \<open>Registration\<close>

definition regUrl :: string where
  "regUrl = ''https://api.cloudflareclient.com/v0a2158/reg''"

text \<open>A response with another status than 200 is an error.\<close>

definition getWarpInfo :: "warpenv \<Rightarrow> string \<Rightarrow> string \<Rightarrow> raw res" where
  "getWarpInfo v deviceId accessToken =
     bindR (wp_http v ''GET'' (regUrl @ ''/'' @ deviceId) [(''Authorization'', ''Bearer '' @ accessToken)] []) (\<lambda>(code, body).
       if code \<noteq> 200 then Inl (Err (''warp: unexpected status code '' @ itoa (int code))) else Inr body)"

definition regBody :: "warpenv \<Rightarrow> string" where
  "regBody v = [CHR ''{''] @ jquote ''key'' @ '':'' @ CHR 0x22 # wp_public v @ [CHR 0x22] @ '','' @ jquote ''tos'' @ '':'' @
     CHR 0x22 # wp_tos v @ [CHR 0x22] @ '','' @ jquote ''type'' @ '': '' @ jquote ''PC'' @ '','' @ jquote ''model'' @ '': '' @
     jquote ''s-ui'' @ '', '' @ jquote ''name'' @ '': '' @ CHR 0x22 # wp_host v @ [CHR 0x22] @ ''}''"

definition warpPeer :: "jv \<Rightarrow> obj res" where
  "warpPeer peers = bindR (must ''[]interface'' (asArr peers)) (\<lambda>ps.
     bindR (nthR ps 0) (\<lambda>p. Inr (objOr0 p)))"

definition warpPeers :: "obj \<Rightarrow> int list \<Rightarrow> jv res" where
  "warpPeers peer reserved = bindR (mustObj (oget peer ''endpoint'')) (\<lambda>en.
     case splitHostPort (strOr0 (oget en ''host'')) of
       None \<Rightarrow> Inl (Err ''address: missing port in address'')
     | Some (h, p) \<Rightarrow> Inr (JArr [JObj
         [(''address'', JStr h), (''port'', JInt (fst (atoi p))), (''public_key'', JStr (strOr0 (oget peer ''public_key''))),
          (''allowed_ips'', JStrs [''0.0.0.0/0'', ''::/0'']),
          (''reserved'', if reserved = [] then JNull else JArr (map JInt reserved))]]))"

text \<open>The endpoint as the answers fill it in.\<close>

definition fillWarp :: "warpenv \<Rightarrow> string \<Rightarrow> string \<Rightarrow> string \<Rightarrow> raw \<Rightarrow> endpoint \<Rightarrow> endpoint res" where
  "fillWarp v deviceId tok license info ep =
     bindR (unmarshalObj info) (\<lambda>details.
     let config = objOr0 (oget (nilObj details) ''config'');
         reserved = getReserved (strOr0 (oget config ''client_id''));
         addresses = objOr0 (oget (objOr0 (oget config ''interface'')) ''addresses'')
     in bindR (warpPeer (oget config ''peers'')) (\<lambda>peer.
        bindR (warpPeers peer reserved) (\<lambda>peers.
        bindR (marshal (JObj [(''access_token'', JStr tok), (''device_id'', JStr deviceId), (''license_key'', JStr license)])) (\<lambda>ext.
        bindR (unmarshalObj (p_options ep)) (\<lambda>opts0.
        bindR (writable opts0) (\<lambda>opts.
        bindR (marshal (JObj (oset ''peers'' peers (oset ''listen_port'' (JInt 0)
            (oset ''address'' (JStrs [strOr0 (oget addresses ''v4'') @ ''/32'', strOr0 (oget addresses ''v6'') @ ''/128''])
            (oset ''private_key'' (JStr (wp_private v)) opts)))))) (\<lambda>o'.
          Inr (ep\<lparr>p_ext := ext, p_options := o'\<rparr>))))))))"

definition RegisterWarp :: "warpenv \<Rightarrow> endpoint \<Rightarrow> endpoint res" where
  "RegisterWarp v ep =
     bindR (wp_http v ''POST'' regUrl [(''CF-Client-Version'', ''a-7.21-0721''), (''Content-Type'', ''application/json'')] (regBody v))
       (\<lambda>(code, body).
     if code \<noteq> 200 then Inl (Err (''warp: registration failed with status code '' @ itoa (int code)))
     else bindR (unmarshalObj body) (\<lambda>m. let rsp = nilObj m in
       bindR (mustStr (oget rsp ''id'')) (\<lambda>deviceId.
       bindR (mustStr (oget rsp ''token'')) (\<lambda>tok.
       bindR (mustObj (oget rsp ''account'')) (\<lambda>acc.
         case asStr (oget acc ''license'') of None \<Rightarrow> Inl (Err ''warp: error accessing license value'')
         | Some license \<Rightarrow> bindR (getWarpInfo v deviceId tok) (\<lambda>info. fillWarp v deviceId tok license info ep))))))"

text \<open>A licence that is the stored one needs no call.\<close>

definition SetWarpLicense :: "warpenv \<Rightarrow> string \<Rightarrow> endpoint \<Rightarrow> unit res" where
  "SetWarpLicense v oldLicense ep =
     bindR (unmarshalStrMap (p_ext ep)) (\<lambda>d.
     if lget d ''license_key'' = oldLicense then Inr ()
     else bindR (wp_http v ''PUT'' (regUrl @ ''/'' @ lget d ''device_id'' @ ''/account'')
            [(''Authorization'', ''Bearer '' @ lget d ''access_token'')]
            ([CHR ''{''] @ jquote ''license'' @ '': '' @ CHR 0x22 # lget d ''license_key'' @ [CHR 0x22] @ ''}''))
          (\<lambda>(code, body). bindR (unmarshalObj body) (\<lambda>m.
            if oget (nilObj m) ''success'' = JBool False
            then bindR (nthR (case asArr (oget (nilObj m) ''errors'') of None \<Rightarrow> [] | Some es \<Rightarrow> es) 0) (\<lambda>x.
              bindR (mustObj x) (\<lambda>obj. Inl (Err (jtext (oget obj ''code'') @ '' '' @ jtext (oget obj ''message'')))))
            else Inr ())))"

section \<open>The reserved bytes are the bytes of the identifier\<close>

lemma unhex_hexDigit: "n < 16 \<Longrightarrow> unhex (hexDigit n) = Some n"
  by (auto simp: unhex_def hexDigit_def Let_def)

lemma hexPairs_hex02: "hexPairs (concat (map (\<lambda>c. hex02 (of_char c)) s)) = Some (map (\<lambda>c. int (of_char c)) s)"
proof (induction s)
  case (Cons c s)
  have "(of_char c :: nat) < 256" by simp
  then show ?case using Cons.IH by (simp add: hex02_def unhex_hexDigit less_mult_imp_div_less)
qed simp

text \<open>
  The reserved bytes of a WARP peer, which the panel computes through a hexadecimal text, are exactly
  the bytes the client identifier encodes in base64.
\<close>

lemma getReserved_bytes: "getReserved (b64encode s) = map (\<lambda>c. int (of_char c)) s"
  unfolding getReserved_def base64.dec_enc option.case hexPairs_hex02 by (rule HOL.refl)

end
