(* ===== verification/OtherServices.thy ===== *)
theory OtherServices
  imports InboundService Warp
begin

text \<open>
  The remaining table services of \<open>service/\<close>: \<open>tls.go\<close>, \<open>outbounds.go\<close>, \<open>endpoints.go\<close> and
  \<open>services.go\<close>.  Each saves its rows and keeps the registry of the running core in step.
\<close>

section \<open>Steps the services share\<close>

text \<open>Replacing an object of the running core on \<open>edit\<close>, adding it on \<open>new\<close>.\<close>

definition putInCore :: "bool \<Rightarrow> raw res \<Rightarrow> string act \<Rightarrow> (string \<Rightarrow> unit act) \<Rightarrow> (raw \<Rightarrow> unit act) \<Rightarrow> unit act" where
  "putInCore edit conf oldTag remove add = bindA isRunning (\<lambda>running. if \<not> running then retA ()
     else bindA (liftR conf) (\<lambda>c.
       thenA (if edit then bindA oldTag (\<lambda>t. ignoreInvalid (remove t)) else retA ()) (add c)))"

definition dropFromCore :: "string \<Rightarrow> (string \<Rightarrow> unit act) \<Rightarrow> unit act" where
  "dropFromCore tag remove = bindA isRunning (\<lambda>running. if running then ignoreInvalid (remove tag) else retA ())"

text \<open>\<open>Select("tag").Find(&oldTag)\<close>: the empty tag where no row matches.\<close>

definition oneTag :: "(dbase \<Rightarrow> 'r list) \<Rightarrow> ('r \<Rightarrow> nat) \<Rightarrow> ('r \<Rightarrow> string) \<Rightarrow> nat \<Rightarrow> string act" where
  "oneTag table key tagOf i = bindA (rowsWhere table (\<lambda>r. key r = i)) (\<lambda>rs.
     retA (case rs of [] \<Rightarrow> [] | r # _ \<Rightarrow> tagOf r))"

section \<open>Outbounds\<close>

definition Outbound_GetAll :: "obj list act" where
  "Outbound_GetAll = bindA (rowsWhere db_outbounds (\<lambda>_. True)) (\<lambda>rs. liftR (mapR (\<lambda>x.
     addRest (o_options x) [(''id'', JInt (int (o_id x))), (''type'', JStr (o_type x)), (''tag'', JStr (o_tag x))]) rs))"

definition Outbound_GetAllConfig :: "raw list act" where
  "Outbound_GetAllConfig = bindA (rowsWhere db_outbounds (\<lambda>_. True)) (\<lambda>rs. liftR (mapR Outbound_MarshalJSON rs))"

definition OutboundService_Save :: "string \<Rightarrow> raw \<Rightarrow> unit act" where
  "OutboundService_Save act data =
     (if act = ''new'' \<or> act = ''edit'' then
        bindA (liftR (Outbound_UnmarshalJSON data)) (\<lambda>x.
        thenA (putInCore (act = ''edit'') (Outbound_MarshalJSON x) (oneTag db_outbounds o_id o_tag (o_id x)) RemoveOutbound AddOutbound)
        (bindA (saveOutbound x) (\<lambda>_. retA ())))
      else if act = ''del'' then
        bindA (liftR (unmarshalStr data)) (\<lambda>tag.
        thenA (dropFromCore tag RemoveOutbound)
        (sqlx (\<lambda>d. d\<lparr>db_outbounds := filter (\<lambda>x. o_tag x \<noteq> tag) (db_outbounds d)\<rparr>)))
      else failA (Err (''unknown action: '' @ act)))"

section \<open>Endpoints\<close>

definition Endpoint_GetAll :: "obj list act" where
  "Endpoint_GetAll = bindA (rowsWhere db_endpoints (\<lambda>_. True)) (\<lambda>rs. liftR (mapR (\<lambda>x.
     addRest (p_options x) [(''id'', JInt (int (p_id x))), (''type'', JStr (p_type x)), (''tag'', JStr (p_tag x)),
       (''ext'', JRaw (p_ext x))]) rs))"

definition Endpoint_GetAllConfig :: "raw list act" where
  "Endpoint_GetAllConfig = bindA (rowsWhere db_endpoints (\<lambda>_. True)) (\<lambda>rs. liftR (mapR Endpoint_MarshalJSON rs))"

text \<open>The licence of the stored row: the empty string where there is none.\<close>

definition oldLicense :: "nat \<Rightarrow> string act" where
  "oldLicense i = sqlq (\<lambda>d. case filter (\<lambda>p. p_id p = i) (db_endpoints d) of
       [] \<Rightarrow> Inr []
     | p # _ \<Rightarrow> bindR (jsonExtract (p_ext p) [''license_key'']) (\<lambda>v. case v of
         None \<Rightarrow> Inl (Err ''converting NULL to string is unsupported'') | Some x \<Rightarrow> Inr (sqlText x)))"

definition warpStep :: "warpenv \<Rightarrow> bool \<Rightarrow> endpoint \<Rightarrow> endpoint act" where
  "warpStep v edit x = (if p_type x \<noteq> ''warp'' then retA x
     else if \<not> edit then liftR (RegisterWarp v x)
     else bindA (oldLicense (p_id x)) (\<lambda>old. bindA (liftR (SetWarpLicense v old x)) (\<lambda>_. retA x)))"

definition EndpointService_Save :: "warpenv \<Rightarrow> string \<Rightarrow> raw \<Rightarrow> unit act" where
  "EndpointService_Save v act data =
     (if act = ''new'' \<or> act = ''edit'' then
        bindA (liftR (Endpoint_UnmarshalJSON data)) (\<lambda>x0.
        bindA (warpStep v (act = ''edit'') x0) (\<lambda>x.
        thenA (putInCore (act = ''edit'') (Endpoint_MarshalJSON x) (oneTag db_endpoints p_id p_tag (p_id x)) RemoveEndpoint AddEndpoint)
        (bindA (saveEndpoint x) (\<lambda>_. retA ()))))
      else if act = ''del'' then
        bindA (liftR (unmarshalStr data)) (\<lambda>tag.
        thenA (dropFromCore tag RemoveEndpoint)
        (sqlx (\<lambda>d. d\<lparr>db_endpoints := filter (\<lambda>x. p_tag x \<noteq> tag) (db_endpoints d)\<rparr>)))
      else failA (Err (''unknown action: '' @ act)))"

section \<open>Services\<close>

definition Service_GetAll :: "obj list act" where
  "Service_GetAll = bindA (rowsWhere db_services (\<lambda>_. True)) (\<lambda>rs. liftR (mapR (\<lambda>x.
     addRest (v_options x) [(''id'', JInt (int (v_id x))), (''type'', JStr (v_type x)), (''tag'', JStr (v_tag x)),
       (''tls_id'', JInt (int (v_tls_id x)))]) rs))"

definition Service_GetAllConfig :: "raw list act" where
  "Service_GetAllConfig = bindA (servicesWhere (\<lambda>_. True)) (\<lambda>rs. liftR (mapR Service_MarshalJSON rs))"

definition ServicesService_Save :: "string \<Rightarrow> raw \<Rightarrow> unit act" where
  "ServicesService_Save act data =
     (if act = ''new'' \<or> act = ''edit'' then
        bindA (liftR (Service_UnmarshalJSON data)) (\<lambda>x0.
        bindA (loadTls (v_tls_id x0)) (\<lambda>t. let x = x0\<lparr>v_tls := t\<rparr> in
        thenA (putInCore (act = ''edit'') (Service_MarshalJSON x) (oneTag db_services v_id v_tag (v_id x)) RemoveService AddService)
        (bindA (saveService x) (\<lambda>_. retA ()))))
      else if act = ''del'' then
        bindA (liftR (unmarshalStr data)) (\<lambda>tag.
        thenA (dropFromCore tag RemoveService)
        (sqlx (\<lambda>d. d\<lparr>db_services := filter (\<lambda>x. v_tag x \<noteq> tag) (db_services d)\<rparr>)))
      else failA (Err (''unknown action: '' @ act)))"

definition RestartServices :: "nat list \<Rightarrow> unit act" where
  "RestartServices ids = bindA isRunning (\<lambda>running. if \<not> running then retA ()
     else bindA (servicesWhere (\<lambda>v. v_id v \<in> set ids)) (forA (\<lambda>v.
       thenA (ignoreInvalid (RemoveService (v_tag v)))
       (bindA (liftR (Service_MarshalJSON v)) AddService))))"

section \<open>TLS settings\<close>

definition Tls_GetAll :: "tls list act" where
  "Tls_GetAll = rowsWhere db_tls (\<lambda>_. True)"

fun unmarshalTls :: "raw \<Rightarrow> tls res" where
  "unmarshalTls (RText JNull) = Inr zeroTls"
| "unmarshalTls (RText (JObj m)) = bindR (field m ''id'' asUintO 0) (\<lambda>i. bindR (field m ''name'' asStr []) (\<lambda>n.
     Inr \<lparr>t_id = i, t_name = n, t_server = rawField m ''server'', t_client = rawField m ''client''\<rparr>))"
| "unmarshalTls _ = jsonErr"

text \<open>\<open>NewError(text, err)\<close>; a panic unwinds.\<close>

definition wrapErr :: "string \<Rightarrow> 'a act \<Rightarrow> 'a act" where
  "wrapErr text a = (\<lambda>e w. case a e w of (Inl (Err m), w') \<Rightarrow> (Inl (Err (text @ '' '' @ m @ [CHR 0x0A])), w') | r \<Rightarrow> r)"

text \<open>An edited TLS row reaches everything that uses it: links, out_json, inbounds and services.\<close>

definition refreshTls :: "nat \<Rightarrow> string \<Rightarrow> unit act" where
  "refreshTls i hostname =
     bindA (inboundsWhere (\<lambda>b. i_tls_id b = i)) (\<lambda>is.
     thenA (if is = [] then retA ()
       else thenA (UpdateLinksByInboundChange is hostname [])
           (thenA (wrapErr ''unable to update out_json of inbounds: '' (UpdateOutJsons (map i_id is) hostname))
           (RestartInbounds (map i_id is))))
     (bindA (rowsWhere db_services (\<lambda>v. v_tls_id v = i)) (\<lambda>vs.
       if vs = [] then retA () else RestartServices (map v_id vs))))"

text \<open>An action that is none of the three succeeds without effect.\<close>

definition TlsService_Save :: "string \<Rightarrow> raw \<Rightarrow> string \<Rightarrow> unit act" where
  "TlsService_Save act data hostname =
     (if act = ''new'' \<or> act = ''edit'' then
        bindA (liftR (unmarshalTls data)) (\<lambda>t0.
        bindA (saveTls t0) (\<lambda>t. if act = ''edit'' then refreshTls (t_id t) hostname else retA ()))
      else if act = ''del'' then
        bindA (liftR (unmarshalUint data)) (\<lambda>i.
        bindA (rowsWhere db_inbounds (\<lambda>b. i_tls_id b = i)) (\<lambda>is.
        bindA (rowsWhere db_services (\<lambda>v. v_tls_id v = i)) (\<lambda>vs.
          if is \<noteq> [] \<or> vs \<noteq> [] then failA (Err (''tls in use'' @ [CHR 0x0A]))
          else sqlx (\<lambda>d. d\<lparr>db_tls := filter (\<lambda>t. t_id t \<noteq> i) (db_tls d)\<rparr>))))
      else retA ())"

end
