(* ===== verification/ConfigService.thy ===== *)
theory ConfigService
  imports OtherServices
begin

text \<open>
  \<open>service/config.go\<close>: the configuration the core runs, starting and restarting the core, and the
  two entry points that change the panel's state from the web: \<open>Save\<close> and \<open>BanClient\<close>.
\<close>

section \<open>The whole configuration\<close>

definition isList :: "obj \<Rightarrow> string \<Rightarrow> bool" where
  "isList m k \<longleftrightarrow> (case map_of m k of Some (JArr vs) \<Rightarrow> True | Some JNull \<Rightarrow> True | None \<Rightarrow> True | _ \<Rightarrow> False)"

text \<open>Unmarshalling \<open>SingBoxConfig\<close>: the four lists must be lists, though they are overwritten next.\<close>

fun unmarshalSections :: "raw \<Rightarrow> obj res" where
  "unmarshalSections (RText JNull) = Inr []"
| "unmarshalSections (RText (JObj m)) = (if \<forall>k \<in> set [''inbounds'', ''outbounds'', ''services'', ''endpoints'']. isList m k
     then Inr m else jsonErr)"
| "unmarshalSections _ = jsonErr"

definition rawList :: "raw list \<Rightarrow> jv" where
  "rawList rs = (if rs = [] then JNull else JArr (map JRaw rs))"

definition configDoc :: "obj \<Rightarrow> raw list \<Rightarrow> raw list \<Rightarrow> raw list \<Rightarrow> raw list \<Rightarrow> jv" where
  "configDoc m is os ss es = JObj
     [(''log'', JRaw (rawField m ''log'')), (''dns'', JRaw (rawField m ''dns'')), (''ntp'', JRaw (rawField m ''ntp'')),
      (''inbounds'', rawList is), (''outbounds'', rawList os), (''services'', rawList ss), (''endpoints'', rawList es),
      (''route'', JRaw (rawField m ''route'')), (''experimental'', JRaw (rawField m ''experimental''))]"

text \<open>\<open>RNil\<close> is the empty argument, for which the stored configuration is taken.\<close>

definition GetConfig :: "raw \<Rightarrow> raw act" where
  "GetConfig data =
     bindA (if data = RNil then bindA SettingGetConfig (\<lambda>s. retA (jparse s)) else retA data) (\<lambda>d.
     bindA (liftR (unmarshalSections d)) (\<lambda>m.
     bindA Inbound_GetAllConfig (\<lambda>is.
     bindA Outbound_GetAllConfig (\<lambda>os.
     bindA Service_GetAllConfig (\<lambda>ss.
     bindA Endpoint_GetAllConfig (\<lambda>es.
       liftR (marshal (configDoc m is os ss es))))))))"

section \<open>Starting and stopping\<close>

definition startCooldown :: int where
  "startCooldown = 15"

definition setInProgress :: "bool \<Rightarrow> world \<Rightarrow> world" where
  "setInProgress b w = w\<lparr>w_inProgress := b\<rparr>"

text \<open>The flag is set before the body runs, and a deferred function clears it however the body ends.\<close>

definition exclusively :: "unit act \<Rightarrow> unit act" where
  "exclusively a = (\<lambda>e w. case a e (setInProgress True w) of (r, w') \<Rightarrow> (r, setInProgress False w'))"

text \<open>A failed start is remembered with its time.\<close>

definition startNoting :: "raw \<Rightarrow> unit act" where
  "startNoting conf = (\<lambda>e w. case coreStart conf e w of
       (Inl (Err m), w') \<Rightarrow> (Inl (Err m), w'\<lparr>w_lastFail := Some (e_now e)\<rparr>) | r \<Rightarrow> r)"

definition inCooldown :: "env \<Rightarrow> world \<Rightarrow> bool" where
  "inCooldown e w \<longleftrightarrow> (case w_lastFail w of None \<Rightarrow> False | Some t \<Rightarrow> e_now e - t < startCooldown)"

definition StartCore :: "unit act" where
  "StartCore = (\<lambda>e w. if co_running (w_core w) \<or> w_inProgress w \<or> inCooldown e w then (Inr (), w)
     else exclusively (bindA (GetConfig RNil) startNoting) e w)"

definition StopCore :: "unit act" where
  "StopCore = coreStop"

definition RestartCore :: "unit act" where
  "RestartCore = thenA StopCore StartCore"

definition restartCoreWithConfig :: "raw \<Rightarrow> unit act" where
  "restartCoreWithConfig config = (\<lambda>e w. if w_inProgress w then (Inr (), w)
     else exclusively (thenA (bindA isRunning (\<lambda>r. if r then coreStop else retA ()))
       (bindA (GetConfig config) coreStart)) e w)"

record checkResult =
  cr_ok :: bool
  cr_delay :: nat
  cr_error :: string

text \<open>\<open>check\<close> is the URL test of the core (\<open>core/outbound_check.go\<close>).\<close>

definition CheckOutbound :: "(string \<Rightarrow> string \<Rightarrow> checkResult) \<Rightarrow> string \<Rightarrow> string \<Rightarrow> checkResult act" where
  "CheckOutbound check tag link =
     (if tag = [] then retA \<lparr>cr_ok = False, cr_delay = 0, cr_error = ''missing query parameter: tag''\<rparr>
      else bindA isRunning (\<lambda>running.
        if \<not> running then retA \<lparr>cr_ok = False, cr_delay = 0, cr_error = ''core not running''\<rparr>
        else retA (check tag link)))"

section \<open>Save\<close>

definition applyUsers :: "nat list \<Rightarrow> unit act" where
  "applyUsers ids = (\<lambda>e w. case ApplyUserChanges ids e w of
       (Inl (Err m), w') \<Rightarrow> (Inl (Err (''failed to update users for inbounds: '' @ m)), w') | r \<Rightarrow> r)"

definition startJob :: "raw \<Rightarrow> unit act" where
  "startJob config = modW (\<lambda>w. w\<lparr>w_jobs := w_jobs w @ [config]\<rparr>)"

text \<open>
  The switch of \<open>Save\<close>: the objects the page has to reload.  An unknown object is answered with an
  error while the variable \<open>err\<close> stays nil, so the transaction commits: the inner \<open>Inl\<close>.
\<close>

definition saveObject :: "warpenv \<Rightarrow> string \<Rightarrow> string \<Rightarrow> raw \<Rightarrow> string \<Rightarrow> string \<Rightarrow> string list res act" where
  "saveObject v obj act data initIds hostname =
     (if obj = ''clients'' then bindA (ClientService_Save act data hostname) (\<lambda>ids.
        if ids = [] then retA (Inr [obj]) else thenA (applyUsers ids) (retA (Inr [obj, ''inbounds''])))
      else if obj = ''tls'' then thenA (TlsService_Save act data hostname) (retA (Inr [obj, ''clients'', ''inbounds'']))
      else if obj = ''inbounds'' then thenA (InboundService_Save act data initIds hostname) (retA (Inr [obj, ''clients'']))
      else if obj = ''outbounds'' then thenA (OutboundService_Save act data) (retA (Inr [obj]))
      else if obj = ''services'' then thenA (ServicesService_Save act data) (retA (Inr [obj]))
      else if obj = ''endpoints'' then thenA (EndpointService_Save v act data) (retA (Inr [obj]))
      else if obj = ''config'' then thenA (SaveConfig data) (thenA (startJob data) (retA (Inr [obj])))
      else if obj = ''settings'' then thenA (SettingSave data) (retA (Inr [obj]))
      else retA (Inl (Err (''unknown object:  '' @ obj @ [CHR 0x0A]))))"

text \<open>The audit row and the time stamp the pages poll.\<close>

definition logChange :: "string \<Rightarrow> string \<Rightarrow> raw \<Rightarrow> string \<Rightarrow> unit act" where
  "logChange obj act data loginUser = bindA (askE e_now) (\<lambda>now.
     thenA (createChanges [\<lparr>ch_datetime = now, ch_actor = loginUser, ch_key = obj, ch_action = act, ch_obj = data\<rparr>])
       (setLastUpdate now))"

definition saveBody :: "warpenv \<Rightarrow> string \<Rightarrow> string \<Rightarrow> raw \<Rightarrow> string \<Rightarrow> string \<Rightarrow> string \<Rightarrow> string list res act" where
  "saveBody v obj act data initIds loginUser hostname =
     bindA (saveObject v obj act data initIds hostname) (\<lambda>r. case r of
         Inl x \<Rightarrow> retA (Inl x)
       | Inr objs \<Rightarrow> thenA (logChange obj act data loginUser) (retA (Inr objs)))"

definition flat :: "'a res res \<Rightarrow> 'a res" where
  "flat r = (case r of Inl x \<Rightarrow> Inl x | Inr y \<Rightarrow> y)"

text \<open>After a commit the core is started if it does not run; its error is dropped.\<close>

definition ConfigService_Save :: "warpenv \<Rightarrow> string \<Rightarrow> string \<Rightarrow> raw \<Rightarrow> string \<Rightarrow> string \<Rightarrow> string \<Rightarrow> string list act" where
  "ConfigService_Save v obj act data initIds loginUser hostname = (\<lambda>e w.
     case inTx (saveBody v obj act data initIds loginUser hostname) e w of
       (Inl (Err m), w1) \<Rightarrow> (Inl (Err m), w1)
     | (r, w1) \<Rightarrow> (if co_running (w_core w1) then (flat r, w1)
         else (case StartCore e w1 of (Inl (Panic p), w2) \<Rightarrow> (Inl (Panic p), w2) | (_, w2) \<Rightarrow> (flat r, w2))))"

section \<open>Banning\<close>

text \<open>The limits on the loaded row, in the arithmetic of \<open>int64\<close>.\<close>

definition withinLimits :: "int \<Rightarrow> client \<Rightarrow> bool" where
  "withinLimits now c \<longleftrightarrow> \<not> (c_volume c > 0 \<and> wrap64 (c_up c + c_down c) > c_volume c) \<and>
     \<not> (c_expiry c > 0 \<and> c_expiry c < now)"

definition banRow :: "int \<Rightarrow> bool \<Rightarrow> bool \<Rightarrow> client \<Rightarrow> client" where
  "banRow now banned enable c = c\<lparr>c_banned := banned, c_enable := enable, c_banned_at := (if banned then now else 0)\<rparr>"

definition banBody :: "nat \<Rightarrow> bool \<Rightarrow> string \<Rightarrow> (string \<times> nat list) act" where
  "banBody clientId banned loginUser =
     bindA (firstWhere db_clients (\<lambda>c. c_id c = clientId)) (\<lambda>c.
     bindA (liftR (unmarshalUints (c_inbounds c))) (\<lambda>ids.
     bindA (askE e_now) (\<lambda>now.
     thenA (updateClients (\<lambda>x. c_id x = clientId) (banRow now banned (\<not> banned \<and> withinLimits now c)))
     (thenA (createChanges [\<lparr>ch_datetime = now, ch_actor = loginUser, ch_key = ''clients'',
         ch_action = (if banned then ''ban'' else ''unban''), ch_obj = RText (JStr (c_name c))\<rparr>])
     (retA (c_name c, ids))))))"

text \<open>A transaction whose begin and commit errors are returned and which a panic rolls back.\<close>

definition strictTx :: "'a act \<Rightarrow> 'a act" where
  "strictTx body = (\<lambda>e w. let w0 = w\<lparr>w_stmt := Suc (w_stmt w)\<rparr> in
     if e_dbfail e (w_stmt w) then (Inl (Err ''failed to begin transaction''), w0)
     else (case body e w0 of
         (Inl x, w1) \<Rightarrow> (Inl x, w1\<lparr>w_db := w_db w\<rparr>)
       | (Inr r, w1) \<Rightarrow> let w2 = w1\<lparr>w_stmt := Suc (w_stmt w1)\<rparr> in
           if e_dbfail e (w_stmt w1) then (Inl (Err ''failed to commit ban''), w2\<lparr>w_db := w_db w\<rparr>) else (Inr r, w2)))"

text \<open>The running core is changed only after the commit, and a failure there is only logged.\<close>

definition BanClient :: "nat \<Rightarrow> bool \<Rightarrow> string \<Rightarrow> unit act" where
  "BanClient clientId banned loginUser =
     bindA (strictTx (banBody clientId banned loginUser)) (\<lambda>(name, ids).
     thenA (logErr (ApplyUserChanges ids)) (bindA (askE e_now) setLastUpdate))"

section \<open>Changes\<close>

definition CheckChanges :: "string \<Rightarrow> bool act" where
  "CheckChanges lu = (if lu = [] then retA True
     else case atoi lu of (n, ok) \<Rightarrow> if \<not> ok then failA (Err ''strconv.ParseInt'')
     else bindA (askW w_lastUpdate) (\<lambda>last.
       if last \<noteq> 0 then retA (last > n)
       else bindA (rowsWhere db_changes (\<lambda>c. ch_datetime c > n)) (\<lambda>cs.
         thenA (bindA (askE e_now) setLastUpdate) (retA (cs \<noteq> [])))))"

text \<open>Newest first; a negative limit is none.  An error is logged and nothing is returned.\<close>

definition limitRows :: "int \<Rightarrow> 'r list \<Rightarrow> 'r list" where
  "limitRows n rs = (if n < 0 then rs else take (nat n) rs)"

definition GetChanges :: "string \<Rightarrow> string \<Rightarrow> string \<Rightarrow> change list act" where
  "GetChanges actor key count = (\<lambda>e w.
     case rowsWhere db_changes (\<lambda>c. (actor = [] \<or> ch_actor c = actor) \<and> (key = [] \<or> ch_key c = key)) e w of
       (Inl x, w') \<Rightarrow> (Inr [], w') | (Inr rs, w') \<Rightarrow> (Inr (limitRows (fst (atoi count)) (rev rs)), w'))"

end
