(* ===== verification/ConfigLaws.thy ===== *)
theory ConfigLaws
  imports ConfigService InboundLaws
begin

text \<open>
  What the entry points of \<open>service/config.go\<close> guarantee: a failed save leaves no trace in the
  database, a successful one is audited, the core is started by one caller at a time and not
  within the cooldown of a failure, and a ban takes effect in the database before the core.
\<close>

section \<open>What only reads the database\<close>

lemmas keepDb_intros = keepDb.within_rules within_sqlq(2) within_rows(2,4) within_preload(2,4) within_core within_coreRun

lemma keepDb_onNotFound: "within sameDb a \<Longrightarrow> within sameDb n \<Longrightarrow> (\<And>x. within sameDb (s x)) \<Longrightarrow> within sameDb (onNotFound a n s)"
  unfolding within_def sameDb_def onNotFound_def
  by (clarsimp split: prod.split sum.split) (metis snd_conv)

lemma keepDb_option: "(x = None \<Longrightarrow> within sameDb a) \<Longrightarrow> (\<And>y. x = Some y \<Longrightarrow> within sameDb (f y)) \<Longrightarrow>
    within sameDb (case x of None \<Rightarrow> a | Some y \<Rightarrow> f y)"
  by (cases x) simp_all

lemma keepDb_getString: "within sameDb (getString k)"
  unfolding getString_def getSetting_def
  by (intro keepDb_onNotFound keepDb_intros keepDb_option)

lemma keepDb_fetchUsers: "within sameDb (fetchUsers ty cond ib)"
  unfolding fetchUsers_def Let_def by (intro keepDb_intros)

lemma keepDb_addUsers: "within sameDb (addUsers conf i ty)" "within sameDb (initUsers conf ids ty)"
  unfolding addUsers_def initUsers_def by (intro keepDb_intros keepDb_fetchUsers)+

lemma keepDb_GetConfig: "within sameDb (GetConfig data)"
  unfolding GetConfig_def SettingGetConfig_def Inbound_GetAllConfig_def Outbound_GetAllConfig_def
    Service_GetAllConfig_def Endpoint_GetAllConfig_def
  by (intro keepDb_intros keepDb_getString keepDb_addUsers)

lemma setInProgress_simps [simp]:
  "w_db (setInProgress b w) = w_db w" "w_core (setInProgress b w) = w_core w" "w_lastFail (setInProgress b w) = w_lastFail w"
  "w_inProgress (setInProgress b w) = b" "w_stmt (setInProgress b w) = w_stmt w"
  by (simp_all add: setInProgress_def)

lemma keepDbD: "within sameDb a \<Longrightarrow> w_db (snd (a e w)) = w_db w"
  by (simp add: within_def sameDb_def)

lemma keepDb_exclusively:
  assumes "within sameDb a"
  shows "within sameDb (exclusively a)"
proof -
  have "w_db (snd (exclusively a e w)) = w_db w" for e w
    using keepDbD [OF assms, of e "setInProgress True w"]
    by (cases "a e (setInProgress True w)") (simp add: exclusively_def)
  then show ?thesis by (simp add: within_def sameDb_def)
qed

lemma keepDb_startNoting: "within sameDb (startNoting conf)"
proof -
  have "w_db (snd (startNoting conf e w)) = w_db w" for e w
    using keepDbD [OF within_coreRun(1) [of conf], of e w]
    by (auto simp: startNoting_def split: prod.split sum.split goerr.split)
  then show ?thesis by (simp add: within_def sameDb_def)
qed

lemma keepDb_StartCore: "within sameDb StartCore"
proof -
  have "within sameDb (exclusively (bindA (GetConfig RNil) startNoting))"
    by (intro keepDb_exclusively keepDb_intros keepDb_GetConfig keepDb_startNoting)
  then show ?thesis
    by (simp add: within_def sameDb_def StartCore_def)
qed

lemma keepDb_restart: "within sameDb (restartCoreWithConfig config)"
proof -
  have "within sameDb (exclusively (thenA (bindA isRunning (\<lambda>r. if r then coreStop else retA ())) (bindA (GetConfig config) coreStart)))"
    by (intro keepDb_exclusively keepDb_intros keepDb_GetConfig)
  then show ?thesis
    by (simp add: within_def sameDb_def restartCoreWithConfig_def)
qed

section \<open>Starting the core\<close>

text \<open>The flag is clear after every attempt, whether it starts the core, fails or panics.\<close>

lemma exclusively_flag [simp]: "w_inProgress (snd (exclusively a e w)) = False"
  by (simp add: exclusively_def split: prod.split)

text \<open>C37
  Starting the core is rate limited and exclusive: after a start that sing-box refused, no attempt is made
  for the length of the cooldown (the state does not change at all), an attempt is never left marked as in
  progress, and while one is in progress every other attempt does nothing.
\<close>

theorem StartCore_cooldown:
  assumes "\<not> co_running (w_core w)" "\<not> w_inProgress w" "\<not> inCooldown e w"
    and "GetConfig RNil e (setInProgress True w) = (Inr conf, w0)" "\<not> e_start e (e_decode e conf)"
    and "StartCore e w = (r, w1)" "e_now e' - e_now e < startCooldown"
  shows "r \<noteq> Inr () \<and> \<not> w_inProgress w1 \<and> StartCore e' w1 = (Inr (), w1) \<and>
    StartCore e' (w\<lparr>w_inProgress := True\<rparr>) = (Inr (), w\<lparr>w_inProgress := True\<rparr>)"
proof -
  let ?a = "bindA (GetConfig RNil) startNoting"
  obtain m w' where a: "?a e (setInProgress True w) = (Inl (Err m), w')" and w': "w_lastFail w' = Some (e_now e)"
    using assms(4,5) by (simp add: startNoting_def coreStart_def Let_def)
  have "StartCore e w = (Inl (Err m), setInProgress False w')"
    using assms(1-3) by (simp add: StartCore_def exclusively_def a)
  with assms(6) have r: "r = Inl (Err m)" "w1 = setInProgress False w'" by simp_all
  have "inCooldown e' w1" using assms(7) w' r by (simp add: inCooldown_def)
  then show ?thesis using r by (simp add: StartCore_def)
qed

definition refusingEnv :: env where
  "refusingEnv = quietEnv\<lparr>e_start := \<lambda>_. False\<rparr>"

definition idleWorld :: world where
  "idleWorld = (worldWith [])\<lparr>w_db := emptyDb\<lparr>db_settings := [\<lparr>s_key = ''config'', s_value = ''{}''\<rparr>]\<rparr>\<rparr>"

lemma idle_simps:
  "w_core idleWorld = stoppedCore" "\<not> w_inProgress idleWorld" "w_lastFail idleWorld = None" "\<not> co_running stoppedCore"
  "w_db idleWorld = emptyDb\<lparr>db_settings := [\<lparr>s_key = ''config'', s_value = ''{}''\<rparr>]\<rparr>"
  "db_inbounds emptyDb = []" "db_outbounds emptyDb = []" "db_services emptyDb = []" "db_endpoints emptyDb = []"
  by (simp_all add: idleWorld_def worldWith_def stoppedCore_def emptyDb_def)

lemma idle_config: "jparse ''{}'' = RText (JObj [])"
  by code_simp

lemma idle_GetConfig: "\<exists>conf w0. GetConfig RNil refusingEnv (setInProgress True idleWorld) = (Inr conf, w0)"
proof -
  have e: "\<not> e_dbfail refusingEnv n" for n by (simp add: refusingEnv_def)
  have s: "getString ''config'' refusingEnv (setInProgress True idleWorld) =
      (Inr ''{}'', (setInProgress True idleWorld)\<lparr>w_stmt := Suc (w_stmt (setInProgress True idleWorld))\<rparr>)"
    by (rule getString_found [OF e]) (simp add: idle_simps settingOf_def)
  show ?thesis
    by (simp add: GetConfig_def SettingGetConfig_def bindA_def s idle_config Inbound_GetAllConfig_def Outbound_GetAllConfig_def
        Service_GetAllConfig_def Endpoint_GetAllConfig_def inboundsWhere_def servicesWhere_def rowsWhere_def sqlq_def e Let_def
        idle_simps isList_def configDoc_def rawField_def rawList_def marshal_def)
qed

theorem StartCore_cooldown_witness:
  "\<exists>r w1. StartCore refusingEnv idleWorld = (r, w1) \<and> r \<noteq> Inr () \<and> StartCore (refusingEnv\<lparr>e_now := 10014\<rparr>) w1 = (Inr (), w1)"
proof -
  obtain conf w0 where g: "GetConfig RNil refusingEnv (setInProgress True idleWorld) = (Inr conf, w0)" using idle_GetConfig by blast
  obtain r w1 where r: "StartCore refusingEnv idleWorld = (r, w1)" by fastforce
  have w: "\<not> co_running (w_core idleWorld)" "\<not> w_inProgress idleWorld" "\<not> inCooldown refusingEnv idleWorld"
    by (simp_all add: idle_simps inCooldown_def)
  have e: "\<not> e_start refusingEnv (e_decode refusingEnv conf)"
    "e_now (refusingEnv\<lparr>e_now := 10014\<rparr>) - e_now refusingEnv < startCooldown"
    by (simp_all add: refusingEnv_def startCooldown_def quietEnv_def)
  show ?thesis
    using StartCore_cooldown [OF w g e(1) r e(2)] r by blast
qed

section \<open>Saving\<close>

lemma bindA_Inr_E:
  assumes "bindA a f e w = (Inr y, w')"
  obtains x w1 where "a e w = (Inr x, w1)" "f x e w1 = (Inr y, w')"
  using assms by (auto simp: bindA_Inr)

text \<open>Only an unknown object gives an error that is not in \<open>err\<close>, and it has not touched anything.\<close>

lemma saveObject_inner: "saveObject v obj act data initIds hostname e w = (Inr (Inl x), w') \<Longrightarrow> w' = w"
  unfolding saveObject_def thenA_def
  by (auto simp: bindA_Inr split: if_splits)

lemma saveBody_inner: "saveBody v obj act data initIds loginUser hostname e w = (Inr (Inl x), w') \<Longrightarrow> w' = w"
  unfolding saveBody_def
proof (elim bindA_Inr_E)
  fix r w1
  assume o: "saveObject v obj act data initIds hostname e w = (Inr r, w1)"
    and k: "(case r of Inl x \<Rightarrow> retA (Inl x) | Inr objs \<Rightarrow> thenA (logChange obj act data loginUser) (retA (Inr objs))) e w1 = (Inr (Inl x), w')"
  show "w' = w"
  proof (cases r)
    case (Inl y)
    with k o saveObject_inner show ?thesis by simp
  next
    case (Inr objs)
    with k show ?thesis by (auto simp: thenA_def bindA_Inr)
  qed
qed

lemma commitOr_db: "w_db (commitOr e d w) = w_db w \<or> w_db (commitOr e d w) = d"
  by (simp add: commitOr_def Let_def)

lemma inTx_result:
  assumes "inTx body e w = (r, w1)" "\<And>m. r \<noteq> Inl (Err m)"
  obtains e' w0 w2 where "body e' w0 = (r, w2)" "w_db w0 = w_db w" "w1 = commitOr e' (w_db w) w2"
proof -
  obtain e' w0 where b: "beginTx e w = (e', w0)" by fastforce
  obtain q w2 where q: "body e' w0 = (q, w2)" by fastforce
  have "q = r" "w1 = commitOr e' (w_db w) w2"
    using assms by (auto simp: inTx_def b q split: sum.splits goerr.splits)
  moreover have "w_db w0 = w_db w" using b by (auto simp: beginTx_def split: if_splits)
  ultimately show thesis using q that by blast
qed

text \<open>C18
  A save that is answered with an error leaves no trace in the database: whatever object and action it names,
  whichever statement, decoder or core operation refuses, every table is as it was before.
\<close>

theorem Save_error_keeps_db:
  assumes "ConfigService_Save v obj act data initIds loginUser hostname e w = (Inl (Err m), w')"
  shows "w_db w' = w_db w"
proof -
  let ?body = "saveBody v obj act data initIds loginUser hostname"
  obtain r w1 where t: "inTx ?body e w = (r, w1)" by fastforce
  show ?thesis
  proof (cases "\<exists>m. r = Inl (Err m)")
    case True
    then show ?thesis using assms t inTx_Err by (fastforce simp: ConfigService_Save_def)
  next
    case False
    have "w_db (snd (StartCore e w1)) = w_db w1" by (rule keepDbD [OF keepDb_StartCore])
    with assms False have "flat r = Inl (Err m)" "w_db w' = w_db w1"
      by (auto simp: ConfigService_Save_def t split: sum.splits goerr.splits if_splits prod.splits)
    then have r: "r = Inr (Inl (Err m))"
      using False by (auto simp: flat_def split: sum.splits)
    from False obtain e' w0 w2 where b: "?body e' w0 = (r, w2)" "w_db w0 = w_db w" "w1 = commitOr e' (w_db w) w2"
      by (blast intro: inTx_result [OF t])
    then have "w_db w2 = w_db w" using saveBody_inner r by blast
    with b(3) commitOr_db [of e' "w_db w" w2] \<open>w_db w' = w_db w1\<close> show ?thesis by auto
  qed
qed

definition noWarp :: warpenv where
  "noWarp = \<lparr>wp_http = (\<lambda>_ _ _ _. Inl (Err ''no network'')), wp_private = [], wp_public = [], wp_host = [], wp_tos = []\<rparr>"

theorem Save_error_keeps_db_witness:
  "\<exists>m w'. ConfigService_Save noWarp ''clients'' ''paint'' (RText JNull) [] ''admin'' ''host'' quietEnv idleWorld = (Inl (Err m), w') \<and>
     w_db w' = w_db idleWorld"
proof -
  have "\<exists>m w'. ConfigService_Save noWarp ''clients'' ''paint'' (RText JNull) [] ''admin'' ''host'' quietEnv idleWorld = (Inl (Err m), w')"
    by (simp add: ConfigService_Save_def inTx_def beginTx_def saveBody_def saveObject_def ClientService_Save_def bindA_def)
  then show ?thesis using Save_error_keeps_db by blast
qed

lemma bindA_case_E:
  assumes "bindA a f e w = (r, w')"
  obtains (stop) x where "a e w = (Inl x, w')" "r = Inl x" | (go) y w1 where "a e w = (Inr y, w1)" "f y e w1 = (r, w')"
  using assms by (cases "a e w"; cases "fst (a e w)") (auto simp: bindA_def)

lemma thenA_case_E:
  assumes "thenA a b e w = (r, w')"
  obtains (stop) x where "a e w = (Inl x, w')" "r = Inl x" | (go) y w1 where "a e w = (Inr y, w1)" "b e w1 = (r, w')"
  using assms bindA_case_E [of a "\<lambda>_. b"] by (metis thenA_def)

text \<open>
  Every successful save is audited: the last row of the change log names the time, the operator, the
  object, the action and the submitted data, in the same transaction as the change.
\<close>

lemma Save_audited:
  assumes "ConfigService_Save v obj act data initIds loginUser hostname e w = (Inr objs, w')" "\<forall>n. \<not> e_dbfail e n"
  shows "hd objs = obj \<and> (\<exists>log. db_changes (w_db w') = log @
    [\<lparr>ch_datetime = e_now e, ch_actor = loginUser, ch_key = obj, ch_action = act, ch_obj = data\<rparr>])"
proof -
  let ?body = "saveBody v obj act data initIds loginUser hostname"
  let ?w0 = "w\<lparr>w_stmt := Suc (w_stmt w)\<rparr>"
  obtain r w1 where t: "inTx ?body e w = (r, w1)" by fastforce
  have "w_db (snd (StartCore e w1)) = w_db w1" by (rule keepDbD [OF keepDb_StartCore])
  with assms(1) have r: "r = Inr (Inr objs)" and db: "w_db w' = w_db w1"
    by (auto simp: ConfigService_Save_def t flat_def split: sum.splits goerr.splits if_splits prod.splits)
  obtain w2 where b: "?body e ?w0 = (Inr (Inr objs), w2)" and w1: "w_db w1 = w_db w2"
    using t assms(2) r by (auto simp: inTx_def beginTx_def commitOr_def Let_def split: sum.splits goerr.splits prod.splits)
  then obtain q w3 where o: "saveObject v obj act data initIds hostname e ?w0 = (Inr q, w3)"
    and k: "(case q of Inl x \<Rightarrow> retA (Inl x) | Inr objs \<Rightarrow> thenA (logChange obj act data loginUser) (retA (Inr objs))) e w3 = (Inr (Inr objs), w2)"
    unfolding saveBody_def by (elim bindA_Inr_E)
  from k have q: "q = Inr objs" and log: "\<exists>log. db_changes (w_db w2) = log @
      [\<lparr>ch_datetime = e_now e, ch_actor = loginUser, ch_key = obj, ch_action = act, ch_obj = data\<rparr>]"
    by (auto simp: logChange_def createChanges_def setLastUpdate_def run_iffs thenA_def bindA_Inr sqlx_def sqlu_def Let_def
        split: sum.splits if_splits)
  have "hd objs = obj"
    using o q unfolding saveObject_def thenA_def by (auto simp: bindA_Inr split: if_splits)
  with log db w1 show ?thesis by simp
qed

definition busyWorld :: world where
  "busyWorld = idleWorld\<lparr>w_core := stoppedCore\<lparr>co_running := True\<rparr>\<rparr>"

lemma busy_delete:
  "\<exists>w'. ConfigService_Save noWarp ''outbounds'' ''del'' (RText (JStr ''old'')) [] ''admin'' ''host'' quietEnv busyWorld = (Inr [''outbounds''], w')"
proof -
  have "OutboundService_Save ''del'' (RText (JStr ''old'')) quietEnv w =
      (Inr (), w\<lparr>w_stmt := Suc (w_stmt w), w_db := (w_db w)\<lparr>db_outbounds := filter (\<lambda>x. o_tag x \<noteq> ''old'') (db_outbounds (w_db w))\<rparr>\<rparr>)"
    if "w_core w = stoppedCore\<lparr>co_running := True\<rparr>" for w
    using that
    by (simp add: OutboundService_Save_def unmarshalStr_def dropFromCore_def isRunning_def ignoreInvalid_def RemoveOutbound_def
        removeFrom_def errInvalid_def stoppedCore_def thenA_def bindA_def sqlx_def sqlu_def quietEnv_ok Let_def)
  then show ?thesis
    by (simp add: ConfigService_Save_def inTx_def beginTx_def saveBody_def saveObject_def thenA_def bindA_def busyWorld_def quietEnv_ok
        logChange_def createChanges_def setLastUpdate_def sqlx_def sqlu_def flat_def Let_def)
qed

theorem Save_audited_witness:
  "\<exists>log w'. ConfigService_Save noWarp ''outbounds'' ''del'' (RText (JStr ''old'')) [] ''admin'' ''host'' quietEnv busyWorld = (Inr [''outbounds''], w') \<and>
     db_changes (w_db w') = log @ [\<lparr>ch_datetime = 10000, ch_actor = ''admin'', ch_key = ''outbounds'', ch_action = ''del'',
       ch_obj = RText (JStr ''old'')\<rparr>]"
proof -
  obtain w' where r: "ConfigService_Save noWarp ''outbounds'' ''del'' (RText (JStr ''old'')) [] ''admin'' ''host'' quietEnv busyWorld = (Inr [''outbounds''], w')"
    using busy_delete by blast
  have "\<forall>n. \<not> e_dbfail quietEnv n" by simp
  from Save_audited [OF r this] r show ?thesis by simp
qed

section \<open>Banning\<close>

lemma liveSwitch_keepDb: "within sameDb liveSwitch"
  using liveSwitch_same by (simp add: within_def sameDb_def)

lemma ApplyUserChanges_keepDb: "within sameDb (ApplyUserChanges ids)"
  unfolding ApplyUserChanges_def UpdateInboundUsers_def scanTag_def hy2Users_def RestartInbounds_def restartOne_def Let_def
  by (intro keepDb_intros liveSwitch_keepDb keepDb_addUsers)

lemma setLastUpdate_keepDb: "within sameDb (setLastUpdate t)"
  by (simp add: within_def sameDb_def setLastUpdate_def)

text \<open>The body of the ban, run to its end.\<close>

lemma banBody_run:
  assumes "banBody i b u e w = (Inr (nm, ids), w')"
  obtains c where "c \<in> set (db_clients (w_db w))" "c_id c = i" "nm = c_name c" "unmarshalUints (c_inbounds c) = Inr ids"
    "w_db w' = (w_db w)\<lparr>db_clients := map (\<lambda>x. if c_id x = i then banRow (e_now e) b (\<not> b \<and> withinLimits (e_now e) c) x else x) (db_clients (w_db w)),
       db_changes := db_changes (w_db w) @ [\<lparr>ch_datetime = e_now e, ch_actor = u, ch_key = ''clients'',
         ch_action = (if b then ''ban'' else ''unban''), ch_obj = RText (JStr (c_name c))\<rparr>]\<rparr>"
proof -
  obtain c w1 where c: "firstWhere db_clients (\<lambda>c. c_id c = i) e w = (Inr c, w1)"
    and k: "bindA (liftR (unmarshalUints (c_inbounds c))) (\<lambda>ids. bindA (askE e_now) (\<lambda>now.
       thenA (updateClients (\<lambda>x. c_id x = i) (banRow now b (\<not> b \<and> withinLimits now c)))
       (thenA (createChanges [\<lparr>ch_datetime = now, ch_actor = u, ch_key = ''clients'',
         ch_action = (if b then ''ban'' else ''unban''), ch_obj = RText (JStr (c_name c))\<rparr>]) (retA (c_name c, ids))))) e w1 = (Inr (nm, ids), w')"
    using assms [unfolded banBody_def] by (rule bindA_Inr_E)
  have w1: "c \<in> set (db_clients (w_db w))" "c_id c = i" "w_db w1 = w_db w"
    using firstWhere_Inr [OF c] by simp_all
  from k have "unmarshalUints (c_inbounds c) = Inr ids" "nm = c_name c"
    "w_db w' = (w_db w1)\<lparr>db_clients := map (\<lambda>x. if c_id x = i then banRow (e_now e) b (\<not> b \<and> withinLimits (e_now e) c) x else x) (db_clients (w_db w1)),
       db_changes := db_changes (w_db w1) @ [\<lparr>ch_datetime = e_now e, ch_actor = u, ch_key = ''clients'',
         ch_action = (if b then ''ban'' else ''unban''), ch_obj = RText (JStr (c_name c))\<rparr>]\<rparr>"
    by (auto simp: bindA_Inr [of "liftR r" for r] updateClients_def createChanges_def run_sqlx)
  with w1 show thesis by (intro that [of c]) simp_all
qed

lemma strictTx_cases:
  assumes "strictTx body e w = (r, w')"
  obtains (failed) "w_db w' = w_db w" "\<And>x. r \<noteq> Inr x"
    | (ran) x w0 w1 where "r = Inr x" "w_db w0 = w_db w" "w_core w0 = w_core w" "body e w0 = (Inr x, w1)" "w_db w' = w_db w1" "w_core w' = w_core w1"
proof -
  let ?w0 = "w\<lparr>w_stmt := Suc (w_stmt w)\<rparr>"
  obtain q w1 where q: "body e ?w0 = (q, w1)" by fastforce
  consider "e_dbfail e (w_stmt w)" | x where "\<not> e_dbfail e (w_stmt w)" "q = Inl x"
    | x where "\<not> e_dbfail e (w_stmt w)" "q = Inr x" by (cases q) auto
  then show thesis
  proof cases
    case 3
    have "w_db ?w0 = w_db w" "w_core ?w0 = w_core w" by simp_all
    with assms 3 q failed ran [of x ?w0 w1] show thesis by (auto simp: strictTx_def Let_def split: if_splits)
  qed (use assms q failed in \<open>auto simp: strictTx_def Let_def\<close>)
qed

text \<open>Whatever the live part does, the database is what the transaction made it.\<close>

lemma BanClient_cases:
  assumes "BanClient i b u e w = (r, w')"
  obtains (failed) x where "w_db w' = w_db w" "r = Inl x"
    | (banned) c where "c \<in> set (db_clients (w_db w))" "c_id c = i"
      "w_db w' = (w_db w)\<lparr>db_clients := map (\<lambda>x. if c_id x = i then banRow (e_now e) b (\<not> b \<and> withinLimits (e_now e) c) x else x) (db_clients (w_db w)),
       db_changes := db_changes (w_db w) @ [\<lparr>ch_datetime = e_now e, ch_actor = u, ch_key = ''clients'',
         ch_action = (if b then ''ban'' else ''unban''), ch_obj = RText (JStr (c_name c))\<rparr>]\<rparr>"
      "\<And>m. r \<noteq> Inl (Err m)"
proof -
  let ?live = "\<lambda>ids. thenA (logErr (ApplyUserChanges ids)) (bindA (askE e_now) setLastUpdate)"
  have live: "within sameDb (?live ids)" for ids
    by (intro keepDb_intros ApplyUserChanges_keepDb setLastUpdate_keepDb)
  from assms show thesis
    unfolding BanClient_def
  proof (cases rule: bindA_case_E)
    case (stop x)
    from stop(1) show thesis
      using stop(2) failed by (cases rule: strictTx_cases) auto
  next
    case (go y w1)
    obtain nm ids where y: "y = (nm, ids)" by fastforce
    have run: "?live ids e w1 = (r, w')" using go(2) y by simp
    then have db: "w_db w' = w_db w1" using keepDbD [OF live [of ids], of e w1] by simp
    have noerr: "r \<noteq> Inl (Err m)" for m
      using run by (auto simp: thenA_def bindA_def logErr_def setLastUpdate_def split: prod.splits sum.splits goerr.splits)
    from go(1) show thesis
    proof (cases rule: strictTx_cases)
      case (ran x w0 w2)
      then have "banBody i b u e w0 = (Inr (nm, ids), w2)" using y by simp
      then show thesis
        by (rule banBody_run) (use ran db noerr banned in auto)
    qed (use y in auto)
  qed
qed

text \<open>C36
  Banning is atomic: a ban or an unban either fails without touching the database, or sets, in one
  transaction with its audit row, exactly the ban, the switch and the time of the named client and
  leaves every other client alone; the running core cannot make it fail once it is committed.
\<close>

theorem BanClient_atomic:
  assumes "BanClient i b u e w = (r, w')"
  shows "(\<exists>x. r = Inl x \<and> w_db w' = w_db w) \<or>
    ((\<forall>m. r \<noteq> Inl (Err m)) \<and> (\<exists>c \<in> set (db_clients (w_db w)). c_id c = i \<and>
      db_clients (w_db w') = map (\<lambda>x. if c_id x = i then banRow (e_now e) b (\<not> b \<and> withinLimits (e_now e) c) x else x) (db_clients (w_db w)) \<and>
      db_changes (w_db w') = db_changes (w_db w) @ [\<lparr>ch_datetime = e_now e, ch_actor = u, ch_key = ''clients'',
        ch_action = (if b then ''ban'' else ''unban''), ch_obj = RText (JStr (c_name c))\<rparr>]))"
  using assms
proof (cases rule: BanClient_cases)
  case (banned c)
  then show ?thesis by (intro disjI2 conjI bexI [of _ c]) auto
qed auto

lemma run_ban:
  "\<exists>w'. BanClient 1 b ''admin'' quietEnv (worldWith [ann\<lparr>c_inbounds := RText (JArr [])\<rparr>]) = (Inr (), w')"
  by (simp add: BanClient_def strictTx_def banBody_def firstWhere_def sqlq_def sqlu_def sqlx_def updateClients_def createChanges_def
      bindA_def thenA_def worldWith_def ann_simps quietEnv_ok unmarshalUints_def emptyDb_def logErr_def ApplyUserChanges_def isRunning_def
      stoppedCore_def setLastUpdate_def Let_def)

theorem BanClient_atomic_witness:
  "\<exists>w'. BanClient 1 True ''admin'' quietEnv (worldWith [ann\<lparr>c_inbounds := RText (JArr [])\<rparr>]) = (Inr (), w') \<and>
     db_clients (w_db w') = [banRow 10000 True False (ann\<lparr>c_inbounds := RText (JArr [])\<rparr>)]"
proof -
  let ?w = "worldWith [ann\<lparr>c_inbounds := RText (JArr [])\<rparr>]"
  obtain w' where r: "BanClient 1 True ''admin'' quietEnv ?w = (Inr (), w')" using run_ban by blast
  from BanClient_atomic [OF r] have "\<exists>c. db_clients (w_db w') = map (\<lambda>x. if c_id x = 1 then banRow 10000 True False x else x) (db_clients (w_db ?w))"
    by auto
  then show ?thesis using r by (simp add: ann_simps)
qed



end
