(* ===== verification/Users.thy ===== *)
theory Users
  imports ClientLaws
begin

text \<open>
  \<open>service/user.go\<close> and the token check of \<open>api/apiV2Handler.go\<close>: operators, their passwords and
  the API tokens, which the handler keeps in memory.  The layout of a date and the random string
  of a new token are parameters.
\<close>

section \<open>Operators\<close>

definition zeroUser :: user where
  "zeroUser = \<lparr>u_id = 0, u_username = [], u_password = [], u_lastlogins = []\<rparr>"

interpretation users: keyed u_id "\<lambda>n u. u\<lparr>u_id := n\<rparr>" by unfold_locales simp

definition saveUser :: "user \<Rightarrow> unit act" where
  "saveUser u = sqlu (\<lambda>e d. Inr ((), d\<lparr>db_users := snd (saveRow u_id (\<lambda>n u. u\<lparr>u_id := n\<rparr>) (e_newid e) u (db_users d))\<rparr>))"

text \<open>A text compared with an integer column.\<close>

definition textIsId :: "string \<Rightarrow> nat \<Rightarrow> bool" where
  "textIsId s i \<longleftrightarrow> atoi s = (int i, True)"

definition GetFirstUser :: "user act" where
  "GetFirstUser = firstWhere db_users (\<lambda>_. True)"

definition onMissing :: "'a act \<Rightarrow> 'b act \<Rightarrow> ('a \<Rightarrow> 'b act) \<Rightarrow> 'b act" where
  "onMissing a none found = (\<lambda>e w. case a e w of
       (Inl x, w') \<Rightarrow> (if x = notFound then none e w' else (Inl x, w'))
     | (Inr v, w') \<Rightarrow> found v e w')"

definition UpdateFirstUser :: "string \<Rightarrow> string \<Rightarrow> unit act" where
  "UpdateFirstUser username password =
     (if username = [] then failA (Err (''username can not be empty'' @ [CHR 0x0A]))
      else if password = [] then failA (Err (''password can not be empty'' @ [CHR 0x0A]))
      else onMissing GetFirstUser (saveUser (zeroUser\<lparr>u_username := username, u_password := password\<rparr>))
        (\<lambda>u. saveUser (u\<lparr>u_username := username, u_password := password\<rparr>)))"

text \<open>The user, or nil: an error of the query is only logged, as is one of the update.\<close>

definition CheckUser :: "(int \<Rightarrow> string) \<Rightarrow> string \<Rightarrow> string \<Rightarrow> string \<Rightarrow> user option act" where
  "CheckUser layout username password remoteIP = (\<lambda>e w.
     case firstWhere db_users (\<lambda>u. u_username u = username \<and> u_password u = password) e w of
       (Inl x, w') \<Rightarrow> (Inr None, w')
     | (Inr u, w') \<Rightarrow> thenA (logErr (sqlx (\<lambda>d. d\<lparr>db_users := map (\<lambda>x. if u_username x = username
           then x\<lparr>u_lastlogins := layout (e_now e) @ '' '' @ remoteIP\<rparr> else x) (db_users d)\<rparr>))) (retA (Some u)) e w')"

definition Login :: "(int \<Rightarrow> string) \<Rightarrow> string \<Rightarrow> string \<Rightarrow> string \<Rightarrow> string act" where
  "Login layout username password remoteIP = bindA (CheckUser layout username password remoteIP) (\<lambda>u. case u of
       None \<Rightarrow> failA (Err (''wrong user or password! IP:  '' @ remoteIP @ [CHR 0x0A]))
     | Some x \<Rightarrow> retA (u_username x))"

text \<open>The passwords are not read.\<close>

definition GetUsers :: "user list act" where
  "GetUsers = sqlq (\<lambda>d. Inr (map (\<lambda>u. u\<lparr>u_password := []\<rparr>) (db_users d)))"

definition ChangePass :: "string \<Rightarrow> string \<Rightarrow> string \<Rightarrow> string \<Rightarrow> unit act" where
  "ChangePass i oldPass newUser newPass =
     bindA (firstWhere db_users (\<lambda>u. textIsId i (u_id u) \<and> u_password u = oldPass)) (\<lambda>u.
       saveUser (u\<lparr>u_username := newUser, u_password := newPass\<rparr>))"

section \<open>Tokens\<close>

definition userOf :: "nat \<Rightarrow> user list \<Rightarrow> user option" where
  "userOf i us = find (\<lambda>u. u_id u = i) us"

definition liveToken :: "int \<Rightarrow> token \<Rightarrow> bool" where
  "liveToken now t \<longleftrightarrow> tk_expiry t = 0 \<or> tk_expiry t > now"

text \<open>A token whose user is gone has a nil user, and reading its name panics.\<close>

definition tokenEntry :: "user list \<Rightarrow> token \<Rightarrow> obj res" where
  "tokenEntry us t = (case userOf (tk_user_id t) us of None \<Rightarrow> Inl (Panic ''nil pointer dereference'')
     | Some u \<Rightarrow> Inr [(''token'', JStr (tk_token t)), (''expiry'', JInt (tk_expiry t)), (''username'', JStr (u_username u))])"

definition LoadTokens :: "raw act" where
  "LoadTokens = bindA (askE e_now) (\<lambda>now. bindA (sqlq (\<lambda>d. Inr (filter (liveToken now) (db_tokens d), db_users d))) (\<lambda>(ts, us).
     bindA (liftR (mapR (tokenEntry us) ts)) (\<lambda>es.
       liftR (marshal (if es = [] then JNull else JArr (map JObj es))))))"

definition GetUserTokens :: "string \<Rightarrow> token list act" where
  "GetUserTokens username = sqlq (\<lambda>d. Inr (case find (\<lambda>u. u_username u = username) (db_users d) of
       None \<Rightarrow> []
     | Some u \<Rightarrow> map (\<lambda>t. t\<lparr>tk_token := ''****''\<rparr>) (filter (\<lambda>t. tk_user_id t = u_id u) (db_tokens d))))"

interpretation tokens: keyed tk_id "\<lambda>n t. t\<lparr>tk_id := n\<rparr>" by unfold_locales simp

text \<open>\<open>fresh\<close> is \<open>common.Random(32)\<close>; an unknown user has the identifier 0.\<close>

definition AddToken :: "string \<Rightarrow> string \<Rightarrow> int \<Rightarrow> string \<Rightarrow> string act" where
  "AddToken fresh username expiry desc =
     bindA (rowsWhere db_users (\<lambda>u. u_username u = username)) (\<lambda>us.
     bindA (askE e_now) (\<lambda>now.
     let t = \<lparr>tk_id = 0, tk_desc = desc, tk_token = fresh,
              tk_expiry = (if expiry > 0 then wrap64 (wrap64 (expiry * 86400) + now) else expiry),
              tk_user_id = (case us of [] \<Rightarrow> 0 | u # _ \<Rightarrow> u_id u)\<rparr> in
     thenA (sqlu (\<lambda>e d. Inr ((), d\<lparr>db_tokens := snd (saveRow tk_id (\<lambda>n t. t\<lparr>tk_id := n\<rparr>) (e_newid e) t (db_tokens d))\<rparr>)))
       (retA fresh)))"

definition DeleteToken :: "string \<Rightarrow> unit act" where
  "DeleteToken i = sqlx (\<lambda>d. d\<lparr>db_tokens := filter (\<lambda>t. \<not> textIsId i (tk_id t)) (db_tokens d)\<rparr>)"

section \<open>The tokens in memory\<close>

record memtoken =
  mt_token :: string
  mt_expiry :: int
  mt_username :: string

definition decodeToken :: "jv \<Rightarrow> memtoken res" where
  "decodeToken v = (case v of JObj m \<Rightarrow>
       bindR (field m ''token'' asStr []) (\<lambda>t. bindR (field m ''expiry'' asInt64 0) (\<lambda>x. bindR (field m ''username'' asStr []) (\<lambda>u.
         Inr \<lparr>mt_token = t, mt_expiry = x, mt_username = u\<rparr>)))
     | JNull \<Rightarrow> Inr \<lparr>mt_token = [], mt_expiry = 0, mt_username = []\<rparr> | _ \<Rightarrow> jsonErr)"

text \<open>A failed load keeps the old list.\<close>

definition ReloadTokens :: "memtoken list \<Rightarrow> memtoken list act" where
  "ReloadTokens old = (\<lambda>e w. case LoadTokens e w of
       (Inl (Panic p), w') \<Rightarrow> (Inl (Panic p), w')
     | (Inl (Err m), w') \<Rightarrow> (Inr old, w')
     | (Inr r, w') \<Rightarrow> (Inr (case r of RText (JArr vs) \<Rightarrow> (case mapR decodeToken vs of Inr ts \<Rightarrow> ts | Inl _ \<Rightarrow> []) | _ \<Rightarrow> []), w'))"

definition expired :: "int \<Rightarrow> memtoken \<Rightarrow> bool" where
  "expired now t \<longleftrightarrow> mt_expiry t > 0 \<and> mt_expiry t < now"

text \<open>
  \<open>append(ts[:i], ts[i+1:]...)\<close> on the array behind the slice: the elements after \<open>i\<close> move down, the
  places past the new length keep what they held.
\<close>

definition cutOut :: "nat \<Rightarrow> nat \<Rightarrow> memtoken list \<Rightarrow> memtoken list" where
  "cutOut i len arr = take i arr @ take (len - Suc i) (drop (Suc i) arr) @ drop (len - 1) arr"

text \<open>
  The loop of \<open>findUsername\<close>: it ranges over the slice as it was at the start (\<open>k\<close> iterations are
  left), while the slice itself, of length \<open>len\<close>, is cut on the way.
\<close>

fun findLoop :: "int \<Rightarrow> string \<Rightarrow> nat \<Rightarrow> nat \<Rightarrow> memtoken list \<Rightarrow> nat \<Rightarrow> string res \<times> memtoken list" where
  "findLoop now tok 0 i arr len = (Inr [], take len arr)"
| "findLoop now tok (Suc k) i arr len =
     (if expired now (arr ! i) then
        (if Suc i > len then (Inl (Panic ''slice bounds out of range''), take len arr)
         else findLoop now tok k (Suc i) (cutOut i len arr) (len - 1))
      else if mt_token (arr ! i) = tok then (Inr (mt_username (arr ! i)), take len arr)
      else findLoop now tok k (Suc i) arr len)"

definition findUsername :: "int \<Rightarrow> string \<Rightarrow> memtoken list \<Rightarrow> string res \<times> memtoken list" where
  "findUsername now tok ts = findLoop now tok (length ts) 0 ts (length ts)"

text \<open>The request goes on when a name was found.\<close>

definition checkToken :: "int \<Rightarrow> string \<Rightarrow> memtoken list \<Rightarrow> bool res \<times> memtoken list" where
  "checkToken now tok ts = (case findUsername now tok ts of (r, ts') \<Rightarrow> (bindR r (\<lambda>u. Inr (u \<noteq> [])), ts'))"

section \<open>Who gets in\<close>

lemma cutOut_length: "Suc i \<le> len \<Longrightarrow> len \<le> length arr \<Longrightarrow> length (cutOut i len arr) = length arr"
  by (simp add: cutOut_def)

lemma cutOut_set: "set (cutOut i len arr) \<subseteq> set arr"
  by (auto simp: cutOut_def dest: in_set_takeD in_set_dropD)

lemma findLoop_sound:
  "findLoop now tok k i arr len = (Inr u, ts') \<Longrightarrow> u \<noteq> [] \<Longrightarrow> i + k = length arr \<Longrightarrow> len \<le> length arr \<Longrightarrow>
     \<exists>t \<in> set arr. mt_token t = tok \<and> mt_username t = u \<and> \<not> expired now t"
proof (induction now tok k i arr len rule: findLoop.induct)
  case (2 now tok k i arr len)
  have m: "arr ! i \<in> set arr" using 2(5) by simp
  show ?case
  proof (cases "expired now (arr ! i)")
    case True
    with 2(3) have "Suc i \<le> len" "findLoop now tok k (Suc i) (cutOut i len arr) (len - 1) = (Inr u, ts')"
      by (auto split: if_splits)
    then have "\<exists>t \<in> set (cutOut i len arr). mt_token t = tok \<and> mt_username t = u \<and> \<not> expired now t"
      using 2(1) [OF True] 2(4-6) by (simp add: cutOut_length)
    then show ?thesis using cutOut_set [of i len arr] by blast
  next
    case False
    with 2 m show ?thesis by (cases "mt_token (arr ! i) = tok") auto
  qed
qed simp

lemma findLoop_fresh:
  "\<forall>t \<in> set arr. \<not> expired now t \<Longrightarrow> i + k = length arr \<Longrightarrow>
     findLoop now tok k i arr len = (Inr (case find (\<lambda>t. mt_token t = tok) (drop i arr) of None \<Rightarrow> [] | Some t \<Rightarrow> mt_username t), take len arr)"
proof (induction now tok k i arr len rule: findLoop.induct)
  case (2 now tok k i arr len)
  then have "drop i arr = arr ! i # drop (Suc i) arr" "\<not> expired now (arr ! i)"
    by (simp_all add: Cons_nth_drop_Suc)
  with 2 show ?case by simp
qed simp

text \<open>
  An API request is let in only under the name of an operator whose unexpired token it carries; and
  as long as no token has expired, every request that carries a token is recognised under the name
  that belongs to it.
\<close>

lemma findUsername_correct:
  assumes "findUsername now tok ts = (Inr u, ts')"
  shows "(u \<noteq> [] \<longrightarrow> (\<exists>t \<in> set ts. mt_token t = tok \<and> mt_username t = u \<and> \<not> expired now t)) \<and>
    ((\<forall>t \<in> set ts. \<not> expired now t) \<longrightarrow> ts' = ts \<and>
      u = (case find (\<lambda>t. mt_token t = tok) ts of None \<Rightarrow> [] | Some t \<Rightarrow> mt_username t))"
  using findLoop_sound [of now tok "length ts" 0 ts "length ts" u ts'] findLoop_fresh [of ts now 0 "length ts" tok "length ts"] assms
  by (auto simp: findUsername_def)

definition tokA :: memtoken where
  "tokA = \<lparr>mt_token = ''ta'', mt_expiry = 50, mt_username = ''ann''\<rparr>"

definition tokB :: memtoken where
  "tokB = \<lparr>mt_token = ''tb'', mt_expiry = 0, mt_username = ''bob''\<rparr>"

theorem findUsername_correct_witness:
  "findUsername 100 ''tb'' [tokA, tokB] = (Inr ''bob'', [tokB]) \<and>
   (\<exists>t \<in> set [tokA, tokB]. mt_token t = ''tb'' \<and> mt_username t = ''bob'' \<and> \<not> expired 100 t)"
proof -
  have r: "findUsername 100 ''tb'' [tokA, tokB] = (Inr ''bob'', [tokB])"
    by (simp add: findUsername_def numeral_2_eq_2 expired_def cutOut_def tokA_def tokB_def)
  with findUsername_correct [OF r] show ?thesis by simp
qed

text \<open>
  Two tokens that expire together lock the API: the loop cuts the list it is ranging over, and
  with the last two tokens expired every request, whatever token it carries, panics.
\<close>

lemma two_expired_tokens_panic:
  "\<exists>m ts'. findUsername 100 tok [tokA, tokA\<lparr>mt_token := ''tc''\<rparr>] = (Inl (Panic m), ts')"
  by (simp add: findUsername_def numeral_2_eq_2 expired_def cutOut_def tokA_def)

text \<open>
  A login succeeds exactly for the name and the password of an operator, and it changes nothing but
  the record of the last login.
\<close>

lemma Login_exact:
  assumes "\<forall>n. \<not> e_dbfail e n" "Login layout u p ip e w = (r, w')"
  shows "(r = Inr u \<longleftrightarrow> (\<exists>x \<in> set (db_users (w_db w)). u_username x = u \<and> u_password x = p)) \<and>
    (\<forall>v. r = Inr v \<longrightarrow> v = u) \<and>
    map (\<lambda>x. x\<lparr>u_lastlogins := []\<rparr>) (db_users (w_db w')) = map (\<lambda>x. x\<lparr>u_lastlogins := []\<rparr>) (db_users (w_db w))"
proof (cases "filter (\<lambda>x. u_username x = u \<and> u_password x = p) (db_users (w_db w))")
  case Nil
  then have "r = Inl (Err (''wrong user or password! IP:  '' @ ip @ [CHR 0x0A])) \<and> w_db w' = w_db w"
    using assms by (auto simp: Login_def CheckUser_def firstWhere_def sqlq_def bindA_def Let_def)
  with Nil show ?thesis by (auto simp: filter_empty_conv)
next
  case (Cons x xs)
  then have x: "x \<in> set (db_users (w_db w))" "u_username x = u" "u_password x = p"
    by (auto dest: filter_eq_ConsD)
  have "r = Inr u \<and> db_users (w_db w') = map (\<lambda>y. if u_username y = u then y\<lparr>u_lastlogins := layout (e_now e) @ '' '' @ ip\<rparr> else y) (db_users (w_db w))"
    using assms Cons x(2)
    by (auto simp: Login_def CheckUser_def firstWhere_def sqlq_def bindA_def thenA_def logErr_def sqlx_def sqlu_def Let_def)
  with x show ?thesis by auto
qed

definition adminWorld :: world where
  "adminWorld = (worldWith [])\<lparr>w_db := emptyDb\<lparr>db_users := [\<lparr>u_id = 1, u_username = ''admin'', u_password = ''s3cret'', u_lastlogins = []\<rparr>]\<rparr>\<rparr>"

theorem Login_exact_witness:
  "fst (Login (\<lambda>_. ''today'') ''admin'' ''s3cret'' ''10.0.0.1'' quietEnv adminWorld) = Inr ''admin'' \<and>
   fst (Login (\<lambda>_. ''today'') ''admin'' ''admin'' ''10.0.0.1'' quietEnv adminWorld) \<noteq> Inr ''admin''"
proof -
  have d: "\<forall>n. \<not> e_dbfail quietEnv n" by simp
  have us: "set (db_users (w_db adminWorld)) = {\<lparr>u_id = 1, u_username = ''admin'', u_password = ''s3cret'', u_lastlogins = []\<rparr>}"
    by (simp add: adminWorld_def)
  have ok: "\<exists>x \<in> set (db_users (w_db adminWorld)). u_username x = ''admin'' \<and> u_password x = ''s3cret''"
    and no: "\<not> (\<exists>x \<in> set (db_users (w_db adminWorld)). u_username x = ''admin'' \<and> u_password x = ''admin'')"
    unfolding us by simp_all
  obtain r1 w1 where 1: "Login (\<lambda>_. ''today'') ''admin'' ''s3cret'' ''10.0.0.1'' quietEnv adminWorld = (r1, w1)" by fastforce
  obtain r2 w2 where 2: "Login (\<lambda>_. ''today'') ''admin'' ''admin'' ''10.0.0.1'' quietEnv adminWorld = (r2, w2)" by fastforce
  have "r1 = Inr ''admin''" using Login_exact [OF d 1] ok by blast
  moreover have "r2 \<noteq> Inr ''admin''" using Login_exact [OF d 2] no by blast
  ultimately show ?thesis by (simp only: 1 2 fst_conv simp_thms)
qed

end
