(* ===== verification/TableLaws.thy ===== *)
theory TableLaws
  imports ConfigLaws StatsService Users
begin

text \<open>
  What the tables keep under every operation of \<open>service/\<close>, failed runs included: identifiers are
  distinct and not zero, tags are unique, and a condition on the client rows that the jobs and the
  bookkeeping of inbounds respect.  \<open>ensures J a Q\<close>: from tables with \<open>J\<close> every run of \<open>a\<close> leaves tables with \<open>J\<close>,
  and its result, if there is one, satisfies \<open>Q\<close>; the only thing asked of the environment is that new
  identifiers are fresh.
\<close>

section \<open>Triples\<close>

definition ensures :: "(dbase \<Rightarrow> bool) \<Rightarrow> 'a act \<Rightarrow> ('a \<Rightarrow> bool) \<Rightarrow> bool" where
  "ensures J a Q \<longleftrightarrow> (\<forall>e w. newid_ok (e_newid e) \<longrightarrow> J (w_db w) \<longrightarrow>
     J (w_db (snd (a e w))) \<and> (\<forall>x. fst (a e w) = Inr x \<longrightarrow> Q x))"

abbreviation keeps :: "(dbase \<Rightarrow> bool) \<Rightarrow> 'a act \<Rightarrow> bool" where
  "keeps J a \<equiv> ensures J a (\<lambda>_. True)"

named_theorems ens "triples of the operations"

lemma ensuresI:
  "(\<And>e w r w'. newid_ok (e_newid e) \<Longrightarrow> J (w_db w) \<Longrightarrow> a e w = (r, w') \<Longrightarrow> J (w_db w') \<and> (\<forall>x. r = Inr x \<longrightarrow> Q x)) \<Longrightarrow> ensures J a Q"
  unfolding ensures_def by (metis prod.collapse)

lemma ensuresD:
  "ensures J a Q \<Longrightarrow> newid_ok (e_newid e) \<Longrightarrow> J (w_db w) \<Longrightarrow> a e w = (r, w') \<Longrightarrow> J (w_db w') \<and> (\<forall>x. r = Inr x \<longrightarrow> Q x)"
  unfolding ensures_def by (metis fst_conv snd_conv)

lemma keepsD: "keeps J a \<Longrightarrow> newid_ok (e_newid e) \<Longrightarrow> J (w_db w) \<Longrightarrow> J (w_db (snd (a e w)))"
  by (simp add: ensures_def)

lemma ens_weaken: "ensures J a P \<Longrightarrow> (\<And>x. P x \<Longrightarrow> Q x) \<Longrightarrow> ensures J a Q"
  unfolding ensures_def by blast

lemma ens_pure [ens]:
  "Q x \<Longrightarrow> ensures J (retA x) Q" "ensures J (failA y) Q" "(\<And>x. r = Inr x \<Longrightarrow> Q x) \<Longrightarrow> ensures J (liftR r) Q"
  "(\<And>e. Q (f e)) \<Longrightarrow> ensures J (askE f) Q" "(\<And>w. Q (h w)) \<Longrightarrow> ensures J (askW h) Q"
  by (simp_all add: ensures_def)

lemma ens_modW: "(\<And>w. w_db (k w) = w_db w) \<Longrightarrow> keeps J (modW k)"
  by (simp add: ensures_def)

lemma ens_bind: "ensures J a P \<Longrightarrow> (\<And>x. P x \<Longrightarrow> ensures J (f x) Q) \<Longrightarrow> ensures J (bindA a f) Q"
proof (rule ensuresI)
  fix e w r w'
  assume a: "ensures J a P" and f: "\<And>x. P x \<Longrightarrow> ensures J (f x) Q" and ok: "newid_ok (e_newid e)" "J (w_db w)"
    and r: "bindA a f e w = (r, w')"
  obtain ra w1 where 1: "a e w = (ra, w1)" by fastforce
  note A = ensuresD [OF a ok 1]
  show "J (w_db w') \<and> (\<forall>x. r = Inr x \<longrightarrow> Q x)"
  proof (cases ra)
    case (Inl y)
    then have "r = Inl y" "w' = w1" using r 1 by (simp_all add: bindA_def)
    then show ?thesis using A by simp
  next
    case (Inr x)
    then have "P x" "f x e w1 = (r, w')" using A r 1 by (simp_all add: bindA_def)
    then show ?thesis using ensuresD [OF f ok(1)] A by blast
  qed
qed

lemma ens_then: "keeps J a \<Longrightarrow> ensures J b Q \<Longrightarrow> ensures J (thenA a b) Q"
  by (simp add: thenA_def ens_bind)

lemma ens_if: "(c \<Longrightarrow> ensures J a Q) \<Longrightarrow> (\<not> c \<Longrightarrow> ensures J b Q) \<Longrightarrow> ensures J (if c then a else b) Q"
  by simp

lemma ens_for: "(\<And>x. x \<in> set xs \<Longrightarrow> keeps J (f x)) \<Longrightarrow> keeps J (forA f xs)"
  by (induction xs) (auto intro!: ens_then ens_pure)

lemma ens_fold: "I s \<Longrightarrow> (\<And>x s. x \<in> set xs \<Longrightarrow> I s \<Longrightarrow> ensures J (f x s) I) \<Longrightarrow> ensures J (foldA f xs s) I"
proof (induction xs arbitrary: s)
  case (Cons x xs)
  have "ensures J (bindA (f x s) (foldA f xs)) I"
    by (rule ens_bind [of _ _ I]) (use Cons in auto)
  then show ?case by simp
qed (simp add: ens_pure)

lemma ens_foldAny: "(\<And>x s. keeps J (f x s)) \<Longrightarrow> keeps J (foldA f xs s)"
  by (rule ens_fold) auto

lemma ens_map: "(\<And>x. keeps J (f x)) \<Longrightarrow> keeps J (mapA f xs)"
  by (induction xs) (auto intro!: ens_bind ens_pure)

lemma ens_keepDb: "within sameDb a \<Longrightarrow> keeps J a"
  unfolding ensures_def by (simp add: keepDbD)

lemma ens_ignore: "keeps J a \<Longrightarrow> keeps J (ignoreInvalid a)"
  unfolding ensures_def by (auto simp: ignoreInvalid_def split: prod.split sum.split) (metis snd_conv)+

lemma ens_log: "keeps J a \<Longrightarrow> keeps J (logErr a)"
  unfolding ensures_def by (auto simp: logErr_def split: prod.split sum.split goerr.split) (metis snd_conv)+

lemma ens_wrapErr: "keeps J a \<Longrightarrow> keeps J (wrapErr t a)"
  unfolding ensures_def by (auto simp: wrapErr_def split: prod.split sum.split goerr.split) (metis snd_conv)+

lemma ens_onNotFound:
  "ensures J a P \<Longrightarrow> ensures J n Q \<Longrightarrow> (\<And>x. P x \<Longrightarrow> ensures J (s x) Q) \<Longrightarrow> ensures J (onNotFound a n s) Q"
proof (rule ensuresI)
  fix e w r w'
  assume a: "ensures J a P" and n: "ensures J n Q" and s: "\<And>x. P x \<Longrightarrow> ensures J (s x) Q" and ok: "newid_ok (e_newid e)" "J (w_db w)"
    and r: "onNotFound a n s e w = (r, w')"
  obtain ra w1 where 1: "a e w = (ra, w1)" by fastforce
  note A = ensuresD [OF a ok 1]
  show "J (w_db w') \<and> (\<forall>x. r = Inr x \<longrightarrow> Q x)"
  proof (cases ra)
    case (Inl y)
    then show ?thesis using A r 1 ensuresD [OF n ok(1)] by (auto simp: onNotFound_def split: if_splits)
  next
    case (Inr x)
    then have "P x" "s x e w1 = (r, w')" using A r 1 by (simp_all add: onNotFound_def)
    then show ?thesis using ensuresD [OF s ok(1)] A by blast
  qed
qed

text \<open>A statement is judged by what it does to the tables.\<close>

lemma ens_sqlu:
  assumes "\<And>e d v d'. newid_ok (e_newid e) \<Longrightarrow> J d \<Longrightarrow> u e d = Inr (v, d') \<Longrightarrow> J d' \<and> Q v"
  shows "ensures J (sqlu u) Q"
proof (rule ensuresI)
  fix e w r w'
  assume ok: "newid_ok (e_newid e)" "J (w_db w)" and r: "sqlu u e w = (r, w')"
  show "J (w_db w') \<and> (\<forall>x. r = Inr x \<longrightarrow> Q x)"
  proof (cases "e_dbfail e (w_stmt w)")
    case True
    then show ?thesis using r ok by (auto simp: sqlu_def Let_def)
  next
    case False
    then show ?thesis using r ok assms [OF ok]
      by (cases "u e (w_db w)") (auto simp: sqlu_def Let_def)
  qed
qed

lemma ens_sqlx: "(\<And>d. J d \<Longrightarrow> J (g d)) \<Longrightarrow> keeps J (sqlx g)"
  unfolding sqlx_def by (rule ens_sqlu) auto

lemma ens_rows: "(\<And>d r. J d \<Longrightarrow> r \<in> set (t d) \<Longrightarrow> P r \<Longrightarrow> Q r) \<Longrightarrow> ensures J (rowsWhere t P) (\<lambda>rs. \<forall>r \<in> set rs. Q r)"
  by (rule ensuresI) (auto simp: rowsWhere_def sqlq_def Let_def split: if_splits)

lemma ens_first: "(\<And>d r. J d \<Longrightarrow> r \<in> set (t d) \<Longrightarrow> P r \<Longrightarrow> Q r) \<Longrightarrow> ensures J (firstWhere t P) Q"
  by (rule ensuresI) (auto simp: firstWhere_def sqlq_def Let_def split: if_splits list.splits dest: filter_eq_ConsD)

lemma ens_inTx: "ensures J a Q \<Longrightarrow> ensures J (inTx a) Q"
proof (rule ensuresI)
  fix e w r w'
  assume a: "ensures J a Q" and ok: "newid_ok (e_newid e)" "J (w_db w)" and r: "inTx a e w = (r, w')"
  obtain e' w1 where b: "beginTx e w = (e', w1)" by fastforce
  then have ok': "newid_ok (e_newid e')" "J (w_db w1)" using ok by (auto simp: beginTx_def)
  obtain ra w2 where 2: "a e' w1 = (ra, w2)" by fastforce
  note A = ensuresD [OF a ok' 2]
  have "r = ra \<and> (w_db w' = w_db w \<or> w_db w' = w_db w2)"
    using r commitOr_db [of e' "w_db w" w2] by (auto simp: inTx_def b 2 split: sum.splits goerr.splits)
  then show "J (w_db w') \<and> (\<forall>x. r = Inr x \<longrightarrow> Q x)" using A ok(2) by auto
qed

lemma ens_strictTx: "ensures J a Q \<Longrightarrow> ensures J (strictTx a) Q"
proof (rule ensuresI)
  fix e w r w'
  assume a: "ensures J a Q" and ok: "newid_ok (e_newid e)" "J (w_db w)" and r: "strictTx a e w = (r, w')"
  let ?w0 = "w\<lparr>w_stmt := Suc (w_stmt w)\<rparr>"
  obtain ra w1 where 1: "a e ?w0 = (ra, w1)" by fastforce
  have "J (w_db ?w0)" using ok(2) by simp
  note A = ensuresD [OF a ok(1) this 1]
  have "(w_db w' = w_db w \<or> w_db w' = w_db w1) \<and> (\<forall>x. r = Inr x \<longrightarrow> ra = Inr x)"
    using r 1 by (auto simp: strictTx_def Let_def split: sum.splits if_splits)
  then show "J (w_db w') \<and> (\<forall>x. r = Inr x \<longrightarrow> Q x)" using A ok(2) by auto
qed

lemmas ens_rules = ens_then ens_bind ens_if ens_ignore ens_log ens_wrapErr ens_pure

section \<open>Good tables\<close>

text \<open>A table with a unique tag.\<close>

locale taggedTable = keyed +
  fixes tagOf :: "'a \<Rightarrow> string"
  assumes tag_setKey: "tagOf (setKey n r) = tagOf r"

definition goodRows :: "('r \<Rightarrow> nat) \<Rightarrow> 'r list \<Rightarrow> bool" where
  "goodRows key rows \<longleftrightarrow> distinct (map key rows) \<and> (\<forall>r \<in> set rows. key r \<noteq> 0)"

definition goodTagged :: "('r \<Rightarrow> nat) \<Rightarrow> ('r \<Rightarrow> string) \<Rightarrow> 'r list \<Rightarrow> bool" where
  "goodTagged key tagOf rows \<longleftrightarrow> goodRows key rows \<and> (\<forall>r \<in> set rows. \<forall>s \<in> set rows. tagOf r = tagOf s \<longrightarrow> key r = key s)"

lemma goodRows_filter: "goodRows key rows \<Longrightarrow> goodRows key (filter P rows)"
  by (simp add: goodRows_def distinct_map_filter)

lemma goodRows_map: "goodRows key rows \<Longrightarrow> (\<And>r. key (f r) = key r) \<Longrightarrow> goodRows key (map f rows)"
  by (simp add: goodRows_def comp_def)

lemma goodTagged_filter: "goodTagged key tg rows \<Longrightarrow> goodTagged key tg (filter P rows)"
  by (simp add: goodTagged_def goodRows_filter)

lemma goodTagged_map: "goodTagged key tg rows \<Longrightarrow> (\<And>r. key (f r) = key r) \<Longrightarrow> (\<And>r. tg (f r) = tg r) \<Longrightarrow> goodTagged key tg (map f rows)"
  unfolding goodTagged_def using goodRows_map [of key rows f] by (metis (no_types, lifting) imageE list.set_map)

context keyed
begin

lemma goodRows_save:
  assumes "goodRows key rows" "newid_ok f"
  shows "goodRows key (snd (saveRow key setKey f r rows))"
proof -
  obtain r' rows' where s: "saveRow key setKey f r rows = (r', rows')" by fastforce
  then have "rows' = upsertRow key r' rows" by (auto simp: saveRow_def Let_def)
  then have "distinct (map key rows')" using assms(1) distinct_upsert by (simp add: goodRows_def)
  moreover have "key x \<noteq> 0" if "x \<in> set rows'" for x
  proof -
    have "x = r' \<or> x \<in> set rows" using saveRow_rows [OF s, of x] that by blast
    then show ?thesis using saveRow_key [OF s assms(2)] assms(1) unfolding goodRows_def by fastforce
  qed
  ultimately show ?thesis by (simp add: s goodRows_def)
qed

end

context taggedTable
begin

lemma goodTagged_save:
  assumes "goodTagged key tagOf rows" "newid_ok f" "saveTagged key setKey tagOf f r rows = Inr (r', rows')"
  shows "goodTagged key tagOf rows'"
proof -
  have s: "saveRow key setKey f r rows = (r', rows')" and free: "\<forall>x \<in> set rows. tagOf x = tagOf r \<longrightarrow> key x = key r"
    using assms(3) by (auto simp: saveTagged_def split: if_splits)
  have tag: "tagOf r' = tagOf r" and k: "key r \<noteq> 0 \<longrightarrow> r' = r"
    using s by (auto simp: saveRow_def Let_def tag_setKey split: if_splits)
  have "\<forall>x \<in> set rows. tagOf x = tagOf r' \<longrightarrow> key x = key r'"
    using free tag k assms(1) unfolding goodTagged_def goodRows_def by metis
  moreover have "\<forall>x \<in> set rows. \<forall>y \<in> set rows. tagOf x = tagOf y \<longrightarrow> key x = key y"
    using assms(1) unfolding goodTagged_def by blast
  ultimately have "key x = key y" if "x \<in> set rows'" "y \<in> set rows'" "tagOf x = tagOf y" for x y
    using that saveRow_rows [OF s] by metis
  moreover have "goodRows key rows'"
    using goodRows_save [of rows f r] s assms(1,2) by (simp add: goodTagged_def)
  ultimately show ?thesis unfolding goodTagged_def by blast
qed

end

interpretation inboundTable: taggedTable i_id "\<lambda>n i. i\<lparr>i_id := n\<rparr>" i_tag by unfold_locales simp
interpretation outboundTable: taggedTable o_id "\<lambda>n x. x\<lparr>o_id := n\<rparr>" o_tag by unfold_locales simp
interpretation endpointTable: taggedTable p_id "\<lambda>n x. x\<lparr>p_id := n\<rparr>" p_tag by unfold_locales simp
interpretation serviceTable: taggedTable v_id "\<lambda>n x. x\<lparr>v_id := n\<rparr>" v_tag by unfold_locales simp

definition goodTables :: "dbase \<Rightarrow> bool" where
  "goodTables d \<longleftrightarrow> goodRows c_id (db_clients d) \<and> goodRows t_id (db_tls d) \<and> goodRows u_id (db_users d) \<and>
     goodRows tk_id (db_tokens d) \<and> goodTagged i_id i_tag (db_inbounds d) \<and> goodTagged o_id o_tag (db_outbounds d) \<and>
     goodTagged p_id p_tag (db_endpoints d) \<and> goodTagged v_id v_tag (db_services d)"

lemma goodRows_ids: "goodRows c_id cs = goodIds cs"
  by (auto simp: goodRows_def goodIds_def)

section \<open>A condition on client rows\<close>

text \<open>
  A condition that depends on the identifier, the ban and the switch of a client only, is
  not lost by disabling, and not by enabling a client that is not banned.
\<close>

locale rowInv =
  fixes G :: "client \<Rightarrow> bool"
  assumes G_cong: "c_id c = c_id c' \<Longrightarrow> c_banned c = c_banned c' \<Longrightarrow> c_enable c = c_enable c' \<Longrightarrow> G c \<Longrightarrow> G c'"
    and G_disable: "G c \<Longrightarrow> G (c\<lparr>c_enable := False\<rparr>)"
    and G_enable: "G c \<Longrightarrow> \<not> c_banned c \<Longrightarrow> G (c\<lparr>c_enable := True\<rparr>)"
begin

definition tables :: "dbase \<Rightarrow> bool" where
  "tables d \<longleftrightarrow> goodTables d \<and> (\<forall>c \<in> set (db_clients d). G c)"

definition row :: "client \<Rightarrow> bool" where
  "row c \<longleftrightarrow> c_id c \<noteq> 0 \<and> G c"

lemma row_cong: "row c \<Longrightarrow> c_id c = c_id c' \<Longrightarrow> c_banned c = c_banned c' \<Longrightarrow> c_enable c = c_enable c' \<Longrightarrow> row c'"
  unfolding row_def using G_cong by metis

lemma tables_row: "tables d \<Longrightarrow> c \<in> set (db_clients d) \<Longrightarrow> row c"
  by (simp add: tables_def goodTables_def goodRows_def row_def)

text \<open>Statements that leave the clients alone.\<close>

lemma tables_other:
  "tables d \<Longrightarrow> db_clients d' = db_clients d \<Longrightarrow> goodTables d' \<Longrightarrow> tables d'"
  by (simp add: tables_def)

lemma ens_clients: "ensures tables (rowsWhere db_clients P) (\<lambda>cs. \<forall>c \<in> set cs. row c)"
  by (rule ens_rows) (rule tables_row)

lemma ens_oneClient: "ensures tables (firstWhere db_clients P) row"
  by (rule ens_first) (rule tables_row)

lemma ens_saveClient: "row c \<Longrightarrow> keeps tables (saveClient c)"
  unfolding saveClient_def
proof (rule ens_sqlu)
  fix e :: env and d v d'
  assume c: "row c" and ok: "newid_ok (e_newid e)" and d: "tables d"
    and s: "(case saveRow c_id (\<lambda>n c. c\<lparr>c_id := n\<rparr>) (e_newid e) c (db_clients d) of (c', rows) \<Rightarrow>
      Inr (c', d\<lparr>db_clients := rows\<rparr>)) = (Inr (v, d') :: (client \<times> dbase) res)"
  obtain rows where r: "saveRow c_id (\<lambda>n c. c\<lparr>c_id := n\<rparr>) (e_newid e) c (db_clients d) = (v, rows)" "d' = d\<lparr>db_clients := rows\<rparr>"
    using s by (auto split: prod.splits)
  have "v = c" using r(1) c by (auto simp: saveRow_def Let_def row_def)
  moreover have "goodRows c_id rows"
    using clients.goodRows_save [OF _ ok, of "db_clients d" c] d r(1) by (simp add: tables_def goodTables_def)
  ultimately show "tables d' \<and> True"
    using d c r(2) clients.saveRow_rows [OF r(1)] by (auto simp: tables_def goodTables_def row_def)
qed

lemma ens_saveClients: "\<forall>c \<in> set cs. row c \<Longrightarrow> keeps tables (saveClients cs)"
  unfolding saveClients_def
proof (rule ens_sqlu)
  fix e :: env and d v d'
  assume cs: "\<forall>c \<in> set cs. row c" and ok: "newid_ok (e_newid e)" and d: "tables d"
    and s: "(if cs = [] then Inl emptySlice else Inr ((), d\<lparr>db_clients := fold (\<lambda>c rows. snd (saveRow c_id (\<lambda>n c. c\<lparr>c_id := n\<rparr>) (e_newid e) c rows)) cs (db_clients d)\<rparr>))
       = (Inr (v, d') :: (unit \<times> dbase) res)"
  have "goodRows c_id rows \<Longrightarrow> \<forall>c \<in> set rows. G c \<Longrightarrow>
      goodRows c_id (fold (\<lambda>c rows. snd (saveRow c_id (\<lambda>n c. c\<lparr>c_id := n\<rparr>) (e_newid e) c rows)) cs rows) \<and>
      (\<forall>c \<in> set (fold (\<lambda>c rows. snd (saveRow c_id (\<lambda>n c. c\<lparr>c_id := n\<rparr>) (e_newid e) c rows)) cs rows). G c)" for rows
    using cs
  proof (induction cs arbitrary: rows)
    case (Cons c cs)
    obtain r' rows' where r: "saveRow c_id (\<lambda>n c. c\<lparr>c_id := n\<rparr>) (e_newid e) c rows = (r', rows')" by fastforce
    then have "r' = c" using Cons.prems(3) by (auto simp: saveRow_def Let_def row_def)
    then have "goodRows c_id rows'" "\<forall>c \<in> set rows'. G c"
      using clients.goodRows_save [OF Cons.prems(1) ok, of c] r Cons.prems clients.saveRow_rows [OF r] by (auto simp: row_def)
    then show ?case using Cons.IH [of rows'] Cons.prems(3) r by simp
  qed simp
  then show "tables d' \<and> True" using d s by (auto simp: tables_def goodTables_def split: if_splits)
qed

lemma ens_mapClients:
  assumes "\<And>c. c_id (f c) = c_id c" "\<And>c. G c \<Longrightarrow> P c \<Longrightarrow> G (f c)"
  shows "keeps tables (updateClients P f)"
  unfolding updateClients_def
  by (rule ens_sqlx) (use assms in \<open>auto simp: tables_def goodTables_def intro!: goodRows_map\<close>)

text \<open>The rows of clients that follow the inbounds.\<close>

lemma ens_clientsOf: "ensures tables (clientsOf i) (\<lambda>cs. \<forall>c \<in> set cs. row c)"
  unfolding clientsOf_def
  by (rule ens_bind [OF ens_keepDb]) (auto intro: ens_if ens_pure ens_clients within_sqlq)

lemma ens_saveOther: "row c \<Longrightarrow> keeps tables (bindA (saveClient (c\<lparr>c_inbounds := x, c_links := y\<rparr>)) (\<lambda>_. retA ()))"
  by (rule ens_bind [OF ens_saveClient]) (auto intro: ens_pure row_cong)

lemma ens_saveLinks: "row c \<Longrightarrow> keeps tables (bindA (saveClient (c\<lparr>c_links := y\<rparr>)) (\<lambda>_. retA ()))"
  by (rule ens_bind [OF ens_saveClient]) (auto intro: ens_pure row_cong)

lemma ens_onAdd: "keeps tables (UpdateClientsOnInboundAdd initIds i hostname)"
  unfolding UpdateClientsOnInboundAdd_def Let_def
  by (rule ens_bind [OF ens_clients])
    (intro ens_bind [OF ens_keepDb] within_preload ens_bind [of _ "askE e_rnd" "\<lambda>_. True"] ens_for
      ens_bind [of _ "liftR r" "\<lambda>_. True" for r] ens_saveOther ens_pure TrueI; simp)

lemma ens_onDelete: "keeps tables (UpdateClientsOnInboundDelete i tag)"
  unfolding UpdateClientsOnInboundDelete_def
  by (rule ens_bind [OF ens_clientsOf]) (rule ens_for, rule ens_saveOther, simp)

lemma ens_onChange: "keeps tables (UpdateLinksByInboundChange ibs hostname oldTag)"
  unfolding UpdateLinksByInboundChange_def Let_def
  by (intro ens_for ens_bind [OF ens_clientsOf])
    (intro ens_bind [of _ "askE e_rnd" "\<lambda>_. True"] ens_for ens_bind [of _ "liftR r" "\<lambda>_. True" for r] ens_saveLinks ens_pure TrueI; simp)

text \<open>The periodic job.\<close>

lemma row_reset: "row c \<Longrightarrow> row (startOnce dt c)" "row c \<Longrightarrow> row (startPeriodic dt c)" "row c \<Longrightarrow> row (renew dt c)"
proof -
  assume c: "row c"
  show "row (startOnce dt c)" "row (startPeriodic dt c)"
    by (rule row_cong [OF c]; simp add: startOnce_def startPeriodic_def)+
  show "row (renew dt c)"
  proof (cases "c_banned c")
    case True
    then show ?thesis by (intro row_cong [OF c]) (simp_all add: renew_def)
  next
    case False
    then have "row (c\<lparr>c_enable := True\<rparr>)" using c G_enable by (simp add: row_def)
    then show ?thesis by (rule row_cong) (simp_all add: renew_def False)
  qed
qed

lemma ens_changes: "keeps tables (createChanges cs)"
  unfolding createChanges_def by (rule ens_sqlx) (auto simp: tables_def goodTables_def)

lemma ens_setLast: "keeps tables (setLastUpdate t)"
  unfolding setLastUpdate_def by (rule ens_modW) simp

lemma ens_reset: "keeps tables (ResetClients dt)"
  unfolding ResetClients_def Let_def
  by (rule ens_bind [OF ens_clients])+
    (intro ens_then ens_if ens_pure ens_changes ens_setLast TrueI ens_saveClients; auto intro: row_reset)

lemma ens_deplete: "keeps tables (depleteBody dt)"
  unfolding depleteBody_def Let_def
  by (intro ens_bind [OF ens_reset] ens_bind [OF ens_clients] ens_then ens_if ens_pure ens_changes ens_setLast TrueI ens_mapClients)
    (auto intro: G_disable)

lemma ens_DepleteClients: "keeps tables DepleteClients"
proof (rule ensuresI)
  fix e w r w'
  assume ok: "newid_ok (e_newid e)" "tables (w_db w)" and r: "DepleteClients e w = (r, w')"
  obtain r1 w1 where 1: "inTx (depleteBody (e_now e)) e w = (r1, w1)" by fastforce
  have "w_db w' = w_db w1" using r 1 by (auto simp: DepleteClients_def split: sum.splits goerr.splits)
  then show "tables (w_db w') \<and> (\<forall>x. r = Inr x \<longrightarrow> True)" using ensuresD [OF ens_inTx [OF ens_deplete] ok 1] by simp
qed

lemma tables_map: "tables d \<Longrightarrow> (\<And>c. c_id (f c) = c_id c) \<Longrightarrow> (\<And>c. G c \<Longrightarrow> G (f c)) \<Longrightarrow> tables (d\<lparr>db_clients := map f (db_clients d)\<rparr>)"
  by (auto simp: tables_def goodTables_def intro!: goodRows_map)

lemma ens_billing: "keeps tables (saveStat s)"
proof -
  have i: "c_id (billRow s c) = c_id c" "c_banned (billRow s c) = c_banned c" "c_enable (billRow s c) = c_enable c" for c
    by (simp_all add: billRow_def)
  have "G (billRow s c)" if "G c" for c
    using that by (rule G_cong [rotated 3]) (simp_all add: i)
  then show ?thesis
    unfolding saveStat_def by (intro ens_then ens_if ens_pure TrueI ens_sqlx ens_modW tables_map) (simp_all add: i)
qed

lemma ens_SaveStats: "keeps tables (SaveStats en)"
proof -
  have c: "keeps tables collect"
    by (rule ens_keepDb) (auto simp: within_def sameDb_def collect_def split: prod.split)
  have s: "keeps tables (sqlx (\<lambda>d. d\<lparr>db_stats := db_stats d @ ss\<rparr>))" for ss
    by (rule ens_sqlx) (auto simp: tables_def goodTables_def)
  have "keeps tables (bindA collect (\<lambda>ss. if ss = [] then retA ()
       else inTx (thenA (forA saveStat ss) (if en then sqlx (\<lambda>d. d\<lparr>db_stats := db_stats d @ ss\<rparr>) else retA ()))))"
    by (intro ens_bind [OF c] ens_if ens_pure TrueI ens_inTx ens_then ens_for ens_billing s)
  then show ?thesis unfolding ensures_def by (simp add: SaveStats_def)
qed

text \<open>The other tables.\<close>

lemma saveTlsRef_good: "goodRows t_id rows \<Longrightarrow> newid_ok f \<Longrightarrow> saveTlsRef f t i rows = (j, rows') \<Longrightarrow> goodRows t_id rows'"
proof -
  assume ok: "goodRows t_id rows" "newid_ok f" and s: "saveTlsRef f t i rows = (j, rows')"
  have "rows' = rows \<or> (\<exists>x. rows' = snd (saveRow t_id (\<lambda>n t. t\<lparr>t_id := n\<rparr>) f x rows))"
  proof (cases t)
    case None
    then show ?thesis using s by (simp add: saveTlsRef_def)
  next
    case (Some x)
    obtain x' rs where r: "saveRow t_id (\<lambda>n t. t\<lparr>t_id := n\<rparr>) f x rows = (x', rs)" by fastforce
    then show ?thesis using s Some by (auto simp: saveTlsRef_def split: if_splits) (metis snd_conv)+
  qed
  then show ?thesis using tlsRows.goodRows_save [OF ok] ok(1) by blast
qed

lemma ens_saveInbound: "keeps tables (saveInbound i)"
  unfolding saveInbound_def
proof (rule ens_sqlu)
  fix e :: env and d v d'
  assume ok: "newid_ok (e_newid e)" and d: "tables d"
    and s: "(case saveTlsRef (e_newid e) (i_tls i) (i_tls_id i) (db_tls d) of (tid, trows) \<Rightarrow>
     bindR (saveTagged i_id (\<lambda>n i. i\<lparr>i_id := n\<rparr>) i_tag (e_newid e) (i\<lparr>i_tls_id := tid\<rparr>) (db_inbounds d))
       (\<lambda>(i', rows). Inr (i', d\<lparr>db_inbounds := rows, db_tls := trows\<rparr>))) = (Inr (v, d') :: (inbound \<times> dbase) res)"
  obtain tid trows where t: "saveTlsRef (e_newid e) (i_tls i) (i_tls_id i) (db_tls d) = (tid, trows)" by fastforce
  obtain rows where r: "saveTagged i_id (\<lambda>n i. i\<lparr>i_id := n\<rparr>) i_tag (e_newid e) (i\<lparr>i_tls_id := tid\<rparr>) (db_inbounds d) = Inr (v, rows)"
    "d' = d\<lparr>db_inbounds := rows, db_tls := trows\<rparr>"
    using s t by (auto simp: bindR_eq_Inr)
  show "tables d' \<and> True"
    using d r(2) saveTlsRef_good [OF _ ok t] inboundTable.goodTagged_save [OF _ ok r(1)] by (simp add: tables_def goodTables_def)
qed

lemma ens_saveService: "keeps tables (saveService x)"
  unfolding saveService_def
proof (rule ens_sqlu)
  fix e :: env and d v d'
  assume ok: "newid_ok (e_newid e)" and d: "tables d"
    and s: "(case saveTlsRef (e_newid e) (v_tls x) (v_tls_id x) (db_tls d) of (tid, trows) \<Rightarrow>
     bindR (saveTagged v_id (\<lambda>n v. v\<lparr>v_id := n\<rparr>) v_tag (e_newid e) (x\<lparr>v_tls_id := tid\<rparr>) (db_services d))
       (\<lambda>(v', rows). Inr (v', d\<lparr>db_services := rows, db_tls := trows\<rparr>))) = (Inr (v, d') :: (service \<times> dbase) res)"
  obtain tid trows where t: "saveTlsRef (e_newid e) (v_tls x) (v_tls_id x) (db_tls d) = (tid, trows)" by fastforce
  obtain rows where r: "saveTagged v_id (\<lambda>n v. v\<lparr>v_id := n\<rparr>) v_tag (e_newid e) (x\<lparr>v_tls_id := tid\<rparr>) (db_services d) = Inr (v, rows)"
    "d' = d\<lparr>db_services := rows, db_tls := trows\<rparr>"
    using s t by (auto simp: bindR_eq_Inr)
  show "tables d' \<and> True"
    using d r(2) saveTlsRef_good [OF _ ok t] serviceTable.goodTagged_save [OF _ ok r(1)] by (simp add: tables_def goodTables_def)
qed

lemma ens_saveOutbound: "keeps tables (saveOutbound x)"
  unfolding saveOutbound_def
  by (rule ens_sqlu) (auto simp: bindR_eq_Inr tables_def goodTables_def dest: outboundTable.goodTagged_save)

lemma ens_saveEndpoint: "keeps tables (saveEndpoint x)"
  unfolding saveEndpoint_def
  by (rule ens_sqlu) (auto simp: bindR_eq_Inr tables_def goodTables_def dest: endpointTable.goodTagged_save)

lemma ens_saveTls: "keeps tables (saveTls t)"
  unfolding saveTls_def
proof (rule ens_sqlu)
  fix e :: env and d v d'
  assume ok: "newid_ok (e_newid e)" and d: "tables d"
    and s: "(case saveRow t_id (\<lambda>n t. t\<lparr>t_id := n\<rparr>) (e_newid e) t (db_tls d) of (t', rows) \<Rightarrow> Inr (t', d\<lparr>db_tls := rows\<rparr>)) =
      (Inr (v, d') :: (tls \<times> dbase) res)"
  have "d' = d\<lparr>db_tls := snd (saveRow t_id (\<lambda>n t. t\<lparr>t_id := n\<rparr>) (e_newid e) t (db_tls d))\<rparr>"
    using s by (auto split: prod.splits)
  then show "tables d' \<and> True" using d tlsRows.goodRows_save [OF _ ok, of "db_tls d" t] by (simp add: tables_def goodTables_def)
qed

text \<open>The services, handler by handler.\<close>

lemma tables_settings: "tables (d\<lparr>db_settings := x\<rparr>) = tables d" "tables (d\<lparr>db_stats := y\<rparr>) = tables d"
  "tables (d\<lparr>db_changes := z\<rparr>) = tables d"
  by (simp_all add: tables_def goodTables_def)

lemma ens_updateSetting: "keeps tables (updateSetting k v)"
  unfolding updateSetting_def by (rule ens_sqlx) (simp add: tables_settings)

lemma ens_saveSetting: "keeps tables (saveSetting k v)"
  unfolding saveSetting_def getSetting_def
  by (intro ens_onNotFound [OF ens_keepDb [OF within_rows(4)]] ens_sqlx) (simp_all add: tables_settings)

lemma ens_SaveConfig: "keeps tables (SaveConfig data)"
  by (cases data) (auto simp: SaveConfig_def intro: ens_updateSetting ens_pure)

lemma ens_saveOneSetting: "keeps tables (saveOneSetting kv)"
proof -
  have "keeps tables (sqlx (\<lambda>d. d\<lparr>db_stats := []\<rparr>))" by (rule ens_sqlx) (simp add: tables_settings)
  then show ?thesis
    unfolding saveOneSetting_def Let_def
    by (cases kv) (auto intro!: ens_bind [of _ "askE f" "\<lambda>_. True" for f] ens_then ens_pure ens_updateSetting)
qed

lemma ens_SettingSave: "keeps tables (SettingSave data)"
proof -
  have "keeps tables (bindA (liftR (unmarshalStrMap data)) (\<lambda>m. forA saveOneSetting m))"
    by (intro ens_bind [of _ "liftR r" "\<lambda>_. True" for r] ens_for ens_saveOneSetting ens_pure TrueI)
  moreover have "SettingSave data = retA () \<or> SettingSave data = bindA (liftR (unmarshalStrMap data)) (\<lambda>m. forA saveOneSetting m)"
  proof (cases data)
    case (RText v)
    then show ?thesis by (cases v) (simp_all add: SettingSave_def)
  qed (simp_all add: SettingSave_def)
  ultimately show ?thesis using ens_pure(1) by fastforce
qed

lemma ens_loadTls: "keeps tables (loadTls i)"
  unfolding loadTls_def by (intro ens_keepDb keepDb_intros)

lemma ens_scanTag: "keeps tables (scanTag P)"
  unfolding scanTag_def by (intro ens_keepDb keepDb_intros)

lemma ens_isRunning: "keeps tables isRunning"
  by (intro ens_keepDb keepDb_intros)

lemma ens_ask: "keeps tables (askE f)" "keeps tables (liftR r)"
  by (intro ens_pure TrueI)+

lemma ens_swapInbound:
  "keeps tables (thenA (if edit then ignoreInvalid (RemoveInbound oldTag) else retA ())
     (bindA (liftR (Inbound_MarshalJSON i1)) (\<lambda>conf.
        bindA (if edit then addUsers conf (i_id i1) (i_type i1) else initUsers conf initUserIds (i_type i1)) AddInbound)))"
  by (intro ens_keepDb keepDb_intros keepDb_addUsers)

lemma ens_saveNewOrEdit: "keeps tables (saveNewOrEdit edit data initIds hostname)"
  unfolding saveNewOrEdit_def Let_def
  by (intro ens_bind [OF ens_ask(2)] ens_bind [OF ens_ask(1)] ens_bind [OF ens_loadTls] ens_bind [of _ "if c then scanTag P else r" "\<lambda>_. True" for c P r]
      ens_bind [OF ens_isRunning] ens_bind [OF ens_saveInbound] ens_then ens_if ens_scanTag ens_swapInbound ens_onChange ens_onAdd ens_pure TrueI)

lemma ens_dropRows:
  "keeps tables (sqlx (\<lambda>d. d\<lparr>db_inbounds := filter P (db_inbounds d)\<rparr>))"
  "keeps tables (sqlx (\<lambda>d. d\<lparr>db_outbounds := filter P1 (db_outbounds d)\<rparr>))"
  "keeps tables (sqlx (\<lambda>d. d\<lparr>db_endpoints := filter P2 (db_endpoints d)\<rparr>))"
  "keeps tables (sqlx (\<lambda>d. d\<lparr>db_services := filter P3 (db_services d)\<rparr>))"
  "keeps tables (sqlx (\<lambda>d. d\<lparr>db_tls := filter P4 (db_tls d)\<rparr>))"
  "keeps tables (sqlx (\<lambda>d. d\<lparr>db_stats := filter P5 (db_stats d)\<rparr>))"
  "keeps tables (sqlx (\<lambda>d. d\<lparr>db_tokens := filter P6 (db_tokens d)\<rparr>))"
  by (rule ens_sqlx; auto simp: tables_def goodTables_def intro: goodRows_filter goodTagged_filter)+

lemma ens_deleteInbound: "keeps tables (deleteInbound data)"
  unfolding deleteInbound_def Let_def
  by (intro ens_bind [OF ens_ask(2)] ens_bind [OF ens_isRunning] ens_bind [OF ens_keepDb [OF within_rows(2)]] ens_then ens_onDelete ens_dropRows(1))
    (intro ens_keepDb keepDb_intros)

lemma ens_Inbound: "keeps tables (InboundService_Save act data initIds hostname)"
  by (simp add: InboundService_Save_def ens_saveNewOrEdit ens_deleteInbound ens_pure)

lemma ens_putInCore:
  assumes "within sameDb oldTag" "\<And>t. within sameDb (remove t)" "\<And>c. within sameDb (add c)"
  shows "keeps tables (putInCore edit conf oldTag remove add)"
  unfolding putInCore_def by (intro ens_keepDb keepDb_intros assms)

lemma ens_dropFromCore: "(\<And>t. within sameDb (remove t)) \<Longrightarrow> keeps tables (dropFromCore tag remove)"
  unfolding dropFromCore_def by (intro ens_keepDb keepDb_intros)

lemmas ens_swapCore = ens_putInCore ens_dropFromCore

lemma keepDb_oneTag: "within sameDb (oneTag t k g i)"
  unfolding oneTag_def by (intro keepDb_intros)

lemma ens_Outbound: "keeps tables (OutboundService_Save act data)"
  unfolding OutboundService_Save_def
  by (intro ens_if ens_bind [OF ens_ask(2)] ens_then ens_bind [OF ens_saveOutbound] ens_pure TrueI ens_dropRows(2) ens_swapCore
      keepDb_oneTag within_core)

lemma ens_warpStep: "keeps tables (warpStep v edit x)"
  unfolding warpStep_def oldLicense_def by (intro ens_keepDb keepDb_intros)

lemma ens_Endpoint: "keeps tables (EndpointService_Save v act data)"
  unfolding EndpointService_Save_def
  by (intro ens_if ens_bind [OF ens_ask(2)] ens_bind [OF ens_warpStep] ens_then ens_bind [OF ens_saveEndpoint] ens_pure TrueI ens_dropRows(3)
      ens_swapCore keepDb_oneTag within_core)

lemma ens_Service: "keeps tables (ServicesService_Save act data)"
  unfolding ServicesService_Save_def Let_def
  by (intro ens_if ens_bind [OF ens_ask(2)] ens_bind [OF ens_loadTls] ens_then ens_bind [OF ens_saveService] ens_pure TrueI ens_dropRows(4)
      ens_swapCore keepDb_oneTag within_core)

lemma ens_UpdateOutJsons: "keeps tables (UpdateOutJsons ids hostname)"
proof -
  have "keeps tables (sqlx (\<lambda>d. d\<lparr>db_inbounds := map (\<lambda>x. if i_tag x = t then x\<lparr>i_out_json := j\<rparr> else x) (db_inbounds d)\<rparr>))" for t j
    by (rule ens_sqlx) (auto simp: tables_def goodTables_def intro!: goodTagged_map)
  then show ?thesis
    unfolding UpdateOutJsons_def
    by (intro ens_bind [OF ens_keepDb [OF within_preload(2)]] ens_bind [OF ens_ask(1)] ens_for ens_bind [OF ens_ask(2)])
qed

lemma ens_restarts: "keeps tables (RestartInbounds ids)" "keeps tables (RestartServices ids)"
  unfolding RestartInbounds_def RestartServices_def restartOne_def
  by (intro ens_keepDb keepDb_intros keepDb_addUsers)+

lemma ens_refreshTls: "keeps tables (refreshTls i hostname)"
  unfolding refreshTls_def
  by (intro ens_bind [OF ens_keepDb [OF within_preload(2)]] ens_bind [OF ens_keepDb [OF within_rows(2)]] ens_then ens_if ens_pure TrueI
      ens_onChange ens_wrapErr ens_UpdateOutJsons ens_restarts)

lemma ens_Tls: "keeps tables (TlsService_Save act data hostname)"
  unfolding TlsService_Save_def
  by (intro ens_if ens_bind [OF ens_ask(2)] ens_bind [OF ens_saveTls] ens_bind [OF ens_keepDb [OF within_rows(2)]] ens_pure TrueI
      ens_refreshTls ens_dropRows(5))

end

end
