(* ===== verification/LiveBan.thy ===== *)
theory LiveBan
  imports ConfigLaws
begin

text \<open>
  The ban end to end: \<open>BanClient\<close> in the database, \<open>ApplyUserChanges\<close>, the core's live inbounds
  and the user map and sessions of the patched Hysteria2 service.
\<close>

section \<open>A live update succeeds\<close>

text \<open>A Hysteria2 row with a tag whose inbound runs.\<close>

definition runsHy2 :: "world \<Rightarrow> inbound \<Rightarrow> bool" where
  "runsHy2 w b \<longleftrightarrow> b \<in> set (db_inbounds (w_db w)) \<and> i_type b = ''hysteria2'' \<and> i_tag b \<noteq> [] \<and>
     (\<exists>l. map_of (co_inbounds (w_core w)) (i_tag b) = Some l \<and> li_type l = ''hysteria2'')"

definition inboundKeys :: "world \<Rightarrow> bool" where
  "inboundKeys w \<longleftrightarrow> distinct (map i_id (db_inbounds (w_db w))) \<and> distinct (map i_tag (db_inbounds (w_db w)))"

lemma filter_key:
  assumes "distinct (map f xs)" "x \<in> set xs"
  shows "filter (\<lambda>y. f y = f x) xs = [x]"
  using assms
proof (induction xs)
  case (Cons y ys)
  show ?case
  proof (cases "x = y")
    case True
    then have "\<forall>z \<in> set ys. f z \<noteq> f x" using Cons.prems(1) by (auto simp: image_iff)
    then show ?thesis using True by (simp add: filter_empty_conv)
  next
    case False
    with Cons show ?thesis by (auto simp: image_iff)
  qed
qed simp

lemma hy2Users_runs:
  assumes "wellFormed (db_clients (w_db w))" "\<not> e_dbfail e (w_stmt w)"
  shows "\<exists>us. hy2Users i e w = (Inr us, w\<lparr>w_stmt := Suc (w_stmt w)\<rparr>)"
proof -
  let ?cs = "db_clients (w_db w)"
  have f: "filterR (\<lambda>c. if \<not> (c_enable c \<and> \<not> c_banned c) then Inr False
         else bindR (jsonExtract (c_config c) [''hysteria2'', ''password'']) (\<lambda>p.
           if p = None then Inr False else eachHas i (c_inbounds c))) ?cs = Inr (granted i ?cs)"
    unfolding granted_def using wellFormed_row [OF assms(1)] by (intro filterR_total) auto
  have m: "mapR (\<lambda>c. bindR (jsonExtract (c_config c) [''hysteria2'', ''password'']) (\<lambda>p.
         Inr (c_name c, case p of None \<Rightarrow> [] | Some v \<Rightarrow> sqlText v))) (granted i ?cs) = Inr (map (\<lambda>c. (c_name c, pwOf c)) (granted i ?cs))"
    using wellFormed_row(1) [OF assms(1)] by (intro mapR_total) (auto simp: granted_def)
  show ?thesis
    unfolding hy2Users_def sqlq_def Let_def f bindR_simps m using assms(2) by simp
qed

lemma UpdateUsers_runs: "\<exists>h. UpdateUsers (map fst us) (map snd us) s = Inr h"
  using UpdateUsers_map [of "map fst us" "map snd us" s] by auto

text \<open>The update of one inbound, and what it leaves alone.\<close>

lemma UpdateInboundUsers_runs:
  assumes "runsHy2 w b" "inboundKeys w" "co_running (w_core w)" "wellFormed (db_clients (w_db w))" "\<forall>n. \<not> e_dbfail e n"
  shows "\<exists>w'. UpdateInboundUsers (i_id b) e w = (Inr (), w') \<and> w_db w' = w_db w \<and> inStep w' (i_id b) (i_tag b) \<and>
    co_running (w_core w') \<and> (\<forall>a. runsHy2 w a \<longrightarrow> runsHy2 w' a) \<and>
    (\<forall>i t. t \<noteq> i_tag b \<longrightarrow> inStep w i t \<longrightarrow> inStep w' i t)"
proof -
  have row: "filter (\<lambda>x. i_id x = i_id b) (db_inbounds (w_db w)) = [b]"
    using filter_key assms(1,2) by (auto simp: runsHy2_def inboundKeys_def)
  let ?w1 = "w\<lparr>w_stmt := Suc (w_stmt w)\<rparr>"
  have s: "scanTag (\<lambda>x. i_id x = i_id b) e w = (Inr (i_tag b), ?w1)"
    using assms(5) by (simp add: scanTag_def rowsWhere_def sqlq_def bindA_def row Let_def)
  obtain w1 where w1: "w1 = ?w1" "w_db w1 = w_db w" "w_core w1 = w_core w" by simp
  obtain us where us: "hy2Users (i_id b) e w1 = (Inr us, w1\<lparr>w_stmt := Suc (w_stmt w1)\<rparr>)"
    using hy2Users_runs [of w1 e] w1(2) assms(4,5) by auto
  obtain w2 where w2: "w2 = w1\<lparr>w_stmt := Suc (w_stmt w1)\<rparr>" "w_db w2 = w_db w" "w_core w2 = w_core w" using w1 by simp
  obtain l where l: "map_of (co_inbounds (w_core w)) (i_tag b) = Some l" "li_type l = ''hysteria2''"
    using assms(1) by (auto simp: runsHy2_def)
  obtain h where h: "UpdateUsers (map fst us) (map snd us) (li_hy2 l) = Inr h" using UpdateUsers_runs by blast
  let ?l = "l\<lparr>li_hy2 := RetainUsers (map snd us) h\<rparr>"
  let ?w' = "w2\<lparr>w_core := (w_core w2)\<lparr>co_inbounds := AList.update (i_tag b) ?l (co_inbounds (w_core w2))\<rparr>\<rparr>"
  have "UpdateInboundUsersLive (i_tag b) (map fst us) (map snd us) e w2 = (Inr (), ?w')"
    using l h w2(3) assms(3) by (simp add: UpdateInboundUsersLive_def hysteria2Inbound_def bindA_def)
  then have run: "UpdateInboundUsers (i_id b) e w = (Inr (), ?w')"
    using assms(1,3) s us w1(1) w2(1)
    by (simp add: UpdateInboundUsers_def isRunning_def runsHy2_def)
  have "i_tag b \<noteq> []" using assms(1) by (simp add: runsHy2_def)
  then have "inStep ?w' (i_id b) (i_tag b)"
    using UpdateInboundUsers_inStep [OF run assms(3,4) row] by blast
  moreover have "runsHy2 ?w' a" if "runsHy2 w a" for a
    using that w2(2,3) l(2) by (auto simp: runsHy2_def)
  moreover have "inStep ?w' i t" if "t \<noteq> i_tag b" "inStep w i t" for i t
    using that w2(2,3) by (simp add: inStep_def)
  ultimately show ?thesis using run w2(2,3) assms(3) by auto
qed

text \<open>The update of all of them.\<close>

lemma updateAll_runs:
  assumes "\<forall>i \<in> set ids. \<exists>b. runsHy2 w b \<and> i_id b = i" "inboundKeys w" "co_running (w_core w)"
    and "wellFormed (db_clients (w_db w))" "\<forall>n. \<not> e_dbfail e n"
  shows "\<exists>w'. forA UpdateInboundUsers ids e w = (Inr (), w') \<and> w_db w' = w_db w \<and>
    (\<forall>b. runsHy2 w b \<and> i_id b \<in> set ids \<longrightarrow> inStep w' (i_id b) (i_tag b)) \<and>
    (\<forall>i t. t \<notin> i_tag ` {b \<in> set (db_inbounds (w_db w)). i_id b \<in> set ids} \<longrightarrow> inStep w i t \<longrightarrow> inStep w' i t)"
  using assms
proof (induction ids arbitrary: w)
  case Nil
  then show ?case by simp
next
  case (Cons i ids)
  obtain b where b: "runsHy2 w b" "i_id b = i" using Cons.prems(1) by auto
  obtain w1 where w1: "UpdateInboundUsers i e w = (Inr (), w1)" "w_db w1 = w_db w" "inStep w1 i (i_tag b)" "co_running (w_core w1)"
    and hy: "\<forall>a. runsHy2 w a \<longrightarrow> runsHy2 w1 a" and other: "\<forall>i t. t \<noteq> i_tag b \<longrightarrow> inStep w i t \<longrightarrow> inStep w1 i t"
    using UpdateInboundUsers_runs [OF b(1) Cons.prems(2-5)] b(2) by auto
  have "\<forall>i \<in> set ids. \<exists>b. runsHy2 w1 b \<and> i_id b = i" using Cons.prems(1) hy by (meson list.set_intros(2))
  moreover have "inboundKeys w1" "wellFormed (db_clients (w_db w1))" using Cons.prems(2,4) w1(2) by (simp_all add: inboundKeys_def)
  ultimately obtain w' where w': "forA UpdateInboundUsers ids e w1 = (Inr (), w')" "w_db w' = w_db w1"
    and st: "\<forall>b. runsHy2 w1 b \<and> i_id b \<in> set ids \<longrightarrow> inStep w' (i_id b) (i_tag b)"
    and keep: "\<forall>i t. t \<notin> i_tag ` {b \<in> set (db_inbounds (w_db w1)). i_id b \<in> set ids} \<longrightarrow> inStep w1 i t \<longrightarrow> inStep w' i t"
    using Cons.IH [of w1] w1(4) Cons.prems(5) by blast
  have uniq: "a = c" if "a \<in> set (db_inbounds (w_db w))" "c \<in> set (db_inbounds (w_db w))" "i_id a = i_id c \<or> i_tag a = i_tag c" for a c
    using that Cons.prems(2) by (auto simp: inboundKeys_def distinct_map dest: inj_onD)
  have "inStep w' (i_id a) (i_tag a)" if a: "runsHy2 w a" "i_id a \<in> set (i # ids)" for a
  proof (cases "i_id a \<in> set ids")
    case True
    then show ?thesis using st hy a(1) by blast
  next
    case False
    then have "a = b" using a b uniq by (auto simp: runsHy2_def)
    moreover have "i_tag b \<notin> i_tag ` {b \<in> set (db_inbounds (w_db w1)). i_id b \<in> set ids}"
      using False \<open>a = b\<close> b uniq w1(2) by (auto simp: runsHy2_def)
    ultimately show ?thesis using keep w1(3) b(2) by blast
  qed
  moreover have "inStep w' j t" if "t \<notin> i_tag ` {b \<in> set (db_inbounds (w_db w)). i_id b \<in> set (i # ids)}" "inStep w j t" for j t
  proof -
    have "t \<noteq> i_tag b" using that(1) b by (auto simp: runsHy2_def)
    then have "inStep w1 j t" using other that(2) by blast
    moreover have "t \<notin> i_tag ` {b \<in> set (db_inbounds (w_db w1)). i_id b \<in> set ids}" using that(1) w1(2) by auto
    ultimately show ?thesis using keep by blast
  qed
  ultimately show ?case using w1 w' by auto
qed

lemma liveAll:
  assumes "fst (liveSwitch e w) = Inr True" "co_running (w_core w)" "inboundKeys w" "wellFormed (db_clients (w_db w))"
    and "\<forall>n. \<not> e_dbfail e n" "\<forall>j \<in> set ids. \<exists>b. runsHy2 w b \<and> i_id b = j"
  obtains w' where "ApplyUserChanges ids e w = (Inr (), w')" "w_db w' = w_db w"
    "\<forall>b. runsHy2 w b \<and> i_id b \<in> set ids \<longrightarrow> inStep w' (i_id b) (i_tag b)"
proof (cases "ids = []")
  case True
  then show ?thesis using that [of w] by (simp add: ApplyUserChanges_def isRunning_def)
next
  case False
  have "\<forall>i \<in> set ids. \<exists>x \<in> set (db_inbounds (w_db w)). i_id x = i \<and> i_type x = ''hysteria2''"
    using assms(6) by (fastforce simp: runsHy2_def)
  then obtain w3 where w3: "w_db w3 = w_db w" "w_core w3 = w_core w" "ApplyUserChanges ids e w = forA UpdateInboundUsers ids e w3"
    using ApplyUserChanges_hy2 [OF assms(1,2) False] assms(5) by blast
  have eq: "runsHy2 w3 = runsHy2 w" "inboundKeys w3 = inboundKeys w"
    using w3(1,2) by (simp_all add: fun_eq_iff runsHy2_def inboundKeys_def)
  show ?thesis
    using updateAll_runs [of ids w3 e] assms w3 eq that by auto
qed

section \<open>The ban\<close>

lemma banRow_same [simp]:
  "hy2Client (banRow t b en c) p = hy2Client c p" "c_inbounds (banRow t b en c) = c_inbounds c"
  "attached i (banRow t b en c) = attached i c" "pwOf (banRow t b en c) = pwOf c" "c_id (banRow t b en c) = c_id c"
  "c_banned (banRow t b en c) = b"
  by (simp_all add: banRow_def hy2Client_def attached_def pwOf_def)

lemma liveSwitch_on:
  assumes "\<forall>n. \<not> e_dbfail e n" "settingOf ''hy2LiveUpdate'' (db_settings (w_db w)) \<in> {None, Some ''true''}"
  shows "fst (liveSwitch e w) = Inr True"
proof -
  have "getString ''hy2LiveUpdate'' e w = (Inr ''true'', w\<lparr>w_stmt := Suc (w_stmt w)\<rparr>)"
    using assms by (auto simp: getString_found getString_default defaultValueMap_def)
  then show ?thesis by (simp add: liveSwitch_def GetHy2LiveUpdate_def getBool_def parseBool_def)
qed

lemma attached_ids:
  assumes "c_inbounds c = RText (JArr vs)" "unmarshalUints (c_inbounds c) = Inr ids" "attached j c"
  shows "j \<in> set ids"
proof -
  obtain v where v: "v \<in> set vs" "sqlInt v = Some (int j)"
    using assms(1,3) by (auto simp: attached_def eachHas_def image_iff)
  have ids: "ids = map (fst \<circ> asUint) vs" "list_all (snd \<circ> asUint) vs"
    using assms(1,2) by (auto simp: unmarshalUints_def split: if_splits)
  have "snd (asUint v)" using ids(2) v(1) by (auto simp: list_all_iff)
  then have "fst (asUint v) = j" using v(2) by (cases v) (auto split: if_splits)
  then show ?thesis using ids(1) v(1) by force
qed

lemma strictTx_banBody:
  assumes "\<forall>n. \<not> e_dbfail e n" "goodIds (db_clients (w_db w))" "c \<in> set (db_clients (w_db w))" "unmarshalUints (c_inbounds c) = Inr ids"
  obtains w1 where "strictTx (banBody (c_id c) True u) e w = (Inr (c_name c, ids), w1)" "w_core w1 = w_core w"
    "w_db w1 = (w_db w)\<lparr>db_clients := map (\<lambda>x. if c_id x = c_id c then banRow (e_now e) True False x else x) (db_clients (w_db w)),
       db_changes := db_changes (w_db w1)\<rparr>"
proof -
  have "filter (\<lambda>x. c_id x = c_id c) (db_clients (w_db w)) = [c]"
    using filter_key assms(2,3) by (auto simp: goodIds_def)
  then show thesis
    using assms(1,4) that
    by (simp add: strictTx_def banBody_def firstWhere_def sqlq_def sqlu_def sqlx_def updateClients_def createChanges_def bindA_def
        thenA_def Let_def)
qed


lemma hy2World_ban:
  "runsHy2 hy2World hy2Row" "inboundKeys hy2World" "goodIds (db_clients (w_db hy2World))"
  "\<forall>k \<in> set (db_clients (w_db hy2World)). c_id k \<noteq> c_id ann \<longrightarrow> pwOf k \<noteq> pwOf ann"
proof -
  show "runsHy2 hy2World hy2Row" "inboundKeys hy2World"
    by (simp_all add: runsHy2_def inboundKeys_def hy2World_simps) (simp add: hy2Row_def hy2Live_def)
  show "goodIds (db_clients (w_db hy2World))" by (simp add: goodIds_def hy2_eval)
  show "\<forall>k \<in> set (db_clients (w_db hy2World)). c_id k \<noteq> c_id ann \<longrightarrow> pwOf k \<noteq> pwOf ann"
    by (simp add: hy2_eval pwOf_def)
qed


end
