(* ===== verification/Panel.thy ===== *)
theory Panel
  imports TableLaws LiveBan
begin

text \<open>
  The panel as a whole: the jobs of \<open>cronjob/\<close> and a step relation whose events are the requests of the
  operators (saves, bans, logins, tokens), the runs of the jobs, the restarts of the core and of the process,
  and the traffic of the connected clients, each in an environment of its own, so that any statement may fail
  in any of them.
\<close>

section \<open>Jobs\<close>

text \<open>The errors of a job are only logged.\<close>

definition DepleteJob_Run :: "unit act" where
  "DepleteJob_Run = logErr (bindA DepleteClients (\<lambda>ids. if ids = [] then retA () else ApplyUserChanges ids))"

definition StatsJob_Run :: "bool \<Rightarrow> unit act" where
  "StatsJob_Run enableTraffic = logErr (SaveStats enableTraffic)"

definition DelStatsJob_Run :: "(int \<Rightarrow> int \<Rightarrow> int) \<Rightarrow> int \<Rightarrow> unit act" where
  "DelStatsJob_Run daysAgo trafficAge = logErr (DelOldStats daysAgo trafficAge)"

definition CheckCoreJob_Run :: "unit act" where
  "CheckCoreJob_Run = logErr StartCore"

text \<open>The checkpoint moves pages of the log to the file and changes no table.\<close>

definition WALCheckpointJob_Run :: "unit act" where
  "WALCheckpointJob_Run = logErr (sqlx (\<lambda>d. d))"

section \<open>Events\<close>

datatype event =
    Saved string string raw
  | Banned nat bool
  | LoggedIn
  | OperatorChanged
  | TokensChanged
  | Depleted
  | Counted
  | Pruned
  | CoreChecked
  | Checkpointed
  | CoreRestarted
  | ConfigRestarted
  | Traffic
  | Queried
  | ProcessRestarted

text \<open>A new process: the database stays, everything in memory is gone.\<close>

definition freshProcess :: "world \<Rightarrow> world" where
  "freshProcess w = w\<lparr>w_core := \<lparr>co_running = False, co_instance = False, co_inbounds = [], co_outbounds = [],
     co_endpoints = [], co_services = [], co_conns = NewConnTracker, co_stats = NewStatsTracker\<rparr>, w_lastUpdate := 0,
     w_inProgress := False, w_lastFail := None, w_onlines := \<lparr>on_inbound = [], on_user = [], on_outbound = []\<rparr>, w_jobs := []\<rparr>"

text \<open>Connected clients change what the core counts and which sessions it holds, not what it runs.\<close>

definition busyCore :: "core \<Rightarrow> core \<Rightarrow> bool" where
  "busyCore c c' \<longleftrightarrow> (\<exists>st ct is. c' = c\<lparr>co_stats := st, co_conns := ct, co_inbounds := is\<rparr> \<and>
     map (\<lambda>(t, l). (t, li_type l, li_conf l, hv_users (li_hy2 l))) is =
     map (\<lambda>(t, l). (t, li_type l, li_conf l, hv_users (li_hy2 l))) (co_inbounds c))"

text \<open>A request that only reads may still fill in missing settings and the time of the last change.\<close>

definition readsOnly :: "world \<Rightarrow> world \<Rightarrow> bool" where
  "readsOnly w w' \<longleftrightarrow> (\<exists>n l ss. w' = w\<lparr>w_stmt := n, w_lastUpdate := l, w_db := (w_db w)\<lparr>db_settings := ss\<rparr>\<rparr>)"

interpretation keepReads: frame readsOnly
proof
  fix w w1 w2 w3 :: world
  have "w = w\<lparr>w_stmt := w_stmt w, w_lastUpdate := w_lastUpdate w, w_db := (w_db w)\<lparr>db_settings := db_settings (w_db w)\<rparr>\<rparr>" by simp
  then show "readsOnly w w" unfolding readsOnly_def by blast
  assume "readsOnly w1 w2" "readsOnly w2 w3"
  then obtain n l ss n' l' ss' where "w2 = w1\<lparr>w_stmt := n, w_lastUpdate := l, w_db := (w_db w1)\<lparr>db_settings := ss\<rparr>\<rparr>"
    "w3 = w2\<lparr>w_stmt := n', w_lastUpdate := l', w_db := (w_db w2)\<lparr>db_settings := ss'\<rparr>\<rparr>"
    unfolding readsOnly_def by blast
  then have "w3 = w1\<lparr>w_stmt := n', w_lastUpdate := l', w_db := (w_db w1)\<lparr>db_settings := ss'\<rparr>\<rparr>" by simp
  then show "readsOnly w1 w3" unfolding readsOnly_def by blast
qed

inductive panelStep :: "env \<Rightarrow> world \<Rightarrow> event \<Rightarrow> world \<Rightarrow> bool" where
  saved: "ConfigService_Save v obj act data initIds user host e w = (r, w') \<Longrightarrow> panelStep e w (Saved obj act data) w'"
| banned: "BanClient i b user e w = (r, w') \<Longrightarrow> panelStep e w (Banned i b) w'"
| loggedIn: "Login layout name pass ip e w = (r, w') \<Longrightarrow> panelStep e w LoggedIn w'"
| firstUser: "UpdateFirstUser name pass e w = (r, w') \<Longrightarrow> panelStep e w OperatorChanged w'"
| passChanged: "ChangePass i old name new e w = (r, w') \<Longrightarrow> panelStep e w OperatorChanged w'"
| tokenAdded: "AddToken fresh name expiry desc e w = (r, w') \<Longrightarrow> panelStep e w TokensChanged w'"
| tokenDeleted: "DeleteToken i e w = (r, w') \<Longrightarrow> panelStep e w TokensChanged w'"
| depleted: "DepleteJob_Run e w = (r, w') \<Longrightarrow> panelStep e w Depleted w'"
| counted: "StatsJob_Run en e w = (r, w') \<Longrightarrow> panelStep e w Counted w'"
| pruned: "DelStatsJob_Run daysAgo age e w = (r, w') \<Longrightarrow> panelStep e w Pruned w'"
| coreChecked: "CheckCoreJob_Run e w = (r, w') \<Longrightarrow> panelStep e w CoreChecked w'"
| checkpointed: "WALCheckpointJob_Run e w = (r, w') \<Longrightarrow> panelStep e w Checkpointed w'"
| coreRestarted: "RestartCore e w = (r, w') \<Longrightarrow> panelStep e w CoreRestarted w'"
| configRestarted: "w_jobs w = js @ c # ks \<Longrightarrow> restartCoreWithConfig c e (w\<lparr>w_jobs := js @ ks\<rparr>) = (r, w') \<Longrightarrow>
    panelStep e w ConfigRestarted w'"
| traffic: "busyCore (w_core w) c' \<Longrightarrow> panelStep e w Traffic (w\<lparr>w_core := c'\<rparr>)"
| queried: "readsOnly w w' \<Longrightarrow> panelStep e w Queried w'"
| processRestarted: "panelStep e w ProcessRestarted (freshProcess w)"

text \<open>What can be reached from a state by events that are allowed.\<close>

inductive reaches :: "(event \<Rightarrow> bool) \<Rightarrow> world \<Rightarrow> world \<Rightarrow> bool" for allowed :: "event \<Rightarrow> bool" and w0 :: world where
  start: "reaches allowed w0 w0"
| step: "reaches allowed w0 w \<Longrightarrow> allowed ev \<Longrightarrow> newid_ok (e_newid e) \<Longrightarrow> panelStep e w ev w' \<Longrightarrow> reaches allowed w0 w'"

section \<open>The remaining handlers keep the tables\<close>

context rowInv
begin

lemma ens_saveUser: "keeps tables (saveUser u)"
  unfolding saveUser_def
proof (rule ens_sqlu)
  fix e :: env and d v d'
  assume ok: "newid_ok (e_newid e)" and d: "tables d"
    and s: "Inr ((), d\<lparr>db_users := snd (saveRow u_id (\<lambda>n u. u\<lparr>u_id := n\<rparr>) (e_newid e) u (db_users d))\<rparr>) = (Inr (v, d') :: (unit \<times> dbase) res)"
  show "tables d' \<and> True"
    using d s users.goodRows_save [OF _ ok, of "db_users d" u] by (auto simp: tables_def goodTables_def)
qed

lemma ens_onMissing: "keeps tables a \<Longrightarrow> keeps tables n \<Longrightarrow> (\<And>x. keeps tables (s x)) \<Longrightarrow> keeps tables (onMissing a n s)"
  using ens_onNotFound [of tables a "\<lambda>_. True" n "\<lambda>_. True" s] by (simp add: onMissing_def onNotFound_def)

lemma ens_operators:
  "keeps tables (UpdateFirstUser name pass)" "keeps tables (ChangePass i old name' new)" "keeps tables (DeleteToken j)"
  unfolding UpdateFirstUser_def ChangePass_def GetFirstUser_def DeleteToken_def
  by (intro ens_if ens_pure TrueI ens_onMissing ens_saveUser ens_bind [OF ens_keepDb [OF within_rows(4)]] ens_keepDb [OF within_rows(4)] ens_dropRows)+

lemma ens_AddToken: "keeps tables (AddToken fresh name expiry desc)"
proof -
  have "keeps tables (sqlu (\<lambda>e d. Inr ((), d\<lparr>db_tokens := snd (saveRow tk_id (\<lambda>n t. t\<lparr>tk_id := n\<rparr>) (e_newid e) t (db_tokens d))\<rparr>)))" for t
  proof (rule ens_sqlu)
    fix e :: env and d v d'
    assume ok: "newid_ok (e_newid e)" and d: "tables d"
      and s: "Inr ((), d\<lparr>db_tokens := snd (saveRow tk_id (\<lambda>n t. t\<lparr>tk_id := n\<rparr>) (e_newid e) t (db_tokens d))\<rparr>) = (Inr (v, d') :: (unit \<times> dbase) res)"
    show "tables d' \<and> True"
      using d s tokens.goodRows_save [OF _ ok, of "db_tokens d" t] by (auto simp: tables_def goodTables_def)
  qed
  then show ?thesis
    unfolding AddToken_def Let_def
    by (intro ens_bind [OF ens_keepDb [OF within_rows(2)]] ens_bind [OF ens_ask(1)] ens_then ens_pure TrueI)
qed

lemma ens_Login: "keeps tables (Login layout name pass ip)"
proof -
  have "keeps tables (sqlx (\<lambda>d. d\<lparr>db_users := map (\<lambda>x. if P x then x\<lparr>u_lastlogins := t\<rparr> else x) (db_users d)\<rparr>))" for P t
    by (rule ens_sqlx) (auto simp: tables_def goodTables_def intro!: goodRows_map)
  then have log: "keeps tables (thenA (logErr (sqlx (\<lambda>d. d\<lparr>db_users := map (\<lambda>x. if P x then x\<lparr>u_lastlogins := t\<rparr> else x) (db_users d)\<rparr>))) (retA (Some u)))" for P t and u :: user
    by (intro ens_then ens_log ens_pure TrueI)
  have "keeps tables (CheckUser layout name pass ip)"
  proof (rule ensuresI)
    fix e w r w'
    assume ok: "newid_ok (e_newid e)" "tables (w_db w)" and r: "CheckUser layout name pass ip e w = (r, w')"
    obtain r1 w1 where 1: "firstWhere db_users (\<lambda>u. u_username u = name \<and> u_password u = pass) e w = (r1, w1)" by fastforce
    have w1: "tables (w_db w1)" using ensuresD [where J = tables, OF ens_keepDb [OF within_rows(4)] ok 1] by simp
    show "tables (w_db w') \<and> (\<forall>x. r = Inr x \<longrightarrow> True)"
      using r 1 w1 ensuresD [OF log ok(1) w1] by (cases r1) (auto simp: CheckUser_def)
  qed
  then show ?thesis
    unfolding Login_def by (rule ens_bind) (auto intro: ens_pure split: option.split)
qed

lemma ens_applyUsers: "keeps tables (applyUsers ids)"
proof (rule ensuresI)
  fix e w r w'
  assume ok: "tables (w_db w)" and r: "applyUsers ids e w = (r, w')"
  have "w_db w' = w_db w" using r keepDbD [OF ApplyUserChanges_keepDb, of ids e w]
    by (auto simp: applyUsers_def split: prod.splits sum.splits goerr.splits)
  with ok show "tables (w_db w') \<and> (\<forall>x. r = Inr x \<longrightarrow> True)" by simp
qed

lemma ens_startJob: "keeps tables (startJob c)"
  unfolding startJob_def by (rule ens_modW) simp

lemma ens_logChange: "keeps tables (logChange obj act data user)"
  unfolding logChange_def by (intro ens_bind [OF ens_ask(1)] ens_then ens_changes ens_setLast)

text \<open>Saves of everything but clients, given what a save of clients keeps.\<close>

lemma ens_saveObject:
  assumes "obj = ''clients'' \<Longrightarrow> keeps tables (ClientService_Save act data host)"
  shows "keeps tables (saveObject v obj act data initIds host)"
  unfolding saveObject_def
  by (intro ens_if ens_then ens_bind [OF assms] ens_pure TrueI ens_applyUsers ens_Tls ens_Inbound ens_Outbound ens_Service ens_Endpoint
      ens_SaveConfig ens_startJob ens_SettingSave)

lemma ens_Save:
  assumes "obj = ''clients'' \<Longrightarrow> keeps tables (ClientService_Save act data host)"
  shows "keeps tables (ConfigService_Save v obj act data initIds user host)"
proof (rule ensuresI)
  fix e w r w'
  assume ok: "newid_ok (e_newid e)" "tables (w_db w)" and r: "ConfigService_Save v obj act data initIds user host e w = (r, w')"
  have log: "keeps tables (case x of Inl y \<Rightarrow> retA (Inl y) | Inr objs \<Rightarrow> thenA (logChange obj act data user) (retA (Inr objs)))"
    for x :: "string list res"
    by (cases x) (auto intro: ens_pure ens_then ens_logChange)
  have "keeps tables (saveBody v obj act data initIds user host)"
    unfolding saveBody_def by (rule ens_bind [OF ens_saveObject [OF assms] log]) assumption
  note body = ensuresD [OF ens_inTx [OF this] ok]
  obtain r1 w1 where 1: "inTx (saveBody v obj act data initIds user host) e w = (r1, w1)" by fastforce
  have "w_db w' = w_db w1"
    using r 1 keepDbD [OF keepDb_StartCore, of e w1]
    by (auto simp: ConfigService_Save_def split: sum.splits goerr.splits prod.splits if_splits)
  then show "tables (w_db w') \<and> (\<forall>x. r = Inr x \<longrightarrow> True)" using body [OF 1] by simp
qed

text \<open>A ban, given what it may do to the row it changes.\<close>

lemma ens_Ban:
  assumes "\<And>c now en. c_id c = i \<Longrightarrow> G c \<Longrightarrow> G (banRow now b (\<not> b \<and> en) c)"
  shows "keeps tables (BanClient i b user)"
proof -
  have "keeps tables (updateClients (\<lambda>x. c_id x = i) (banRow now b (\<not> b \<and> en)))" for now en
    by (rule ens_mapClients) (simp_all add: banRow_def [of now] assms [unfolded banRow_def])
  then have "keeps tables (banBody i b user)"
    unfolding banBody_def
    by (intro ens_bind [OF ens_keepDb [OF within_rows(4)]] ens_bind [OF ens_ask(2)] ens_bind [OF ens_ask(1)] ens_then ens_changes ens_pure TrueI)
  then have "keeps tables (strictTx (banBody i b user))" by (rule ens_strictTx)
  then show ?thesis
    unfolding BanClient_def
    by (rule ens_bind)
      (auto intro!: ens_then ens_log ens_keepDb [OF ApplyUserChanges_keepDb] ens_bind [OF ens_ask(1)] ens_setLast)
qed

end

text \<open>Where the condition holds of every row, clients may be saved freely.\<close>

locale freeRows = rowInv +
  assumes G_all: "G c"
begin

lemma ens_anyClient: "keeps tables (saveClient c)"
  unfolding saveClient_def
proof (rule ens_sqlu)
  fix e :: env and d v d'
  assume ok: "newid_ok (e_newid e)" and d: "tables d"
    and s: "(case saveRow c_id (\<lambda>n c. c\<lparr>c_id := n\<rparr>) (e_newid e) c (db_clients d) of (c', rows) \<Rightarrow>
      Inr (c', d\<lparr>db_clients := rows\<rparr>)) = (Inr (v, d') :: (client \<times> dbase) res)"
  have "d' = d\<lparr>db_clients := snd (saveRow c_id (\<lambda>n c. c\<lparr>c_id := n\<rparr>) (e_newid e) c (db_clients d))\<rparr>"
    using s by (auto split: prod.splits)
  then show "tables d' \<and> True"
    using d clients.goodRows_save [OF _ ok, of "db_clients d" c] G_all by (simp add: tables_def goodTables_def)
qed

lemma ens_anyClients: "keeps tables (saveClients cs)"
  unfolding saveClients_def
proof (rule ens_sqlu)
  fix e :: env and d v d'
  assume ok: "newid_ok (e_newid e)" and d: "tables d"
    and s: "(if cs = [] then Inl emptySlice else Inr ((), d\<lparr>db_clients := fold (\<lambda>c rows. snd (saveRow c_id (\<lambda>n c. c\<lparr>c_id := n\<rparr>) (e_newid e) c rows)) cs (db_clients d)\<rparr>))
       = (Inr (v, d') :: (unit \<times> dbase) res)"
  have "goodRows c_id rows \<Longrightarrow> goodRows c_id (fold (\<lambda>c rows. snd (saveRow c_id (\<lambda>n c. c\<lparr>c_id := n\<rparr>) (e_newid e) c rows)) cs rows)" for rows
    by (induction cs arbitrary: rows) (simp_all add: clients.goodRows_save [OF _ ok])
  then show "tables d' \<and> True" using d s G_all by (auto simp: tables_def goodTables_def split: if_splits)
qed

lemma ens_links: "keeps tables (updateLinksWithFixedInbounds cs host)"
  unfolding updateLinksWithFixedInbounds_def Let_def by (intro ens_keepDb keepDb_intros)

lemma ens_findChanges: "keeps tables (findInboundsChanges c f)"
  unfolding findInboundsChanges_def Let_def by (intro ens_keepDb keepDb_intros)

lemma ens_deleteClients: "keeps tables (deleteClients P)"
  unfolding deleteClients_def by (rule ens_sqlx) (auto simp: tables_def goodTables_def intro: goodRows_filter)

lemma ens_saveOne: "keeps tables (saveOne edit data host)"
  unfolding saveOne_def Let_def
  by (intro ens_bind [OF ens_ask(2)] ens_bind [OF ens_links] ens_bind [of _ "if c then bindA (findInboundsChanges x f) h else r" "\<lambda>_. True" for c x f h r]
      ens_bind [OF ens_findChanges] ens_if ens_then ens_anyClient ens_pure TrueI)

lemma ens_bulk: "keeps tables (addBulk data host)" "keeps tables (editBulk data host)" "keeps tables (delBulk data)" "keeps tables (delOne data)"
proof -
  have a: "keeps tables (case acc of (cs, ids) \<Rightarrow> bindA (liftR (deref p)) (\<lambda>c. bindA (liftR (setConfigIdentity c)) (\<lambda>c1.
         bindA (liftR (unmarshalUints (c_inbounds c1))) (\<lambda>is. retA (cs @ [c1], UnionUintArray ids is)))))"
    and ed: "keeps tables (case acc of (cs, ids) \<Rightarrow> bindA (liftR (deref p)) (\<lambda>c. bindA (findInboundsChanges c True) (\<lambda>(c1, is).
         bindA (liftR (setConfigIdentity c1)) (\<lambda>c2. retA (cs @ [c2], if is = [] then ids else UnionUintArray ids is)))))" for acc p
    by (cases acc; auto intro!: ens_bind [OF ens_ask(2)] ens_bind [OF ens_findChanges] ens_pure)+
  have sv: "keeps tables (thenA (saveClients cs) (retA ids))" for cs and ids :: "nat list"
    by (intro ens_then ens_anyClients ens_pure TrueI)
  show "keeps tables (addBulk data host)"
    unfolding addBulk_def
    by (rule ens_bind [OF ens_ask(2)], rule ens_bind [OF ens_foldAny [OF a]])
      (auto intro!: ens_bind [OF ens_links] sv)
  show "keeps tables (editBulk data host)"
    unfolding editBulk_def
    by (rule ens_bind [OF ens_ask(2)], rule ens_bind [OF ens_foldAny [OF ed]])
      (auto intro!: ens_bind [OF ens_links] ens_bind [OF ens_pure(1) [of "\<lambda>_. True"]] sv)
  show "keeps tables (delBulk data)" "keeps tables (delOne data)"
    unfolding delBulk_def delOne_def
    by (intro ens_bind [OF ens_ask(2)] ens_bind [OF ens_foldAny] ens_bind [OF ens_keepDb [OF within_rows(4)]] ens_then ens_deleteClients ens_pure TrueI)+
qed

lemma ens_Clients: "keeps tables (ClientService_Save act data host)"
  by (simp add: ClientService_Save_def ens_saveOne ens_bulk ens_pure)

end

section \<open>Every step\<close>

context rowInv
begin

text \<open>An event is safe when, if it saves clients or bans, it keeps the condition.\<close>

lemma run_keeps: "keeps tables a \<Longrightarrow> newid_ok (e_newid e) \<Longrightarrow> tables (w_db w) \<Longrightarrow> a e w = (r, w') \<Longrightarrow> tables (w_db w')"
  using ensuresD [where J = tables] by blast

lemma step_keeps:
  assumes "panelStep e w ev w'" "newid_ok (e_newid e)" "tables (w_db w)"
    and save: "\<And>act data host. ev = Saved ''clients'' act data \<Longrightarrow> keeps tables (ClientService_Save act data host)"
    and ban: "\<And>i b c now en. ev = Banned i b \<Longrightarrow> c_id c = i \<Longrightarrow> G c \<Longrightarrow> G (banRow now b (\<not> b \<and> en) c)"
  shows "tables (w_db w')"
  using assms(1)
proof (cases rule: panelStep.cases)
  case (saved v obj act data initIds user host r)
  then show ?thesis using run_keeps [OF ens_Save assms(2,3), of obj act data host v initIds user r w'] save by blast
next
  case (banned i b user r)
  then show ?thesis using run_keeps [OF ens_Ban assms(2,3), of i b user r w'] ban by blast
next
  case (depleted r)
  have "keeps tables DepleteJob_Run"
    unfolding DepleteJob_Run_def
    by (intro ens_log ens_bind [OF ens_DepleteClients] ens_if ens_pure TrueI ens_keepDb [OF ApplyUserChanges_keepDb])
  then show ?thesis using run_keeps [OF _ assms(2,3)] depleted by blast
next
  case (counted en r)
  then show ?thesis using run_keeps [OF ens_log [OF ens_SaveStats] assms(2,3)] unfolding StatsJob_Run_def by blast
next
  case (pruned daysAgo age r)
  have "keeps tables (DelStatsJob_Run daysAgo age)"
    unfolding DelStatsJob_Run_def DelOldStats_def by (intro ens_log ens_bind [OF ens_ask(1)] ens_dropRows(6))
  then show ?thesis using run_keeps [OF _ assms(2,3)] pruned by blast
next
  case (checkpointed r)
  have "keeps tables WALCheckpointJob_Run" unfolding WALCheckpointJob_Run_def by (intro ens_log ens_sqlx)
  then show ?thesis using run_keeps [OF _ assms(2,3)] checkpointed by blast
next
  case (coreChecked r)
  then show ?thesis using run_keeps [OF ens_log [OF ens_keepDb [OF keepDb_StartCore]] assms(2,3)] unfolding CheckCoreJob_Run_def by blast
next
  case (coreRestarted r)
  have "within sameDb RestartCore"
    unfolding RestartCore_def StopCore_def by (intro keepDb.within_then within_coreRun keepDb_StartCore)
  then show ?thesis using keepDbD [of RestartCore e w] coreRestarted assms(3) by simp
next
  case (configRestarted js c ks r)
  then show ?thesis using keepDbD [OF keepDb_restart, of c e "w\<lparr>w_jobs := js @ ks\<rparr>"] assms(3) by simp
next
  case (loggedIn layout name pass ip r)
  then show ?thesis using run_keeps [OF ens_Login assms(2,3)] by blast
next
  case (firstUser name pass r)
  then show ?thesis using run_keeps [OF ens_operators(1) assms(2,3)] by blast
next
  case (passChanged i old name new r)
  then show ?thesis using run_keeps [OF ens_operators(2) assms(2,3)] by blast
next
  case (tokenAdded fresh name expiry desc r)
  then show ?thesis using run_keeps [OF ens_AddToken assms(2,3)] by blast
next
  case (tokenDeleted i r)
  then show ?thesis using run_keeps [OF ens_operators(3) assms(2,3)] by blast
next
  case (traffic c')
  then show ?thesis using assms(3) by simp
next
  case queried
  then show ?thesis using assms(3) by (auto simp: readsOnly_def tables_def goodTables_def)
next
  case processRestarted
  then show ?thesis using assms(3) by (simp add: freshProcess_def)
qed

end

interpretation anyRow: freeRows "\<lambda>_. True"
  by unfold_locales simp_all

text \<open>The condition of a ban on one client.\<close>

definition staysBanned :: "nat \<Rightarrow> client \<Rightarrow> bool" where
  "staysBanned i c \<longleftrightarrow> c_id c = i \<longrightarrow> c_banned c \<and> \<not> c_enable c"

interpretation bannedRow: rowInv "staysBanned i"
  by unfold_locales (auto simp: staysBanned_def)

text \<open>Only a save of clients or an unban may lift it.\<close>

definition keepsBan :: "nat \<Rightarrow> event \<Rightarrow> bool" where
  "keepsBan i ev \<longleftrightarrow> (\<forall>act data. ev \<noteq> Saved ''clients'' act data) \<and> ev \<noteq> Banned i False"

lemma reaches_good: "reaches allowed w0 w \<Longrightarrow> goodTables (w_db w0) \<Longrightarrow> goodTables (w_db w)"
proof (induction rule: reaches.induct)
  case (step w ev e w')
  then have "anyRow.tables (w_db w)" by (simp add: anyRow.tables_def)
  with step have "anyRow.tables (w_db w')" by (intro anyRow.step_keeps [OF step(4,3)] anyRow.ens_Clients) simp_all
  then show ?case by (simp add: anyRow.tables_def)
qed


text \<open>C2
  A ban is final until an operator undoes it: from the moment a client is banned and disabled, no job, no
  statistics, no other save, no ban of somebody else, no restart of the core or of the process enables the
  client or lifts its ban; only an unban of that client or a save of clients can.
\<close>

theorem ban_is_final:
  assumes "reaches (keepsBan i) w0 w" "goodTables (w_db w0)"
    and "\<forall>c \<in> set (db_clients (w_db w0)). c_id c = i \<longrightarrow> c_banned c \<and> \<not> c_enable c"
  shows "\<forall>c \<in> set (db_clients (w_db w)). c_id c = i \<longrightarrow> c_banned c \<and> \<not> c_enable c"
proof -
  have "bannedRow.tables i (w_db w)"
    using assms
  proof (induction rule: reaches.induct)
    case start
    then show ?case unfolding bannedRow.tables_def by (simp add: staysBanned_def)
  next
    case (step w ev e w')
    then have ih: "bannedRow.tables i (w_db w)" by blast
    show ?case
      by (rule bannedRow.step_keeps [OF step(4,3) ih])
        (use step(2) in \<open>auto simp: keepsBan_def staysBanned_def banRow_def\<close>)
  qed
  then show ?thesis unfolding bannedRow.tables_def by (simp add: staysBanned_def)
qed

text \<open>One run that both theorems cover.\<close>

lemma quiet_newid: "newid_ok (e_newid quietEnv)"
  unfolding newid_ok_def
proof (intro allI conjI notI)
  fix ids :: "nat list"
  assume "e_newid quietEnv ids \<in> set ids"
  then have "e_newid quietEnv ids \<le> Max (set (0 # ids))" by (intro Max_ge) auto
  then show False by (simp add: quietEnv_def)
qed (simp add: quietEnv_def)

lemma hy2World_tables: "goodTables (w_db hy2World)"
proof -
  have "goodRows c_id (db_clients (w_db hy2World))" using hy2World_ban(3) by (simp add: goodRows_ids)
  moreover have "db_inbounds (w_db hy2World) = [hy2Row]" "i_id hy2Row = 7"
    by (simp_all add: hy2World_def hy2Row_def)
  moreover have "db_tls (w_db hy2World) = [] \<and> db_users (w_db hy2World) = [] \<and> db_tokens (w_db hy2World) = [] \<and>
      db_outbounds (w_db hy2World) = [] \<and> db_endpoints (w_db hy2World) = [] \<and> db_services (w_db hy2World) = []"
    by (simp add: hy2World_def emptyDb_def)
  ultimately show ?thesis by (simp add: goodTables_def goodTagged_def goodRows_def)
qed

lemma one_step: "allowed ev \<Longrightarrow> panelStep quietEnv w ev w' \<Longrightarrow> reaches allowed w w'"
  using reaches.step [OF reaches.start _ quiet_newid] by blast


theorem ban_is_final_witness:
  "\<exists>w'. panelStep quietEnv hy2World Depleted w' \<and> (\<forall>c \<in> set (db_clients (w_db w')). c_id c = 2 \<longrightarrow> c_banned c \<and> \<not> c_enable c)"
proof -
  obtain r w' where "DepleteJob_Run quietEnv hy2World = (r, w')" by fastforce
  then have st: "panelStep quietEnv hy2World Depleted w'" by (rule panelStep.depleted)
  then have "reaches (keepsBan 2) hy2World w'"
    by (intro one_step) (simp_all add: keepsBan_def)
  moreover have "\<forall>c \<in> set (db_clients (w_db hy2World)). c_id c = 2 \<longrightarrow> c_banned c \<and> \<not> c_enable c"
    by (simp add: hy2World_def ann_def eve_def zeroClient_def)
  ultimately have "\<forall>c \<in> set (db_clients (w_db w')). c_id c = 2 \<longrightarrow> c_banned c \<and> \<not> c_enable c"
    using ban_is_final hy2World_tables by blast
  with st show ?thesis by blast
qed

end
