(* ===== verification/LiveJob.thy ===== *)
theory LiveJob
  imports Panel
begin

text \<open>
  The periodic job end to end: resets and depletions in the database, then the live user maps of the running
  Hysteria2 inbounds.
\<close>

section \<open>What the job leaves alone\<close>

definition sameSetup :: "world \<Rightarrow> world \<Rightarrow> bool" where
  "sameSetup w w' \<longleftrightarrow> w_core w' = w_core w \<and> db_inbounds (w_db w') = db_inbounds (w_db w) \<and>
     db_settings (w_db w') = db_settings (w_db w)"

interpretation keepSetup: frame sameSetup
  by unfold_locales (auto simp: sameSetup_def)

lemma setup_sqlu: "(\<And>e d v d'. u e d = Inr (v, d') \<Longrightarrow> db_inbounds d' = db_inbounds d \<and> db_settings d' = db_settings d) \<Longrightarrow> within sameSetup (sqlu u)"
  by (auto simp: within_def sameSetup_def sqlu_def Let_def split: sum.splits)

lemma setup_sqlx: "(\<And>d. db_inbounds (g d) = db_inbounds d \<and> db_settings (g d) = db_settings d) \<Longrightarrow> within sameSetup (sqlx g)"
  unfolding sqlx_def by (rule setup_sqlu) auto

lemma setup_rows: "within sameSetup (rowsWhere t P)"
  by (auto simp: within_def sameSetup_def rowsWhere_def sqlq_def Let_def)

lemma setup_writes: "within sameSetup (saveClients cs)" "within sameSetup (createChanges hs)" "within sameSetup (updateClients P f)"
  "within sameSetup (setLastUpdate t)"
  unfolding saveClients_def createChanges_def updateClients_def setLastUpdate_def
  by (rule setup_sqlu setup_sqlx; auto split: if_splits)+ (simp add: within_def sameSetup_def)

lemma depleteBody_setup: "within sameSetup (depleteBody dt)"
  unfolding depleteBody_def ResetClients_def Let_def
  by (intro keepSetup.within_rules setup_rows setup_writes)

lemma setup_inTx:
  assumes "within sameSetup a"
  shows "within sameSetup (inTx a)"
proof -
  have "sameSetup w (snd (inTx a e w))" for e w
  proof -
    obtain e' w1 where b: "beginTx e w = (e', w1)" by fastforce
    then have w1: "w_core w1 = w_core w" "w_db w1 = w_db w" by (auto simp: beginTx_def)
    obtain r w2 where 2: "a e' w1 = (r, w2)" by fastforce
    have "sameSetup w1 w2" using assms 2 unfolding within_def by (metis snd_conv)
    then have "sameSetup w w2" using w1 by (simp add: sameSetup_def)
    moreover have "w_db (snd (inTx a e w)) = w_db w \<or> w_db (snd (inTx a e w)) = w_db w2" "w_core (snd (inTx a e w)) = w_core w2"
      using commitOr_db [of e' "w_db w" w2] by (auto simp: inTx_def b 2 split: sum.split goerr.split)
    ultimately show ?thesis by (auto simp: sameSetup_def)
  qed
  then show ?thesis by (simp add: within_def)
qed

lemma DepleteClients_setup: "sameSetup w (snd (DepleteClients e w))"
proof -
  obtain r w1 where 1: "inTx (depleteBody (e_now e)) e w = (r, w1)" by fastforce
  then have "sameSetup w w1" using setup_inTx [OF depleteBody_setup [of "e_now e"]] unfolding within_def by (metis snd_conv)
  then show ?thesis
    by (auto simp: DepleteClients_def 1 sameSetup_def split: sum.split goerr.split)
qed

text \<open>A run on a working database, with what it did.\<close>

lemma DepleteClients_run:
  assumes "\<forall>n. \<not> e_dbfail e n" "goodIds (db_clients (w_db w))" "DepleteClients e w = (r, w')"
  obtains ids where "r = Inr ids" "db_clients (w_db w') = map (jobRow (e_now e)) (db_clients (w_db w))" "sameSetup w w'"
    "set ids \<subseteq> (\<Union>c \<in> set (db_clients (w_db w)). set (fst (uintsOf (c_inbounds c))))"
  using assms(3)
proof (cases rule: DepleteClients_cases)
  case failed
  then show ?thesis using assms(1) by simp
next
  case (ran ids w1 w2)
  note rows = depleteBody_rows [OF ran(3), unfolded ran(2), OF assms(2)]
  have inb: "c_inbounds (resetRow dt c) = c_inbounds c" for dt c
    by (simp add: resetRow_def startOnce_def startPeriodic_def renew_def)
  have "set ids \<subseteq> (\<Union>c \<in> set (db_clients (w_db w)). set (fst (uintsOf (c_inbounds c))))"
    using rows by (auto simp: set_unionInbounds inb)
  moreover have "sameSetup w w'"
    using DepleteClients_setup [of w e] assms(3) by simp
  ultimately show ?thesis using that ran(1,4) rows assms(1) by auto
qed

section \<open>Access follows the job\<close>

lemma jobRow_same [simp]:
  "hy2Client (jobRow t c) p = hy2Client c p" "c_inbounds (jobRow t c) = c_inbounds c" "c_id (jobRow t c) = c_id c"
  "attached i (jobRow t c) = attached i c" "pwOf (jobRow t c) = pwOf c" "c_banned (jobRow t c) = c_banned c"
  by (simp_all add: jobRow_def depleteRow_def resetRow_def startOnce_def startPeriodic_def renew_def hy2Client_def attached_def pwOf_def)

lemma jobRow_revives: "c_enable (jobRow t c) \<Longrightarrow> \<not> c_enable c \<Longrightarrow> \<not> c_banned c"
  by (auto simp: jobRow_def depleteRow_def resetRow_def startOnce_def startPeriodic_def renew_def startsOnce_def startsPeriodic_def
      split: if_splits)

lemma uintsOf_ids: "unmarshalUints r = Inr ids \<Longrightarrow> fst (uintsOf r) = ids"
  by (cases "uintsOf r") (auto simp: unmarshalUints_def split: if_splits)

lemma jobRow_hy2: "hy2Client (jobRow t c) = hy2Client c"
  by (simp add: fun_eq_iff)

lemma goodIds_inj: "goodIds cs \<Longrightarrow> x \<in> set cs \<Longrightarrow> y \<in> set cs \<Longrightarrow> c_id x = c_id y \<Longrightarrow> x = y"
  by (auto simp: goodIds_def distinct_map dest: inj_onD)

lemma noChanges: "(if ids = [] then retA () else ApplyUserChanges ids) = ApplyUserChanges ids"
  by (auto simp: fun_eq_iff ApplyUserChanges_def isRunning_def)

lemma DepleteJob_rows:
  assumes "\<forall>n. \<not> e_dbfail e n" "goodIds (db_clients (w_db w))" "DepleteJob_Run e w = (r, w')"
  shows "db_clients (w_db w') = map (jobRow (e_now e)) (db_clients (w_db w))"
proof -
  obtain r1 w1 where 1: "DepleteClients e w = (r1, w1)" by fastforce
  obtain ids where r1: "r1 = Inr ids" and cs: "db_clients (w_db w1) = map (jobRow (e_now e)) (db_clients (w_db w))"
    using DepleteClients_run [OF assms(1,2) 1] by metis
  have "w_db w' = w_db (snd (ApplyUserChanges ids e w1))"
    using assms(3) by (auto simp: DepleteJob_Run_def logErr_def bindA_def 1 r1 noChanges split: prod.splits sum.splits goerr.splits)
  then show ?thesis using cs keepDbD [OF ApplyUserChanges_keepDb] by simp
qed


definition expiredWorld :: world where
  "expiredWorld = hy2World\<lparr>w_db := (w_db hy2World)\<lparr>db_clients := [ann\<lparr>c_expiry := 500\<rparr>, eve]\<rparr>\<rparr>"

lemma expired_simps:
  "db_clients (w_db expiredWorld) = [ann\<lparr>c_expiry := 500\<rparr>, eve]" "db_inbounds (w_db expiredWorld) = [hy2Row]"
  "w_core expiredWorld = w_core hy2World" "db_settings (w_db expiredWorld) = []"
  by (simp_all add: expiredWorld_def hy2World_def emptyDb_def)

lemma expired_row: "\<not> c_enable (jobRow 10000 (ann\<lparr>c_expiry := 500\<rparr>))" "c_enable (ann\<lparr>c_expiry := 500\<rparr>)"
  by (simp_all add: jobRow_def depleteRow_def mustDeplete_def overLimit_def resetRow_def startsOnce_def startsPeriodic_def
      resetDue_def ann_def zeroClient_def)

lemma expired_hyps:
  "goodTables (w_db expiredWorld)" "inboundKeys expiredWorld" "wellFormed (db_clients (w_db expiredWorld))"
  "runsHy2 expiredWorld hy2Row" "pwOf (ann\<lparr>c_expiry := 500\<rparr>) = ''pa''" "pwOf eve = ''pe''" "c_inbounds ann = RText (JArr [JNum 7])"
  "c_inbounds eve = RText (JArr [JNum 7])"
proof -
  have k: "hy2Client (ann\<lparr>c_expiry := 500\<rparr>) ''pa''" "hy2Client eve ''pe''"
    by (simp_all add: hy2Client_def ann_def eve_def hy2Config_def)
  show i: "c_inbounds ann = RText (JArr [JNum 7])" "c_inbounds eve = RText (JArr [JNum 7])" by (simp_all add: ann_def eve_def)
  show "goodTables (w_db expiredWorld)"
    using hy2World_tables by (simp add: goodTables_def expiredWorld_def goodRows_def hy2World_def)
  show "inboundKeys expiredWorld" by (simp add: inboundKeys_def expired_simps)
  show "wellFormed (db_clients (w_db expiredWorld))" using k i by (auto simp: wellFormed_def expired_simps)
  show "runsHy2 expiredWorld hy2Row" using hy2World_ban(1) by (simp add: runsHy2_def expired_simps hy2World_def)
  show "pwOf (ann\<lparr>c_expiry := 500\<rparr>) = ''pa''" "pwOf eve = ''pe''" using k hy2Client_extract(2) by blast+
qed


end
