(* ===== verification/RegistryLaws.thy ===== *)
theory RegistryLaws
  imports Panel
begin

text \<open>
  The registries of the running core follow the tables: after every save of an outbound or an endpoint
  that succeeds, the core runs exactly the rows of the table.  The argument is made once, for any table with
  unique tags and any registry, and interpreted for both; a save that fails is another matter, since
  only the table is rolled back.
\<close>

section \<open>A table and its registry\<close>

locale registry = taggedTable +
  fixes rows :: "dbase \<Rightarrow> 'a list"
    and putRows :: "'a list \<Rightarrow> dbase \<Rightarrow> dbase"
    and reg :: "core \<Rightarrow> (string \<times> raw) list"
    and putReg :: "(string \<times> raw) list \<Rightarrow> core \<Rightarrow> core"
    and conf :: "'a \<Rightarrow> raw res"
    and kind :: string
  assumes rows_put: "rows (putRows rs d) = rs"
    and reg_put: "reg (putReg x c) = x" "co_running (putReg x c) = co_running c"
    and conf_setKey: "conf (setKey n r) = conf r"
begin

definition follows :: "world \<Rightarrow> bool" where
  "follows w \<longleftrightarrow> (\<forall>t c. map_of (reg (w_core w)) t = Some c \<longleftrightarrow> (\<exists>r \<in> set (rows (w_db w)). tagOf r = t \<and> conf r = Inr c))"

definition put :: "bool \<Rightarrow> 'a \<Rightarrow> unit act" where
  "put edit r = thenA (putInCore edit (conf r) (oneTag rows key tagOf (key r)) (removeFrom reg putReg) (addTo kind reg putReg))
     (bindA (sqlu (\<lambda>e d. bindR (saveTagged key setKey tagOf (e_newid e) r (rows d)) (\<lambda>(r', rs). Inr (r', putRows rs d)))) (\<lambda>_. retA ()))"

definition drop :: "string \<Rightarrow> unit act" where
  "drop tag = thenA (dropFromCore tag (removeFrom reg putReg))
     (sqlx (\<lambda>d. putRows (filter (\<lambda>r. tagOf r \<noteq> tag) (rows d)) d))"

lemma remove_run:
  assumes "ignoreInvalid (removeFrom reg putReg t) e w = (Inr u, w')" "co_running (w_core w)"
  shows "w_db w' = w_db w \<and> co_running (w_core w') \<and> map_of (reg (w_core w')) = (map_of (reg (w_core w)))(t := None)"
  using assms
  by (auto simp: ignoreInvalid_def removeFrom_def reg_put errInvalid_def Let_def delete_conv fun_eq_iff split: if_splits)

lemma add_run:
  assumes "addTo kind reg putReg c e w = (Inr u, w')"
  shows "w_db w' = w_db w \<and> map_of (reg (w_core w')) = (map_of (reg (w_core w)))(confStr c ''tag'' \<mapsto> c)"
  using assms by (auto simp: addTo_def reg_put update_conv split: if_splits)

text \<open>What the core runs after the swap, in terms of the row the edit replaces.\<close>

lemma putInCore_run:
  assumes "putInCore edit (conf r) (oneTag rows key tagOf (key r)) (removeFrom reg putReg) (addTo kind reg putReg) e w = (Inr u, w')"
    and "co_running (w_core w)"
  obtains c where "conf r = Inr c" "w_db w' = w_db w"
    "map_of (reg (w_core w')) =
      (if edit then (map_of (reg (w_core w)))(case filter (\<lambda>x. key x = key r) (rows (w_db w)) of [] \<Rightarrow> [] | x # _ \<Rightarrow> tagOf x := None)
       else map_of (reg (w_core w)))(confStr c ''tag'' \<mapsto> c)"
proof -
  obtain c where c: "conf r = Inr c"
    and run: "thenA (if edit then bindA (oneTag rows key tagOf (key r)) (\<lambda>t. ignoreInvalid (removeFrom reg putReg t)) else retA ())
      (addTo kind reg putReg c) e w = (Inr u, w')"
    using assms by (cases "conf r") (auto simp: putInCore_def isRunning_def bindA_Inr)
  obtain v w1 where 1: "(if edit then bindA (oneTag rows key tagOf (key r)) (\<lambda>t. ignoreInvalid (removeFrom reg putReg t)) else retA ()) e w = (Inr v, w1)"
    and 2: "addTo kind reg putReg c e w1 = (Inr u, w')"
    using run by (auto simp: thenA_def bindA_Inr)
  have "w_db w1 = w_db w \<and> map_of (reg (w_core w1)) =
      (if edit then (map_of (reg (w_core w)))(case filter (\<lambda>x. key x = key r) (rows (w_db w)) of [] \<Rightarrow> [] | x # _ \<Rightarrow> tagOf x := None)
       else map_of (reg (w_core w)))"
  proof (cases edit)
    case False
    with 1 show ?thesis by simp
  next
    case True
    then obtain t w0 where t: "oneTag rows key tagOf (key r) e w = (Inr t, w0)" "ignoreInvalid (removeFrom reg putReg t) e w0 = (Inr v, w1)"
      using 1 by (auto simp: bindA_Inr)
    have "t = (case filter (\<lambda>x. key x = key r) (rows (w_db w)) of [] \<Rightarrow> [] | x # _ \<Rightarrow> tagOf x)" "w_db w0 = w_db w" "w_core w0 = w_core w"
      using t(1) by (auto simp: oneTag_def bindA_Inr dest!: rowsWhere_Inr)
    with remove_run [OF t(2)] assms(2) True show ?thesis by simp
  qed
  with add_run [OF 2] c that show ?thesis by simp
qed

lemma put_follows:
  assumes "put edit r e w = (Inr u, w')" "co_running (w_core w)" "follows w" "goodTagged key tagOf (rows (w_db w))" "newid_ok (e_newid e)"
    and "\<And>c. conf r = Inr c \<Longrightarrow> confStr c ''tag'' = tagOf r"
    and "if edit then key r \<in> key ` set (rows (w_db w)) else key r = 0"
  shows "follows w'"
proof -
  obtain v w1 where 1: "putInCore edit (conf r) (oneTag rows key tagOf (key r)) (removeFrom reg putReg) (addTo kind reg putReg) e w = (Inr v, w1)"
    and 2: "bindA (sqlu (\<lambda>e d. bindR (saveTagged key setKey tagOf (e_newid e) r (rows d)) (\<lambda>(r', rs). Inr (r', putRows rs d)))) (\<lambda>_. retA ()) e w1 = (Inr u, w')"
    using assms(1) unfolding put_def by (auto simp: thenA_def bindA_Inr)
  obtain c where c: "conf r = Inr c" "w_db w1 = w_db w" and reg: "map_of (reg (w_core w1)) =
      (if edit then (map_of (reg (w_core w)))(case filter (\<lambda>x. key x = key r) (rows (w_db w)) of [] \<Rightarrow> [] | x # _ \<Rightarrow> tagOf x := None)
       else map_of (reg (w_core w)))(tagOf r \<mapsto> c)"
    using putInCore_run [OF 1 assms(2)] assms(6) by metis
  obtain r' rs where s: "saveTagged key setKey tagOf (e_newid e) r (rows (w_db w)) = Inr (r', rs)"
    and w': "rows (w_db w') = rs" "w_core w' = w_core w1"
    using 2 c(2) by (auto simp: run_sqlu bindR_eq_Inr rows_put)
  have sv: "saveRow key setKey (e_newid e) r (rows (w_db w)) = (r', rs)" and free: "\<forall>x \<in> set (rows (w_db w)). tagOf x = tagOf r \<longrightarrow> key x = key r"
    using s by (auto simp: saveTagged_def split: if_splits)
  have r': "tagOf r' = tagOf r" "conf r' = Inr c" "key r \<noteq> 0 \<Longrightarrow> r' = r"
    using sv c(1) by (auto simp: saveRow_def Let_def tag_setKey conf_setKey split: if_splits)
  note mem = saveRow_rows [OF sv]
  have ids: "distinct (map key (rows (w_db w)))" "\<forall>x \<in> set (rows (w_db w)). key x \<noteq> 0"
    and tags: "\<And>x y. x \<in> set (rows (w_db w)) \<Longrightarrow> y \<in> set (rows (w_db w)) \<Longrightarrow> tagOf x = tagOf y \<Longrightarrow> key x = key y"
    using assms(4) unfolding goodTagged_def goodRows_def by blast+
  have old: "map_of (reg (w_core w)) t = Some d \<longleftrightarrow> (\<exists>x \<in> set (rows (w_db w)). tagOf x = t \<and> conf x = Inr d)" for t d
    using assms(3) by (simp add: follows_def)
  have "map_of (reg (w_core w1)) t = Some d \<longleftrightarrow> (\<exists>x \<in> set rs. tagOf x = t \<and> conf x = Inr d)" for t d
  proof (cases edit)
    case True
    then obtain r0 where r0: "r0 \<in> set (rows (w_db w))" "key r0 = key r" using assms(7) by auto
    then have eq: "r' = r" and one: "filter (\<lambda>x. key x = key r) (rows (w_db w)) = [r0]"
      using r'(3) ids filter_key [OF ids(1) r0(1)] by auto
    have uniq: "x = r0" if "x \<in> set (rows (w_db w))" "key x = key r" for x
      using that r0 ids(1) unfolding distinct_map by (metis inj_onD)
    have reg1: "map_of (reg (w_core w1)) t = (if t = tagOf r then Some c else if t = tagOf r0 then None else map_of (reg (w_core w)) t)"
      unfolding reg using True one by simp
    have in_rs: "x \<in> set rs \<longleftrightarrow> x = r \<or> x \<in> set (rows (w_db w)) \<and> key x \<noteq> key r" for x using mem eq by blast
    have own: "x = r" if "x \<in> set rs" "tagOf x = tagOf r" for x using that free in_rs by blast
    have gone: "tagOf x \<noteq> tagOf r0" if "x \<in> set rs" "tagOf x \<noteq> tagOf r" for x
      using that tags [OF _ r0(1)] r0(2) in_rs by metis
    have kept: "x \<in> set rs \<longleftrightarrow> x \<in> set (rows (w_db w))" if "tagOf x \<noteq> tagOf r" "tagOf x \<noteq> tagOf r0" for x
      using that uniq [of x] in_rs [of x] by auto
    consider "t = tagOf r" | "t \<noteq> tagOf r" "t = tagOf r0" | "t \<noteq> tagOf r" "t \<noteq> tagOf r0" by blast
    then show ?thesis
    proof cases
      case 1
      then show ?thesis unfolding reg1 using own c(1) in_rs by fastforce
    next
      case 2
      then have "\<not> (\<exists>x \<in> set rs. tagOf x = t \<and> conf x = Inr d)" using gone by metis
      then show ?thesis unfolding reg1 using 2 by simp
    next
      case 3
      then show ?thesis unfolding reg1 using kept old [of t d] by auto
    qed
  next
    case False
    then have k0: "key r = 0" "key r' = e_newid e (map key (rows (w_db w)))"
      using assms(7) sv by (auto simp: saveRow_def Let_def key_setKey)
    then have k: "key r = 0" "key r' \<notin> key ` set (rows (w_db w))"
      using assms(5) unfolding newid_ok_def by (metis list.set_map)+
    have "tagOf x \<noteq> tagOf r" if "x \<in> set (rows (w_db w))" for x using free ids(2) k(1) that by auto
    moreover have "x \<in> set rs \<longleftrightarrow> x = r' \<or> x \<in> set (rows (w_db w))" for x using mem k(2) by (metis imageI)
    ultimately show ?thesis unfolding reg using False old [of t d] r' by auto
  qed
  then show ?thesis by (simp add: follows_def w')
qed

lemma drop_follows:
  assumes "drop tag e w = (Inr u, w')" "co_running (w_core w)" "follows w"
  shows "follows w'"
proof -
  obtain w1 where 1: "ignoreInvalid (removeFrom reg putReg tag) e w = (Inr (), w1)"
    and 2: "w_core w' = w_core w1" "rows (w_db w') = filter (\<lambda>r. tagOf r \<noteq> tag) (rows (w_db w1))"
    using assms(1,2)
    by (auto simp: drop_def dropFromCore_def isRunning_def thenA_def bindA_Inr sqlx_def sqlu_def Let_def rows_put split: if_splits)
  show ?thesis
    using remove_run [OF 1 assms(2)] 2 assms(3) by (auto simp: follows_def)
qed

end

interpretation outboundReg: registry o_id "\<lambda>n x. x\<lparr>o_id := n\<rparr>" o_tag db_outbounds "\<lambda>rs d. d\<lparr>db_outbounds := rs\<rparr>"
    co_outbounds "\<lambda>x c. c\<lparr>co_outbounds := x\<rparr>" Outbound_MarshalJSON "''outbound''"
  by unfold_locales (simp_all add: Outbound_MarshalJSON_def)

interpretation endpointReg: registry p_id "\<lambda>n x. x\<lparr>p_id := n\<rparr>" p_tag db_endpoints "\<lambda>rs d. d\<lparr>db_endpoints := rs\<rparr>"
    co_endpoints "\<lambda>x c. c\<lparr>co_endpoints := x\<rparr>" Endpoint_MarshalJSON "''endpoint''"
  by unfold_locales (simp_all add: Endpoint_MarshalJSON_def)

section \<open>Outbounds and endpoints\<close>

text \<open>The configuration of a submitted row carries the row's tag.\<close>

lemma confStr_member: "map_of d k = Some (JStr s) \<Longrightarrow> confStr (RText (JObj d)) k = s"
  by (simp add: confStr_def oget_def strOr0_def)

lemma outbound_tag:
  assumes "data = RText (JObj m)" "isDoc (JObj m)" "distinct (map fst m)" "Outbound_UnmarshalJSON data = Inr x" "Outbound_MarshalJSON x = Inr c"
  shows "confStr c ''tag'' = o_tag x"
proof -
  let ?ks = "[''id'', ''type'', ''tag'']"
  have o: "o_options x = RText (JObj (fold odel ?ks m))"
    using assms(1,4) remaining_Some [OF assms(2), of ?ks] by (auto simp: Outbound_UnmarshalJSON_def nilObj_def Let_def bindR_eq_Inr)
  obtain d where d: "Outbound_MarshalJSON x = Inr (RText (JObj d))"
    and k: "\<And>k. map_of d k = (case if k \<in> set ?ks then None else map_of m k of Some v \<Rightarrow> Some v
      | None \<Rightarrow> Option.bind (map_of [(''type'', JStr (o_type x)), (''tag'', JStr (o_tag x))] k) toDoc)"
    using marshal_stored [OF assms(2,3) o, of "[(''type'', JStr (o_type x)), (''tag'', JStr (o_tag x))]"]
    unfolding Outbound_MarshalJSON_def by fastforce
  have "map_of d ''tag'' = Some (JStr (o_tag x))" using k [of "''tag''"] by simp
  then show ?thesis using d assms(5) confStr_member by simp
qed

lemma endpoint_tag:
  assumes "data = RText (JObj m)" "isDoc (JObj m)" "distinct (map fst m)" "Endpoint_UnmarshalJSON data = Inr x" "Endpoint_MarshalJSON x = Inr c"
  shows "confStr c ''tag'' = p_tag x"
proof -
  let ?ks = "[''id'', ''type'', ''tag'', ''ext'']" and ?c = "[(''type'', JStr (if p_type x = ''warp'' then ''wireguard'' else p_type x)), (''tag'', JStr (p_tag x))]"
  have o: "p_options x = RText (JObj (fold odel ?ks m))"
    using assms(1,4) remaining_Some [OF assms(2), of ?ks] by (auto simp: Endpoint_UnmarshalJSON_def nilObj_def Let_def bindR_eq_Inr)
  obtain d where d: "Endpoint_MarshalJSON x = Inr (RText (JObj d))"
    and k: "\<And>k. map_of d k = (case if k \<in> set ?ks then None else map_of m k of Some v \<Rightarrow> Some v | None \<Rightarrow> Option.bind (map_of ?c k) toDoc)"
    using marshal_stored [OF assms(2,3) o, of ?c] unfolding Endpoint_MarshalJSON_def by fastforce
  have "map_of d ''tag'' = Some (JStr (p_tag x))" using k [of "''tag''"] by simp
  then show ?thesis using d assms(5) confStr_member by simp
qed

lemma submitted_object: "Outbound_UnmarshalJSON data = Inr x \<Longrightarrow> \<exists>m. data = RText (JObj m)"
  "Endpoint_UnmarshalJSON data = Inr y \<Longrightarrow> \<exists>m. data = RText (JObj m)"
  unfolding Outbound_UnmarshalJSON_def Endpoint_UnmarshalJSON_def nilObj_def mustStr_def must_def Let_def oget_def
  by (cases data rule: unmarshalObj.cases; simp)+

lemma OutboundService_put:
  "act = ''new'' \<or> act = ''edit'' \<Longrightarrow> OutboundService_Save act data =
     bindA (liftR (Outbound_UnmarshalJSON data)) (\<lambda>x. outboundReg.put (act = ''edit'') x)"
  by (simp add: OutboundService_Save_def outboundReg.put_def saveOutbound_def AddOutbound_def RemoveOutbound_def)

text \<open>C10
  The core runs the table: after a save of an outbound that succeeds while the core runs, an outbound is
  registered in the core under a tag with a configuration if and only if the table has a row with that tag
  and that configuration, provided this was so before.
\<close>

theorem outbounds_follow_table:
  assumes "OutboundService_Save act data e w = (Inr (), w')" "co_running (w_core w)" "goodTables (w_db w)" "newid_ok (e_newid e)"
    and "\<forall>t c. map_of (co_outbounds (w_core w)) t = Some c \<longleftrightarrow> (\<exists>r \<in> set (db_outbounds (w_db w)). o_tag r = t \<and> Outbound_MarshalJSON r = Inr c)"
    and "\<forall>m. data = RText (JObj m) \<longrightarrow> isDoc (JObj m) \<and> distinct (map fst m)"
    and "\<forall>x. Outbound_UnmarshalJSON data = Inr x \<longrightarrow> (if act = ''edit'' then o_id x \<in> o_id ` set (db_outbounds (w_db w)) else o_id x = 0)"
  shows "\<forall>t c. map_of (co_outbounds (w_core w')) t = Some c \<longleftrightarrow> (\<exists>r \<in> set (db_outbounds (w_db w')). o_tag r = t \<and> Outbound_MarshalJSON r = Inr c)"
proof -
  have f: "outboundReg.follows w" using assms(5) by (simp add: outboundReg.follows_def)
  have "outboundReg.follows w'"
  proof (cases "act = ''new'' \<or> act = ''edit''")
    case True
    then obtain x where x: "Outbound_UnmarshalJSON data = Inr x" and run: "outboundReg.put (act = ''edit'') x e w = (Inr (), w')"
      using assms(1) OutboundService_put [OF True, of data] by (cases "Outbound_UnmarshalJSON data") (auto simp: bindA_def)
    obtain m where "data = RText (JObj m)" using submitted_object(1) x by blast
    then have tag: "confStr c ''tag'' = o_tag x" if "Outbound_MarshalJSON x = Inr c" for c
      using outbound_tag x that assms(6) by blast
    show ?thesis
      by (rule outboundReg.put_follows [OF run assms(2) f _ assms(4) tag])
        (use assms(3,7) x in \<open>simp_all add: goodTables_def\<close>)
  next
    case False
    then obtain tag where "outboundReg.drop tag e w = (Inr (), w')"
      using assms(1) by (auto simp: OutboundService_Save_def outboundReg.drop_def RemoveOutbound_def bindA_Inr split: if_splits)
    then show ?thesis using outboundReg.drop_follows assms(2) f by blast
  qed
  then show ?thesis by (simp add: outboundReg.follows_def)
qed

text \<open>The same for endpoints, those WARP registers on creation aside.\<close>

lemma endpoints_follow_table:
  assumes "EndpointService_Save v act data e w = (Inr (), w')" "co_running (w_core w)" "goodTables (w_db w)" "newid_ok (e_newid e)"
    and "\<forall>t c. map_of (co_endpoints (w_core w)) t = Some c \<longleftrightarrow> (\<exists>r \<in> set (db_endpoints (w_db w)). p_tag r = t \<and> Endpoint_MarshalJSON r = Inr c)"
    and "\<forall>m. data = RText (JObj m) \<longrightarrow> isDoc (JObj m) \<and> distinct (map fst m)"
    and "\<forall>x. Endpoint_UnmarshalJSON data = Inr x \<longrightarrow>
      (if act = ''edit'' then p_id x \<in> p_id ` set (db_endpoints (w_db w)) else p_id x = 0 \<and> p_type x \<noteq> ''warp'')"
  shows "\<forall>t c. map_of (co_endpoints (w_core w')) t = Some c \<longleftrightarrow> (\<exists>r \<in> set (db_endpoints (w_db w')). p_tag r = t \<and> Endpoint_MarshalJSON r = Inr c)"
proof -
  have f: "endpointReg.follows w" using assms(5) by (simp add: endpointReg.follows_def)
  have "endpointReg.follows w'"
  proof (cases "act = ''new'' \<or> act = ''edit''")
    case True
    then obtain x y w1 where x: "Endpoint_UnmarshalJSON data = Inr x" and wrp: "warpStep v (act = ''edit'') x e w = (Inr y, w1)"
      and run: "endpointReg.put (act = ''edit'') y e w1 = (Inr (), w')"
      using assms(1) by (cases "Endpoint_UnmarshalJSON data")
        (auto simp: EndpointService_Save_def endpointReg.put_def saveEndpoint_def AddEndpoint_def RemoveEndpoint_def bindA_Inr)
    have y: "y = x" "w_db w1 = w_db w" "w_core w1 = w_core w"
      using wrp assms(7) x by (auto simp: warpStep_def oldLicense_def bindA_Inr sqlq_def Let_def split: if_splits)
    obtain m where "data = RText (JObj m)" using submitted_object(2) x by blast
    then have tag: "confStr c ''tag'' = p_tag y" if "Endpoint_MarshalJSON y = Inr c" for c
      using endpoint_tag x that assms(6) y(1) by blast
    show ?thesis
      by (rule endpointReg.put_follows [OF run _ _ _ assms(4) tag])
        (use assms(2,3,7) x y f in \<open>simp_all add: goodTables_def endpointReg.follows_def split: if_splits\<close>)
  next
    case False
    then obtain tag where "endpointReg.drop tag e w = (Inr (), w')"
      using assms(1) by (auto simp: EndpointService_Save_def endpointReg.drop_def RemoveEndpoint_def bindA_Inr split: if_splits)
    then show ?thesis using endpointReg.drop_follows assms(2) f by blast
  qed
  then show ?thesis by (simp add: endpointReg.follows_def)
qed

section \<open>A refused save\<close>

text \<open>C19
  A save that is refused is not undone in the core: a new outbound under a tag that is taken is answered
  with an error and leaves the table as it was, but from then on the core runs the refused configuration
  in place of the stored one.
\<close>

theorem refused_outbound_runs:
  assumes "ConfigService_Save v ''outbounds'' ''new'' data ids user host e w = (r, w')" "co_running (w_core w)"
    and "\<forall>n. \<not> e_dbfail e n" "\<forall>c. e_create e ''outbound'' c"
    and "Outbound_UnmarshalJSON data = Inr x" "Outbound_MarshalJSON x = Inr c" "confStr c ''tag'' = o_tag x" "o_id x = 0"
    and "\<exists>y \<in> set (db_outbounds (w_db w)). o_tag y = o_tag x \<and> o_id y \<noteq> 0"
  shows "r = Inl uniqueErr \<and> w_db w' = w_db w \<and> map_of (co_outbounds (w_core w')) (o_tag x) = Some c"
proof -
  let ?w1 = "w\<lparr>w_stmt := Suc (w_stmt w)\<rparr>"
  let ?w2 = "?w1\<lparr>w_core := (w_core w)\<lparr>co_outbounds := AList.update (o_tag x) c (co_outbounds (w_core w))\<rparr>\<rparr>"
  have taken: "\<exists>y \<in> set (db_outbounds (w_db w)). o_tag y = o_tag x \<and> o_id y \<noteq> o_id x" using assms(8,9) by auto
  have sv: "saveOutbound x e ?w2 = (Inl uniqueErr, ?w2\<lparr>w_stmt := Suc (w_stmt ?w2)\<rparr>)"
    using taken assms(3) by (simp add: saveOutbound_def sqlu_def saveTagged_def Let_def)
  have "putInCore False (Outbound_MarshalJSON x) t RemoveOutbound AddOutbound e ?w1 = (Inr (), ?w2)" for t
    using assms(2,4,6,7) by (simp add: putInCore_def isRunning_def AddOutbound_def addTo_def)
  then have "OutboundService_Save ''new'' data e ?w1 = (Inl uniqueErr, ?w2\<lparr>w_stmt := Suc (w_stmt ?w2)\<rparr>)"
    using sv assms(5) by (simp add: OutboundService_Save_def)
  then have "saveBody v ''outbounds'' ''new'' data ids user host e ?w1 = (Inl uniqueErr, ?w2\<lparr>w_stmt := Suc (w_stmt ?w2)\<rparr>)"
    by (simp add: saveBody_def saveObject_def)
  then have "ConfigService_Save v ''outbounds'' ''new'' data ids user host e w = (Inl uniqueErr, ?w2\<lparr>w_stmt := Suc (w_stmt ?w2), w_db := w_db w\<rparr>)"
    using assms(3) by (simp add: ConfigService_Save_def inTx_def beginTx_def uniqueErr_def)
  then show ?thesis using assms(1) by (auto simp: update_conv)
qed

definition upData :: raw where
  "upData = RText (JObj [(''type'', JStr ''socks''), (''tag'', JStr ''up''), (''server'', JStr ''10.0.0.2'')])"

definition upRow :: outbound where
  "upRow = \<lparr>o_id = 0, o_type = ''socks'', o_tag = ''up'', o_options = RText (JObj [(''server'', JStr ''10.0.0.2'')])\<rparr>"

definition upConf :: raw where
  "upConf = RText (JObj [(''type'', JStr ''socks''), (''tag'', JStr ''up''), (''server'', JStr ''10.0.0.2'')])"

lemma up_simps:
  "Outbound_UnmarshalJSON upData = Inr upRow" "Outbound_MarshalJSON upRow = Inr upConf" "confStr upConf ''tag'' = ''up''"
  by (simp_all add: upData_def upRow_def upConf_def Outbound_UnmarshalJSON_def Outbound_MarshalJSON_def nilObj_def oget_def mustStr_def must_def
      uintOr0_def strOr0_def remaining_def marshal_def addRest_def confStr_def Let_def)

lemma quiet_create: "e_create quietEnv k c"
  by (simp add: quietEnv_def)

theorem refused_outbound_runs_witness:
  "\<exists>w'. ConfigService_Save noWarp ''outbounds'' ''new'' upData [] ''admin'' ''h'' quietEnv
      (hy2World\<lparr>w_db := (w_db hy2World)\<lparr>db_outbounds := [upRow\<lparr>o_id := 4, o_options := RNil\<rparr>]\<rparr>\<rparr>) = (Inl uniqueErr, w') \<and>
     map_of (co_outbounds (w_core w')) ''up'' = Some upConf"
proof -
  let ?w = "hy2World\<lparr>w_db := (w_db hy2World)\<lparr>db_outbounds := [upRow\<lparr>o_id := 4, o_options := RNil\<rparr>]\<rparr>\<rparr>"
  obtain r w' where r: "ConfigService_Save noWarp ''outbounds'' ''new'' upData [] ''admin'' ''h'' quietEnv ?w = (r, w')" by fastforce
  have run: "co_running (w_core ?w)" by (simp add: hy2World_def)
  have t: "confStr upConf ''tag'' = o_tag upRow" "o_id upRow = 0" "o_tag upRow = ''up''" using up_simps(3) by (simp_all add: upRow_def)
  have y: "\<exists>y \<in> set (db_outbounds (w_db ?w)). o_tag y = o_tag upRow \<and> o_id y \<noteq> 0" by simp
  have d: "\<forall>n. \<not> e_dbfail quietEnv n" "\<forall>c. e_create quietEnv ''outbound'' c" by (simp_all add: quiet_create)
  from refused_outbound_runs [OF r run d up_simps(1,2) t(1,2) y] r t(3) show ?thesis by auto
qed

theorem outbounds_follow_table_witness:
  "\<exists>w'. OutboundService_Save ''new'' upData quietEnv hy2World = (Inr (), w') \<and>
     (\<forall>t c. map_of (co_outbounds (w_core w')) t = Some c \<longleftrightarrow> (\<exists>r \<in> set (db_outbounds (w_db w')). o_tag r = t \<and> Outbound_MarshalJSON r = Inr c))"
proof -
  have none: "db_outbounds (w_db hy2World) = []" "co_outbounds (w_core hy2World) = []" "co_running (w_core hy2World)"
    by (simp_all add: hy2World_def stoppedCore_def emptyDb_def)
  have "\<exists>w'. OutboundService_Save ''new'' upData quietEnv hy2World = (Inr (), w')"
    by (simp add: OutboundService_Save_def up_simps putInCore_def isRunning_def AddOutbound_def addTo_def none quiet_create thenA_def
        bindA_def saveOutbound_def sqlu_def saveTagged_def saveRow_def Let_def)
  then obtain w' where w': "OutboundService_Save ''new'' upData quietEnv hy2World = (Inr (), w')" by blast
  have j: "\<forall>m. upData = RText (JObj m) \<longrightarrow> isDoc (JObj m) \<and> distinct (map fst m)" by (simp add: upData_def)
  have x: "\<forall>x. Outbound_UnmarshalJSON upData = Inr x \<longrightarrow>
      (if ''new'' = ''edit'' then o_id x \<in> o_id ` set (db_outbounds (w_db hy2World)) else o_id x = 0)"
    by (simp add: up_simps) (simp add: upRow_def)
  have f: "\<forall>t c. map_of (co_outbounds (w_core hy2World)) t = Some c \<longleftrightarrow>
      (\<exists>r \<in> set (db_outbounds (w_db hy2World)). o_tag r = t \<and> Outbound_MarshalJSON r = Inr c)" by (simp add: none)
  show ?thesis using outbounds_follow_table [OF w' none(3) hy2World_tables quiet_newid f j x] w' by blast
qed

end
