(* ===== verification/SubService.thy ===== *)
theory SubService
  imports Panel LinkToJson
begin

text \<open>
  The subscription server: \<open>sub/linkService.go\<close>, \<open>sub/subService.go\<close> and \<open>sub/jsonService.go\<close>.
  Parameters: the HTTP client that fetches external subscriptions (\<open>http\<close>), and the formatting of a quotient
  of floating-point numbers with two decimals (\<open>fmt2\<close>).
\<close>

section \<open>Links\<close>

text \<open>A \<open>Link\<close> of the client's column; a member that is not a string is an error of the decoder.\<close>

record sublink =
  sl_type :: string
  sl_remark :: string
  sl_uri :: string

definition decodeSublink :: "jv \<Rightarrow> sublink res" where
  "decodeSublink v = (case v of
       JObj m \<Rightarrow> bindR (field m ''type'' asStr []) (\<lambda>t. bindR (field m ''remark'' asStr []) (\<lambda>r. bindR (field m ''uri'' asStr []) (\<lambda>u.
         Inr \<lparr>sl_type = t, sl_remark = r, sl_uri = u\<rparr>)))
     | JNull \<Rightarrow> Inr \<lparr>sl_type = [], sl_remark = [], sl_uri = []\<rparr>
     | _ \<Rightarrow> jsonErr)"

fun unmarshalSublinks :: "raw \<Rightarrow> sublink list res" where
  "unmarshalSublinks (RText (JArr vs)) = mapR decodeSublink vs"
| "unmarshalSublinks (RText JNull) = Inr []"
| "unmarshalSublinks _ = jsonErr"

text \<open>The remark of a vmess link sits inside its payload; a payload without one panics.\<close>

definition addClientInfo :: "string \<Rightarrow> string \<Rightarrow> string res" where
  "addClientInfo uri info =
     (if info = [] then Inr uri
      else case split uri ''://'' of
        protocol # payload # rest \<Rightarrow>
          (if protocol = ''vmess'' then
             (case bindR (B64StrToByte payload) (\<lambda>t. unmarshalObj (jparse t)) of
                Inl x \<Rightarrow> Inr uri
              | Inr m \<Rightarrow> bindR (mustStr (oget (nilObj m) ''ps'')) (\<lambda>ps.
                  Inr (''vmess://'' @ ByteToB64Str (jindent 0 (JObj (oset ''ps'' (JStr (ps @ info)) (nilObj m)))))))
           else Inr (uri @ info))
      | _ \<Rightarrow> Inr uri)"

definition linkLines :: "(string \<Rightarrow> string option) \<Rightarrow> string \<Rightarrow> string \<Rightarrow> sublink \<Rightarrow> string list res" where
  "linkLines http types info l =
     (if sl_type l = ''external'' then Inr [sl_uri l]
      else if sl_type l = ''sub'' then Inr (split (GetExternalLink http (sl_uri l)) [CHR 0x0A])
      else if sl_type l = ''local'' \<and> types = ''all'' then bindR (addClientInfo (sl_uri l) info) (\<lambda>u. Inr [u])
      else Inr [])"

text \<open>A column that does not decode gives no links.\<close>

definition GetLinks :: "(string \<Rightarrow> string option) \<Rightarrow> raw \<Rightarrow> string \<Rightarrow> string \<Rightarrow> string list res" where
  "GetLinks http linkJson types info = (case unmarshalSublinks linkJson of Inl x \<Rightarrow> Inr []
     | Inr ls \<Rightarrow> bindR (mapR (linkLines http types info) ls) (\<lambda>lss. Inr (concat lss)))"

section \<open>The list of links\<close>

definition getClientBySubId :: "string \<Rightarrow> client act" where
  "getClientBySubId subId = firstWhere db_clients (\<lambda>c. c_enable c \<and> c_name c = subId)"

text \<open>A setting whose read fails is the zero value.\<close>

definition dropErr :: "'a \<Rightarrow> 'a act \<Rightarrow> 'a act" where
  "dropErr z a = (\<lambda>e w. case a e w of (Inl (Err m), w') \<Rightarrow> (Inr z, w') | r \<Rightarrow> r)"

definition getClientHeaders :: "client \<Rightarrow> string list act" where
  "getClientHeaders c = bindA (dropErr 0 GetSubUpdates) (\<lambda>n. retA (GetHeaders c n))"

definition kilo :: int where
  "kilo = 1024"

text \<open>The last unit is \<open>EB\<close> for what are petabytes.\<close>

definition formatTraffic :: "(int \<Rightarrow> int \<Rightarrow> string) \<Rightarrow> int \<Rightarrow> string" where
  "formatTraffic fmt2 n =
     (if n < kilo then fmt2 n 1 @ ''B''
      else if n < kilo ^ 2 then fmt2 n kilo @ ''KB''
      else if n < kilo ^ 3 then fmt2 n (kilo ^ 2) @ ''MB''
      else if n < kilo ^ 4 then fmt2 n (kilo ^ 3) @ ''GB''
      else if n < kilo ^ 5 then fmt2 n (kilo ^ 4) @ ''TB''
      else fmt2 n (kilo ^ 5) @ ''EB'')"

definition getClientInfo :: "(int \<Rightarrow> int \<Rightarrow> string) \<Rightarrow> int \<Rightarrow> client \<Rightarrow> string" where
  "getClientInfo fmt2 now c =
     (let vol = wrap64 (c_volume c - wrap64 (c_up c + c_down c));
          r1 = (if vol > 0 then [formatTraffic fmt2 vol @ [CHR 0xF0, CHR 0x9F, CHR 0x93, CHR 0x8A]] else []);
          r2 = (if c_expiry c > 0 then [itoa (goDiv (wrap64 (c_expiry c - now)) 86400) @ ''Days'' @ [CHR 0xE2, CHR 0x8F, CHR 0xB3]] else [])
      in if r1 @ r2 \<noteq> [] then '' '' @ joinStr '' '' (r1 @ r2) else '' '' @ [CHR 0xE2, CHR 0x99, CHR 0xBE])"

definition GetSubs :: "(string \<Rightarrow> string option) \<Rightarrow> (int \<Rightarrow> int \<Rightarrow> string) \<Rightarrow> string \<Rightarrow> (string \<times> string list) act" where
  "GetSubs http fmt2 subId =
     bindA (getClientBySubId subId) (\<lambda>c.
     bindA (dropErr False GetSubShowInfo) (\<lambda>showInfo.
     bindA (askE e_now) (\<lambda>now.
     bindA (liftR (GetLinks http (c_links c) ''all'' (if showInfo then getClientInfo fmt2 now c else []))) (\<lambda>ls.
     bindA (getClientHeaders c) (\<lambda>hs.
     bindA (dropErr False GetSubEncode) (\<lambda>enc.
       let result = joinStr [CHR 0x0A] ls in
       retA (if enc then b64encode result else result, hs)))))))"

section \<open>The sing-box configuration\<close>

definition getData :: "string \<Rightarrow> (client \<times> inbound list) act" where
  "getData subId =
     bindA (firstWhere db_clients (\<lambda>c. c_enable c \<and> c_name c = subId)) (\<lambda>c.
     bindA (liftR (unmarshalUints (c_inbounds c))) (\<lambda>ids.
     bindA (inboundsWhere (\<lambda>i. i_id i \<in> set ids)) (\<lambda>is. retA (c, is))))"

text \<open>
  The maps the outbounds share: an outbound refers to its TLS block by address, so a write through one
  of the copies is seen by all that share it.  \<open>(m, None)\<close> is an outbound whose \<open>tls\<close> member, if it has
  one, is a value of its own.
\<close>

type_synonym tlsStore = "obj list"
type_synonym outRef = "obj \<times> nat option"

definition resolveTls :: "tlsStore \<Rightarrow> outRef \<Rightarrow> obj" where
  "resolveTls st r = (case snd r of None \<Rightarrow> fst r | Some a \<Rightarrow> oset ''tls'' (JObj (st ! a)) (fst r))"

text \<open>The TLS blocks among the client's own credentials, one per protocol that has one.\<close>

definition configTls :: "obj \<Rightarrow> (string \<times> nat) list \<times> tlsStore" where
  "configTls configs = fold (\<lambda>(p, v) (m, st). case oget (objOr0 v) ''tls'' of
       JObj t \<Rightarrow> ((p, length st) # m, st @ [t]) | _ \<Rightarrow> (m, st)) configs ([], [])"

definition ssPassword :: "obj \<Rightarrow> inbound \<Rightarrow> string res" where
  "ssPassword configs i = bindR (unmarshalObj (i_options i)) (\<lambda>o0.
     let method = strOr0 (oget (nilObj o0) ''method'');
         inbPass = (if hasPrefix method ''2022'' then [strOr0 (oget (nilObj o0) ''password'')] else []);
         key = (if method = ''2022-blake3-aes-128-gcm'' then ''shadowsocks16'' else ''shadowsocks'')
     in bindR (mustObj (oget configs key)) (\<lambda>c.
       Inr (joinStr '':'' (inbPass @ [strOr0 (oget c ''password'')]))))"

text \<open>The members of the client's credentials that reach the outbound of an inbound.\<close>

definition carried :: "inbound \<Rightarrow> string \<Rightarrow> bool" where
  "carried i key \<longleftrightarrow> key \<noteq> ''name'' \<and> key \<noteq> ''alterId'' \<and>
     (key = ''flow'' \<longrightarrow> \<not> (i_tls_id i = 0 \<or> containsStr (rawText (i_options i)) (CHR 0x22 # ''transport'' @ [CHR 0x22])))"

definition withCredentials :: "obj \<Rightarrow> inbound \<Rightarrow> string \<Rightarrow> obj \<Rightarrow> obj res" where
  "withCredentials configs i protocol ob =
     (if protocol = ''shadowsocks'' then bindR (ssPassword configs i) (\<lambda>p. Inr (oset ''password'' (JStr p) ob))
      else Inr (copyInto (filter (\<lambda>kv. carried i (fst kv)) (objOr0 (oget configs protocol))) ob))"

text \<open>Where the TLS block of an outbound lives: with the credentials, or in a map of its own.\<close>

definition tlsRef :: "(string \<times> nat) list \<Rightarrow> obj \<Rightarrow> string \<Rightarrow> obj \<Rightarrow> tlsStore \<Rightarrow> nat option \<times> tlsStore" where
  "tlsRef cfgTls configs protocol ob st =
     (if protocol \<noteq> ''shadowsocks'' \<and> ohas (objOr0 (oget configs protocol)) ''tls'' then (map_of cfgTls protocol, st)
      else case oget ob ''tls'' of JObj t \<Rightarrow> (Some (length st), st @ [t]) | _ \<Rightarrow> (None, st))"

definition overrideTls :: "jv \<Rightarrow> nat option \<Rightarrow> tlsStore \<Rightarrow> nat option \<times> tlsStore" where
  "overrideTls override ref st = (case override of
       JObj m \<Rightarrow> (case ref of Some a \<Rightarrow> (Some a, st[a := copyInto m (st ! a)]) | None \<Rightarrow> (Some (length st), st @ [copyInto m []]))
     | _ \<Rightarrow> (ref, st))"

definition pushMixed :: "string \<Rightarrow> outRef \<Rightarrow> (outRef \<times> string) list" where
  "pushMixed tag r = (let mk = (\<lambda>ty t. ((oset ''tag'' (JStr t) (oset ''type'' (JStr ty) (fst r)), snd r), t))
     in [mk ''socks'' (tag @ ''-socks''), mk ''http'' (tag @ ''-http'')])"

definition pushOut :: "string \<Rightarrow> string \<Rightarrow> outRef \<Rightarrow> (outRef \<times> string) list" where
  "pushOut protocol tag r = (if protocol = ''mixed'' then pushMixed tag r else [(r, tag)])"

text \<open>One address of an inbound, the \<open>n\<close>-th from 1.\<close>

definition addrOut :: "obj \<Rightarrow> nat option \<Rightarrow> string \<Rightarrow> string \<Rightarrow> nat \<Rightarrow> obj \<Rightarrow> (outRef \<times> string) list \<times> tlsStore \<Rightarrow> (outRef \<times> string) list \<times> tlsStore" where
  "addrOut ob ref protocol tag n addr s = (case s of (outs, st) \<Rightarrow>
     (let o1 = oset ''server_port'' (JInt (numOr0 (oget addr ''server_port''))) (oset ''server'' (JStr (strOr0 (oget addr ''server''))) ob);
          newTag = itoa (int n) @ ''.'' @ tag @ strOr0 (oget addr ''remark'')
      in case overrideTls (oget addr ''tls'') ref st of (ref', st') \<Rightarrow>
           (outs @ pushOut protocol newTag (oset ''tag'' (JStr newTag) o1, ref'), st')))"

definition inboundOuts :: "(string \<times> nat) list \<Rightarrow> obj \<Rightarrow> inbound \<Rightarrow> (outRef \<times> string) list \<times> tlsStore \<Rightarrow> ((outRef \<times> string) list \<times> tlsStore) res" where
  "inboundOuts cfgTls configs i s =
     (if length (rawText (i_out_json i)) < 5 then Inr s
      else bindR (unmarshalObj (i_out_json i)) (\<lambda>m. bindR (writable m) (\<lambda>ob0.
        let protocol = strOr0 (oget ob0 ''type'') in
        bindR (withCredentials configs i protocol ob0) (\<lambda>ob.
        bindR (unmarshalObjs (i_addrs i)) (\<lambda>addrs.
          let tag = strOr0 (oget ob ''tag'') in
          case tlsRef cfgTls configs protocol ob (snd s) of (ref, st) \<Rightarrow>
            Inr (if addrs = [] then (fst s @ pushOut protocol tag (if protocol = ''mixed'' then oset ''tag'' (JStr tag) ob else ob, ref), st)
                 else fold (\<lambda>(n, addr). addrOut ob ref protocol tag n (nilObj addr)) (zip [1..<Suc (length addrs)] addrs) (fst s, st)))))))"

definition getOutbounds :: "raw \<Rightarrow> inbound list \<Rightarrow> (obj list \<times> string list) res" where
  "getOutbounds clientConfig is = bindR (unmarshalObj clientConfig) (\<lambda>m.
     let configs = nilObj m in
     case configTls configs of (cfgTls, st0) \<Rightarrow>
       bindR (foldR (inboundOuts cfgTls configs) is ([], st0)) (\<lambda>(outs, st).
         Inr (map (\<lambda>x. resolveTls st (fst x)) outs, map snd outs)))"

text \<open>The outbounds of the external links; a link that does not parse, or has no tag, is left out.\<close>

definition externalOuts :: "string list \<Rightarrow> (obj \<times> string) list" where
  "externalOuts links = (let en = (if length links > 1 then 1 else 0) in
     concat (map (\<lambda>(n, l). case GetOutbound l (int n * en) of Inr (m, tag) \<Rightarrow> if tag \<noteq> [] then [(m, tag)] else [] | Inl _ \<Rightarrow> [])
       (zip [1..<Suc (length links)] links)))"

definition addDefaultOutbounds :: "obj list \<Rightarrow> string list \<Rightarrow> obj list" where
  "addDefaultOutbounds outs tags =
     [[(''outbounds'', JStrs ([''auto'', ''direct''] @ tags)), (''tag'', JStr ''proxy''), (''type'', JStr ''selector'')],
      [(''tag'', JStr ''auto''), (''type'', JStr ''urltest''), (''outbounds'', if tags = [] then JNull else JStrs tags),
       (''url'', JStr ''http://www.gstatic.com/generate_204''), (''interval'', JStr ''10m''), (''tolerance'', JInt 50)],
      [(''type'', JStr ''direct''), (''tag'', JStr ''direct'')]] @ outs"

definition defaultJson :: obj where
  "defaultJson = [(''inbounds'', JArr
     [JObj [(''type'', JStr ''tun''), (''address'', JArr [JStr ''172.19.0.1/30'', JStr ''fdfe:dcba:9876::1/126'']), (''mtu'', JNum 9000),
        (''auto_route'', JBool True), (''strict_route'', JBool False), (''endpoint_independent_nat'', JBool False),
        (''stack'', JStr ''system''),
        (''platform'', JObj [(''http_proxy'', JObj [(''enabled'', JBool True), (''server'', JStr ''127.0.0.1''), (''server_port'', JNum 2080)])])],
      JObj [(''type'', JStr ''mixed''), (''listen'', JStr ''127.0.0.1''), (''listen_port'', JNum 2080), (''users'', JArr [])]])]"

definition rulesStart :: "jv list" where
  "rulesStart = [JObj [(''action'', JStr ''sniff'')],
     JObj [(''clash_mode'', JStr ''Direct''), (''action'', JStr ''route''), (''outbound'', JStr ''direct'')]]"

definition rulesEnd :: "jv list" where
  "rulesEnd = [JObj [(''clash_mode'', JStr ''Global''), (''action'', JStr ''route''), (''outbound'', JStr ''proxy'')]]"

definition baseRoute :: obj where
  "baseRoute = [(''auto_detect_interface'', JBool True), (''final'', JStr ''proxy''), (''rules'', JArr rulesStart)]"

definition copyKey :: "string \<Rightarrow> obj \<Rightarrow> obj \<Rightarrow> obj" where
  "copyKey k src dst = (if ohas src k then oset k (oget src k) dst else dst)"

text \<open>The text of the setting decides; a text that does not decode leaves the configuration without a route.\<close>

definition mergeOthers :: "string \<Rightarrow> obj \<Rightarrow> obj" where
  "mergeOthers others conf =
     (if others = [] then oset ''route'' (JObj baseRoute) conf
      else case unmarshalObj (jparse others) of
        Inl x \<Rightarrow> conf
      | Inr m \<Rightarrow> (let ext = nilObj m;
           c1 = fold (\<lambda>k. copyKey k ext) [''log'', ''dns'', ''inbounds'', ''experimental''] conf;
           r1 = copyKey ''rule_set'' ext baseRoute;
           r2 = (case asArr (oget ext ''rules'') of None \<Rightarrow> r1 | Some rs \<Rightarrow> oset ''rules'' (JArr (rulesStart @ rs @ rulesEnd)) r1);
           r3 = (case asStr (oget ext ''default_domain_resolver'') of None \<Rightarrow> r2 | Some s \<Rightarrow> oset ''default_domain_resolver'' (JStr s) r2)
         in oset ''route'' (JObj r3) c1))"

definition addOthers :: "obj \<Rightarrow> obj act" where
  "addOthers conf = dropErr conf (bindA GetSubJsonExt (\<lambda>others. retA (mergeOthers others conf)))"

definition indented :: "jv \<Rightarrow> string" where
  "indented v = (case toDoc v of None \<Rightarrow> [] | Some d \<Rightarrow> jindent 0 d)"

text \<open>The document before it is written out, and the reply.\<close>

definition jsonDoc :: "(string \<Rightarrow> string option) \<Rightarrow> string \<Rightarrow> (client \<times> obj list \<times> obj) act" where
  "jsonDoc http subId =
     bindA (getData subId) (\<lambda>(c, is).
     bindA (liftR (getOutbounds (c_config c) is)) (\<lambda>(outs, tags).
     bindA (liftR (GetLinks http (c_links c) ''external'' [])) (\<lambda>links.
       let ext = externalOuts links;
           all = addDefaultOutbounds (outs @ map fst ext) (tags @ map snd ext) in
       bindA (addOthers (oset ''outbounds'' (JArr (map JObj all)) defaultJson)) (\<lambda>conf. retA (c, all, conf)))))"

definition GetJson :: "(string \<Rightarrow> string option) \<Rightarrow> string \<Rightarrow> (string \<times> string list) act" where
  "GetJson http subId = bindA (jsonDoc http subId) (\<lambda>(c, all, conf).
     bindA (dropErr 0 GetSubUpdates) (\<lambda>n. retA (indented (JObj conf), GetHeaders c n)))"

end
