(* ===== verification/ClashService.thy ===== *)
theory ClashService
  imports SubService
begin

text \<open>
  \<open>sub/clashService.go\<close> and \<open>sub/subHandler.go\<close>: the same outbounds as a Clash configuration, and the replies
  of the subscription server.  YAML is a library: its decoder into a map and its encoder are parameters.
\<close>

section \<open>One proxy\<close>

definition putWhen :: "bool \<Rightarrow> string \<Rightarrow> jv \<Rightarrow> obj \<Rightarrow> obj" where
  "putWhen b k v m = (if b then oset k v m else m)"

text \<open>\<open>if s, ok := m[k].(string); ok\<close> and its kin, which copy a member of the asserted type.\<close>

definition copyStr :: "obj \<Rightarrow> string \<Rightarrow> string \<Rightarrow> obj \<Rightarrow> obj" where
  "copyStr src k k' = putWhen (asStr (oget src k) \<noteq> None) k' (oget src k)"

definition copyNum :: "obj \<Rightarrow> string \<Rightarrow> string \<Rightarrow> obj \<Rightarrow> obj" where
  "copyNum src k k' = putWhen (asNum (oget src k) \<noteq> None) k' (oget src k)"

definition clashServer :: "string \<Rightarrow> string" where
  "clashServer s = (if s \<noteq> [] \<and> containsStr s '':'' \<and> \<not> containsStr s ''.'' \<and> \<not> (hasPrefix s ''['' \<and> hasSuffix s '']'')
     then [CHR 0x27] @ ''['' @ s @ '']'' @ [CHR 0x27] else s)"

definition clashPorts :: "obj \<Rightarrow> obj \<Rightarrow> obj" where
  "clashPorts ob p = (case asArr (oget ob ''server_ports'') of None \<Rightarrow> p
     | Some vs \<Rightarrow> oset ''ports'' (JStr (joinStr '','' (map (\<lambda>v. replaceAll (strOr0 v) '':'' ''-'') vs))) p)"

text \<open>The members of each protocol; \<open>None\<close> is a protocol Clash does not know.\<close>

definition clashKind :: "string \<Rightarrow> obj \<Rightarrow> obj \<Rightarrow> obj option" where
  "clashKind t ob p =
     (let pw = oset ''password'' (oget ob ''password'') in
      if t = ''vmess'' then Some (oset ''cipher'' (JStr ''auto'') (oset ''alterId'' (JInt (numOr0 (oget ob ''alter_id'')))
          (oset ''uuid'' (oget ob ''uuid'') p)))
      else if t = ''vless'' then Some (copyStr ob ''flow'' ''flow'' (oset ''uuid'' (oget ob ''uuid'') p))
      else if t = ''tuic'' then Some (copyStr ob ''congestion_control'' ''congestion-controller'' (pw (oset ''uuid'' (oget ob ''uuid'') p)))
      else if t = ''trojan'' then Some (pw p)
      else if t = ''socks'' then Some (pw (oset ''username'' (oget ob ''username'') (oset ''type'' (JStr ''socks5'') p)))
      else if t = ''http'' then Some (pw (oset ''username'' (oget ob ''username'') p))
      else if t = ''hysteria'' then Some (clashPorts ob (copyStr ob ''obfs'' ''obfs'' (oset ''auth-str'' (oget ob ''auth_str'')
          (copyNum ob ''down_mbps'' ''down'' (copyNum ob ''up_mbps'' ''up'' p)))))
      else if t = ''hysteria2'' then Some (clashPorts ob
          ((case asObj (oget ob ''obfs'') of None \<Rightarrow> id
            | Some o2 \<Rightarrow> \<lambda>q. oset ''obfs-password'' (oget o2 ''password'') (oset ''obfs'' (oget o2 ''type'') q))
          (pw (copyNum ob ''down_mbps'' ''down'' (copyNum ob ''up_mbps'' ''up'' p)))))
      else if t = ''anytls'' then Some ((case asObj (oget ob ''tls'') of None \<Rightarrow> id
            | Some tls \<Rightarrow> \<lambda>q. oset ''skip-cert-verify'' (oget tls ''insecure'') (oset ''sni'' (oget tls ''server_name'') q)) (pw p))
      else if t = ''shadowsocks'' then Some
          (putWhen (asBool (oget ob ''udp_over_tcp'') = Some True) ''udp-over-tcp'' (JBool True)
          (putWhen (\<exists>n. asStr (oget ob ''network'') = Some n \<and> n \<noteq> ''tcp'') ''udp'' (JBool True)
          (pw (oset ''cipher'' (oget ob ''method'') (oset ''type'' (JStr ''ss'') p)))))
      else None)"

text \<open>Reality and ECH are switched on by a single-value assertion, which panics on anything but a boolean.\<close>

definition clashReality :: "obj \<Rightarrow> obj \<Rightarrow> obj res" where
  "clashReality tls p = (case asObj (oget tls ''reality'') of None \<Rightarrow> Inr p
     | Some r \<Rightarrow> bindR (mustBool (oget r ''enabled'')) (\<lambda>en.
         Inr (if en then oset ''reality-opts'' (JObj (copyStr r ''short_id'' ''short-id'' (copyStr r ''public_key'' ''public-key'' []))) p else p)))"

definition clashUtls :: "obj \<Rightarrow> obj \<Rightarrow> obj" where
  "clashUtls tls p = (case asObj (oget tls ''utls'') of None \<Rightarrow> p
     | Some u \<Rightarrow> if asBool (oget u ''enabled'') = Some True then copyStr u ''fingerprint'' ''client-fingerprint'' p else p)"

text \<open>The lines of the ECH configuration without its first and its last.\<close>

definition clashEch :: "obj \<Rightarrow> obj \<Rightarrow> obj res" where
  "clashEch tls p = (case asObj (oget tls ''ech'') of None \<Rightarrow> Inr p
     | Some e \<Rightarrow> bindR (mustBool (oget e ''enabled'')) (\<lambda>en. if \<not> en then Inr p
         else let lines = (case asArr (oget e ''config'') of None \<Rightarrow> [] | Some vs \<Rightarrow> vs) in
           bindR (mapR mustStr (drop 1 (take (length lines - 1) lines))) (\<lambda>ss.
             Inr (oset ''ech-opts'' (JObj [(''enable'', JBool True), (''config'', JStr (concat ss))]) p))))"

definition clashTls :: "string \<Rightarrow> obj \<Rightarrow> obj \<Rightarrow> obj res" where
  "clashTls t tls p =
     (let p1 = oset ''tls'' (oget tls ''enabled'') p;
          p2 = (if t \<in> {''hysteria'', ''hysteria2'', ''tuic''} then oset ''alpn'' (JStrs [''h3'']) p1
                else putWhen (asArr (oget tls ''alpn'') \<noteq> None) ''alpn'' (oget tls ''alpn'') p1)
      in bindR (clashReality tls p2) (\<lambda>p3.
         let p4 = copyStr tls ''server_name'' (if t = ''vless'' \<or> t = ''vmess'' then ''servername'' else ''sni'') (clashUtls tls p3);
             p5 = putWhen (asBool (oget tls ''insecure'') = Some True) ''skip-cert-verify'' (JBool True) p4
         in clashEch tls p5))"

text \<open>The TLS block in use, unless it is switched off.\<close>

definition activeTls :: "obj \<Rightarrow> obj option" where
  "activeTls ob = (case asObj (oget ob ''tls'') of None \<Rightarrow> None
     | Some tls \<Rightarrow> if asBool (oget tls ''enabled'') = Some False then None else Some tls)"

definition firstElem :: "jv list \<Rightarrow> jv res" where
  "firstElem vs = nthR vs 0"

definition clashHttp :: "bool \<Rightarrow> obj \<Rightarrow> obj \<Rightarrow> obj res" where
  "clashHttp isTls tr p =
     bindR (case asArr (oget tr ''path'') of Some vs \<Rightarrow> bindR (firstElem vs) (\<lambda>v. Inr [(''path'', v)])
        | None \<Rightarrow> Inr (copyStr tr ''path'' ''path'' [])) (\<lambda>o1.
     bindR (case asArr (oget tr ''host'') of Some vs \<Rightarrow> bindR (firstElem vs) (\<lambda>v. Inr (oset ''host'' v o1)) | None \<Rightarrow> Inr o1) (\<lambda>o2.
       Inr (if isTls then oset ''h2-opts'' (JObj o2) (oset ''network'' (JStr ''h2'') p)
            else oset ''http-opts'' (JObj [(''path'', JArr [oget o2 ''path'']), (''host'', oget o2 ''host'')]) (oset ''network'' (JStr ''http'') p))))"

definition wsHeaders :: "obj \<Rightarrow> obj" where
  "wsHeaders hs = concat (map (\<lambda>(k, v). case asArr v of Some vs \<Rightarrow> (case vs of [] \<Rightarrow> [] | x # _ \<Rightarrow> [(k, x)]) | None \<Rightarrow> [(k, v)]) hs)"

text \<open>The host header, where there is none, from the transport or from the server name.\<close>

definition withHost :: "obj option \<Rightarrow> obj \<Rightarrow> obj \<Rightarrow> obj" where
  "withHost tls tr hs = (if ohas hs ''Host'' then hs
     else if strOr0 (oget tr ''host'') \<noteq> [] then oset ''Host'' (oget tr ''host'') hs
     else case tls of None \<Rightarrow> hs | Some m \<Rightarrow> putWhen (strOr0 (oget m ''server_name'') \<noteq> []) ''Host'' (oget m ''server_name'') hs)"

definition clashWs :: "bool \<Rightarrow> obj option \<Rightarrow> obj \<Rightarrow> obj \<Rightarrow> obj" where
  "clashWs upgrade tls tr p =
     (let hs = withHost tls tr (wsHeaders (objOr0 (oget tr ''headers'')));
          o1 = putWhen (hs \<noteq> []) ''headers'' (JObj hs) (copyStr tr ''path'' ''path'' []);
          o2 = putWhen upgrade ''v2ray-http-upgrade'' (JBool True) (copyStr tr ''early_data_header_name'' ''early-data-header-name'' o1)
      in oset ''ws-opts'' (JObj o2) (oset ''network'' (JStr ''ws'') p))"

definition clashTransport :: "obj option \<Rightarrow> obj \<Rightarrow> obj \<Rightarrow> obj res" where
  "clashTransport tls ob p = (case asObj (oget ob ''transport'') of None \<Rightarrow> Inr p
     | Some tr \<Rightarrow> let tt = strOr0 (oget tr ''type'') in
         if tt = ''http'' then clashHttp (tls \<noteq> None) tr p
         else if tt = ''ws'' \<or> tt = ''httpupgrade'' then Inr (clashWs (tt = ''httpupgrade'') tls tr p)
         else if tt = ''grpc'' then Inr (oset ''grpc-opts'' (JObj (copyStr tr ''service_name'' ''grpc-service-name'' [])) (oset ''network'' (JStr ''grpc'') p))
         else Inr p)"

definition enabledObj :: "jv \<Rightarrow> obj option" where
  "enabledObj v = (case asObj v of None \<Rightarrow> None | Some m \<Rightarrow> if asBool (oget m ''enabled'') = Some True then Some m else None)"

definition clashMux :: "obj \<Rightarrow> obj \<Rightarrow> obj" where
  "clashMux ob p = (case enabledObj (oget ob ''multiplex'') of None \<Rightarrow> p
     | Some mux \<Rightarrow>
        (let s1 = copyNum mux ''max_streams'' ''max-streams'' (copyNum mux ''min_streams'' ''min-streams''
              (copyNum mux ''max_connections'' ''max-connections'' (copyStr mux ''protocol'' ''protocol'' [(''enabled'', JBool True)])));
             s2 = putWhen (asBool (oget mux ''padding'') \<noteq> None) ''padding'' (oget mux ''padding'') s1;
             s3 = (case enabledObj (oget mux ''brutal'') of None \<Rightarrow> s2
               | Some b \<Rightarrow> oset ''brutal-opts'' (JObj (copyNum b ''down_mbps'' ''down'' (copyNum b ''up_mbps'' ''up'' [(''enabled'', JBool True)]))) s2)
         in oset ''smux'' (JObj s3) p))"

text \<open>An outbound as a proxy and the name it is grouped under; \<open>None\<close> is skipped.\<close>

definition clashProxy :: "obj \<Rightarrow> (obj \<times> string) option res" where
  "clashProxy ob =
     (let t = strOr0 (oget ob ''type'') in
      if t = ''selector'' \<or> t = ''urltest'' \<or> t = ''direct'' then Inr None
      else case clashKind t ob [(''name'', oget ob ''tag''), (''type'', JStr t), (''server'', JStr (clashServer (strOr0 (oget ob ''server'')))),
          (''port'', oget ob ''server_port'')] of
        None \<Rightarrow> Inr None
      | Some p1 \<Rightarrow>
          bindR (case activeTls ob of None \<Rightarrow> Inr p1 | Some tls \<Rightarrow> clashTls t tls p1) (\<lambda>p2.
          bindR (clashTransport (activeTls ob) ob p2) (\<lambda>p3.
          bindR (mustStr (oget ob ''tag'')) (\<lambda>tag. Inr (Some (clashMux ob p3, tag))))))"

definition clashProxies :: "obj list \<Rightarrow> (obj \<times> string) list res" where
  "clashProxies outs = bindR (mapR clashProxy outs) (\<lambda>ps. Inr (concat (map (case_option [] (\<lambda>p. [p])) ps)))"

section \<open>The configuration\<close>

record yamlenv =
  y_load :: "string \<Rightarrow> obj option"
  y_dump :: "obj \<Rightarrow> string option"

text \<open>The two groups of \<open>ProxyGroups\<close>: the selector names the automatic group first.\<close>

definition clashGroups :: "string list \<Rightarrow> jv list" where
  "clashGroups tags =
     [JObj [(''name'', JStr ''Proxy''), (''type'', JStr ''select''), (''proxies'', JStrs (''Auto'' # tags))],
      JObj [(''name'', JStr ''Auto''), (''type'', JStr ''url-test''), (''proxies'', JStrs tags),
        (''url'', JStr ''http://www.gstatic.com/generate_204''), (''interval'', JInt 300), (''tolerance'', JInt 50)]]"

text \<open>A list of the configuration is extended, anything else replaced.\<close>

definition extendList :: "string \<Rightarrow> jv list \<Rightarrow> obj \<Rightarrow> obj" where
  "extendList k vs m = oset k (case asArr (oget m k) of Some old \<Rightarrow> JArr (old @ vs) | None \<Rightarrow> JArr vs) m"

text \<open>A basic configuration that decodes to no map panics at the first write.\<close>

definition ConvertToClashMeta :: "yamlenv \<Rightarrow> obj list \<Rightarrow> string \<Rightarrow> string res" where
  "ConvertToClashMeta y outs basic =
     bindR (clashProxies outs) (\<lambda>ps.
     bindR (writable (y_load y basic)) (\<lambda>m.
       let out = extendList ''proxy-groups'' (clashGroups (map snd ps)) (extendList ''proxies'' (map (JObj \<circ> fst) ps) m)
       in case y_dump y out of None \<Rightarrow> Inl (Err ''yaml: cannot marshal'') | Some t \<Rightarrow> Inr t))"

definition getClashConfig :: "string act" where
  "getClashConfig = GetSubClashExt"

text \<open>\<open>basicClashConfig\<close>, line by line.\<close>

definition basicClashConfig :: string where
  "basicClashConfig = concat (map (\<lambda>l. l @ [CHR 0x0A])
     [''mixed-port: 7890'', ''allow-lan: false'', ''mode: rule'', ''log-level: info'', ''external-controller: 127.0.0.1:9090'',
      ''tun:'', ''  enable: true'', ''  stack: system'', ''  auto-route: true'', ''  auto-detect-interface: true'',
      ''  dns-hijack:'', ''    - any:53'',
      ''dns:'', ''  enable: true'', ''  ipv6: false'', ''  enhanced-mode: fake-ip'', ''  fake-ip-range: 198.18.0.1/16'',
      ''  default-nameserver:'', ''    - 8.8.8.8'', ''    - 1.1.1.1'',
      ''  nameserver:'', ''    - https://doh.pub/dns-query'', ''    - https://1.0.0.1/dns-query'',
      ''  fallback:'', ''    - tcp://9.9.9.9:53'',
      ''  fake-ip-filter:'', ''    - '' @ [CHR 0x22] @ ''*.lan'' @ [CHR 0x22], ''    - localhost'', ''    - '' @ [CHR 0x22] @ ''*.local'' @ [CHR 0x22],
      ''rules:'', ''  - GEOIP,Private,DIRECT'', ''  - MATCH,Proxy''])"

definition clashOuts :: "(string \<Rightarrow> string option) \<Rightarrow> string \<Rightarrow> (client \<times> obj list) act" where
  "clashOuts http subId =
     bindA (getData subId) (\<lambda>(c, is).
     bindA (liftR (getOutbounds (c_config c) is)) (\<lambda>(outs, tags).
     bindA (liftR (GetLinks http (c_links c) ''external'' [])) (\<lambda>links. retA (c, outs @ map fst (externalOuts links)))))"

definition GetClash :: "(string \<Rightarrow> string option) \<Rightarrow> yamlenv \<Rightarrow> string \<Rightarrow> (string \<times> string list) act" where
  "GetClash http y subId =
     bindA (clashOuts http subId) (\<lambda>(c, outs).
     bindA (dropErr [] getClashConfig) (\<lambda>ext.
     bindA (liftR (ConvertToClashMeta y outs (if ext = [] then basicClashConfig else ext))) (\<lambda>t.
     bindA (dropErr 0 GetSubUpdates) (\<lambda>n. retA (t, GetHeaders c n)))))"

section \<open>The replies\<close>

record reply =
  rp_status :: nat
  rp_body :: string
  rp_headers :: "(string \<times> string) list"

definition addHeaders :: "string list \<Rightarrow> (string \<times> string) list res" where
  "addHeaders hs = bindR (nthR hs 0) (\<lambda>a. bindR (nthR hs 1) (\<lambda>b. bindR (nthR hs 2) (\<lambda>c.
     Inr [(''Subscription-Userinfo'', a), (''Profile-Update-Interval'', b), (''Profile-Title'', c)])))"

definition errorReply :: reply where
  "errorReply = \<lparr>rp_status = 400, rp_body = ''Error!'', rp_headers = []\<rparr>"

definition orError :: "'a act \<Rightarrow> ('a \<Rightarrow> reply act) \<Rightarrow> reply act" where
  "orError a f = (\<lambda>e w. case a e w of (Inl (Err m), w') \<Rightarrow> (Inr errorReply, w') | (Inl (Panic p), w') \<Rightarrow> (Inl (Panic p), w')
     | (Inr x, w') \<Rightarrow> f x e w')"

text \<open>The query may name a format; an unknown one has no result.\<close>

definition subs :: "(string \<Rightarrow> string option) \<Rightarrow> (int \<Rightarrow> int \<Rightarrow> string) \<Rightarrow> yamlenv \<Rightarrow> string option \<Rightarrow> string \<Rightarrow> reply act" where
  "subs http fmt2 y format subId =
     orError (case format of None \<Rightarrow> GetSubs http fmt2 subId
       | Some f \<Rightarrow> if f = ''json'' then GetJson http subId else if f = ''clash'' then GetClash http y subId
           else failA (Err ''no result''))
     (\<lambda>(body, hs). bindA (liftR (addHeaders hs)) (\<lambda>h. retA \<lparr>rp_status = 200, rp_body = body, rp_headers = h\<rparr>))"

definition subHeaders :: "string \<Rightarrow> reply act" where
  "subHeaders subId = orError (bindA (getClientBySubId subId) getClientHeaders)
     (\<lambda>hs. bindA (liftR (addHeaders hs)) (\<lambda>h. retA \<lparr>rp_status = 200, rp_body = [], rp_headers = h\<rparr>))"

end
