(* ===== verification/SubLaws.thy ===== *)
theory SubLaws
  imports ClashService
begin

text \<open>
  Who is served by the subscription server, and what the generated configurations name.
\<close>

section \<open>Reading only\<close>

definition readOnly :: "world \<Rightarrow> world \<Rightarrow> bool" where
  "readOnly w w' \<longleftrightarrow> w' = w\<lparr>w_stmt := w_stmt w'\<rparr>"

interpretation readOnly: frame readOnly
proof
  fix w w1 w2 w3 :: world
  show "readOnly w w" by (simp add: readOnly_def)
  assume "readOnly w1 w2" "readOnly w2 w3"
  then show "readOnly w1 w3" unfolding readOnly_def by (metis world.surjective world.update_convs(3))
qed

lemma readOnly_sql: "within readOnly (sqlq q)" "within readOnly (rowsWhere t P)" "within readOnly (firstWhere t P)" "within readOnly (inboundsWhere Q)"
  by (simp_all add: within_def readOnly_def rowsWhere_def firstWhere_def inboundsWhere_def sqlq_def Let_def)

lemma readOnly_onNotFound: "within readOnly a \<Longrightarrow> within readOnly n \<Longrightarrow> (\<And>x. within readOnly (s x)) \<Longrightarrow> within readOnly (onNotFound a n s)"
  unfolding within_def onNotFound_def
  by (clarsimp split: prod.split sum.split) (metis readOnly.R_trans snd_conv)

lemma readOnly_dropErr: "within readOnly a \<Longrightarrow> within readOnly (dropErr z a)"
  unfolding within_def dropErr_def
  by (clarsimp split: prod.split sum.split goerr.split) (metis snd_conv)

lemma readOnly_option: "within readOnly a \<Longrightarrow> (\<And>y. within readOnly (f y)) \<Longrightarrow> within readOnly (case x of None \<Rightarrow> a | Some y \<Rightarrow> f y)"
  by (cases x) simp_all

lemma readOnly_prod: "(\<And>a b. within readOnly (f a b)) \<Longrightarrow> within readOnly (case x of (a, b) \<Rightarrow> f a b)"
  by (cases x) simp

lemma readOnly_orError: "within readOnly a \<Longrightarrow> (\<And>x. within readOnly (f x)) \<Longrightarrow> within readOnly (orError a f)"
  unfolding within_def orError_def
  by (clarsimp split: prod.split sum.split goerr.split) (metis readOnly.R_trans snd_conv)

lemma readOnly_getString: "within readOnly (getString k)"
  unfolding getString_def getSetting_def
  by (intro readOnly_onNotFound readOnly_sql readOnly_option readOnly.within_rules)

lemma readOnly_settings: "within readOnly GetSubUpdates" "within readOnly GetSubShowInfo" "within readOnly GetSubEncode"
  "within readOnly GetSubJsonExt" "within readOnly getClashConfig"
  unfolding GetSubUpdates_def GetSubShowInfo_def GetSubEncode_def GetSubJsonExt_def getClashConfig_def GetSubClashExt_def getInt_def getBool_def
  by (intro readOnly.within_rules readOnly_getString readOnly_prod)+

lemmas readOnly_rules = readOnly.within_rules readOnly_sql readOnly_dropErr readOnly_settings readOnly_prod readOnly_orError

lemma readOnly_subs: "within readOnly (subs http fmt2 y format subId)" "within readOnly (subHeaders subId)"
  unfolding subs_def subHeaders_def GetSubs_def GetJson_def GetClash_def jsonDoc_def clashOuts_def getData_def addOthers_def
    getClientBySubId_def getClientHeaders_def Let_def
  by (intro readOnly_rules readOnly_option)+

section \<open>Who is served\<close>

lemma served_links: "GetSubs http fmt2 subId e w = (Inr (body, hs), w') \<Longrightarrow>
    \<exists>c n. c \<in> set (db_clients (w_db w)) \<and> c_enable c \<and> c_name c = subId \<and> hs = GetHeaders c n"
  unfolding GetSubs_def getClientBySubId_def getClientHeaders_def Let_def
  by (auto simp: bindA_Inr dest!: firstWhere_Inr)

lemma data_client: "getData subId e w = (Inr (c, is), w') \<Longrightarrow> c \<in> set (db_clients (w_db w)) \<and> c_enable c \<and> c_name c = subId"
  unfolding getData_def by (auto simp: bindA_Inr dest!: firstWhere_Inr)

lemma served_json: "GetJson http subId e w = (Inr (body, hs), w') \<Longrightarrow>
    \<exists>c n. c \<in> set (db_clients (w_db w)) \<and> c_enable c \<and> c_name c = subId \<and> hs = GetHeaders c n"
  unfolding GetJson_def jsonDoc_def Let_def by (fastforce simp: bindA_Inr dest!: data_client)

lemma served_clash: "GetClash http y subId e w = (Inr (body, hs), w') \<Longrightarrow>
    \<exists>c n. c \<in> set (db_clients (w_db w)) \<and> c_enable c \<and> c_name c = subId \<and> hs = GetHeaders c n"
  unfolding GetClash_def clashOuts_def Let_def by (fastforce simp: bindA_Inr dest!: data_client)

lemma served_head: "bindA (getClientBySubId subId) getClientHeaders e w = (Inr hs, w') \<Longrightarrow>
    \<exists>c n. c \<in> set (db_clients (w_db w)) \<and> c_enable c \<and> c_name c = subId \<and> hs = GetHeaders c n"
  unfolding getClientBySubId_def getClientHeaders_def by (auto simp: bindA_Inr dest!: firstWhere_Inr)

lemma orError_ok:
  assumes "orError a f e w = (Inr rp, w')" "rp_status rp = 200"
  obtains x w1 where "a e w = (Inr x, w1)" "f x e w1 = (Inr rp, w')"
  using assms by (auto simp: orError_def errorReply_def split: prod.splits sum.splits goerr.splits)

lemma addHeaders_values: "addHeaders (GetHeaders c n) = Inr h \<Longrightarrow> map snd h = GetHeaders c n"
  by (auto simp: addHeaders_def GetHeaders_def nthR_def)

text \<open>C15
  Only enabled clients have a subscription: whatever format is asked for, a request is answered with
  success only for the name of a client that is enabled, so never for a banned one while bans imply
  being disabled; the headers report that client's own traffic, quota and expiry, and nothing is changed.
\<close>

theorem only_enabled_served:
  assumes "subs http fmt2 y format subId e w = (Inr rp, w') \<or> subHeaders subId e w = (Inr rp, w')" "rp_status rp = 200"
  shows "w_db w' = w_db w \<and> w_core w' = w_core w \<and> (\<exists>c n. c \<in> set (db_clients (w_db w)) \<and> c_enable c \<and> c_name c = subId \<and>
    (banInv (db_clients (w_db w)) \<longrightarrow> \<not> c_banned c) \<and> map snd (rp_headers rp) = GetHeaders c n)"
proof -
  have "readOnly w w'"
    using assms(1) readOnly_subs unfolding within_def by (metis snd_conv)
  then have same: "w_db w' = w_db w \<and> w_core w' = w_core w" unfolding readOnly_def by (metis world.select_convs(1,2) world.surjective world.update_convs(3))
  obtain hs h where hs: "\<exists>c n. c \<in> set (db_clients (w_db w)) \<and> c_enable c \<and> c_name c = subId \<and> hs = GetHeaders c n"
    and h: "addHeaders hs = Inr h" "rp_headers rp = h"
    using assms(1)
  proof
    assume "subs http fmt2 y format subId e w = (Inr rp, w')"
    then obtain x w1 where 1: "(case format of None \<Rightarrow> GetSubs http fmt2 subId
       | Some f \<Rightarrow> if f = ''json'' then GetJson http subId else if f = ''clash'' then GetClash http y subId
           else failA (Err ''no result'')) e w = (Inr x, w1)"
      and 2: "(case x of (body, hs) \<Rightarrow> bindA (liftR (addHeaders hs)) (\<lambda>h. retA \<lparr>rp_status = 200, rp_body = body, rp_headers = h\<rparr>)) e w1 = (Inr rp, w')"
      using orError_ok assms(2) unfolding subs_def by blast
    obtain body hs where x: "x = (body, hs)" by fastforce
    have "\<exists>c n. c \<in> set (db_clients (w_db w)) \<and> c_enable c \<and> c_name c = subId \<and> hs = GetHeaders c n"
      using 1 served_links served_json served_clash unfolding x by (auto split: option.splits if_splits)
    moreover obtain h where "addHeaders hs = Inr h" "rp_headers rp = h" using 2 by (auto simp: x bindA_Inr)
    ultimately show ?thesis using that by blast
  next
    assume "subHeaders subId e w = (Inr rp, w')"
    then obtain hs w1 where 1: "bindA (getClientBySubId subId) getClientHeaders e w = (Inr hs, w1)"
      and 2: "bindA (liftR (addHeaders hs)) (\<lambda>h. retA \<lparr>rp_status = 200, rp_body = [], rp_headers = h\<rparr>) e w1 = (Inr rp, w')"
      using orError_ok assms(2) unfolding subHeaders_def by blast
    moreover obtain h where "addHeaders hs = Inr h" "rp_headers rp = h" using 2 by (auto simp: bindA_Inr)
    ultimately show ?thesis using that served_head [OF 1] by blast
  qed
  then show ?thesis using same addHeaders_values by (fastforce simp: banInv_def)
qed

text \<open>A subscription of the example client, and one of the banned client, which fails.\<close>

lemma sub_world: "filter (\<lambda>c. c_enable c \<and> c_name c = ''ann'') (db_clients (w_db hy2World)) = [ann]"
  by (simp add: hy2World_def ann_def eve_def zeroClient_def)

theorem only_enabled_served_witness:
  "\<exists>rp w'. subHeaders ''ann'' quietEnv hy2World = (Inr rp, w') \<and> rp_status rp = 200 \<and>
     map snd (rp_headers rp) = [''upload=0; download=0; total=0; expire=0'', ''12'', ''ann'']"
proof -
  have f: "getClientBySubId ''ann'' quietEnv hy2World = (Inr ann, hy2World\<lparr>w_stmt := Suc (w_stmt hy2World)\<rparr>)"
    by (simp add: getClientBySubId_def firstWhere_def sqlq_def sub_world Let_def)
  obtain w1 where w1: "w1 = hy2World\<lparr>w_stmt := Suc (w_stmt hy2World)\<rparr>" "db_settings (w_db w1) = []"
    by (simp add: hy2World_def emptyDb_def)
  have "settingOf ''subUpdates'' (db_settings (w_db w1)) = None" by (simp add: w1(2) settingOf_def)
  then have "getString ''subUpdates'' quietEnv w1 = (Inr ''12'', w1\<lparr>w_stmt := Suc (w_stmt w1)\<rparr>)"
    by (simp add: getString_default defaultValueMap_def)
  then have "dropErr 0 GetSubUpdates quietEnv w1 = (Inr 12, w1\<lparr>w_stmt := Suc (w_stmt w1)\<rparr>)"
    by (simp add: dropErr_def GetSubUpdates_def getInt_def atoi_def isDigit_def hasPrefix_def maxInt64_def minInt64_def)
  then have h: "getClientHeaders ann quietEnv w1 = (Inr (GetHeaders ann 12), w1\<lparr>w_stmt := Suc (w_stmt w1)\<rparr>)"
    by (simp add: getClientHeaders_def)
  have v: "GetHeaders ann 12 = [''upload=0; download=0; total=0; expire=0'', ''12'', ''ann'']"
    by code_simp
  obtain rp w' where r: "subHeaders ''ann'' quietEnv hy2World = (Inr rp, w')" "rp_status rp = 200" "map snd (rp_headers rp) = GetHeaders ann 12"
    using f h w1(1) by (simp add: subHeaders_def orError_def addHeaders_def v nthR_def)
  from only_enabled_served [OF disjI2 [OF r(1)] r(2)] r v show ?thesis by auto
qed

section \<open>The selector names the outbounds\<close>

lemma resolve_tag [simp]: "oget (resolveTls st r) ''tag'' = oget (fst r) ''tag''"
  by (simp add: resolveTls_def split: option.split)

definition namesOut :: "outRef \<times> string \<Rightarrow> bool" where
  "namesOut x \<longleftrightarrow> strOr0 (oget (fst (fst x)) ''tag'') = snd x"

lemma pushOut_names: "strOr0 (oget (fst r) ''tag'') = tag \<Longrightarrow> x \<in> set (pushOut protocol tag r) \<Longrightarrow> namesOut x"
  by (auto simp: pushOut_def pushMixed_def namesOut_def strOr0_def Let_def split: if_splits)

lemma addrOut_names:
  "\<forall>x \<in> set (fst s). namesOut x \<Longrightarrow> \<forall>x \<in> set (fst (addrOut ob ref protocol tag n addr s)). namesOut x"
proof (cases s)
  case (Pair outs st)
  assume o: "\<forall>x \<in> set (fst s). namesOut x"
  let ?t = "itoa (int n) @ ''.'' @ tag @ strOr0 (oget addr ''remark'')"
  obtain ref' st' where v: "overrideTls (oget addr ''tls'') ref st = (ref', st')" by fastforce
  have "namesOut x" if "x \<in> set (pushOut protocol ?t (oset ''tag'' (JStr ?t) m, ref'))" for x m
    using pushOut_names [OF _ that] by (simp add: strOr0_def)
  then show ?thesis using o Pair v by (auto simp: addrOut_def Let_def)
qed

lemma foldAddrs_names:
  "\<forall>x \<in> set (fst s). namesOut x \<Longrightarrow> \<forall>x \<in> set (fst (fold (\<lambda>(n, addr). addrOut ob ref p tag n (nilObj addr)) xs s)). namesOut x"
proof (induction xs arbitrary: s)
  case (Cons x xs)
  obtain n addr where x: "x = (n, addr)" by fastforce
  have "\<forall>x \<in> set (fst (addrOut ob ref p tag n (nilObj addr) s)). namesOut x" using addrOut_names Cons.prems by blast
  from Cons.IH [OF this] show ?case by (simp add: x)
qed simp

lemma inboundOuts_names:
  assumes "inboundOuts cfgTls configs i s = Inr s'" "\<forall>x \<in> set (fst s). namesOut x"
  shows "\<forall>x \<in> set (fst s'). namesOut x"
proof (cases "length (rawText (i_out_json i)) < 5")
  case True
  then show ?thesis using assms by (simp add: inboundOuts_def)
next
  case False
  obtain ob0 ob addrs where ob: "withCredentials configs i (strOr0 (oget ob0 ''type'')) ob0 = Inr ob"
    and s': "(case tlsRef cfgTls configs (strOr0 (oget ob0 ''type'')) ob (snd s) of (ref, st) \<Rightarrow>
       Inr (if addrs = [] then (fst s @ pushOut (strOr0 (oget ob0 ''type'')) (strOr0 (oget ob ''tag''))
          (if strOr0 (oget ob0 ''type'') = ''mixed'' then oset ''tag'' (JStr (strOr0 (oget ob ''tag''))) ob else ob, ref), st)
        else fold (\<lambda>(n, addr). addrOut ob ref (strOr0 (oget ob0 ''type'')) (strOr0 (oget ob ''tag'')) n (nilObj addr))
          (zip [1..<Suc (length addrs)] addrs) (fst s, st))) = (Inr s' :: ((outRef \<times> string) list \<times> tlsStore) res)"
    using assms(1) False unfolding inboundOuts_def Let_def by (simp add: bindR_eq_Inr del: upt_Suc) blast
  obtain ref st where t: "tlsRef cfgTls configs (strOr0 (oget ob0 ''type'')) ob (snd s) = (ref, st)" by fastforce
  show ?thesis
  proof (cases "addrs = []")
    case True
    then show ?thesis using s' t assms(2) by (auto simp: strOr0_def dest!: pushOut_names [rotated])
  next
    case False
    then have "s' = fold (\<lambda>(n, addr). addrOut ob ref (strOr0 (oget ob0 ''type'')) (strOr0 (oget ob ''tag'')) n (nilObj addr))
        (zip [1..<Suc (length addrs)] addrs) (fst s, st)"
      using s' t by (simp del: upt_Suc)
    then show ?thesis using foldAddrs_names [of "(fst s, st)"] assms(2) by simp
  qed
qed

lemma getOutbounds_names:
  assumes "getOutbounds cfg is = Inr (outs, tags)"
  shows "tags = map (\<lambda>o1. strOr0 (oget o1 ''tag'')) outs"
proof -
  obtain m where m: "unmarshalObj cfg = Inr m" using assms by (auto simp: getOutbounds_def bindR_eq_Inr)
  obtain cfgTls st0 where c: "configTls (nilObj m) = (cfgTls, st0)" by fastforce
  obtain rs st where f: "foldR (inboundOuts cfgTls (nilObj m)) is ([], st0) = Inr (rs, st)"
    and o: "outs = map (\<lambda>x. resolveTls st (fst x)) rs" "tags = map snd rs"
    using assms by (auto simp: getOutbounds_def bindR_eq_Inr m c)
  have "foldR (inboundOuts cfgTls (nilObj m)) js s = Inr s' \<Longrightarrow> \<forall>x \<in> set (fst s). namesOut x \<Longrightarrow> \<forall>x \<in> set (fst s'). namesOut x" for js s s'
    by (induction js arbitrary: s) (auto simp: bindR_eq_Inr dest: inboundOuts_names)
  from this [OF f] have "\<forall>x \<in> set rs. namesOut x" by simp
  then show ?thesis by (auto simp: o namesOut_def)
qed

text \<open>Every parser returns the tag it puts into the outbound.\<close>

lemma tag_kept [simp]:
  "k \<noteq> ''tag'' \<Longrightarrow> oget (setPos k s m) ''tag'' = oget m ''tag''" "k \<noteq> ''tag'' \<Longrightarrow> oget (setFlag k b m) ''tag'' = oget m ''tag''"
  "k \<noteq> ''tag'' \<Longrightarrow> oget (setList k s m) ''tag'' = oget m ''tag''"
  "oget (ssPlugin q m) ''tag'' = oget m ''tag''" "oget (ssV2ray q m) ''tag'' = oget m ''tag''"
  by (simp_all add: setPos_def setFlag_def setList_def ssPlugin_def ssV2ray_def Let_def)

lemma oget_second: "oget ((''type'', x) # (''tag'', y) # m) ''tag'' = y"
  by (simp add: oget_def)

lemma parser_tags:
  "vmess d i = Inr (m, tag) \<Longrightarrow> oget m ''tag'' = JStr tag" "vless u i = Inr (m, tag) \<Longrightarrow> oget m ''tag'' = JStr tag"
  "trojan u i = Inr (m, tag) \<Longrightarrow> oget m ''tag'' = JStr tag" "hy u i = Inr (m, tag) \<Longrightarrow> oget m ''tag'' = JStr tag"
  "hy2 u i = Inr (m, tag) \<Longrightarrow> oget m ''tag'' = JStr tag" "anytls u i = Inr (m, tag) \<Longrightarrow> oget m ''tag'' = JStr tag"
  "tuic u i = Inr (m, tag) \<Longrightarrow> oget m ''tag'' = JStr tag" "ss u i = Inr (m, tag) \<Longrightarrow> oget m ''tag'' = JStr tag"
  "parseNaiveLink u i = Inr (m, tag) \<Longrightarrow> oget m ''tag'' = JStr tag"
  unfolding vmess_def vless_def trojan_def hy_def hy2_def anytls_def tuic_def ss_def parseNaiveLink_def Let_def
  by (auto simp: bindR_eq_Inr oget_second split: prod.splits)

lemma GetOutbound_tag: "GetOutbound l i = Inr (m, tag) \<Longrightarrow> oget m ''tag'' = JStr tag"
  unfolding GetOutbound_def Let_def by (auto split: option.splits if_splits dest: parser_tags)

lemma externalOuts_names: "(m, tag) \<in> set (externalOuts links) \<Longrightarrow> strOr0 (oget m ''tag'') = tag"
  unfolding externalOuts_def Let_def
  by (auto simp: strOr0_def dest: GetOutbound_tag [OF sym] split: sum.splits prod.splits if_splits simp del: upt_Suc)

lemma mergeOthers_outbounds: "oget (mergeOthers others conf) ''outbounds'' = oget conf ''outbounds''"
  by (auto simp: mergeOthers_def copyKey_def Let_def split: sum.split)

text \<open>C24
  The groups of a JSON subscription resolve: the selector and the automatic group list, in order, exactly the
  tags of the outbounds that follow the three fixed ones, so no group names an outbound that is missing
  and no outbound is left out of the groups; the settings of the operator cannot change that.
\<close>

theorem json_groups_resolve:
  assumes "jsonDoc http subId e w = (Inr (c, all, conf), w')"
  shows "\<exists>outs. all = addDefaultOutbounds outs (map (\<lambda>o1. strOr0 (oget o1 ''tag'')) outs) \<and>
    oget conf ''outbounds'' = JArr (map JObj all)"
proof -
  obtain ibs outs tags links w1 w2 where o: "getOutbounds (c_config c) ibs = Inr (outs, tags)"
    and all: "all = addDefaultOutbounds (outs @ map fst (externalOuts links)) (tags @ map snd (externalOuts links))"
    and conf: "addOthers (oset ''outbounds'' (JArr (map JObj all)) defaultJson) e w1 = (Inr conf, w2)"
    using assms unfolding jsonDoc_def Let_def by (auto simp: bindA_Inr)
  have "map snd (externalOuts links) = map (\<lambda>o1. strOr0 (oget o1 ''tag'')) (map fst (externalOuts links))"
    using externalOuts_names by (auto simp: split_beta)
  then have "tags @ map snd (externalOuts links) = map (\<lambda>o1. strOr0 (oget o1 ''tag'')) (outs @ map fst (externalOuts links))"
    using getOutbounds_names [OF o] by simp
  moreover have "oget conf ''outbounds'' = JArr (map JObj all)"
    using conf by (auto simp: addOthers_def dropErr_def bindA_def mergeOthers_outbounds split: prod.splits sum.splits goerr.splits)
  ultimately show ?thesis unfolding all by metis
qed

section \<open>The groups of a Clash configuration\<close>

lemma name_kept [simp]:
  "k \<noteq> ''name'' \<Longrightarrow> oget (putWhen b k v m) ''name'' = oget m ''name''"
  "k' \<noteq> ''name'' \<Longrightarrow> oget (copyStr src k k' m) ''name'' = oget m ''name''"
  "k' \<noteq> ''name'' \<Longrightarrow> oget (copyNum src k k' m) ''name'' = oget m ''name''"
  "oget (clashPorts ob m) ''name'' = oget m ''name''" "oget (clashUtls tls m) ''name'' = oget m ''name''"
  "oget (clashWs b t tr m) ''name'' = oget m ''name''" "oget (clashMux ob m) ''name'' = oget m ''name''"
  by (simp_all add: putWhen_def copyStr_def copyNum_def clashPorts_def clashUtls_def clashWs_def clashMux_def Let_def split: option.split)

lemma if_someE: "(if c then a else b) = Some q \<Longrightarrow> (c \<Longrightarrow> a = Some q \<Longrightarrow> P) \<Longrightarrow> (\<not> c \<Longrightarrow> b = Some q \<Longrightarrow> P) \<Longrightarrow> P"
  by (cases c) simp_all

lemma kind_name: "clashKind t ob p = Some q \<Longrightarrow> oget q ''name'' = oget p ''name''"
  unfolding clashKind_def Let_def by (elim if_someE) (auto split: option.splits)

lemma reality_name: "clashReality tls p = Inr q \<Longrightarrow> oget q ''name'' = oget p ''name''"
  by (auto simp: clashReality_def bindR_eq_Inr split: option.splits if_splits)

lemma ech_name: "clashEch tls p = Inr q \<Longrightarrow> oget q ''name'' = oget p ''name''"
  by (auto simp: clashEch_def bindR_eq_Inr Let_def split: option.splits if_splits)

lemma tls_name:
  assumes "clashTls t tls p = Inr q"
  shows "oget q ''name'' = oget p ''name''"
proof -
  let ?p1 = "oset ''tls'' (oget tls ''enabled'') p"
  let ?p2 = "if t \<in> {''hysteria'', ''hysteria2'', ''tuic''} then oset ''alpn'' (JStrs [''h3'']) ?p1
    else putWhen (asArr (oget tls ''alpn'') \<noteq> None) ''alpn'' (oget tls ''alpn'') ?p1"
  obtain p3 where 3: "clashReality tls ?p2 = Inr p3"
    and 4: "clashEch tls (putWhen (asBool (oget tls ''insecure'') = Some True) ''skip-cert-verify'' (JBool True)
      (copyStr tls ''server_name'' (if t = ''vless'' \<or> t = ''vmess'' then ''servername'' else ''sni'') (clashUtls tls p3))) = Inr q"
    using assms unfolding clashTls_def Let_def bindR_eq_Inr by blast
  have "oget q ''name'' = oget p3 ''name''" using ech_name [OF 4] by simp
  moreover have "oget ?p2 ''name'' = oget p ''name''" by simp
  ultimately show ?thesis using reality_name [OF 3] by simp
qed

lemma transport_name: "clashTransport tls ob p = Inr q \<Longrightarrow> oget q ''name'' = oget p ''name''"
  unfolding clashTransport_def clashHttp_def Let_def
  by (auto simp: bindR_eq_Inr split: if_splits option.splits)

lemma oget_first: "oget ((k, x) # m) k = x"
  by (simp add: oget_def)

lemma clashProxy_name:
  assumes "clashProxy ob = Inr (Some (p, tag))"
  shows "oget p ''name'' = JStr tag \<and> oget ob ''tag'' = JStr tag \<and> strOr0 (oget ob ''type'') \<notin> {''selector'', ''urltest'', ''direct''}"
proof -
  obtain p1 p2 p3 where 1: "clashKind (strOr0 (oget ob ''type'')) ob [(''name'', oget ob ''tag''), (''type'', JStr (strOr0 (oget ob ''type''))),
      (''server'', JStr (clashServer (strOr0 (oget ob ''server'')))), (''port'', oget ob ''server_port'')] = Some p1"
    and 2: "(case activeTls ob of None \<Rightarrow> Inr p1 | Some tls \<Rightarrow> clashTls (strOr0 (oget ob ''type'')) tls p1) = Inr p2"
    and 3: "clashTransport (activeTls ob) ob p2 = Inr p3" "mustStr (oget ob ''tag'') = Inr tag" "p = clashMux ob p3"
    and t: "strOr0 (oget ob ''type'') \<notin> {''selector'', ''urltest'', ''direct''}"
    using assms unfolding clashProxy_def Let_def by (auto simp: bindR_eq_Inr split: if_splits option.splits)
  have "oget ob ''tag'' = JStr tag" using 3(2) by (cases "oget ob ''tag''") (auto simp: mustStr_def must_def)
  moreover have "oget p2 ''name'' = oget p1 ''name''" using 2 by (auto split: option.splits dest: tls_name)
  ultimately show ?thesis using kind_name [OF 1] transport_name [OF 3(1)] 3(3) t by (simp add: oget_first)
qed

text \<open>C25
  The groups of a Clash configuration resolve: both groups list exactly the names of the generated proxies, in their
  order, each the tag of an outbound of the client that is not itself a group or the direct outbound.
\<close>

theorem clash_groups_resolve:
  assumes "ConvertToClashMeta y outs basic = Inr text"
  shows "\<exists>ps m. clashProxies outs = Inr ps \<and> y_load y basic = Some m \<and>
    y_dump y (extendList ''proxy-groups'' (clashGroups (map snd ps)) (extendList ''proxies'' (map (JObj \<circ> fst) ps) m)) = Some text \<and>
    (\<forall>p \<in> set ps. oget (fst p) ''name'' = JStr (snd p) \<and>
       (\<exists>o1 \<in> set outs. oget o1 ''tag'' = JStr (snd p) \<and> strOr0 (oget o1 ''type'') \<notin> {''selector'', ''urltest'', ''direct''}))"
proof -
  obtain ps m where ps: "clashProxies outs = Inr ps" and m: "y_load y basic = Some m"
    and d: "y_dump y (extendList ''proxy-groups'' (clashGroups (map snd ps)) (extendList ''proxies'' (map (JObj \<circ> fst) ps) m)) = Some text"
    using assms unfolding ConvertToClashMeta_def Let_def
    by (auto simp: bindR_eq_Inr writable_def split: option.splits)
  obtain qs where q: "mapR clashProxy outs = Inr qs" "ps = concat (map (case_option [] (\<lambda>p. [p])) qs)"
    using ps by (auto simp: clashProxies_def bindR_eq_Inr)
  have "\<exists>o1 \<in> set outs. clashProxy o1 = Inr x" if "x \<in> set qs" for x
    using q(1) that by (induction outs arbitrary: qs) (auto simp: bindR_eq_Inr)
  moreover have "Some p \<in> set qs" if p: "p \<in> set ps" for p
  proof -
    obtain x where "x \<in> set qs" "p \<in> set (case_option [] (\<lambda>p. [p]) x)" using p q(2) by auto
    then show ?thesis by (cases x) auto
  qed
  ultimately have "\<exists>o1 \<in> set outs. clashProxy o1 = Inr (Some p)" if "p \<in> set ps" for p
    using that by blast
  then have "oget (fst p) ''name'' = JStr (snd p) \<and>
      (\<exists>o1 \<in> set outs. oget o1 ''tag'' = JStr (snd p) \<and> strOr0 (oget o1 ''type'') \<notin> {''selector'', ''urltest'', ''direct''})"
    if "p \<in> set ps" for p
    using that clashProxy_name [of _ "fst p" "snd p"] by fastforce
  then show ?thesis using ps m d by blast
qed

text \<open>A client with one Shadowsocks outbound, and a decoder that reads every text as an empty map.\<close>

definition ssOut :: obj where
  "ssOut = [(''type'', JStr ''shadowsocks''), (''tag'', JStr ''a''), (''server'', JStr ''10.0.0.1''), (''server_port'', JInt 8388),
     (''method'', JStr ''aes-128-gcm''), (''password'', JStr ''p'')]"

definition plainYaml :: yamlenv where
  "plainYaml = \<lparr>y_load = (\<lambda>_. Some []), y_dump = (\<lambda>m. Some (jtext (JObj m)))\<rparr>"

theorem clash_groups_resolve_witness:
  "\<exists>text ps. ConvertToClashMeta plainYaml [ssOut] basicClashConfig = Inr text \<and> clashProxies [ssOut] = Inr ps \<and> map snd ps = [''a''] \<and>
     (\<forall>p \<in> set ps. oget (fst p) ''name'' = JStr (snd p))"
proof -
  have ps: "\<exists>p. clashProxies [ssOut] = Inr [(p, ''a'')]"
    by (simp add: clashProxies_def clashProxy_def ssOut_def oget_def strOr0_def clashKind_def activeTls_def clashTransport_def mustStr_def must_def Let_def)
  then obtain p where p: "clashProxies [ssOut] = Inr [(p, ''a'')]" by blast
  then obtain out where t: "ConvertToClashMeta plainYaml [ssOut] basicClashConfig = Inr out"
    by (simp add: ConvertToClashMeta_def plainYaml_def writable_def)
  from clash_groups_resolve [OF t] t p show ?thesis by auto
qed

section \<open>Overrides leak\<close>

text \<open>
  The TLS override of one address reaches the others: the copies of an outbound share its TLS map, so
  with two addresses that name different servers both outbounds end with the name of the last.
\<close>

lemma tls_override_leaks:
  "bindR (getOutbounds (RText (JObj []))
      [zeroInbound\<lparr>i_tag := ''in'', i_out_json := RText (JObj [(''type'', JStr ''trojan''), (''tag'', JStr ''in''), (''tls'', JObj [(''enabled'', JBool True)])]),
         i_addrs := RText (JArr [JObj [(''server'', JStr ''one''), (''tls'', JObj [(''server_name'', JStr ''one.net'')])],
                                 JObj [(''server'', JStr ''two''), (''tls'', JObj [(''server_name'', JStr ''two.net'')])]])\<rparr>])
     (\<lambda>(outs, tags). Inr (map (\<lambda>o1. (oget o1 ''tag'', oget o1 ''server'', oget (objOr0 (oget o1 ''tls'')) ''server_name'')) outs)) =
   Inr [(JStr ''1.in'', JStr ''one'', JStr ''two.net''), (JStr ''2.in'', JStr ''two'', JStr ''two.net'')]"
  by code_simp

text \<open>The JSON subscription of the example client.\<close>

theorem json_groups_resolve_witness:
  "\<exists>all conf w'. jsonDoc (\<lambda>_. None) ''ann'' quietEnv hy2World = (Inr (ann, all, conf), w') \<and> oget conf ''outbounds'' = JArr (map JObj all) \<and>
     all = addDefaultOutbounds [] []"
proof -
  have i: "i_out_json hy2Row = RNil" "c_inbounds ann = RText (JArr [JNum 7])" "c_links ann = RNil" "i_id hy2Row = 7"
    by (simp_all add: hy2Row_def ann_def zeroClient_def zeroInbound_def)
  have db: "db_inbounds (w_db hy2World) = [hy2Row]" "db_settings (w_db hy2World) = []" by (simp_all add: hy2World_def emptyDb_def)
  obtain w1 where w1: "w1 = hy2World\<lparr>w_stmt := Suc (Suc (w_stmt hy2World))\<rparr>" "w_db w1 = w_db hy2World" by simp
  have ids: "unmarshalUints (c_inbounds ann) = Inr [7]" by (simp add: i unmarshalUints_def)
  have d: "\<exists>ib. i_out_json ib = RNil \<and> getData ''ann'' quietEnv hy2World = (Inr (ann, [ib]), w1)"
    using ids by (simp add: getData_def firstWhere_def inboundsWhere_def sqlq_def sub_world db Let_def bindA_def w1(1) i(1,4) preloadInb_def)
  then obtain ib where ib: "i_out_json ib = RNil" "getData ''ann'' quietEnv hy2World = (Inr (ann, [ib]), w1)" by blast
  have cfg: "\<exists>m. unmarshalObj (c_config ann) = Inr m" by (simp add: ann_def hy2Config_def)
  then have o: "getOutbounds (c_config ann) [ib] = Inr ([], [])"
    by (auto simp: getOutbounds_def inboundOuts_def ib(1) rawText_def split: prod.split)
  have l: "GetLinks (\<lambda>_. None) (c_links ann) ''external'' [] = Inr []" by (simp add: GetLinks_def i(3))
  let ?c = "oset ''outbounds'' (JArr (map JObj (addDefaultOutbounds [] []))) defaultJson"
  have "\<exists>conf w'. addOthers ?c quietEnv w1 = (Inr conf, w')"
    using getString_default [of quietEnv w1 "''subJsonExt''" "[]"]
    by (simp add: addOthers_def dropErr_def GetSubJsonExt_def w1(2) db settingOf_def defaultValueMap_def)
  then obtain conf w' where c: "addOthers ?c quietEnv w1 = (Inr conf, w')" by blast
  then have r: "jsonDoc (\<lambda>_. None) ''ann'' quietEnv hy2World = (Inr (ann, addDefaultOutbounds [] [], conf), w')"
    using ib(2) o l by (simp add: jsonDoc_def externalOuts_def Let_def)
  from json_groups_resolve [OF r] r show ?thesis by blast
qed

end
