(* ===== verification/Migration.thy ===== *)
theory Migration
  imports InboundLaws
begin

text \<open>
  \<open>cmd/migration/\<close>: bringing an older database to the current version.  The state is today's tables
  together with what only older schemas have: the declared types of the client columns, the column \<open>tls.inbounds\<close>, the
  table \<open>inbound_data\<close> and the column \<open>changes.index\<close>.  The file \<open>config.json\<close> of version 1.1, the program's version and
  the identifiers the database hands out are the environment.  Statements fail for what the tables
  hold, not on their own.  An error ends the process before the transaction is committed, so the file keeps its
  old content; a panic runs the deferred commit, because the error variable is still nil, so what was done stays.
\<close>

section \<open>State and actions\<close>

record idata =
  id_id :: nat
  id_tag :: string
  id_addrs :: raw
  id_out_json :: raw

record olddb =
  og_db :: dbase
  og_columns :: "(string \<times> string) list"
  og_tlsInbounds :: "(nat \<times> string) list option"
  og_inboundData :: "idata list option"
  og_changesIndex :: bool

record menv =
  m_newid :: "nat list \<Rightarrow> nat"
  m_config :: "raw option"
  m_version :: string

type_synonym 'a mig = "menv \<Rightarrow> olddb \<Rightarrow> 'a res \<times> olddb"

definition liftM :: "'a res \<Rightarrow> 'a mig" where
  "liftM r = (\<lambda>e d. (r, d))"

definition bindM :: "'a mig \<Rightarrow> ('a \<Rightarrow> 'b mig) \<Rightarrow> 'b mig" where
  "bindM a f = (\<lambda>e d. case a e d of (Inl x, d') \<Rightarrow> (Inl x, d') | (Inr v, d') \<Rightarrow> f v e d')"

definition thenM :: "'a mig \<Rightarrow> 'b mig \<Rightarrow> 'b mig" where
  "thenM a b = bindM a (\<lambda>_. b)"

definition getM :: "(menv \<Rightarrow> olddb \<Rightarrow> 'a) \<Rightarrow> 'a mig" where
  "getM f = (\<lambda>e d. (Inr (f e d), d))"

definition modM :: "(menv \<Rightarrow> dbase \<Rightarrow> dbase) \<Rightarrow> unit mig" where
  "modM f = (\<lambda>e d. (Inr (), d\<lparr>og_db := f e (og_db d)\<rparr>))"

definition modSchema :: "(olddb \<Rightarrow> olddb) \<Rightarrow> unit mig" where
  "modSchema f = (\<lambda>e d. (Inr (), f d))"

fun forM :: "('a \<Rightarrow> unit mig) \<Rightarrow> 'a list \<Rightarrow> unit mig" where
  "forM f [] = liftM (Inr ())"
| "forM f (x # xs) = thenM (f x) (forM f xs)"

text \<open>\<open>Create\<close> under a unique tag.\<close>

definition createTagged :: "('r \<Rightarrow> nat) \<Rightarrow> (nat \<Rightarrow> 'r \<Rightarrow> 'r) \<Rightarrow> ('r \<Rightarrow> string) \<Rightarrow> (nat list \<Rightarrow> nat) \<Rightarrow> 'r \<Rightarrow> 'r list \<Rightarrow> 'r list res" where
  "createTagged key setKey tagOf newid r rows =
     (if (\<exists>x \<in> set rows. tagOf x = tagOf r) \<or> (key r \<noteq> 0 \<and> key r \<in> key ` set rows) then Inl uniqueErr
      else Inr (snd (saveRow key setKey newid r rows)))"

definition createRow :: "(dbase \<Rightarrow> 'r list) \<Rightarrow> ('r list \<Rightarrow> dbase \<Rightarrow> dbase) \<Rightarrow> ((nat list \<Rightarrow> nat) \<Rightarrow> 'r \<Rightarrow> 'r list \<Rightarrow> 'r list res) \<Rightarrow> 'r \<Rightarrow> unit mig" where
  "createRow rows put create r = bindM (getM (\<lambda>e d. create (m_newid e) r (rows (og_db d)))) (\<lambda>x.
     bindM (liftM x) (\<lambda>rs. modM (\<lambda>e d. put rs d)))"

section \<open>To 1.1\<close>

definition getColumn :: "string \<Rightarrow> client \<Rightarrow> raw" where
  "getColumn k c = (if k = ''config'' then c_config c else if k = ''inbounds'' then c_inbounds c else c_links c)"

definition setColumn :: "string \<Rightarrow> raw \<Rightarrow> client \<Rightarrow> client" where
  "setColumn k r c = (if k = ''config'' then c\<lparr>c_config := r\<rparr> else if k = ''inbounds'' then c\<lparr>c_inbounds := r\<rparr> else c\<lparr>c_links := r\<rparr>)"

text \<open>A text column becomes JSON; a text that does not decode leaves the empty map or slice.\<close>

definition columnJson :: "string \<Rightarrow> raw \<Rightarrow> raw" where
  "columnJson k r =
     (if k = ''inbounds'' then RText (JArr (map JStr (split (rawText r) '','')))
      else if k = ''config'' then (case r of RText (JObj m) \<Rightarrow> r | RText JNull \<Rightarrow> r | _ \<Rightarrow> RText (JObj []))
      else (case r of RText (JArr vs) \<Rightarrow> r | RText JNull \<Rightarrow> r | _ \<Rightarrow> RText (JArr [])))"

definition migrateClientSchema :: "unit mig" where
  "migrateClientSchema = bindM (getM (\<lambda>e d. og_columns d)) (forM (\<lambda>(k, ty).
     if k \<in> {''config'', ''inbounds'', ''links''} \<and> ty = ''text''
     then modM (\<lambda>e d. d\<lparr>db_clients := map (\<lambda>c. setColumn k (columnJson k (getColumn k c)) c) (db_clients d)\<rparr>)
     else liftM (Inr ())))"

definition deleteOldWebSecret :: "unit mig" where
  "deleteOldWebSecret = modM (\<lambda>e d. d\<lparr>db_settings := filter (\<lambda>s. s_key s \<noteq> ''webSecret'') (db_settings d)\<rparr>)"

text \<open>\<open>obj NOT LIKE '"%"'\<close>, which no NULL satisfies.\<close>

definition unquoted :: "raw \<Rightarrow> bool" where
  "unquoted r \<longleftrightarrow> r \<noteq> RNil \<and> (let t = rawText r in \<not> (length t \<ge> 2 \<and> hd t = CHR 0x22 \<and> last t = CHR 0x22))"

definition changesObj :: "unit mig" where
  "changesObj = modM (\<lambda>e d. d\<lparr>db_changes := map (\<lambda>c. if ch_actor c = ''DepleteJob'' \<and> unquoted (ch_obj c)
     then c\<lparr>ch_obj := jparse (CHR 0x22 # rawText (ch_obj c) @ [CHR 0x22])\<rparr> else c) (db_changes d)\<rparr>)"

definition to1_1 :: "unit mig" where
  "to1_1 = thenM migrateClientSchema (thenM deleteOldWebSecret changesObj)"

section \<open>To 1.2\<close>

text \<open>SQLite's \<open>LIKE\<close>: percent sign and underscore are wildcards, letters match in either case.\<close>

fun sqlLike :: "string \<Rightarrow> string \<Rightarrow> bool" where
  "sqlLike [] s = (s = [])"
| "sqlLike (p # ps) [] = (p = CHR ''%'' \<and> sqlLike ps [])"
| "sqlLike (p # ps) (c # s) =
     (if p = CHR ''%'' then sqlLike ps (c # s) \<or> sqlLike (p # ps) s
      else (p = CHR ''_'' \<or> lowerChar p = lowerChar c) \<and> sqlLike ps s)"

text \<open>The identifier of the last TLS row that lists the tag, or 0.\<close>

definition tlsIdOf :: "string \<Rightarrow> (nat \<times> string) list \<Rightarrow> nat" where
  "tlsIdOf tag rows = (case rev (filter (\<lambda>(i, t). sqlLike (''%'' @ [CHR 0x22] @ tag @ [CHR 0x22] @ ''%'') t) rows) of [] \<Rightarrow> 0 | (i, t) # _ \<Rightarrow> i)"

text \<open>The TLS row of an inbound: one that lists it, or a new one unless the block is trivial.\<close>

definition bindTls :: "string \<Rightarrow> obj \<Rightarrow> obj mig" where
  "bindTls tag inb = (if \<not> ohas inb ''tls'' then liftM (Inr inb) else
     bindM (getM (\<lambda>e d. (og_tlsInbounds d, m_newid e (map t_id (db_tls (og_db d)))))) (\<lambda>(col, new).
     case col of None \<Rightarrow> liftM (Inl (Err ''no such column: inbounds''))
     | Some rows \<Rightarrow>
       if tlsIdOf tag rows > 0 then liftM (Inr (oset ''tls_id'' (JInt (int (tlsIdOf tag rows))) inb))
       else if length (jindent 0 (oget inb ''tls'')) > 5 then
         thenM (modM (\<lambda>e d. d\<lparr>db_tls := upsertRow t_id
             \<lparr>t_id = new, t_name = tag, t_server = RText (oget inb ''tls''), t_client = RText (JObj [])\<rparr> (db_tls d)\<rparr>))
           (liftM (Inr (oset ''tls_id'' (JInt (int new)) inb)))
       else liftM (Inr inb)))"

definition oldAddr :: "obj \<Rightarrow> obj" where
  "oldAddr a = (case asBool (oget a ''tls'') of None \<Rightarrow> a
     | Some on \<Rightarrow>
       let n0 = [(''enabled'', JBool on)];
           (n1, a1) = (case asBool (oget a ''insecure'') of None \<Rightarrow> (n0, a)
             | Some b \<Rightarrow> (oset ''insecure'' (JBool b) n0, odel ''insecure'' a));
           (n2, a2) = (case asStr (oget a1 ''server_name'') of None \<Rightarrow> (n1, a1)
             | Some s \<Rightarrow> (oset ''server_name'' (JStr s) n1, odel ''server_name'' a1))
       in oset ''tls'' (JObj n2) a2)"

text \<open>The addresses decoded with the error dropped: an element of another type is a nil map.\<close>

definition oldAddrs :: "raw \<Rightarrow> jv" where
  "oldAddrs r = (case r of RText (JArr vs) \<Rightarrow> JArr (map (\<lambda>v. case v of JObj m \<Rightarrow> JObj (oldAddr m) | _ \<Rightarrow> JNull) vs) | _ \<Rightarrow> JNull)"

text \<open>An inbound that is not an object is a nil map, and writing its \<open>out_json\<close> panics.\<close>

definition fromInboundData :: "string \<Rightarrow> obj \<Rightarrow> obj mig" where
  "fromInboundData tag inb = getM (\<lambda>e d.
     case Option.bind (og_inboundData d) (find (\<lambda>x. id_tag x = tag)) of
       Some x \<Rightarrow> if id_id x > 0 then oset ''addrs'' (oldAddrs (id_addrs x)) (oset ''out_json'' (JRaw (id_out_json x)) inb)
         else oset ''addrs'' (JArr []) (oset ''out_json'' (JObj []) inb)
     | None \<Rightarrow> oset ''addrs'' (JArr []) (oset ''out_json'' (JObj []) inb))"

definition moveInbound :: "jv \<Rightarrow> unit mig" where
  "moveInbound v = (let m = asObj v; tag = strOr0 (oget (nilObj m) ''tag'') in
     bindM (bindTls tag (nilObj m)) (\<lambda>inb.
     bindM (liftM (if m = None then Inl (Panic ''assignment to entry in nil map'') else Inr inb)) (\<lambda>inb.
     bindM (fromInboundData tag inb) (\<lambda>inb.
     let kept = fold odel [''sniff'', ''sniff_override_destination'', ''sniff_timeout'', ''domain_strategy''] inb;
         text1 = (case marshal (JObj kept) of Inl x \<Rightarrow> RNil | Inr r \<Rightarrow> r) in
     bindM (liftM (Inbound_UnmarshalJSON text1))
       (createRow db_inbounds (\<lambda>rs d. d\<lparr>db_inbounds := rs\<rparr>) (createTagged i_id (\<lambda>n i. i\<lparr>i_id := n\<rparr>) i_tag))))))"

text \<open>The tags of the outbounds that have become actions: blocking ones and DNS ones.\<close>

definition moveOutbound :: "jv \<Rightarrow> string list \<times> string list \<Rightarrow> (string list \<times> string list) mig" where
  "moveOutbound v tags =
     bindM (liftM (mustObj v)) (\<lambda>m. bindM (liftM (marshal v)) (\<lambda>raw1.
     if strOr0 (oget m ''type'') = ''wireguard'' then
       bindM (liftM (Endpoint_UnmarshalJSON raw1)) (\<lambda>p.
       thenM (createRow db_endpoints (\<lambda>rs d. d\<lparr>db_endpoints := rs\<rparr>) (createTagged p_id (\<lambda>n p. p\<lparr>p_id := n\<rparr>) p_tag) p)
         (liftM (Inr tags)))
     else
       bindM (liftM (Outbound_UnmarshalJSON raw1)) (\<lambda>o0.
       let o1 = (if o_type o0 = ''direct'' then o0\<lparr>o_options := (case unmarshalObj (o_options o0) of
             Inr (Some opts) \<Rightarrow> RText (JObj (fold odel [''override_address'', ''override_port''] opts))
           | _ \<Rightarrow> RText JNull)\<rparr> else o0) in
       if o_type o1 = ''dns'' then liftM (Inr (fst tags, snd tags @ [o_tag o1]))
       else if o_type o1 = ''block'' then liftM (Inr (fst tags @ [o_tag o1], snd tags))
       else thenM (createRow db_outbounds (\<lambda>rs d. d\<lparr>db_outbounds := rs\<rparr>) (createTagged o_id (\<lambda>n x. x\<lparr>o_id := n\<rparr>) o_tag) o1)
         (liftM (Inr tags)))))"

fun moveOutbounds :: "jv list \<Rightarrow> string list \<times> string list \<Rightarrow> (string list \<times> string list) mig" where
  "moveOutbounds [] tags = liftM (Inr tags)"
| "moveOutbounds (v # vs) tags = bindM (moveOutbound v tags) (moveOutbounds vs)"

definition ruleAction :: "string list \<Rightarrow> string list \<Rightarrow> jv \<Rightarrow> obj res" where
  "ruleAction blocks dns v = bindR (writable (asObj v)) (\<lambda>r.
     let tag = strOr0 (oget r ''outbound'');
         r1 = (if tag \<in> set blocks then oset ''action'' (JStr ''reject'') (odel ''outbound'' r) else r);
         r2 = (if tag \<in> set dns then oset ''action'' (JStr ''hijack-dns'') (odel ''outbound'' r1) else r1)
     in Inr (if tag \<notin> set blocks \<and> tag \<notin> set dns then oset ''action'' (JStr ''route'') r2 else r2))"

definition usesDns :: "string list \<Rightarrow> jv \<Rightarrow> bool" where
  "usesDns dns v \<longleftrightarrow> strOr0 (oget (nilObj (asObj v)) ''outbound'') \<in> set dns"

definition moveRoute :: "string list \<Rightarrow> string list \<Rightarrow> obj \<Rightarrow> obj res" where
  "moveRoute blocks dns conf = (case asObj (oget conf ''route'') of None \<Rightarrow> Inr conf
     | Some r \<Rightarrow> (case asArr (oget r ''rules'') of None \<Rightarrow> Inr conf
        | Some rules \<Rightarrow> bindR (mapR (ruleAction blocks dns) rules) (\<lambda>rs.
            let all = map JObj rs @ (if \<exists>v \<in> set rules. usesDns dns v then [JObj [(''action'', JStr ''sniff'')]] else [])
            in Inr (oset ''route'' (JObj (oset ''rules'' (JArr all) r)) conf))))"

definition moveJsonToDb :: "unit mig" where
  "moveJsonToDb = bindM (getM (\<lambda>e d. m_config e)) (\<lambda>file. case file of None \<Rightarrow> liftM (Inr ())
     | Some text1 \<Rightarrow>
       bindM (liftM (unmarshalObj text1)) (\<lambda>m. let conf = nilObj m in
       bindM (liftM (must ''[]interface'' (asArr (oget conf ''inbounds'')))) (\<lambda>inbs.
       thenM (modM (\<lambda>e d. d\<lparr>db_inbounds := []\<rparr>)) (
       thenM (forM moveInbound inbs) (
       bindM (liftM (must ''[]interface'' (asArr (oget conf ''outbounds'')))) (\<lambda>outs.
       thenM (modM (\<lambda>e d. d\<lparr>db_outbounds := [], db_endpoints := []\<rparr>)) (
       bindM (moveOutbounds outs ([], [])) (\<lambda>(blocks, dns).
       bindM (liftM (moveRoute blocks dns (odel ''outbounds'' (odel ''inbounds'' conf)))) (\<lambda>conf.
       bindM (liftM (mustObj (oget conf ''experimental''))) (\<lambda>ex.
       modM (\<lambda>e d. d\<lparr>db_settings := db_settings d @ [\<lparr>s_key = ''config'',
         s_value = jindent 0 (JObj (oset ''experimental'' (JObj (odel ''clash_api'' (odel ''v2ray_api'' ex))) conf))\<rparr>]\<rparr>)))))))))))"

definition clientTls :: "raw \<Rightarrow> raw" where
  "clientTls r = (case unmarshalObj r of Inl x \<Rightarrow> r | Inr None \<Rightarrow> RText JNull
     | Inr (Some m) \<Rightarrow> RText (JObj (filter (\<lambda>(k, v). k \<in> {''insecure'', ''disable_sni'', ''utls'', ''ech'', ''reality''}) m)))"

definition migrateTls :: "unit mig" where
  "migrateTls = bindM (getM (\<lambda>e d. og_tlsInbounds d)) (\<lambda>col. case col of None \<Rightarrow> liftM (Inr ())
     | Some _ \<Rightarrow> thenM (modSchema (\<lambda>d. d\<lparr>og_tlsInbounds := None\<rparr>)) (
         bindM (getM (\<lambda>e d. db_tls (og_db d))) (\<lambda>rows.
         if rows = [] then liftM (Inl emptySlice)
         else modM (\<lambda>e d. d\<lparr>db_tls := map (\<lambda>t. t\<lparr>t_client := clientTls (t_client t)\<rparr>) rows\<rparr>))))"

definition dropInboundData :: "unit mig" where
  "dropInboundData = modSchema (\<lambda>d. d\<lparr>og_inboundData := None\<rparr>)"

text \<open>Tags become identifiers.\<close>

definition clientInbounds :: "inbound list \<Rightarrow> client \<Rightarrow> client res" where
  "clientInbounds inbs c = bindR (unmarshalStrs (c_inbounds c)) (\<lambda>tags.
     Inr (c\<lparr>c_inbounds := marshalUintsNil (map i_id (filter (\<lambda>i. i_tag i \<in> set tags) inbs))\<rparr>))"

definition migrateClients :: "unit mig" where
  "migrateClients = bindM (getM (\<lambda>e d. mapR (clientInbounds (db_inbounds (og_db d))) (db_clients (og_db d)))) (\<lambda>r.
     bindM (liftM r) (\<lambda>cs. if cs = [] then liftM (Inl emptySlice) else modM (\<lambda>e d. d\<lparr>db_clients := cs\<rparr>)))"

definition migrateChanges :: "unit mig" where
  "migrateChanges = modSchema (\<lambda>d. d\<lparr>og_changesIndex := False\<rparr>)"

definition to1_2 :: "unit mig" where
  "to1_2 = thenM moveJsonToDb (thenM migrateTls (thenM dropInboundData (thenM migrateClients migrateChanges)))"

section \<open>To 1.3\<close>

definition urlPort :: "url \<Rightarrow> string" where
  "urlPort u = (case cutLast (CHR '':'') (u_host u) of None \<Rightarrow> []
     | Some (h, p) \<Rightarrow> if validOptionalPort (CHR '':'' # p) then p else [])"

definition dnsByScheme :: "string \<Rightarrow> url \<Rightarrow> obj \<Rightarrow> obj" where
  "dnsByScheme addr u s =
     (if u_scheme u = [] then oset ''server'' (JStr addr) (oset ''type'' (JStr ''udp'') s)
      else if u_scheme u \<in> {''udp'', ''tcp'', ''tls'', ''quic'', ''https'', ''h3''} then
        oset ''server'' (JStr (u_host u)) (oset ''type'' (JStr (u_scheme u)) s)
      else if u_scheme u = ''dhcp'' then
        let s1 = oset ''type'' (JStr (u_scheme u)) s in
        if u_host u \<noteq> ''auto'' \<and> u_host u \<noteq> [] then oset ''interface'' (JStr (u_host u)) s1 else s1
      else if u_scheme u = ''rcode'' then
        oset ''responses'' (JArr [JObj [(''rcode'', JStr (toUpper (u_host u)))]]) (oset ''type'' (JStr ''predefined'') s)
      else s)"

definition dnsServer :: "obj \<Rightarrow> obj" where
  "dnsServer s = (case asStr (oget s ''address'') of None \<Rightarrow> s
     | Some addr \<Rightarrow>
       if addr = [] then s
       else if addr = ''local'' \<or> addr = ''fakeip'' then oset ''type'' (JStr addr) (odel ''address'' s)
       else case urlParse addr of None \<Rightarrow> s
       | Some u \<Rightarrow>
         let s1 = odel ''address'' (dnsByScheme addr u s);
             s2 = (case atoi (urlPort u) of (p, ok) \<Rightarrow>
                     if urlPort u \<noteq> [] \<and> ok then oset ''server_port'' (JInt p) s1 else s1);
             s3 = (case asStr (oget s2 ''address_resolver'') of None \<Rightarrow> s2
                   | Some r \<Rightarrow> if r = [] then s2 else oset ''domain_resolver'' (JStr r) (odel ''address_resolver'' s2))
         in odel ''strategy'' s3)"

definition dnsServers :: "obj \<Rightarrow> obj" where
  "dnsServers dns = (case asArr (oget dns ''servers'') of None \<Rightarrow> dns
     | Some vs \<Rightarrow> oset ''servers'' (JArr (map (\<lambda>v. case v of JObj s \<Rightarrow> JObj (dnsServer s) | _ \<Rightarrow> v) vs)) dns)"

definition migrate_dns :: "unit mig" where
  "migrate_dns = bindM (getM (\<lambda>e d. settingOf ''config'' (db_settings (og_db d)))) (\<lambda>s. case s of
       None \<Rightarrow> liftM (Inl notFound)
     | Some text1 \<Rightarrow> if text1 = [] then liftM (Inr ()) else
       bindM (liftM (unmarshalObj (jparse text1))) (\<lambda>m.
       case asObj (oget (nilObj m) ''dns'') of None \<Rightarrow> liftM (Inr ())
       | Some dns \<Rightarrow> modM (\<lambda>e d. d\<lparr>db_settings := map (\<lambda>s. if s_key s = ''config''
           then s\<lparr>s_value := jindent 0 (JObj (oset ''dns'' (JObj (dnsServers dns)) (nilObj m)))\<rparr> else s) (db_settings d)\<rparr>)))"

text \<open>The condition is added after the query has run, so every outbound is rewritten; the errors of the saves are dropped.\<close>

definition withoutStrategy :: "outbound \<Rightarrow> unit mig" where
  "withoutStrategy x = bindM (liftM (unmarshalObj (o_options x))) (\<lambda>m.
     let x' = x\<lparr>o_options := (case m of None \<Rightarrow> RText JNull | Some opts \<Rightarrow> RText (JObj (odel ''domain_strategy'' opts)))\<rparr> in
     modM (\<lambda>e d. case saveTagged o_id (\<lambda>n x. x\<lparr>o_id := n\<rparr>) o_tag (m_newid e) x' (db_outbounds d) of
         Inl y \<Rightarrow> d | Inr (_, rows) \<Rightarrow> d\<lparr>db_outbounds := rows\<rparr>))"

definition remove_outbound_strategy :: "unit mig" where
  "remove_outbound_strategy = bindM (getM (\<lambda>e d. db_outbounds (og_db d))) (forM withoutStrategy)"

text \<open>A client without \<open>anytls\<close> gets what it has for \<open>trojan\<close>, or \<open>null\<close>.\<close>

definition addAnytls :: "client \<Rightarrow> unit mig" where
  "addAnytls c = bindM (liftM (unmarshalObj (c_config c))) (\<lambda>m.
     if ohas (nilObj m) ''anytls'' then liftM (Inr ())
     else bindM (liftM (writable m)) (\<lambda>conf.
       modM (\<lambda>e d. d\<lparr>db_clients := snd (saveRow c_id (\<lambda>n c. c\<lparr>c_id := n\<rparr>) (m_newid e)
         (c\<lparr>c_config := RText (JObj (oset ''anytls'' (oget conf ''trojan'') conf))\<rparr>) (db_clients d))\<rparr>)))"

definition anytls_user_config :: "unit mig" where
  "anytls_user_config = bindM (getM (\<lambda>e d. db_clients (og_db d))) (forM addAnytls)"

definition to1_3 :: "unit mig" where
  "to1_3 = thenM anytls_user_config (thenM migrate_dns remove_outbound_strategy)"

section \<open>The migration\<close>

text \<open>What happens to the process and what the database file holds afterwards.\<close>

datatype outcome = NoDatabase | UpToDate | Migrated | Fatal string | Crashed string

definition dbVersion :: "dbase \<Rightarrow> string" where
  "dbVersion d = (case rev (filter (\<lambda>s. s_key s = ''version'') (db_settings d)) of [] \<Rightarrow> [] | s # _ \<Rightarrow> s_value s)"

definition setVersion :: "unit mig" where
  "setVersion = modM (\<lambda>e d. d\<lparr>db_settings := map (\<lambda>s. if s_key s = ''version'' then s\<lparr>s_value := m_version e\<rparr> else s) (db_settings d)\<rparr>)"

definition migrateFrom :: "string \<Rightarrow> unit mig" where
  "migrateFrom v =
     thenM (if v = [] then thenM to1_1 to1_2 else liftM (Inr ()))
       (let v' = (if v = [] then ''1.2'' else v) in
        thenM (if length v' < 3 then liftM (Inl (Panic ''slice bounds out of range''))
               else if take 3 v' = ''1.2'' then to1_3 else liftM (Inr ()))
          setVersion)"

definition MigrateDb :: "menv \<Rightarrow> olddb option \<Rightarrow> outcome \<times> olddb option" where
  "MigrateDb e db = (case db of None \<Rightarrow> (NoDatabase, None)
     | Some d \<Rightarrow>
       if dbVersion (og_db d) = m_version e then (UpToDate, Some d)
       else (case migrateFrom (dbVersion (og_db d)) e d of
            (Inl (Err m), d') \<Rightarrow> (Fatal m, Some d)
          | (Inl (Panic m), d') \<Rightarrow> (Crashed m, Some d')
          | (Inr _, d') \<Rightarrow> (Migrated, Some d')))"

section \<open>What a migration keeps\<close>

lemma mig_simps [simp]:
  "liftM r e d = (r, d)" "getM f e d = (Inr (f e d), d)" "modM g e d = (Inr (), d\<lparr>og_db := g e (og_db d)\<rparr>)"
  "modSchema h e d = (Inr (), h d)"
  by (simp_all add: liftM_def getM_def modM_def modSchema_def)

lemma bindM_Inr: "bindM a f e d = (Inr y, d') \<longleftrightarrow> (\<exists>x d1. a e d = (Inr x, d1) \<and> f x e d1 = (Inr y, d'))"
  by (auto simp: bindM_def split: prod.splits sum.splits)

lemma thenM_Inr: "thenM a b e d = (Inr y, d') \<longleftrightarrow> (\<exists>d1. a e d = (Inr (), d1) \<and> b e d1 = (Inr y, d'))"
  by (simp add: thenM_def bindM_Inr)

lemma bindM_run [simp]:
  "a e d = (Inr x, d1) \<Longrightarrow> bindM a f e d = f x e d1"
  "a e d = (Inl y, d1) \<Longrightarrow> bindM a f e d = (Inl y, d1)"
  by (simp_all add: bindM_def)

text \<open>\<open>keepsM J a\<close>: every run of \<open>a\<close>, failed ones included, keeps \<open>J\<close>.\<close>

definition keepsM :: "(olddb \<Rightarrow> bool) \<Rightarrow> 'a mig \<Rightarrow> bool" where
  "keepsM J a \<longleftrightarrow> (\<forall>e d. J d \<longrightarrow> J (snd (a e d)))"

named_theorems keeps_migration "how a condition passes through the combinators of a migration"

lemma keepsM_rules [keeps_migration]:
  "keepsM J (liftM r)" "keepsM J (getM f)"
  by (simp_all add: keepsM_def)

lemma keepsM_bind [keeps_migration]: "keepsM J a \<Longrightarrow> (\<And>x. keepsM J (f x)) \<Longrightarrow> keepsM J (bindM a f)"
  unfolding keepsM_def bindM_def by (clarsimp split: prod.splits sum.splits) (metis snd_conv)

lemma keepsM_then [keeps_migration]: "keepsM J a \<Longrightarrow> keepsM J b \<Longrightarrow> keepsM J (thenM a b)"
  by (simp add: thenM_def keepsM_bind)

lemma keepsM_for [keeps_migration]: "(\<And>x. keepsM J (f x)) \<Longrightarrow> keepsM J (forM f xs)"
  by (induction xs) (auto intro: keepsM_then keepsM_rules)

lemma keepsM_if [keeps_migration]: "keepsM J a \<Longrightarrow> keepsM J b \<Longrightarrow> keepsM J (if c then a else b)"
  by simp

lemma keepsM_option [keeps_migration]:
  "keepsM J a \<Longrightarrow> (\<And>y. keepsM J (b y)) \<Longrightarrow> keepsM J (case x of None \<Rightarrow> a | Some y \<Rightarrow> b y)"
  by (cases x) auto

lemma keepsM_pair [keeps_migration]: "(\<And>a b. keepsM J (f a b)) \<Longrightarrow> keepsM J (case x of (a, b) \<Rightarrow> f a b)"
  by (cases x) auto

lemma keepsM_mod: "(\<And>e d. J d \<Longrightarrow> J (d\<lparr>og_db := f e (og_db d)\<rparr>)) \<Longrightarrow> keepsM J (modM f)"
  by (simp add: keepsM_def)

lemma keepsM_schema: "(\<And>d. J d \<Longrightarrow> J (f d)) \<Longrightarrow> keepsM J (modSchema f)"
  by (simp add: keepsM_def)

lemma keepsM_create:
  "(\<And>rs d. J d \<Longrightarrow> J (d\<lparr>og_db := put rs (og_db d)\<rparr>)) \<Longrightarrow> keepsM J (createRow rows put create r)"
  unfolding createRow_def by (intro keeps_migration keepsM_mod)

lemma keepsM_run: "keepsM J a \<Longrightarrow> a e d = (r, d') \<Longrightarrow> J d \<Longrightarrow> J d'"
  unfolding keepsM_def by (metis snd_conv)

text \<open>The client rows keep their identifiers and a version row stays.\<close>

definition hasVersion :: "olddb \<Rightarrow> bool" where
  "hasVersion d \<longleftrightarrow> (\<exists>s \<in> set (db_settings (og_db d)). s_key s = ''version'')"

definition versioned :: "olddb \<Rightarrow> bool" where
  "versioned d \<longleftrightarrow> goodIds (db_clients (og_db d)) \<and> hasVersion d"

lemma goodIds_map: "(\<And>c. c_id (f c) = c_id c) \<Longrightarrow> goodIds (map f cs) \<longleftrightarrow> goodIds cs"
  by (simp add: goodIds_def comp_def)

lemma goodIds_ids: "map c_id cs' = map c_id cs \<Longrightarrow> goodIds cs \<Longrightarrow> goodIds cs'"
  unfolding goodIds_def by (metis imageE imageI list.set_map)

lemma clientInbounds_ids: "mapR (clientInbounds inbs) cs = Inr cs' \<Longrightarrow> map c_id cs' = map c_id cs"
  by (induction cs arbitrary: cs') (auto simp: bindR_eq_Inr clientInbounds_def)

lemma versioned_1_1: "keepsM versioned to1_1"
  unfolding to1_1_def migrateClientSchema_def deleteOldWebSecret_def changesObj_def
  by (intro keeps_migration keepsM_mod) (auto simp: versioned_def hasVersion_def goodIds_map setColumn_def)

lemma versioned_moveJson: "keepsM versioned moveJsonToDb"
proof -
  have inb: "keepsM versioned (moveInbound v)" for v
    unfolding moveInbound_def bindTls_def fromInboundData_def Let_def
    by (intro keeps_migration keepsM_mod keepsM_create) (auto simp: versioned_def hasVersion_def)
  have out: "keepsM versioned (moveOutbound v tags)" for v tags
    unfolding moveOutbound_def Let_def
    by (intro keeps_migration keepsM_create) (auto simp: versioned_def hasVersion_def)
  have outs: "keepsM versioned (moveOutbounds vs tags)" for vs tags
    by (induction vs arbitrary: tags) (auto intro: keeps_migration out)
  show ?thesis
    unfolding moveJsonToDb_def Let_def
    by (intro keeps_migration keepsM_mod inb outs) (auto simp: versioned_def hasVersion_def)
qed

lemma versioned_1_2: "keepsM versioned to1_2"
proof -
  have "keepsM versioned migrateTls" "keepsM versioned dropInboundData" "keepsM versioned migrateChanges"
    unfolding migrateTls_def dropInboundData_def migrateChanges_def
    by (intro keeps_migration keepsM_mod keepsM_schema; force simp: versioned_def hasVersion_def)+
  moreover have "keepsM versioned migrateClients"
    unfolding keepsM_def
  proof (intro allI impI)
    fix e d assume v: "versioned d"
    show "versioned (snd (migrateClients e d))"
    proof (cases "mapR (clientInbounds (db_inbounds (og_db d))) (db_clients (og_db d))")
      case (Inr cs)
      then show ?thesis
        using v clientInbounds_ids [OF Inr] goodIds_ids [of cs "db_clients (og_db d)"]
        by (auto simp: migrateClients_def versioned_def hasVersion_def)
    qed (use v in \<open>simp add: migrateClients_def\<close>)
  qed
  ultimately show ?thesis
    unfolding to1_2_def by (intro keeps_migration versioned_moveJson)
qed

text \<open>Every client has an entry for AnyTLS.\<close>

definition hasAnytls :: "client \<Rightarrow> bool" where
  "hasAnytls c \<longleftrightarrow> (\<exists>m. c_config c = RText (JObj m) \<and> ohas m ''anytls'')"

lemma unmarshalObj_Some: "unmarshalObj r = Inr (Some m) \<longleftrightarrow> r = RText (JObj m)"
  by (cases r rule: unmarshalObj.cases) auto

lemma addAnytls_step:
  assumes "addAnytls c e d = (Inr (), d')" "goodIds (db_clients (og_db d))" "c \<in> set (db_clients (og_db d))"
  shows "(d' = d \<and> hasAnytls c) \<or> (\<exists>c'. hasAnytls c' \<and> c_id c' = c_id c \<and>
    db_clients (og_db d') = map (\<lambda>y. if c_id y = c_id c then c' else y) (db_clients (og_db d)))"
proof -
  obtain m where m: "unmarshalObj (c_config c) = Inr m" using assms(1) by (auto simp: addAnytls_def bindM_Inr)
  show ?thesis
  proof (cases "ohas (nilObj m) ''anytls''")
    case True
    then obtain x where "m = Some x" by (cases m) (auto simp: nilObj_def ohas_def)
    with True m assms(1) show ?thesis by (auto simp: addAnytls_def hasAnytls_def unmarshalObj_Some nilObj_def)
  next
    case False
    then obtain x where x: "m = Some x"
      using assms(1) m by (cases m) (auto simp: addAnytls_def writable_def nilObj_def)
    let ?c = "c\<lparr>c_config := RText (JObj (oset ''anytls'' (oget x ''trojan'') x))\<rparr>"
    have "c_id c \<noteq> 0" using assms(2,3) by (simp add: goodIds_def)
    then have "snd (saveRow c_id (\<lambda>n c. c\<lparr>c_id := n\<rparr>) f ?c (db_clients (og_db d))) =
        map (\<lambda>y. if c_id y = c_id c then ?c else y) (db_clients (og_db d))" for f
      using clients.saveRow_present [of ?c "db_clients (og_db d)" f] assms(3) by simp
    moreover have "hasAnytls ?c" by (simp add: hasAnytls_def)
    ultimately show ?thesis
      using False x m assms(1) by (intro disjI2 exI [of _ ?c]) (auto simp: addAnytls_def writable_def)
  qed
qed

lemma addAnytls_all:
  assumes "forM addAnytls cs e d = (Inr (), d')" "goodIds (db_clients (og_db d))" "set cs \<subseteq> set (db_clients (og_db d))"
    and "distinct (map c_id cs)" "\<forall>c \<in> set (db_clients (og_db d)). c \<in> set cs \<or> hasAnytls c"
  shows "\<forall>c \<in> set (db_clients (og_db d')). hasAnytls c"
  using assms
proof (induction cs arbitrary: d)
  case (Cons c cs)
  let ?rows = "db_clients (og_db d)"
  obtain d1 where 1: "addAnytls c e d = (Inr (), d1)" and 2: "forM addAnytls cs e d1 = (Inr (), d')"
    using Cons.prems(1) by (auto simp: thenM_def bindM_Inr)
  have c: "c \<in> set ?rows" using Cons.prems(3) by simp
  have same: "x = c" if "x \<in> set ?rows" "c_id x = c_id c" for x
    using Cons.prems(2) that c by (auto simp: goodIds_def distinct_map inj_on_def)
  show ?case
    using addAnytls_step [OF 1 Cons.prems(2) c]
  proof
    assume "d1 = d \<and> hasAnytls c"
    then have d1: "d1 = d" and rest: "\<forall>x \<in> set ?rows. x \<in> set cs \<or> hasAnytls x" using Cons.prems(5) by auto
    show ?thesis
      by (rule Cons.IH [OF 2]) (use d1 rest Cons.prems(2-4) in auto)
  next
    assume "\<exists>c'. hasAnytls c' \<and> c_id c' = c_id c \<and> db_clients (og_db d1) = map (\<lambda>y. if c_id y = c_id c then c' else y) ?rows"
    then obtain c' where c': "hasAnytls c'" "c_id c' = c_id c"
      and rows: "db_clients (og_db d1) = map (\<lambda>y. if c_id y = c_id c then c' else y) ?rows" by blast
    have "goodIds (db_clients (og_db d1))"
      by (rule goodIds_ids [OF _ Cons.prems(2)]) (simp add: rows c' cong: map_cong)
    moreover have "x \<in> set (db_clients (og_db d1))" if "x \<in> set cs" for x
      using that Cons.prems(3,4) by (force simp: rows image_iff)
    moreover have "\<forall>x \<in> set (db_clients (og_db d1)). x \<in> set cs \<or> hasAnytls x"
      using Cons.prems(5) c' same by (auto simp: rows)
    ultimately show ?thesis using Cons.IH [OF 2] Cons.prems(4) by auto
  qed
qed auto

lemma anytls_stays: "keepsM (\<lambda>d. \<forall>c \<in> set (db_clients (og_db d)). hasAnytls c) migrate_dns"
  "keepsM (\<lambda>d. \<forall>c \<in> set (db_clients (og_db d)). hasAnytls c) remove_outbound_strategy"
  "keepsM (\<lambda>d. \<forall>c \<in> set (db_clients (og_db d)). hasAnytls c) setVersion"
  unfolding migrate_dns_def remove_outbound_strategy_def withoutStrategy_def setVersion_def Let_def
  by (intro keeps_migration keepsM_mod; auto split: sum.split)+

lemma to1_3_anytls:
  assumes "to1_3 e d = (Inr (), d')" "goodIds (db_clients (og_db d))"
  shows "\<forall>c \<in> set (db_clients (og_db d')). hasAnytls c"
proof -
  obtain d1 where 1: "anytls_user_config e d = (Inr (), d1)" and 2: "thenM migrate_dns remove_outbound_strategy e d1 = (Inr (), d')"
    using assms(1) by (auto simp: to1_3_def thenM_def bindM_Inr)
  have "\<forall>c \<in> set (db_clients (og_db d1)). hasAnytls c"
    using 1 assms(2) by (intro addAnytls_all [of "db_clients (og_db d)" e d]) (auto simp: anytls_user_config_def goodIds_def)
  then show ?thesis
    using keepsM_run [OF keepsM_then [OF anytls_stays(1,2)] 2] by blast
qed

lemma hasVersion_1_3: "keepsM hasVersion to1_3"
proof -
  have "keepsM hasVersion migrate_dns" "keepsM hasVersion remove_outbound_strategy" "keepsM hasVersion anytls_user_config"
    unfolding migrate_dns_def remove_outbound_strategy_def withoutStrategy_def anytls_user_config_def addAnytls_def Let_def
    by (intro keeps_migration keepsM_mod; auto simp: hasVersion_def split: sum.split)+
  then show ?thesis unfolding to1_3_def by (intro keeps_migration)
qed

lemma setVersion_dbVersion:
  assumes "setVersion e d = (Inr (), d')" "hasVersion d"
  shows "dbVersion (og_db d') = m_version e"
proof -
  let ?f = "\<lambda>s. if s_key s = ''version'' then s\<lparr>s_value := m_version e\<rparr> else s"
  let ?ss = "filter (\<lambda>s. s_key s = ''version'') (db_settings (og_db d))"
  have flt: "filter (\<lambda>s. s_key s = ''version'') (map ?f ss) = map ?f (filter (\<lambda>s. s_key s = ''version'') ss)" for ss
    by (induction ss) auto
  have "rev ?ss \<noteq> []" using assms(2) by (auto simp: hasVersion_def filter_empty_conv)
  then obtain s ss where ss: "rev ?ss = s # ss" by (cases "rev ?ss") auto
  have "s \<in> set (rev ?ss)" unfolding ss by simp
  then have s: "s_key s = ''version''" by simp
  have "rev (filter (\<lambda>s. s_key s = ''version'') (map ?f (db_settings (og_db d)))) = ?f s # map ?f ss"
    by (simp only: flt rev_map ss list.map)
  moreover have "d' = d\<lparr>og_db := (og_db d)\<lparr>db_settings := map ?f (db_settings (og_db d))\<rparr>\<rparr>"
    using assms(1) by (simp add: setVersion_def)
  ultimately show ?thesis using s by (simp add: dbVersion_def)
qed

lemma MigrateDb_some: "\<exists>r d'. MigrateDb e (Some d) = (r, Some d')"
proof (cases "migrateFrom (dbVersion (og_db d)) e d")
  case (Pair r d1)
  then show ?thesis
  proof (cases r)
    case (Inl x)
    with Pair show ?thesis by (cases x) (simp_all add: MigrateDb_def)
  qed (simp add: MigrateDb_def)
qed

lemma MigrateDb_Migrated:
  assumes "MigrateDb e (Some d) = (Migrated, Some d')"
  shows "migrateFrom (dbVersion (og_db d)) e d = (Inr (), d')"
proof -
  obtain r d1 where r: "migrateFrom (dbVersion (og_db d)) e d = (r, d1)" by fastforce
  show ?thesis
  proof (cases r)
    case (Inl x)
    with assms r show ?thesis by (cases x; cases "dbVersion (og_db d) = m_version e"; simp add: MigrateDb_def)
  next
    case (Inr u)
    with assms r show ?thesis by (cases "dbVersion (og_db d) = m_version e"; simp add: MigrateDb_def)
  qed
qed


text \<open>A database of version 1.2 with one client.\<close>

definition oldWorld :: olddb where
  "oldWorld = \<lparr>og_db = emptyDb\<lparr>db_clients := [zeroClient\<lparr>c_id := 1, c_name := ''ann'',
       c_config := RText (JObj [(''trojan'', JObj [(''password'', JStr ''pw'')])]), c_inbounds := marshalUints [1]\<rparr>],
     db_settings := [\<lparr>s_key = ''version'', s_value = ''1.2.9''\<rparr>, \<lparr>s_key = ''config'', s_value = []\<rparr>]\<rparr>,
     og_columns = [(''config'', ''blob'')], og_tlsInbounds = None, og_inboundData = None, og_changesIndex = False\<rparr>"

definition thisVersion :: menv where
  "thisVersion = \<lparr>m_newid = (\<lambda>ids. Suc (fold max ids 0)), m_config = None, m_version = ''1.4.0''\<rparr>"


section \<open>A migration that cannot succeed\<close>

lemma mapR_fails:
  "x \<in> set xs \<Longrightarrow> f x = Inl (Err m) \<Longrightarrow> (\<And>y p. f y \<noteq> Inl (Panic p)) \<Longrightarrow> \<exists>m. mapR f xs = Inl (Err m)"
proof (induction xs)
  case (Cons y ys)
  show ?case
  proof (cases "f y")
    case (Inl g)
    with Cons.prems(3) [of y] show ?thesis by (cases g) auto
  next
    case (Inr v)
    with Cons show ?thesis by auto
  qed
qed simp

lemma mapR_no_panic: "(\<And>y p. f y \<noteq> Inl (Panic p)) \<Longrightarrow> mapR f xs \<noteq> Inl (Panic p)"
proof (induction xs)
  case (Cons y ys)
  then show ?case by (cases "f y"; cases "mapR f ys") (auto simp: bindR_def)
qed simp

lemma unmarshalStrs_no_panic: "unmarshalStrs r \<noteq> Inl (Panic p)"
proof -
  have "mapR (\<lambda>v. case v of JStr s \<Rightarrow> Inr s | JNull \<Rightarrow> Inr [] | _ \<Rightarrow> jsonErr) vs \<noteq> Inl (Panic p)" for vs
    by (rule mapR_no_panic) (auto split: jv.split)
  then show ?thesis by (auto simp: unmarshalStrs_def split: rawmsg.split jv.split)
qed

lemma clientInbounds_of_ids:
  "c_inbounds c = marshalUints (i # ids) \<Longrightarrow> \<exists>m. clientInbounds inbs c = Inl (Err m)"
  "clientInbounds inbs c \<noteq> Inl (Panic p)"
  using unmarshalStrs_no_panic [of "c_inbounds c" p]
  by (auto simp: clientInbounds_def unmarshalStrs_def marshalUints_def bindR_def split: sum.split)

lemma mapR_clientInbounds_fails:
  assumes "c \<in> set cs" "c_inbounds c = marshalUints (i # ids)"
  shows "\<exists>m. mapR (clientInbounds inbs) cs = Inl (Err m)"
proof -
  obtain m where "clientInbounds inbs c = Inl (Err m)" using clientInbounds_of_ids(1) [OF assms(2)] by blast
  then show ?thesis by (rule mapR_fails [OF assms(1)]) (rule clientInbounds_of_ids(2))
qed

lemma schema_untouched:
  assumes "\<forall>x \<in> set (og_columns d). snd x \<noteq> ''text''"
  shows "migrateClientSchema e d = (Inr (), d)"
proof -
  have "\<forall>x \<in> set cols. snd x \<noteq> ''text'' \<Longrightarrow> forM (\<lambda>(k, ty).
     if k \<in> {''config'', ''inbounds'', ''links''} \<and> ty = ''text''
     then modM (\<lambda>e d. d\<lparr>db_clients := map (\<lambda>c. setColumn k (columnJson k (getColumn k c)) c) (db_clients d)\<rparr>)
     else liftM (Inr ())) cols e d = (Inr (), d)" for cols
    by (induction cols) (auto simp: thenM_def bindM_def)
  with assms show ?thesis by (simp add: migrateClientSchema_def)
qed

text \<open>C32
  Resetting the settings disables the next start: the reset also removes the version of the database, so the
  migration takes a current database for one older than 1.1 and fails on the first client that has an
  inbound, every time, leaving the database as it was.
\<close>

theorem reset_blocks_migration:
  assumes "ResetSettings e w = (Inr (), w')" "og_db d = w_db w'"
    and "\<forall>x \<in> set (og_columns d). snd x \<noteq> ''text''" "og_tlsInbounds d = None" "m_config env = None" "m_version env \<noteq> []"
    and "c \<in> set (db_clients (w_db w))" "c_inbounds c = marshalUints (i # ids)"
  shows "\<exists>m. MigrateDb env (Some d) = (Fatal m, Some d)"
proof -
  have db: "og_db d = (w_db w)\<lparr>db_settings := []\<rparr>"
    using assms(1,2) by (auto simp: ResetSettings_def sqlx_def sqlu_def Let_def split: if_splits)
  then have v: "dbVersion (og_db d) = []" by (simp add: dbVersion_def)
  have "\<exists>ss cs. to1_1 env d = (Inr (), d\<lparr>og_db := (og_db d)\<lparr>db_settings := ss, db_changes := cs\<rparr>\<rparr>)"
    using schema_untouched [OF assms(3), of env]
    by (simp add: to1_1_def thenM_def deleteOldWebSecret_def changesObj_def) blast
  then obtain d1 where 1: "to1_1 env d = (Inr (), d1)" and clients: "db_clients (og_db d1) = db_clients (w_db w)"
    and cols: "og_tlsInbounds d1 = None"
    using db assms(4) by fastforce
  let ?d = "d1\<lparr>og_inboundData := None\<rparr>"
  obtain m where "mapR (clientInbounds (db_inbounds (og_db ?d))) (db_clients (og_db ?d)) = Inl (Err m)"
    using mapR_clientInbounds_fails [OF assms(7,8)] clients by auto
  then have "migrateClients env ?d = (Inl (Err m), ?d)" by (simp add: migrateClients_def)
  then have "to1_2 env d1 = (Inl (Err m), ?d)"
    using cols assms(5) by (simp add: to1_2_def thenM_def moveJsonToDb_def migrateTls_def dropInboundData_def)
  with 1 have "migrateFrom [] env d = (Inl (Err m), ?d)" by (simp add: migrateFrom_def thenM_def bindM_def)
  then show ?thesis using v assms(6) by (simp add: MigrateDb_def)
qed

theorem reset_blocks_migration_witness:
  "\<exists>w' m. ResetSettings quietEnv (worldWith (db_clients (og_db oldWorld))) = (Inr (), w') \<and>
     MigrateDb thisVersion (Some (oldWorld\<lparr>og_db := w_db w'\<rparr>)) = (Fatal m, Some (oldWorld\<lparr>og_db := w_db w'\<rparr>))"
proof -
  let ?w = "worldWith (db_clients (og_db oldWorld))"
  obtain w' where r: "ResetSettings quietEnv ?w = (Inr (), w')"
    by (simp add: ResetSettings_def sqlx_def sqlu_def Let_def)
  have "\<exists>m. MigrateDb thisVersion (Some (oldWorld\<lparr>og_db := w_db w'\<rparr>)) = (Fatal m, Some (oldWorld\<lparr>og_db := w_db w'\<rparr>))"
    by (rule reset_blocks_migration [OF r, where c = "hd (db_clients (og_db oldWorld))" and i = 1 and ids = "[]"])
      (simp_all add: oldWorld_def thisVersion_def worldWith_def)
  with r show ?thesis by blast
qed

text \<open>An address with a port keeps the port in the server name as well.\<close>

lemma dns_port_twice:
  "dnsServer [(''address'', JStr ''tls://1.1.1.1:853'')] =
     [(''type'', JStr ''tls''), (''server'', JStr ''1.1.1.1:853''), (''server_port'', JInt 853)]"
  by code_simp

end
