(* ===== verification/DbSetup.thy ===== *)
theory DbSetup
  imports Migration Users
begin

text \<open>
  \<open>database/db.go\<close> and \<open>database/backup.go\<close>: the first rows of a new database, the backup an operator downloads
  and the import of an uploaded one.  The import works on files: their contents, what the panel's open connection
  refers to, and which operation of the file system fails, are explicit; what SQLite makes of the uploaded bytes is an argument.
\<close>

section \<open>A new database\<close>

definition initUser :: "unit act" where
  "initUser = bindA (rowsWhere db_users (\<lambda>_. True)) (\<lambda>us.
     if us = [] then saveUser (zeroUser\<lparr>u_username := ''admin'', u_password := ''admin''\<rparr>) else retA ())"

text \<open>\<open>hasTable\<close>: the table of outbounds exists already.  The error of creating the default row is dropped.\<close>

definition InitDB :: "bool \<Rightarrow> unit act" where
  "InitDB hasTable =
     thenA (if hasTable then retA ()
            else logErr (bindA (saveOutbound \<lparr>o_id = 0, o_type = ''direct'', o_tag = ''direct'', o_options = RText (JObj [])\<rparr>) (\<lambda>_. retA ())))
       (thenA (sqlx (\<lambda>d. d)) initUser)"

section \<open>Backup\<close>

definition GetDb :: "string \<Rightarrow> dbase act" where
  "GetDb exclude = (let ex = split exclude '','' in
     bindA (rowsWhere db_settings (\<lambda>_. True)) (\<lambda>ss.
     bindA (rowsWhere db_tls (\<lambda>_. True)) (\<lambda>ts.
     bindA (rowsWhere db_inbounds (\<lambda>_. True)) (\<lambda>is.
     bindA (rowsWhere db_outbounds (\<lambda>_. True)) (\<lambda>os.
     bindA (rowsWhere db_endpoints (\<lambda>_. True)) (\<lambda>ps.
     bindA (rowsWhere db_users (\<lambda>_. True)) (\<lambda>us.
     bindA (rowsWhere db_clients (\<lambda>_. True)) (\<lambda>cs.
     bindA (if ''stats'' \<in> set ex then retA [] else rowsWhere db_stats (\<lambda>_. True)) (\<lambda>sts.
     bindA (if ''changes'' \<in> set ex then retA [] else rowsWhere db_changes (\<lambda>_. True)) (\<lambda>chs.
       retA \<lparr>db_settings = ss, db_tls = ts, db_inbounds = is, db_outbounds = os, db_services = [], db_endpoints = ps,
         db_users = us, db_tokens = [], db_stats = sts, db_clients = cs, db_changes = chs\<rparr>))))))))))"

text \<open>
  What a backup holds: it is read without changing anything and carries every row of the tables it copies, but
  neither the services nor the API tokens, so a panel restored from it has lost both.
\<close>

lemma backup_omits:
  assumes "GetDb exclude e w = (Inr b, w')"
  shows "w_db w' = w_db w \<and> b = (w_db w)\<lparr>db_services := [], db_tokens := [],
    db_stats := (if ''stats'' \<in> set (split exclude '','') then [] else db_stats (w_db w)),
    db_changes := (if ''changes'' \<in> set (split exclude '','') then [] else db_changes (w_db w))\<rparr>"
  using assms unfolding GetDb_def Let_def run_rows by (auto simp: bindA_Inr dest!: rowsWhere_Inr split: if_splits)

text \<open>A panel with one service and one token.\<close>

definition servedWorld :: world where
  "servedWorld = (worldWith [])\<lparr>w_db := emptyDb\<lparr>db_tokens := [\<lparr>tk_id = 1, tk_desc = [], tk_token = ''t'', tk_expiry = 0, tk_user_id = 1\<rparr>],
     db_services := [\<lparr>v_id = 1, v_type = ''derp'', v_tag = ''relay'', v_tls_id = 0, v_tls = None, v_options = RText (JObj [])\<rparr>]\<rparr>\<rparr>"

theorem backup_omits_witness:
  "\<exists>b w'. GetDb ''stats'' quietEnv servedWorld = (Inr b, w') \<and> db_services b = [] \<and> db_tokens b = [] \<and> db_services (w_db servedWorld) \<noteq> []"
proof -
  have ex: "split ''stats'' '','' = [''stats'']" by code_simp
  obtain b w' where r: "GetDb ''stats'' quietEnv servedWorld = (Inr b, w')"
    using ex by (simp add: GetDb_def rowsWhere_def sqlq_def bindA_def Let_def)
  have "db_services b = [] \<and> db_tokens b = []" using backup_omits [OF r] by simp
  with r show ?thesis by (auto simp: servedWorld_def)
qed

section \<open>Import\<close>

datatype handle = OnFile | Closed | OnUpload

record files =
  fl_db :: "string option"
  fl_temp :: "string option"
  fl_backup :: "string option"
  fl_handle :: handle

datatype fsop = Seek | RemoveTemp | CreateTemp | CopyUpload | OpenTemp | RemoveBackup | MoveAway | MoveIn | MoveBack | FindProcess

datatype imported = ImportErr string | ImportExit | ImportPanic string | ImportDone

definition signature :: string where
  "signature = ''SQLite format 3'' @ [CHR 0x00]"

text \<open>The buffer is zero where the file is shorter.\<close>

definition IsSQLiteDB :: "string \<Rightarrow> bool res" where
  "IsSQLiteDB upload = (if upload = [] then Inl (Err ''EOF'')
     else Inr (take (length signature) (upload @ replicate (length signature) CHR 0x00) = signature))"

text \<open>The deferred removals of every return and of a panic; the exit of the process runs none of them.\<close>

definition importReturn :: "imported \<Rightarrow> files \<Rightarrow> imported \<times> files" where
  "importReturn r f = (r, f\<lparr>fl_temp := None\<rparr>)"

definition importReturn2 :: "imported \<Rightarrow> files \<Rightarrow> imported \<times> files" where
  "importReturn2 r f = (r, f\<lparr>fl_temp := None, fl_backup := None\<rparr>)"

text \<open>\<open>mig\<close>: the migration of the file at the database's path; \<open>init\<close>: whether \<open>InitDB\<close> accepts it.\<close>

definition importMoved :: "(fsop \<Rightarrow> bool) \<Rightarrow> (string \<Rightarrow> outcome \<times> string) \<Rightarrow> (string \<Rightarrow> bool) \<Rightarrow> string \<Rightarrow> files \<Rightarrow> imported \<times> files" where
  "importMoved fails mig init upload f =
     (if fails MoveIn then
        (if fails MoveBack then importReturn2 (ImportErr ''Error moving db file and restoring fallback'') f
         else importReturn2 (ImportErr ''Error moving db file'') (f\<lparr>fl_db := fl_backup f, fl_backup := None\<rparr>))
      else case mig upload of (out, c) \<Rightarrow>
        let f1 = f\<lparr>fl_db := Some c, fl_temp := None\<rparr> in
        (case out of Fatal m \<Rightarrow> (ImportExit, f1) | Crashed m \<Rightarrow> importReturn2 (ImportPanic m) f1 | _ \<Rightarrow>
          (let f2 = f1\<lparr>fl_handle := OnUpload\<rparr> in
           if \<not> init c then
             (if fails MoveBack then importReturn2 (ImportErr ''Error migrating db and restoring fallback'') f2
              else importReturn2 (ImportErr ''Error migrating db'') (f2\<lparr>fl_db := fl_backup f2, fl_backup := None\<rparr>))
           else if fails FindProcess then importReturn2 (ImportErr ''Error restarting app'') f2
           else importReturn2 ImportDone f2)))"

definition ImportDB :: "(fsop \<Rightarrow> bool) \<Rightarrow> (string \<Rightarrow> outcome \<times> string) \<Rightarrow> (string \<Rightarrow> bool) \<Rightarrow> string \<Rightarrow> files \<Rightarrow> imported \<times> files" where
  "ImportDB fails mig init upload f =
     (case IsSQLiteDB upload of Inl x \<Rightarrow> (ImportErr ''Error checking db file format'', f)
      | Inr ok \<Rightarrow>
        if \<not> ok then (ImportErr ''Invalid db file format'', f)
        else if fails Seek then (ImportErr ''Error resetting file reader'', f)
        else if fl_temp f \<noteq> None \<and> fails RemoveTemp then (ImportErr ''Error removing existing temporary db file'', f)
        else let f0 = f\<lparr>fl_temp := None\<rparr> in
        if fails CreateTemp then (ImportErr ''Error creating temporary db file'', f0)
        else let f1 = f0\<lparr>fl_temp := Some [], fl_handle := Closed\<rparr> in
        if fails CopyUpload then importReturn (ImportErr ''Error saving db'') f1
        else let f2 = f1\<lparr>fl_temp := Some upload\<rparr> in
        if fails OpenTemp then importReturn (ImportErr ''Error checking db'') f2
        else if fl_backup f2 \<noteq> None \<and> fails RemoveBackup then importReturn (ImportErr ''Error removing existing fallback db file'') f2
        else let f3 = f2\<lparr>fl_backup := None\<rparr> in
        if fails MoveAway \<or> fl_db f3 = None then importReturn (ImportErr ''Error backing up temporary db file'') f3
        else importMoved fails mig init upload (f3\<lparr>fl_backup := fl_db f3, fl_db := None\<rparr>))"

text \<open>
  An import that fails restores the old file, unless moving files back fails too, or SQLite cannot migrate
  the upload: then the process ends with the upload in place.
\<close>

lemma import_restores:
  assumes "ImportDB fails mig init upload f = (ImportErr m, f')" "\<not> fails MoveBack" "\<not> fails FindProcess"
  shows "fl_db f' = fl_db f"
  using assms unfolding ImportDB_def importMoved_def importReturn_def importReturn2_def Let_def
  by (auto split: sum.splits if_splits prod.splits outcome.splits)

text \<open>C31
  An import that fails costs the panel its database: the running connection is closed before the upload is opened,
  so one that cannot be opened leaves the old file with a closed connection; one whose migration fails ends
  the process with the upload in the place of the database; and one whose migration panics leaves the half
  migrated upload there and has the copy of the old database deleted.
\<close>

theorem import_cuts_off:
  assumes "IsSQLiteDB upload = Inr True" "\<forall>x. fails x \<longrightarrow> x = OpenTemp" "fl_db f = Some old" "fl_handle f = OnFile"
  shows "(fails OpenTemp \<longrightarrow> (\<exists>m f'. ImportDB fails mig init upload f = (ImportErr m, f') \<and> fl_db f' = Some old \<and> fl_handle f' = Closed)) \<and>
    (\<not> fails OpenTemp \<and> mig upload = (Fatal m, upload) \<longrightarrow>
       (\<exists>f'. ImportDB fails mig init upload f = (ImportExit, f') \<and> fl_db f' = Some upload \<and> fl_backup f' = Some old)) \<and>
    (\<not> fails OpenTemp \<and> mig upload = (Crashed m, part) \<longrightarrow>
       (\<exists>f'. ImportDB fails mig init upload f = (ImportPanic m, f') \<and> fl_db f' = Some part \<and> fl_backup f' = None \<and> fl_handle f' = Closed))"
proof -
  have "\<not> fails x" if "x \<noteq> OpenTemp" for x using assms(2) that by blast
  then show ?thesis
    using assms(1,3,4) by (simp add: ImportDB_def importMoved_def importReturn_def importReturn2_def Let_def)
qed

theorem import_cuts_off_witness:
  "\<exists>f'. ImportDB (\<lambda>_. False) (\<lambda>u. (Fatal ''file is not a database'', u)) (\<lambda>_. True) (signature @ ''junk'')
      \<lparr>fl_db = Some ''clients'', fl_temp = None, fl_backup = None, fl_handle = OnFile\<rparr> = (ImportExit, f') \<and>
    fl_db f' = Some (signature @ ''junk'') \<and> fl_backup f' = Some ''clients''"
  using import_cuts_off [of "signature @ ''junk''" "\<lambda>_. False" "\<lparr>fl_db = Some ''clients'', fl_temp = None, fl_backup = None, fl_handle = OnFile\<rparr>"
      "''clients''" "\<lambda>u. (Fatal ''file is not a database'', u)" "\<lambda>_. True" "''file is not a database''"]
  by (simp add: IsSQLiteDB_def)

end
