(* ===== verification/BulkEdit.thy ===== *)
theory BulkEdit
  imports ClientLaws
begin

text \<open>
  The list of clients and the bulk edit of \<open>service/client.go\<close> together: the list leaves columns out, and the
  edit stores whole rows.
\<close>

section \<open>What a bulk edit stores\<close>

text \<open>The columns that neither the identity nor the links of a client touch.\<close>

definition plain :: "client \<Rightarrow> client" where
  "plain c = c\<lparr>c_config := RNil, c_links := RNil\<rparr>"

lemma plain_columns:
  assumes "plain x = plain y"
  shows "c_id x = c_id y" "c_enable x = c_enable y" "c_banned x = c_banned y" "c_banned_at x = c_banned_at y"
    "c_delay_start x = c_delay_start y" "c_auto_reset x = c_auto_reset y" "c_total_up x = c_total_up y"
    "c_total_down x = c_total_down y"
  using assms by (cases x, cases y, simp add: plain_def)+

lemma plain_mem:
  assumes "map plain xs = map plain ys" "x \<in> set xs"
  obtains y where "y \<in> set ys" "plain x = plain y"
proof -
  obtain i where i: "i < length xs" "x = xs ! i" using assms(2) by (auto simp: in_set_conv_nth)
  have len: "length xs = length ys" using assms(1) map_eq_imp_length_eq by blast
  have "plain (xs ! i) = plain (ys ! i)" using i len assms(1) nth_map by metis
  then show ?thesis using that [of "ys ! i"] i len by simp
qed

lemma plain_identity: "setConfigIdentity c = Inr c' \<Longrightarrow> plain c' = plain c"
  by (auto simp: setConfigIdentity_def plain_def bindR_eq_Inr split: if_splits)

lemma plain_changes:
  assumes "findInboundsChanges c fill e w = (Inr (c', ids), w')"
  shows "plain c' = plain c \<and> w_db w' = w_db w \<and> c_id c \<in> c_id ` set (db_clients (w_db w))"
proof -
  obtain old w1 where "firstWhere db_clients (\<lambda>x. c_id x = c_id c) e w = (Inr old, w1)"
    and c': "c' = (if fill then c\<lparr>c_links := c_links old, c_config := c_config old\<rparr> else c) \<and> w' = w1"
    using assms by (auto simp: findInboundsChanges_def bindA_Inr Let_def)
  from firstWhere_Inr [OF this(1)] c' show ?thesis by (auto simp: plain_def image_iff split: if_splits) metis+
qed

definition newLinks :: "string \<Rightarrow> (nat \<Rightarrow> nat) \<Rightarrow> (nat \<times> inbound) list \<Rightarrow> client \<times> nat list \<Rightarrow> client res" where
  "newLinks host rnd byId = (\<lambda>(c, ids). bindR (unmarshalLinks (c_links c)) (\<lambda>old.
     bindR (linksFor rnd (c_config c) byId host ids) (\<lambda>new.
       Inr (c\<lparr>c_links := marshalLinks (new @ filter (\<lambda>l. lget l ''type'' \<noteq> ''local'') old)\<rparr>))))"

lemma plain_newLinks: "mapR (newLinks host rnd byId) ps = Inr rs \<Longrightarrow> map plain rs = map (plain \<circ> fst) ps"
  by (induction ps arbitrary: rs) (auto simp: bindR_eq_Inr plain_def newLinks_def)

lemma plain_links:
  assumes "updateLinksWithFixedInbounds cs host e w = (Inr cs', w')"
  shows "map plain cs' = map plain cs \<and> w_db w' = w_db w"
proof -
  obtain idss allIds ibs w1 where 1: "mapR (\<lambda>c. unmarshalUints (c_inbounds c)) cs = Inr idss"
    and q: "(if allIds = [] then retA []
      else inboundsWhere (\<lambda>i. i_id i \<in> set allIds \<and> i_type i \<in> set InboundTypeWithLink)) e w = (Inr ibs, w1)"
    and 2: "mapR (newLinks host (e_rnd e) (map (\<lambda>i. (i_id i, i)) ibs)) (zip cs idss) = Inr cs' \<and> w' = w1"
    using assms unfolding updateLinksWithFixedInbounds_def Let_def newLinks_def bindA_Inr by fastforce
  have "w_db w1 = w_db w" using q by (auto simp: inboundsWhere_def sqlq_def Let_def split: if_splits)
  moreover have "map (plain \<circ> fst) (zip cs idss) = map plain cs"
    using mapR_length [OF 1] by (metis map_fst_zip map_map)
  ultimately show ?thesis using 2 plain_newLinks by metis
qed

definition editStep :: "client option \<Rightarrow> client list \<times> nat list \<Rightarrow> (client list \<times> nat list) act" where
  "editStep p acc = (case acc of (cs, ids) \<Rightarrow>
     bindA (liftR (deref p)) (\<lambda>c. bindA (findInboundsChanges c True) (\<lambda>(c1, is).
     bindA (liftR (setConfigIdentity c1)) (\<lambda>c2.
       retA (cs @ [c2], if is = [] then ids else UnionUintArray ids is)))))"

lemma editStep_run:
  "editStep (Some d) (cs0, ids0) e w = (Inr r, w') \<Longrightarrow> \<exists>c1 xs c2. findInboundsChanges d True e w = (Inr (c1, xs), w') \<and>
     setConfigIdentity c1 = Inr c2 \<and> r = (cs0 @ [c2], if xs = [] then ids0 else UnionUintArray ids0 xs)"
  by (clarsimp simp: editStep_def deref_def bindA_Inr split del: if_split)

lemma editBulk_steps: "editBulk data host = bindA (liftR (unmarshalClients data)) (\<lambda>ps. bindA (foldA editStep ps ([], [])) (\<lambda>(cs, ids).
    bindA (if ids = [] then retA cs else updateLinksWithFixedInbounds cs host) (\<lambda>cs'. thenA (saveClients cs') (retA ids))))"
  by (simp only: editBulk_def editStep_def [abs_def])

lemma editStep_fold:
  assumes "foldA editStep (map Some ds) (cs0, ids0) e w = (Inr (cs, ids), w')"
  shows "map plain cs = map plain cs0 @ map plain ds \<and> w_db w' = w_db w \<and> c_id ` set ds \<subseteq> c_id ` set (db_clients (w_db w))"
  using assms
proof (induction ds arbitrary: cs0 ids0 w)
  case (Cons d ds)
  obtain c1 xs w1 c2 where 1: "findInboundsChanges d True e w = (Inr (c1, xs), w1)" and 2: "setConfigIdentity c1 = Inr c2"
    and 3: "foldA editStep (map Some ds) (cs0 @ [c2], if xs = [] then ids0 else UnionUintArray ids0 xs) e w1 = (Inr (cs, ids), w')"
    using Cons.prems editStep_run by (clarsimp simp: bindA_Inr split del: if_split) blast
  from Cons.IH [OF 3] plain_changes [OF 1] plain_identity [OF 2] show ?case by auto
qed auto

lemma editBulk_rows:
  assumes "editBulk data host e w = (Inr ids, w')" "unmarshalClients data = Inr (map Some ds)"
    and "distinct (map c_id ds)" "goodIds (db_clients (w_db w))"
  shows "\<exists>cs. map plain cs = map plain ds \<and> c_id ` set ds \<subseteq> c_id ` set (db_clients (w_db w)) \<and>
    db_clients (w_db w') = map (\<lambda>r. case find (\<lambda>x. c_id x = c_id r) cs of Some x \<Rightarrow> x | None \<Rightarrow> r) (db_clients (w_db w))"
proof -
  obtain cs ids1 w1 cs' w2 where 1: "foldA editStep (map Some ds) ([], []) e w = (Inr (cs, ids1), w1)"
    and 2: "(if ids1 = [] then retA cs else updateLinksWithFixedInbounds cs host) e w1 = (Inr cs', w2)"
    and 3: "thenA (saveClients cs') (retA ids1) e w2 = (Inr ids, w')"
    using assms(1,2) by (clarsimp simp: editBulk_steps bindA_Inr split del: if_split)
  note first = editStep_fold [OF 1]
  have p: "map plain cs' = map plain ds" and db: "w_db w2 = w_db w"
    using 2 first plain_links [of cs host e w1 cs' w2] by (auto split: if_splits)
  have ids: "map c_id cs' = map c_id ds"
  proof -
    have "c_id (plain x) = c_id x" for x by (simp add: plain_def)
    then have "map c_id xs = map c_id (map plain xs)" for xs by simp
    then show ?thesis using p by metis
  qed
  then have keys: "c_id ` set cs' = c_id ` set ds" by (metis list.set_map)
  have pos: "\<forall>x \<in> set cs'. c_id x \<noteq> 0 \<and> c_id x \<in> c_id ` set (db_clients (w_db w))"
  proof
    fix x assume "x \<in> set cs'"
    then have "c_id x \<in> c_id ` set ds" using keys by (metis imageI)
    then have m: "c_id x \<in> c_id ` set (db_clients (w_db w))" using first by (meson subsetD)
    then obtain r where "r \<in> set (db_clients (w_db w))" "c_id x = c_id r" by (auto simp: image_iff)
    with m assms(4) show "c_id x \<noteq> 0 \<and> c_id x \<in> c_id ` set (db_clients (w_db w))" by (simp add: goodIds_def)
  qed
  have "db_clients (w_db w') = fold (\<lambda>c rows. snd (saveRow c_id (\<lambda>n c. c\<lparr>c_id := n\<rparr>) (e_newid e) c rows)) cs' (db_clients (w_db w))"
    using 3 db by (auto simp: saveClients_def thenA_def run_sqlu split: if_splits)
  also have "\<dots> = map (\<lambda>r. case find (\<lambda>x. c_id x = c_id r) cs' of Some x \<Rightarrow> x | None \<Rightarrow> r) (db_clients (w_db w))"
    by (rule clients.fold_saveRow) (use assms(3) ids pos in simp_all)
  finally show ?thesis using p first by blast
qed

text \<open>C9
  A bulk edit lifts bans: the list of clients leaves out the ban, the reset plan and the totals, and the bulk edit
  stores the listed rows whole, so whatever limits the operator changes, every banned client among
  the edited ones is no longer banned, is enabled if the edit enables it, and has lost its reset plan and its totals.
\<close>

theorem bulk_edit_lifts_bans:
  assumes "Client_GetAll e0 w = (Inr l, w0)" "unmarshalClients data = Inr (map (\<lambda>c. Some (edit c)) (filter P l))"
    and "\<forall>c \<in> set l. c_id (edit c) = c_id c \<and> edit c = listedClient (edit c)"
    and "ClientService_Save ''editbulk'' data host e w = (Inr ids, w')" "goodIds (db_clients (w_db w))"
  shows "(\<forall>c \<in> set l. \<not> c_banned c) \<and>
    (\<forall>c \<in> set (db_clients (w_db w)). P (listedClient c) \<longrightarrow> (\<exists>c' \<in> set (db_clients (w_db w')). c_id c' = c_id c \<and>
       c_enable c' = c_enable (edit (listedClient c)) \<and> \<not> c_banned c' \<and> c_banned_at c' = 0 \<and> \<not> c_delay_start c' \<and>
       \<not> c_auto_reset c' \<and> c_total_up c' = 0 \<and> c_total_down c' = 0))"
proof -
  let ?rows = "db_clients (w_db w)" and ?ds = "map edit (filter P l)"
  have l: "l = map listedClient ?rows"
    using assms(1) by (auto simp: Client_GetAll_def sqlq_def Let_def split: if_splits)
  have idl: "c_id (listedClient c) = c_id c" for c by (simp add: listedClient_def)
  have edits: "c_id (edit x) = c_id x" if "x \<in> set l" for x using assms(3) that by blast
  have dl: "distinct (map c_id l)" using assms(5) by (simp add: l goodIds_def comp_def idl)
  have "map c_id ?ds = map c_id (filter P l)" using edits by simp
  moreover have "distinct (map c_id (filter P l))" using dl by (simp add: distinct_map_filter)
  ultimately have d: "distinct (map c_id ?ds)" by metis
  have "editBulk data host e w = (Inr ids, w')" using assms(4) by (simp add: ClientService_Save_def)
  from editBulk_rows [OF this _ d assms(5)] assms(2) obtain cs where p: "map plain cs = map plain ?ds"
    and rows: "db_clients (w_db w') = map (\<lambda>r. case find (\<lambda>x. c_id x = c_id r) cs of Some x \<Rightarrow> x | None \<Rightarrow> r) ?rows"
    by (auto simp: comp_def)
  have main: "\<exists>c' \<in> set (db_clients (w_db w')). c_id c' = c_id c \<and> plain c' = plain (edit (listedClient c))"
    if c: "c \<in> set ?rows" "P (listedClient c)" for c
  proof -
    let ?d = "edit (listedClient c)"
    have idd: "c_id ?d = c_id c" using edits [of "listedClient c"] c(1) idl by (simp add: l)
    have inl: "listedClient c \<in> set l" using c(1) by (simp add: l)
    then have dm: "?d \<in> set ?ds" using c(2) by simp
    then obtain x0 where x0: "x0 \<in> set cs" "plain ?d = plain x0" by (rule plain_mem [OF p [symmetric]])
    then have "c_id x0 = c_id c" using plain_columns(1) idd by metis
    then have "find (\<lambda>x. c_id x = c_id c) cs \<noteq> None" using x0(1) unfolding find_None_iff by blast
    then obtain x where f: "find (\<lambda>x. c_id x = c_id c) cs = Some x" by blast
    then have x: "x \<in> set cs" "c_id x = c_id c" unfolding find_Some_iff by (metis nth_mem)+
    obtain d1 where d1: "d1 \<in> set ?ds" "plain x = plain d1" by (rule plain_mem [OF p x(1)])
    have "c_id d1 = c_id ?d" using plain_columns(1) [OF d1(2)] x(2) idd by simp
    then have "d1 = ?d" using d d1(1) dm unfolding distinct_map inj_on_def by blast
    moreover have "x \<in> set (db_clients (w_db w'))" unfolding rows using c(1) f by force
    ultimately show ?thesis using d1(2) x(2) by blast
  qed
  have "\<exists>c' \<in> set (db_clients (w_db w')). c_id c' = c_id c \<and> c_enable c' = c_enable (edit (listedClient c)) \<and> \<not> c_banned c' \<and>
      c_banned_at c' = 0 \<and> \<not> c_delay_start c' \<and> \<not> c_auto_reset c' \<and> c_total_up c' = 0 \<and> c_total_down c' = 0"
    if c: "c \<in> set ?rows" "P (listedClient c)" for c
  proof -
    obtain c' where c': "c' \<in> set (db_clients (w_db w'))" "c_id c' = c_id c" "plain c' = plain (edit (listedClient c))"
      using main [OF c] by blast
    moreover have "listedClient c \<in> set l" using c(1) by (simp add: l)
    then obtain d where "edit (listedClient c) = listedClient d" using assms(3) by blast
    ultimately show ?thesis using plain_columns [OF c'(3)]
      by (intro bexI [of _ c']) (simp_all add: listedClient_def zeroClient_def)
  qed
  then show ?thesis by (auto simp: l listedClient_def zeroClient_def)
qed

text \<open>A banned client, and a bulk edit that raises limits.\<close>

definition bannedWorld :: world where
  "bannedWorld = worldWith [zeroClient\<lparr>c_id := 1, c_name := ''ann'', c_inbounds := RText (JArr []), c_banned := True,
     c_banned_at := 5, c_auto_reset := True, c_total_up := 7\<rparr>]"

definition bulkEdit :: raw where
  "bulkEdit = RText (JArr [JObj [(''id'', JNum 1), (''enable'', JBool True), (''name'', JStr ''ann''), (''inbounds'', JArr [])]])"

theorem bulk_edit_lifts_bans_witness:
  "\<exists>w'. ClientService_Save ''editbulk'' bulkEdit ''host'' quietEnv bannedWorld = (Inr [], w') \<and>
     (\<exists>c' \<in> set (db_clients (w_db w')). c_id c' = 1 \<and> c_enable c' \<and> \<not> c_banned c' \<and> c_total_up c' = 0)"
proof -
  let ?c = "zeroClient\<lparr>c_id := 1, c_name := ''ann'', c_inbounds := RText (JArr []), c_banned := True, c_banned_at := 5, c_auto_reset := True, c_total_up := 7\<rparr>"
  let ?l = "listedClient ?c"
  let ?edit = "\<lambda>c. listedClient (c\<lparr>c_enable := True\<rparr>)"
  have rows: "db_clients (w_db bannedWorld) = [?c]" by (simp add: bannedWorld_def worldWith_def)
  obtain w0 where g: "Client_GetAll quietEnv bannedWorld = (Inr [?l], w0)"
    by (simp add: Client_GetAll_def sqlq_def rows Let_def)
  have d: "unmarshalClients bulkEdit = Inr (map (\<lambda>c. Some (?edit c)) (filter (\<lambda>_. True) [?l]))"
    by (simp add: bulkEdit_def decodeClient_def field_def asUintO_def rawField_def listedClient_def zeroClient_def)
  have u: "unmarshalUints (RText (JArr [])) = Inr []" "UnionUintArray [] [] = []" "DiffUintArray [] [] = []"
    by code_simp+
  obtain w' where s: "ClientService_Save ''editbulk'' bulkEdit ''host'' quietEnv bannedWorld = (Inr [], w')"
    by (simp add: ClientService_Save_def editBulk_def d u findInboundsChanges_def firstWhere_def sqlq_def rows Let_def deref_def
        setConfigIdentity_def rawText_def saveClients_def sqlu_def thenA_def bindA_def listedClient_def zeroClient_def)
  have gd: "goodIds (db_clients (w_db bannedWorld))" unfolding rows by (simp add: goodIds_def zeroClient_def)
  have ed: "\<forall>c \<in> set [?l]. c_id (?edit c) = c_id c \<and> ?edit c = listedClient (?edit c)" by (simp add: listedClient_def)
  have "?c \<in> set (db_clients (w_db bannedWorld))" unfolding rows by simp
  then obtain c' where "c' \<in> set (db_clients (w_db w'))" "c_id c' = c_id ?c" "c_enable c' = c_enable (?edit ?l)" "\<not> c_banned c'" "c_total_up c' = 0"
    using conjunct2 [OF bulk_edit_lifts_bans [OF g d ed s gd]] by blast
  with s show ?thesis by (auto simp: listedClient_def zeroClient_def)
qed

end
