(* ===== verification/Network.thy ===== *)
theory Network
  imports GoUrl
begin

text \<open>
  \<open>network/\<close> and \<open>middleware/\<close>: the connection that answers plain HTTP on an HTTPS port with a redirect, the
  choice of the certificate and the check of the host.  A connection is the sequence of what its reads meet, bytes or an
  error, each read of a sized buffer taking what fits; after \<open>Close\<close> every read fails.  Whether
  the first bytes are an HTTP request, and with which host and URI (\<open>http.ReadRequest\<close>), is a parameter.
\<close>

section \<open>Connections\<close>

datatype arrival = Bytes string | Broken string

datatype readErr = Eof | Failure string

datatype httpAnswer = TemporaryRedirect string

record netconn =
  nc_in :: "arrival list"
  nc_closed :: bool
  nc_out :: "httpAnswer list"

definition closedErr :: readErr where
  "closedErr = Failure ''use of closed network connection''"

fun takeIn :: "nat \<Rightarrow> arrival list \<Rightarrow> (string \<times> readErr option) \<times> arrival list" where
  "takeIn k [] = (([], Some Eof), [])"
| "takeIn k (Bytes b # rs) = ((take k b, None), if length b \<le> k then rs else Bytes (drop k b) # rs)"
| "takeIn k (Broken m # rs) = (([], Some (Failure m)), rs)"

definition netRead :: "nat \<Rightarrow> netconn \<Rightarrow> (string \<times> readErr option) \<times> netconn" where
  "netRead k c = (if nc_closed c then (([], Some closedErr), c)
     else case takeIn k (nc_in c) of (r, rs) \<Rightarrow> (r, c\<lparr>nc_in := rs\<rparr>))"

section \<open>Redirecting connections\<close>

text \<open>\<open>ah_first\<close> is the nil slice or the bytes of the first read.\<close>

record autohttps =
  ah_conn :: netconn
  ah_first :: "string option"
  ah_start :: nat
  ah_once :: bool

definition NewAutoHttpsConn :: "netconn \<Rightarrow> autohttps" where
  "NewAutoHttpsConn c = \<lparr>ah_conn = c, ah_first = None, ah_start = 0, ah_once = False\<rparr>"

text \<open>\<open>AutoHttpsListener.Accept\<close>.\<close>

definition acceptAuto :: "netconn res \<Rightarrow> autohttps res" where
  "acceptAuto r = bindR r (\<lambda>c. Inr (NewAutoHttpsConn c))"

definition readRequest :: "(string \<Rightarrow> (string \<times> string) option) \<Rightarrow> autohttps \<Rightarrow> autohttps" where
  "readRequest parse a = (case netRead 2048 (ah_conn a) of ((b, err), c) \<Rightarrow>
     let a1 = a\<lparr>ah_conn := c, ah_first := Some b\<rparr> in
     if err \<noteq> None then a1
     else case parse b of None \<Rightarrow> a1
     | Some (host, uri) \<Rightarrow> a1\<lparr>ah_conn := c\<lparr>nc_out := nc_out c @ [TemporaryRedirect (''https://'' @ host @ uri)], nc_closed := True\<rparr>,
         ah_first := None\<rparr>)"

definition autoRead :: "(string \<Rightarrow> (string \<times> string) option) \<Rightarrow> nat \<Rightarrow> autohttps \<Rightarrow> (string \<times> readErr option) \<times> autohttps" where
  "autoRead parse k a0 = (let a = (if ah_once a0 then a0 else (readRequest parse a0)\<lparr>ah_once := True\<rparr>) in
     case ah_first a of
       Some b \<Rightarrow> let d = take k (drop (ah_start a) b); s = ah_start a + length d in
         ((d, None), a\<lparr>ah_start := s, ah_first := (if s \<ge> length b then None else Some b)\<rparr>)
     | None \<Rightarrow> (case netRead k (ah_conn a) of (r, c) \<Rightarrow> (r, a\<lparr>ah_conn := c\<rparr>)))"

section \<open>Certificates and hosts\<close>

text \<open>The certificate for the name a client asks for; \<open>EqualFold\<close> on the ASCII names of a handshake.\<close>

definition NewTLSConfig :: "'cert \<Rightarrow> string \<Rightarrow> string \<Rightarrow> 'cert res" where
  "NewTLSConfig cert domain serverName =
     (if domain = [] then Inr cert
      else if toLower serverName \<noteq> toLower domain then Inl (Err (''tls: unrecognized server name '' @ serverName)) else Inr cert)"

text \<open>Whether a request goes on; otherwise it is answered with status 403.\<close>

definition DomainValidator :: "string \<Rightarrow> string \<Rightarrow> bool" where
  "DomainValidator domain reqHost \<longleftrightarrow>
     (if CHR '':'' \<in> set reqHost then fst (hostPort0 reqHost) else reqHost) = domain"

section \<open>Transparency\<close>

text \<open>What is still to come and what a read has shown, byte by byte and error by error; the end carries nothing.\<close>

fun flow :: "arrival list \<Rightarrow> (char + string) list" where
  "flow [] = []"
| "flow (Bytes b # rs) = map Inl b @ flow rs"
| "flow (Broken m # rs) = Inr m # flow rs"

definition pending :: "autohttps \<Rightarrow> (char + string) list" where
  "pending a = (case ah_first a of None \<Rightarrow> [] | Some b \<Rightarrow> map Inl (drop (ah_start a) b)) @ flow (nc_in (ah_conn a))"

definition seen :: "string \<times> readErr option \<Rightarrow> (char + string) list" where
  "seen r = map Inl (fst r) @ (case snd r of Some (Failure m) \<Rightarrow> [Inr m] | _ \<Rightarrow> [])"

fun autoReads :: "(string \<Rightarrow> (string \<times> string) option) \<Rightarrow> nat list \<Rightarrow> autohttps \<Rightarrow> (string \<times> readErr option) list \<times> autohttps" where
  "autoReads parse [] a = ([], a)"
| "autoReads parse (k # ks) a = (case autoRead parse k a of (r, a1) \<Rightarrow>
     case autoReads parse ks a1 of (rs, a2) \<Rightarrow> (r # rs, a2))"

lemma takeIn_flow: "takeIn k rs = (r, rs') \<Longrightarrow> flow rs = seen r @ flow rs' \<and> (snd r = Some Eof \<longrightarrow> flow rs = [])"
  by (induction k rs rule: takeIn.induct) (auto simp: seen_def simp flip: map_append)

text \<open>The state between two reads: the first read is done and the connection is open.\<close>

definition passing :: "autohttps \<Rightarrow> bool" where
  "passing a \<longleftrightarrow> ah_once a \<and> \<not> nc_closed (ah_conn a) \<and> (\<forall>b. ah_first a = Some b \<longrightarrow> ah_start a \<le> length b)"

lemma passing_read:
  assumes "autoRead parse k a = (r, a')" "passing a"
  shows "passing a' \<and> nc_out (ah_conn a') = nc_out (ah_conn a) \<and> pending a = seen r @ pending a' \<and> (snd r = Some Eof \<longrightarrow> pending a = [])"
proof (cases "ah_first a")
  case None
  obtain r0 rs where t: "takeIn k (nc_in (ah_conn a)) = (r0, rs)" by fastforce
  then have "r = r0" "a' = a\<lparr>ah_conn := (ah_conn a)\<lparr>nc_in := rs\<rparr>\<rparr>"
    using assms None by (simp_all add: autoRead_def netRead_def passing_def Let_def)
  then show ?thesis using assms(2) takeIn_flow [OF t] None by (auto simp: passing_def pending_def)
next
  case (Some b)
  let ?d = "take k (drop (ah_start a) b)"
  have r: "r = (?d, None)"
    and a': "a' = a\<lparr>ah_start := ah_start a + length ?d, ah_first := (if ah_start a + length ?d \<ge> length b then None else Some b)\<rparr>"
    using assms Some by (auto simp: autoRead_def passing_def Let_def)
  have "drop (ah_start a) b = ?d @ drop (ah_start a + length ?d) b"
    by (metis append_take_drop_id drop_drop add.commute append_eq_conv_conj)
  moreover have "drop (ah_start a + length ?d) b = [] \<longleftrightarrow> ah_start a + length ?d \<ge> length b" by simp
  ultimately have "pending a = seen r @ pending a'"
    unfolding pending_def r a' seen_def using Some by (cases "ah_start a + length ?d \<ge> length b") (auto simp flip: map_append)
  moreover have "passing a'" using assms(2) unfolding a' passing_def by auto
  ultimately show ?thesis unfolding a' r by simp
qed

lemma passing_reads:
  "autoReads parse ks a = (rs, a') \<Longrightarrow> passing a \<Longrightarrow>
     passing a' \<and> nc_out (ah_conn a') = nc_out (ah_conn a) \<and> pending a = concat (map seen rs) @ pending a' \<and>
     (\<forall>r \<in> set rs. snd r = Some Eof \<longrightarrow> pending a' = [])"
proof (induction ks arbitrary: a rs)
  case (Cons k ks)
  obtain r a1 where 1: "autoRead parse k a = (r, a1)" by fastforce
  obtain rs1 where 2: "autoReads parse ks a1 = (rs1, a')" and rs: "rs = r # rs1" using Cons.prems(1) 1 by (auto split: prod.splits)
  show ?case using passing_read [OF 1 Cons.prems(2)] Cons.IH [OF 2] unfolding rs by auto
qed simp

text \<open>After the answer to a plain request nothing is read any more.\<close>

lemma closed_reads:
  "autoReads parse ks a = (rs, a') \<Longrightarrow> ah_once a \<Longrightarrow> nc_closed (ah_conn a) \<Longrightarrow> ah_first a = None \<Longrightarrow>
     (\<forall>r \<in> set rs. r = ([], Some closedErr)) \<and> a' = a"
proof (induction ks arbitrary: rs)
  case (Cons k ks)
  have 1: "autoRead parse k a = (([], Some closedErr), a)" using Cons.prems(2-4) by (simp add: autoRead_def netRead_def Let_def)
  obtain rs1 where 2: "autoReads parse ks a = (rs1, a')" and rs: "rs = ([], Some closedErr) # rs1"
    using Cons.prems(1) 1 by (auto split: prod.splits)
  show ?case using Cons.IH [OF 2 Cons.prems(2-4)] rs by simp
qed simp

text \<open>C14
  On an HTTPS port a client that speaks TLS is passed through untouched: whatever the sizes of the reads, the bytes and the
  errors the server sees are those of the connection in their order, none lost and none made up, the end only after the
  last of them, and nothing is written to it.  A client whose first bytes are a plain request is answered once, with a redirect
  to the same host and URI over HTTPS, and its connection is closed before the server sees a byte of it.
\<close>

theorem https_port_transparent:
  assumes "nc_in c = Bytes b # rest" "\<not> nc_closed c" "autoReads parse (k # ks) (NewAutoHttpsConn c) = (rs, a)"
  shows "case parse (take 2048 b) of
      None \<Rightarrow> flow (nc_in c) = concat (map seen rs) @ pending a \<and> (\<forall>r \<in> set rs. snd r = Some Eof \<longrightarrow> pending a = []) \<and>
        nc_out (ah_conn a) = nc_out c \<and> \<not> nc_closed (ah_conn a)
    | Some (host, uri) \<Rightarrow> (\<forall>r \<in> set rs. r = ([], Some closedErr)) \<and> nc_closed (ah_conn a) \<and>
        nc_out (ah_conn a) = nc_out c @ [TemporaryRedirect (''https://'' @ host @ uri)]"
proof -
  let ?rest = "if length b \<le> 2048 then rest else Bytes (drop 2048 b) # rest"
  let ?c = "c\<lparr>nc_in := ?rest\<rparr>"
  let ?a = "\<lparr>ah_conn = ?c, ah_first = Some (take 2048 b), ah_start = 0, ah_once = True\<rparr>"
  have n: "netRead 2048 c = ((take 2048 b, None), ?c)" using assms(1,2) by (simp add: netRead_def)
  show ?thesis
  proof (cases "parse (take 2048 b)")
    case None
    then have "(readRequest parse (NewAutoHttpsConn c))\<lparr>ah_once := True\<rparr> = ?a"
      using n by (simp add: readRequest_def NewAutoHttpsConn_def)
    then have "autoRead parse k (NewAutoHttpsConn c) = autoRead parse k ?a"
      by (simp add: autoRead_def NewAutoHttpsConn_def)
    with assms(3) have "autoReads parse (k # ks) ?a = (rs, a)" by (simp only: autoReads.simps)
    moreover have "passing ?a" using assms(2) by (simp add: passing_def)
    moreover have "pending ?a = flow (nc_in c)" using assms(1) by (simp add: pending_def flip: map_append append_assoc)
    ultimately show ?thesis using passing_reads [of parse "k # ks" ?a rs a] None by (auto simp: passing_def)
  next
    case (Some p)
    obtain host uri where p: "p = (host, uri)" by fastforce
    let ?d = "?c\<lparr>nc_out := nc_out c @ [TemporaryRedirect (''https://'' @ host @ uri)], nc_closed := True\<rparr>"
    let ?a = "\<lparr>ah_conn = ?d, ah_first = None, ah_start = 0, ah_once = True\<rparr>"
    have "(readRequest parse (NewAutoHttpsConn c))\<lparr>ah_once := True\<rparr> = ?a"
      using n Some p by (simp add: readRequest_def NewAutoHttpsConn_def)
    then have "autoRead parse k (NewAutoHttpsConn c) = autoRead parse k ?a"
      by (simp add: autoRead_def NewAutoHttpsConn_def)
    with assms(3) have r: "autoReads parse (k # ks) ?a = (rs, a)" by (simp only: autoReads.simps)
    have "(\<forall>r \<in> set rs. r = ([], Some closedErr)) \<and> a = ?a" by (rule closed_reads [OF r]) simp_all
    then show ?thesis using Some p by simp
  qed
qed

text \<open>The start of a TLS handshake read two bytes at a time.\<close>

definition getsHost :: "string \<Rightarrow> (string \<times> string) option" where
  "getsHost d = (if take 4 d = ''GET '' then Some (''panel'', ''/app/'') else None)"

definition helloConn :: netconn where
  "helloConn = \<lparr>nc_in = [Bytes [CHR 0x16, CHR 0x03, CHR 0x01]], nc_closed = False, nc_out = []\<rparr>"

theorem https_port_transparent_witness:
  "\<exists>a. autoReads getsHost [2, 2, 2] (NewAutoHttpsConn helloConn) =
       ([([CHR 0x16, CHR 0x03], None), ([CHR 0x01], None), ([], Some Eof)], a) \<and>
     nc_out (ah_conn a) = [] \<and> pending a = []"
proof -
  obtain a where a: "autoReads getsHost [2, 2, 2] (NewAutoHttpsConn helloConn) =
       ([([CHR 0x16, CHR 0x03], None), ([CHR 0x01], None), ([], Some Eof)], a)"
    by (simp add: autoRead_def readRequest_def NewAutoHttpsConn_def netRead_def helloConn_def getsHost_def Let_def)
  have "nc_in helloConn = Bytes [CHR 0x16, CHR 0x03, CHR 0x01] # []" "\<not> nc_closed helloConn" "nc_out helloConn = []"
    by (simp_all add: helloConn_def)
  moreover have "getsHost (take 2048 [CHR 0x16, CHR 0x03, CHR 0x01]) = None" by (simp add: getsHost_def)
  ultimately show ?thesis using https_port_transparent [OF _ _ a] a by force
qed

text \<open>An error of the very first read is shown as an empty read, and lost.\<close>

lemma first_error_lost:
  "nc_in c = Broken m # rest \<Longrightarrow> \<not> nc_closed c \<Longrightarrow> fst (autoRead parse k (NewAutoHttpsConn c)) = ([], None)"
  by (simp add: autoRead_def readRequest_def NewAutoHttpsConn_def netRead_def Let_def)

end
