(* ===== verification/Logger.thy ===== *)
theory Logger
  imports Prelude
begin

text \<open>
  \<open>logger/logger.go\<close>: the lines the panel keeps in memory for the web page.  The numbering of the levels is the
  logging library's, an argument here; a smaller number is more severe.
\<close>

record logline =
  lg_time :: string
  lg_level :: nat
  lg_text :: string

definition bufferSize :: nat where
  "bufferSize = 10240"

definition addToBuffer :: "(string \<Rightarrow> nat) \<Rightarrow> string \<Rightarrow> string \<Rightarrow> string \<Rightarrow> logline list \<Rightarrow> logline list" where
  "addToBuffer levelOf now level newLog buf =
     (if length buf \<ge> bufferSize then tl buf else buf) @ [\<lparr>lg_time = now, lg_level = levelOf level, lg_text = newLog\<rparr>]"

text \<open>From the newest line back, while no more than \<open>c\<close> lines have been taken.\<close>

fun collectLogs :: "(nat \<Rightarrow> string) \<Rightarrow> int \<Rightarrow> nat \<Rightarrow> logline list \<Rightarrow> string list \<Rightarrow> string list" where
  "collectLogs nameOf c lvl [] out = out"
| "collectLogs nameOf c lvl (l # ls) out =
     (if int (length out) \<le> c then
        collectLogs nameOf c lvl ls (if lg_level l \<le> lvl
          then out @ [lg_time l @ '' '' @ nameOf (lg_level l) @ '' - '' @ lg_text l] else out)
      else out)"

definition GetLogs :: "(string \<Rightarrow> nat) \<Rightarrow> (nat \<Rightarrow> string) \<Rightarrow> int \<Rightarrow> string \<Rightarrow> logline list \<Rightarrow> string list" where
  "GetLogs levelOf nameOf c level buf = collectLogs nameOf c (levelOf level) (rev buf) []"

section \<open>Bounds\<close>

definition shown :: "(nat \<Rightarrow> string) \<Rightarrow> nat \<Rightarrow> logline list \<Rightarrow> string list" where
  "shown nameOf lvl ls = map (\<lambda>l. lg_time l @ '' '' @ nameOf (lg_level l) @ '' - '' @ lg_text l) (filter (\<lambda>l. lg_level l \<le> lvl) ls)"

lemma collectLogs_take:
  "int (length out) \<le> c + 1 \<Longrightarrow>
     collectLogs nameOf c lvl ls out = out @ take (nat (c + 1) - length out) (shown nameOf lvl ls)"
proof (induction ls arbitrary: out)
  case (Cons l ls)
  show ?case
  proof (cases "int (length out) \<le> c")
    case True
    then have "nat (c + 1) - length out = Suc (nat (c + 1) - Suc (length out))" by linarith
    then show ?thesis using Cons.IH [of out] Cons.IH [of "out @ [x]" for x] True by (simp add: shown_def)
  next
    case False
    then have "nat (c + 1) - length out = 0" using Cons.prems by linarith
    then show ?thesis using False by simp
  qed
qed (simp add: shown_def)

text \<open>The buffer after a sequence of messages.\<close>

definition logged :: "(string \<Rightarrow> nat) \<Rightarrow> (string \<times> string \<times> string) list \<Rightarrow> logline list" where
  "logged levelOf ms = fold (\<lambda>(now, level, t). addToBuffer levelOf now level t) ms []"

definition lineOf :: "(string \<Rightarrow> nat) \<Rightarrow> string \<times> string \<times> string \<Rightarrow> logline" where
  "lineOf levelOf m = (case m of (now, level, t) \<Rightarrow> \<lparr>lg_time = now, lg_level = levelOf level, lg_text = t\<rparr>)"

lemma logged_last: "logged levelOf ms = drop (length ms - bufferSize) (map (lineOf levelOf) ms)"
proof (induction ms rule: rev_induct)
  case (snoc m ms)
  obtain now level t where m: "m = (now, level, t)" by (cases m) auto
  have "logged levelOf (ms @ [m]) = addToBuffer levelOf now level t (drop (length ms - bufferSize) (map (lineOf levelOf) ms))"
    using snoc by (simp add: logged_def m)
  also have "\<dots> = drop (Suc (length ms) - bufferSize) (map (lineOf levelOf) ms) @ [lineOf levelOf m]"
  proof (cases "length ms \<ge> bufferSize")
    case True
    then have "Suc (length ms) - bufferSize = Suc (length ms - bufferSize)" by linarith
    then show ?thesis using True by (simp add: addToBuffer_def m lineOf_def drop_Suc tl_drop)
  qed (simp add: addToBuffer_def m lineOf_def)
  finally show ?case by (cases "length ms \<ge> bufferSize") (simp_all add: bufferSize_def)
qed (simp add: logged_def)

text \<open>C33
  The log on the web page is bounded: whatever the panel logs, the buffer holds exactly the last 10240 lines,
  and a request for \<open>c\<close> lines of a level gets the newest of that level, \<open>c + 1\<close> of them where there are so many,
  one more than it asked for.
\<close>

theorem log_is_bounded:
  "logged levelOf ms = drop (length ms - 10240) (map (lineOf levelOf) ms) \<and> length (logged levelOf ms) \<le> 10240 \<and>
    GetLogs levelOf nameOf c level buf = take (nat (c + 1)) (shown nameOf (levelOf level) (rev buf))"
proof -
  have "GetLogs levelOf nameOf c level buf = take (nat (c + 1)) (shown nameOf (levelOf level) (rev buf))"
  proof (cases "c + 1 \<ge> 0")
    case True
    then show ?thesis by (simp add: GetLogs_def collectLogs_take)
  next
    case False
    then show ?thesis by (cases "rev buf") (simp_all add: GetLogs_def shown_def)
  qed
  then show ?thesis by (simp add: logged_last bufferSize_def)
qed

end
