(* ===== verification/Api.thy ===== *)
theory Api
  imports SubService DbSetup Logger
begin

text \<open>
  \<open>api/\<close>: the requests of the web page and of the token API.  A handler is an action that also gives the reply and what
  becomes of the session and of the tokens in memory.  The router, the cookies of the sessions (\<open>gin\<close>) and what
  the panel reads from the host (\<open>service/server.go\<close>) are parameters; a panic is recovered by the router and answered as such.
\<close>

section \<open>Requests and replies\<close>

text \<open>\<open>rq_session\<close> is the name in the session, empty when there is none; \<open>rq_upload\<close> the file of a form.\<close>

record request =
  rq_path :: string
  rq_action :: string
  rq_form :: "string \<Rightarrow> string"
  rq_query :: "string \<Rightarrow> string"
  rq_header :: "string \<Rightarrow> string"
  rq_host :: string
  rq_remote :: string
  rq_session :: string
  rq_upload :: "string option"

datatype payload = PNull | PText string | PRawText string | PBool bool | PObj obj | PObjs "obj list" | PTls "tls list"
  | PClients "client list" | PUsers "user list" | PTokens "token list" | PChanges "change list"
  | PSettings "(string \<times> string) list" | PStats "(int \<times> int \<times> int) list \<times> int \<times> int" | POnlines onlines
  | PCheck checkResult | PStrs "string list" | PHost jv | PParts "(string \<times> payload) list"

datatype webReply = Msg bool string payload | Redirect string | Attachment payload | Backup dbase | Status400 string

datatype sessionOp = KeepSession | SetSession string int | ClearSession

record response =
  rs_reply :: webReply
  rs_session :: sessionOp
  rs_tokens :: "memtoken list"

record webenv =
  we_layout :: "int \<Rightarrow> string"
  we_fresh :: string
  we_http :: "string \<Rightarrow> string option"
  we_warp :: warpenv
  we_check :: "string \<Rightarrow> string \<Rightarrow> checkResult"
  we_status :: "string \<Rightarrow> jv"
  we_keypair :: "string \<Rightarrow> string \<Rightarrow> string list"
  we_logs :: "logline list"
  we_levelOf :: "string \<Rightarrow> nat"
  we_levelName :: "nat \<Rightarrow> string"
  we_process :: bool
  we_import :: "string \<Rightarrow> dbase \<Rightarrow> imported \<times> dbase"

section \<open>Helpers\<close>

definition getRemoteIp :: "request \<Rightarrow> string" where
  "getRemoteIp rq = (let v = rq_header rq ''X-Forwarded-For'' in
     if v \<noteq> [] then hd (split v '','') else fst (hostPort0 (rq_remote rq)))"

definition getHostname :: "request \<Rightarrow> string" where
  "getHostname rq = (if CHR '':'' \<in> set (rq_host rq) then
       let h = fst (hostPort0 (rq_host rq)) in if CHR '':'' \<in> set h then ''['' @ h @ '']'' else h
     else rq_host rq)"

definition jsonMsgObj :: "string \<Rightarrow> payload \<Rightarrow> string option \<Rightarrow> webReply" where
  "jsonMsgObj msg obj err = (case err of None \<Rightarrow> Msg True msg obj | Some m \<Rightarrow> Msg False (msg @ '': '' @ m) obj)"

definition jsonMsg :: "string \<Rightarrow> string option \<Rightarrow> webReply" where
  "jsonMsg msg err = jsonMsgObj msg PNull err"

definition jsonObj :: "payload \<Rightarrow> string option \<Rightarrow> webReply" where
  "jsonObj obj err = jsonMsgObj [] obj err"

text \<open>\<open>if err != nil\<close>: both branches of a call; a panic is neither.\<close>

definition onErr :: "'a act \<Rightarrow> (string \<Rightarrow> 'b act) \<Rightarrow> ('a \<Rightarrow> 'b act) \<Rightarrow> 'b act" where
  "onErr a bad good = (\<lambda>e w. case a e w of
       (Inl (Err m), w') \<Rightarrow> bad m e w' | (Inl (Panic p), w') \<Rightarrow> (Inl (Panic p), w') | (Inr v, w') \<Rightarrow> good v e w')"

definition answerObj :: "('a \<Rightarrow> payload) \<Rightarrow> payload \<Rightarrow> 'a act \<Rightarrow> webReply act" where
  "answerObj f zero a = onErr a (\<lambda>m. retA (jsonObj zero (Some m))) (\<lambda>v. retA (jsonObj (f v) None))"

definition answerMsg :: "string \<Rightarrow> string \<Rightarrow> 'a act \<Rightarrow> webReply act" where
  "answerMsg bad good a = onErr a (\<lambda>m. retA (jsonMsg bad (Some m))) (\<lambda>v. retA (jsonMsg good None))"

section \<open>Lists for the web page\<close>

definition loadPart :: "string \<Rightarrow> string \<Rightarrow> (string \<times> payload) list act" where
  "loadPart ids obj =
     (if obj = ''inbounds'' then bindA (Inbound_Get ids) (\<lambda>x. retA [(obj, PObjs x)])
      else if obj = ''outbounds'' then bindA Outbound_GetAll (\<lambda>x. retA [(obj, PObjs x)])
      else if obj = ''endpoints'' then bindA Endpoint_GetAll (\<lambda>x. retA [(obj, PObjs x)])
      else if obj = ''services'' then bindA Service_GetAll (\<lambda>x. retA [(obj, PObjs x)])
      else if obj = ''tls'' then bindA Tls_GetAll (\<lambda>x. retA [(obj, PTls x)])
      else if obj = ''clients'' then bindA (Client_Get ids) (\<lambda>x. retA [(obj, PClients x)])
      else if obj = ''config'' then bindA SettingGetConfig (\<lambda>x. retA [(obj, PRawText x)])
      else if obj = ''settings'' then bindA GetAllSetting (\<lambda>x. retA [(obj, PSettings x)])
      else retA [])"

definition LoadPartialData :: "request \<Rightarrow> string list \<Rightarrow> webReply act" where
  "LoadPartialData rq objs = bindA (mapA (loadPart (rq_query rq ''id'')) objs) (\<lambda>ps. retA (jsonObj (PParts (concat ps)) None))"

definition getDataApi :: "webenv \<Rightarrow> request \<Rightarrow> payload act" where
  "getDataApi we rq =
     bindA (CheckChanges (rq_query rq ''lu'')) (\<lambda>isUpdated.
     bindA GetOnlines (\<lambda>onl.
     bindA (askW (\<lambda>w. co_running (w_core w))) (\<lambda>running.
     let logs = (if running then [] else GetLogs (we_levelOf we) (we_levelName we) 1 ''debug'' (we_logs we));
         lastLog = (case logs of [] \<Rightarrow> [] | l # _ \<Rightarrow> [(''lastLog'', PText l)])
     in if isUpdated then
          bindA SettingGetConfig (\<lambda>config. bindA Client_GetAll (\<lambda>clients. bindA Tls_GetAll (\<lambda>tls.
          bindA Inbound_GetAll (\<lambda>inbs. bindA Outbound_GetAll (\<lambda>outs. bindA Endpoint_GetAll (\<lambda>eps.
          bindA Service_GetAll (\<lambda>srvs. bindA (GetFinalSubURI (getHostname rq)) (\<lambda>uri. bindA GetTrafficAge (\<lambda>age.
            retA (PParts (lastLog @ [(''config'', PRawText config), (''clients'', PClients clients), (''tls'', PTls tls),
              (''inbounds'', PObjs inbs), (''outbounds'', PObjs outs), (''endpoints'', PObjs eps), (''services'', PObjs srvs),
              (''subURI'', PText uri), (''enableTraffic'', PBool (age > 0)), (''onlines'', POnlines onl)])))))))))))
        else retA (PParts (lastLog @ [(''onlines'', POnlines onl)])))))"

definition LoadData :: "webenv \<Rightarrow> request \<Rightarrow> webReply act" where
  "LoadData we rq = onErr (getDataApi we rq) (\<lambda>m. retA (jsonMsg [] (Some m))) (\<lambda>d. retA (jsonObj d None))"

section \<open>Actions of the web page\<close>

text \<open>The session ends after \<open>sessionMaxAge\<close> minutes, or with the browser; a failed read of the setting counts as 0.\<close>

definition SetLoginUser :: "string \<Rightarrow> int \<Rightarrow> sessionOp" where
  "SetLoginUser user maxAge = SetSession user (if maxAge > 0 then wrap64 (maxAge * 60) else 0)"

definition ApiLogin :: "webenv \<Rightarrow> request \<Rightarrow> (webReply \<times> sessionOp) act" where
  "ApiLogin we rq = onErr (Login (we_layout we) (rq_form rq ''user'') (rq_form rq ''pass'') (getRemoteIp rq))
     (\<lambda>m. retA (jsonMsg [] (Some m), KeepSession))
     (\<lambda>user. bindA (dropErr 0 GetSessionMaxAge) (\<lambda>age.
        retA (jsonMsg [] None, SetLoginUser user age)))"

definition ApiChangePass :: "request \<Rightarrow> webReply act" where
  "ApiChangePass rq = answerMsg [] ''save''
     (ChangePass (rq_form rq ''id'') (rq_form rq ''oldPass'') (rq_form rq ''newUsername'') (rq_form rq ''newPass''))"

definition ApiSave :: "webenv \<Rightarrow> request \<Rightarrow> string \<Rightarrow> webReply act" where
  "ApiSave we rq user = (let obj = rq_form rq ''object'' in
     onErr (ConfigService_Save (we_warp we) obj (rq_form rq ''action'') (jparse (rq_form rq ''data'')) (rq_form rq ''initUsers'') user (getHostname rq))
       (\<lambda>m. retA (jsonMsg ''save'' (Some m)))
       (\<lambda>objs. onErr (LoadPartialData rq objs) (\<lambda>m. retA (jsonMsg obj (Some m))) retA))"

text \<open>\<open>strconv.ParseUint\<close> and \<open>strconv.ParseBool\<close>.\<close>

definition parseUint :: "string \<Rightarrow> nat option" where
  "parseUint s = (if s \<noteq> [] \<and> list_all isDigit s \<and> digitsVal 0 s < 2 ^ 64 then Some (digitsVal 0 s) else None)"

definition ApiBan :: "request \<Rightarrow> string \<Rightarrow> webReply act" where
  "ApiBan rq user = (case parseUint (rq_form rq ''id'') of
       None \<Rightarrow> retA (jsonMsg ''ban'' (Some ''strconv.ParseUint''))
     | Some i \<Rightarrow> (case parseBool (rq_form rq ''banned'') of
          Inl x \<Rightarrow> retA (jsonMsg ''ban'' (Some ''strconv.ParseBool''))
        | Inr b \<Rightarrow> onErr (BanClient i b user) (\<lambda>m. retA (jsonMsg ''ban'' (Some m)))
            (\<lambda>_. onErr (LoadPartialData rq [''clients'', ''inbounds'']) (\<lambda>m. retA (jsonMsg ''ban'' (Some m))) retA)))"

definition ApiRestartApp :: "webenv \<Rightarrow> webReply act" where
  "ApiRestartApp we = retA (jsonMsg ''restartApp'' (if we_process we then None else Some ''os: process not found''))"

definition ApiRestartSb :: "webReply act" where
  "ApiRestartSb = answerMsg ''restartSb'' ''restartSb'' RestartCore"

definition LinkConvert :: "request \<Rightarrow> webReply act" where
  "LinkConvert rq = answerObj (\<lambda>r. PObj (fst r)) PNull (liftR (GetOutbound (rq_form rq ''link'') 0))"

definition SubConvert :: "webenv \<Rightarrow> request \<Rightarrow> webReply act" where
  "SubConvert we rq = answerObj PObjs PNull (liftR (GetExternalSub (we_http we) (rq_form rq ''link'')))"

text \<open>The import replaces the tables; \<open>we_import\<close> is \<open>ImportDB\<close> with the files it works on, and the end of the process does not return.\<close>

definition ApiImportDb :: "webenv \<Rightarrow> request \<Rightarrow> webReply act" where
  "ApiImportDb we rq = (case rq_upload rq of None \<Rightarrow> retA (jsonMsg [] (Some ''http: no such file''))
     | Some upload \<Rightarrow> (\<lambda>e w. case we_import we upload (w_db w) of (r, d) \<Rightarrow>
         let w' = w\<lparr>w_db := d\<rparr> in
         (case r of ImportDone \<Rightarrow> (Inr (jsonMsg [] None), w') | ImportErr m \<Rightarrow> (Inr (jsonMsg [] (Some m)), w')
          | ImportPanic m \<Rightarrow> (Inl (Panic m), w') | ImportExit \<Rightarrow> (Inl (Panic ''exit''), w'))))"

definition ApiAddToken :: "webenv \<Rightarrow> request \<Rightarrow> webReply act" where
  "ApiAddToken we rq = (case atoi (rq_form rq ''expiry'') of (x, ok) \<Rightarrow>
     if \<not> ok then retA (jsonMsg [] (Some ''strconv.ParseInt''))
     else answerObj PText (PText []) (AddToken (we_fresh we) (rq_session rq) x (rq_form rq ''desc'')))"

definition ApiDeleteToken :: "request \<Rightarrow> webReply act" where
  "ApiDeleteToken rq = answerMsg [] [] (DeleteToken (rq_form rq ''id''))"

definition ApiGetUsers :: "webReply act" where
  "ApiGetUsers = onErr GetUsers (\<lambda>m. retA (jsonMsg [] (Some m))) (\<lambda>x. retA (jsonObj (PUsers x) None))"

definition ApiGetSettings :: "webReply act" where
  "ApiGetSettings = onErr GetAllSetting (\<lambda>m. retA (jsonMsg [] (Some m))) (\<lambda>x. retA (jsonObj (PSettings x) None))"

definition ApiGetStats :: "request \<Rightarrow> webReply act" where
  "ApiGetStats rq = (let limit = (case atoi (rq_query rq ''limit'') of (n, ok) \<Rightarrow> if ok then n else 100) in
     onErr (GetStats (rq_query rq ''resource'') (rq_query rq ''tag'') limit) (\<lambda>m. retA (jsonMsg [] (Some m))) (\<lambda>x. retA (jsonObj (PStats x) None)))"

definition ApiGetStatus :: "webenv \<Rightarrow> request \<Rightarrow> webReply act" where
  "ApiGetStatus we rq = retA (jsonObj (PHost (we_status we (rq_query rq ''r''))) None)"

definition ApiGetOnlines :: "webReply act" where
  "ApiGetOnlines = answerObj POnlines PNull GetOnlines"

definition ApiGetLogs :: "webenv \<Rightarrow> request \<Rightarrow> webReply act" where
  "ApiGetLogs we rq = (let c = (case atoi (rq_query rq ''c'') of (n, ok) \<Rightarrow> if ok then n else 10) in
     retA (jsonObj (PStrs (GetLogs (we_levelOf we) (we_levelName we) c (rq_query rq ''l'') (we_logs we))) None))"

definition ApiCheckChanges :: "request \<Rightarrow> webReply act" where
  "ApiCheckChanges rq = answerObj PChanges PNull (GetChanges (rq_query rq ''a'') (rq_query rq ''k'') (rq_query rq ''c''))"

definition ApiGetKeypairs :: "webenv \<Rightarrow> request \<Rightarrow> webReply act" where
  "ApiGetKeypairs we rq = retA (jsonObj (PStrs (we_keypair we (rq_query rq ''k'') (rq_query rq ''o''))) None)"

definition ApiGetDb :: "request \<Rightarrow> webReply act" where
  "ApiGetDb rq = onErr (GetDb (rq_query rq ''exclude'')) (\<lambda>m. retA (jsonMsg [] (Some m))) (\<lambda>d. retA (Backup d))"

definition GetSingboxConfig :: "webReply act" where
  "GetSingboxConfig = onErr (GetConfig RNil) (\<lambda>m. retA (Status400 m)) (\<lambda>r. retA (Attachment (PRawText (rawText r))))"

definition ApiGetCheckOutbound :: "webenv \<Rightarrow> request \<Rightarrow> webReply act" where
  "ApiGetCheckOutbound we rq = answerObj PCheck PNull (CheckOutbound (we_check we) (rq_query rq ''tag'') (rq_query rq ''link''))"

definition ApiGetTokens :: "request \<Rightarrow> webReply act" where
  "ApiGetTokens rq = answerObj PTokens PNull (GetUserTokens (rq_session rq))"

definition ApiLogout :: "webReply \<times> sessionOp" where
  "ApiLogout = (jsonMsg [] None, ClearSession)"

section \<open>Dispatch\<close>

text \<open>The reads that the web page and the token API share.\<close>

definition readAction :: "webenv \<Rightarrow> request \<Rightarrow> webReply act option" where
  "readAction we rq = (let a = rq_action rq in
     if a = ''load'' then Some (LoadData we rq)
     else if a \<in> {''inbounds'', ''outbounds'', ''endpoints'', ''services'', ''tls'', ''clients'', ''config''} then
       Some (onErr (LoadPartialData rq [a]) (\<lambda>m. retA (jsonMsg a (Some m))) retA)
     else if a = ''users'' then Some ApiGetUsers
     else if a = ''settings'' then Some ApiGetSettings
     else if a = ''stats'' then Some (ApiGetStats rq)
     else if a = ''status'' then Some (ApiGetStatus we rq)
     else if a = ''onlines'' then Some ApiGetOnlines
     else if a = ''logs'' then Some (ApiGetLogs we rq)
     else if a = ''changes'' then Some (ApiCheckChanges rq)
     else if a = ''keypairs'' then Some (ApiGetKeypairs we rq)
     else if a = ''getdb'' then Some (ApiGetDb rq)
     else if a = ''checkOutbound'' then Some (ApiGetCheckOutbound we rq)
     else None)"

definition unknownAction :: "request \<Rightarrow> webReply act" where
  "unknownAction rq = retA (jsonMsg ''failed'' (Some (''unknown action: '' @ rq_action rq)))"

text \<open>A reply that leaves the session and the tokens alone, and one after which the tokens are read again.\<close>

definition keepBoth :: "memtoken list \<Rightarrow> webReply act \<Rightarrow> response act" where
  "keepBoth toks a = bindA a (\<lambda>r. retA \<lparr>rs_reply = r, rs_session = KeepSession, rs_tokens = toks\<rparr>)"

definition thenReload :: "memtoken list \<Rightarrow> webReply act \<Rightarrow> response act" where
  "thenReload toks a = bindA a (\<lambda>r. bindA (ReloadTokens toks) (\<lambda>ts. retA \<lparr>rs_reply = r, rs_session = KeepSession, rs_tokens = ts\<rparr>))"

definition postHandler :: "webenv \<Rightarrow> request \<Rightarrow> memtoken list \<Rightarrow> response act" where
  "postHandler we rq toks = (let a = rq_action rq; user = rq_session rq in
     if a = ''login'' then bindA (ApiLogin we rq) (\<lambda>(r, s). retA \<lparr>rs_reply = r, rs_session = s, rs_tokens = toks\<rparr>)
     else if a = ''changePass'' then keepBoth toks (ApiChangePass rq)
     else if a = ''save'' then keepBoth toks (ApiSave we rq user)
     else if a = ''ban'' then keepBoth toks (ApiBan rq user)
     else if a = ''restartApp'' then keepBoth toks (ApiRestartApp we)
     else if a = ''restartSb'' then keepBoth toks ApiRestartSb
     else if a = ''linkConvert'' then keepBoth toks (LinkConvert rq)
     else if a = ''subConvert'' then keepBoth toks (SubConvert we rq)
     else if a = ''importdb'' then keepBoth toks (ApiImportDb we rq)
     else if a = ''addToken'' then thenReload toks (ApiAddToken we rq)
     else if a = ''deleteToken'' then thenReload toks (ApiDeleteToken rq)
     else keepBoth toks (unknownAction rq))"

definition getHandler :: "webenv \<Rightarrow> request \<Rightarrow> memtoken list \<Rightarrow> response act" where
  "getHandler we rq toks = (let a = rq_action rq in
     if a = ''logout'' then retA \<lparr>rs_reply = fst ApiLogout, rs_session = snd ApiLogout, rs_tokens = toks\<rparr>
     else if a = ''tokens'' then keepBoth toks (ApiGetTokens rq)
     else if a = ''singbox-config'' then keepBoth toks GetSingboxConfig
     else keepBoth toks (case readAction we rq of Some h \<Rightarrow> h | None \<Rightarrow> unknownAction rq))"

definition checkLogin :: "request \<Rightarrow> webReply" where
  "checkLogin rq = (if rq_header rq ''X-Requested-With'' = ''XMLHttpRequest'' then Msg False ''Invalid login'' PNull
     else Redirect ''/login'')"

text \<open>The middleware lets the paths that end in \<open>login\<close> or \<open>logout\<close> through.\<close>

definition webRequest :: "webenv \<Rightarrow> bool \<Rightarrow> request \<Rightarrow> memtoken list \<Rightarrow> response act" where
  "webRequest we post rq toks =
     (if \<not> hasSuffix (rq_path rq) ''login'' \<and> \<not> hasSuffix (rq_path rq) ''logout'' \<and> rq_session rq = []
      then keepBoth toks (retA (checkLogin rq))
      else if post then postHandler we rq toks else getHandler we rq toks)"

section \<open>The token API\<close>

definition postHandlerV2 :: "webenv \<Rightarrow> request \<Rightarrow> string \<Rightarrow> webReply act" where
  "postHandlerV2 we rq user = (let a = rq_action rq in
     if a = ''save'' then ApiSave we rq user
     else if a = ''restartApp'' then ApiRestartApp we
     else if a = ''restartSb'' then ApiRestartSb
     else if a = ''linkConvert'' then LinkConvert rq
     else if a = ''subConvert'' then SubConvert we rq
     else if a = ''importdb'' then ApiImportDb we rq
     else unknownAction rq)"

definition getHandlerV2 :: "webenv \<Rightarrow> request \<Rightarrow> webReply act" where
  "getHandlerV2 we rq = (case readAction we rq of Some h \<Rightarrow> h | None \<Rightarrow> unknownAction rq)"

text \<open>The middleware looks the token up, and a request that posts looks it up again.\<close>

definition tokenRequest :: "webenv \<Rightarrow> bool \<Rightarrow> request \<Rightarrow> memtoken list \<Rightarrow> response act" where
  "tokenRequest we post rq toks = bindA (askE e_now) (\<lambda>now. let tok = rq_header rq ''Token'' in
     case checkToken now tok toks of (ok, ts) \<Rightarrow>
     bindA (liftR ok) (\<lambda>ok.
     if \<not> ok then keepBoth ts (retA (jsonMsg [] (Some ''invalid token'')))
     else if post then
       (case findUsername now tok ts of (user, ts2) \<Rightarrow> bindA (liftR user) (\<lambda>user. keepBoth ts2 (postHandlerV2 we rq user)))
     else keepBoth ts (getHandlerV2 we rq)))"

end
