(* ===== verification/ApiLaws.thy ===== *)
theory ApiLaws
  imports Api
begin

text \<open>
  What a request may do: every request of the web page or of the token API is a run of the panel made of the
  events its form names, so everything that holds of runs holds of requests; without a session nothing happens.
\<close>

section \<open>Reads\<close>

named_theorems reads_intros "actions that only read"

lemmas [reads_intros] = keepReads.within_rules

lemma reads_sql [reads_intros]:
  "within readsOnly (sqlq q)" "within readsOnly (rowsWhere t P)" "within readsOnly (firstWhere t P)"
proof -
  have st: "readsOnly w (w\<lparr>w_stmt := n\<rparr>)" for w n
    unfolding readsOnly_def
    by (intro exI [of _ n] exI [of _ "w_lastUpdate w"] exI [of _ "db_settings (w_db w)"]) simp
  show "within readsOnly (sqlq q)" "within readsOnly (rowsWhere t P)" "within readsOnly (firstWhere t P)"
    unfolding within_def rowsWhere_def firstWhere_def sqlq_def Let_def by (simp_all add: st)
qed

lemma reads_inbounds [reads_intros]: "within readsOnly (inboundsWhere P)" "within readsOnly (servicesWhere Q)"
  unfolding inboundsWhere_def servicesWhere_def by (intro reads_intros)+

lemma reads_settings_write [reads_intros]: "within readsOnly (sqlx (\<lambda>d. d\<lparr>db_settings := f (db_settings d)\<rparr>))"
proof -
  have st: "readsOnly w (w\<lparr>w_stmt := n\<rparr>)" "readsOnly w (w\<lparr>w_stmt := n, w_db := (w_db w)\<lparr>db_settings := ss\<rparr>\<rparr>)" for w n ss
    unfolding readsOnly_def
    by (intro exI [of _ n] exI [of _ "w_lastUpdate w"] exI [of _ "db_settings (w_db w)"] exI [of _ ss]; simp)+
  show ?thesis unfolding within_def sqlx_def sqlu_def Let_def by (simp add: st)
qed

lemma reads_lastUpdate [reads_intros]: "within readsOnly (setLastUpdate t)"
proof -
  have "readsOnly w (w\<lparr>w_lastUpdate := t\<rparr>)" for w
    unfolding readsOnly_def
    by (intro exI [of _ "w_stmt w"] exI [of _ t] exI [of _ "db_settings (w_db w)"]) simp
  then show ?thesis by (simp add: setLastUpdate_def within_def)
qed

lemma reads_onNotFound [reads_intros]:
  "within readsOnly a \<Longrightarrow> within readsOnly n \<Longrightarrow> (\<And>x. within readsOnly (s x)) \<Longrightarrow> within readsOnly (onNotFound a n s)"
  unfolding within_def onNotFound_def
  by (clarsimp split: prod.split sum.split) (metis keepReads.R_trans snd_conv)

lemma reads_cases [reads_intros]:
  "within readsOnly a \<Longrightarrow> (\<And>y. within readsOnly (f y)) \<Longrightarrow> within readsOnly (case x of None \<Rightarrow> a | Some y \<Rightarrow> f y)"
  "(\<And>a b. within readsOnly (g a b)) \<Longrightarrow> within readsOnly (case p of (a, b) \<Rightarrow> g a b)"
  by (cases x; simp) (cases p; simp)

lemma reads_string [reads_intros]: "within readsOnly (getString k)" "within readsOnly (saveSetting k v)"
  unfolding getString_def getSetting_def saveSetting_def by (intro reads_intros)+

lemma reads_int [reads_intros]: "within readsOnly (getInt k)"
  unfolding getInt_def by (intro reads_intros)

lemma reads_case_app [reads_intros]:
  "(\<And>a b. within readsOnly (g a b s)) \<Longrightarrow> within readsOnly ((case p of (a, b) \<Rightarrow> g a b) s)"
  by (cases p) simp

lemma reads_misc [reads_intros]:
  "within readsOnly SettingGetConfig" "within readsOnly GetTrafficAge" "within readsOnly GetSessionMaxAge"
  "within readsOnly GetAllSetting" "within readsOnly GetOnlines" "within readsOnly (CheckChanges lu)"
  unfolding SettingGetConfig_def GetTrafficAge_def GetSessionMaxAge_def GetAllSetting_def GetOnlines_def CheckChanges_def Let_def
  by (intro reads_intros)+

lemma reads_uri [reads_intros]: "within readsOnly (GetFinalSubURI host)"
  unfolding GetFinalSubURI_def by (intro reads_intros)

lemma reads_dropErr [reads_intros]: "within readsOnly a \<Longrightarrow> within readsOnly (dropErr z a)"
  by (auto simp: within_def dropErr_def split: prod.split sum.split goerr.split) (metis snd_conv)+

lemma reads_onErr [reads_intros]:
  "within readsOnly a \<Longrightarrow> (\<And>m. within readsOnly (b m)) \<Longrightarrow> (\<And>x. within readsOnly (g x)) \<Longrightarrow> within readsOnly (onErr a b g)"
  unfolding within_def onErr_def
  by (clarsimp split: prod.split sum.split goerr.split) (metis keepReads.R_trans snd_conv)

lemma reads_entry [reads_intros]: "within readsOnly (inboundEntry i)"
  unfolding inboundEntry_def Let_def by (intro reads_intros)

lemma reads_lists [reads_intros]:
  "within readsOnly (Inbound_Get ids)" "within readsOnly Inbound_GetAll" "within readsOnly Outbound_GetAll" "within readsOnly Endpoint_GetAll"
  "within readsOnly Service_GetAll" "within readsOnly Tls_GetAll" "within readsOnly (Client_Get ids)" "within readsOnly Client_GetAll"
  unfolding Inbound_Get_def Inbound_GetAll_def Inbound_getById_def Outbound_GetAll_def Endpoint_GetAll_def Service_GetAll_def
    Tls_GetAll_def Client_Get_def Client_GetAll_def Client_getById_def Let_def
  by (intro reads_intros)+

lemma reads_users [reads_intros]:
  "within readsOnly (fetchUsers ty P conf)" "within readsOnly (addUsers raw1 i ty)"
  unfolding addUsers_def fetchUsers_def Let_def by (intro reads_intros)+

lemma reads_config [reads_intros]: "within readsOnly (GetConfig data)"
  unfolding GetConfig_def Inbound_GetAllConfig_def Outbound_GetAllConfig_def Service_GetAllConfig_def Endpoint_GetAllConfig_def Let_def
  by (intro reads_intros)

lemma reads_part [reads_intros]: "within readsOnly (loadPart ids obj)"
  unfolding loadPart_def by (intro reads_intros)

lemma reads_partial [reads_intros]: "within readsOnly (LoadPartialData rq objs)"
  unfolding LoadPartialData_def by (intro reads_intros)

lemma reads_data [reads_intros]: "within readsOnly (LoadData we rq)"
  unfolding LoadData_def getDataApi_def Let_def by (intro reads_intros)

lemma reads_changes [reads_intros]: "within readsOnly (GetChanges a k c)"
proof -
  have "within readsOnly (rowsWhere t P)" for t :: "dbase \<Rightarrow> change list" and P by (rule reads_sql)
  then have "readsOnly w (snd (rowsWhere (t :: dbase \<Rightarrow> change list) P e w))" for t P e w unfolding within_def by blast
  moreover have "snd (GetChanges a k c e w) =
      snd (rowsWhere db_changes (\<lambda>x. (a = [] \<or> ch_actor x = a) \<and> (k = [] \<or> ch_key x = k)) e w)" for e w
    by (simp add: GetChanges_def split: prod.split sum.split)
  ultimately show ?thesis by (simp add: within_def)
qed

lemma reads_reports [reads_intros]:
  "within readsOnly GetUsers" "within readsOnly (GetUserTokens u)" "within readsOnly (GetStats r t n)"
  "within readsOnly (CheckOutbound chk t l)" "within readsOnly (GetDb ex)" "within readsOnly LoadTokens"
  unfolding GetUsers_def GetUserTokens_def GetStats_def CheckOutbound_def isRunning_def GetDb_def LoadTokens_def Let_def
  by (intro reads_intros)+

lemma reads_tokens [reads_intros]: "within readsOnly (ReloadTokens old)"
proof -
  have "within readsOnly LoadTokens" by (intro reads_intros)
  moreover have "snd (ReloadTokens old e w) = snd (LoadTokens e w)" for e w
    by (simp add: ReloadTokens_def split: prod.split sum.split goerr.split)
  ultimately show ?thesis by (simp add: within_def)
qed

lemma reads_answers [reads_intros]:
  "within readsOnly a \<Longrightarrow> within readsOnly (answerObj f z a)" "within readsOnly b \<Longrightarrow> within readsOnly (answerMsg x y b)"
  unfolding answerObj_def answerMsg_def by (intro reads_intros; assumption)+

lemma reads_readAction: "readAction we rq = Some h \<Longrightarrow> within readsOnly h"
  unfolding readAction_def Let_def ApiGetStats_def ApiGetLogs_def ApiGetDb_def ApiGetUsers_def ApiGetSettings_def ApiGetStatus_def
    ApiGetOnlines_def ApiCheckChanges_def ApiGetKeypairs_def ApiGetCheckOutbound_def
  by (auto split: if_splits intro!: reads_intros)

lemma reads_other [reads_intros]:
  "within readsOnly (unknownAction rq)" "within readsOnly GetSingboxConfig" "within readsOnly (LinkConvert rq)"
  "within readsOnly (SubConvert we rq)" "within readsOnly (ApiRestartApp we)"
  unfolding unknownAction_def GetSingboxConfig_def LinkConvert_def SubConvert_def ApiRestartApp_def by (intro reads_intros)+

section \<open>Runs\<close>

lemma reaches_trans: "reaches al w1 w2 \<Longrightarrow> reaches al w0 w1 \<Longrightarrow> reaches al w0 w2"
  by (induction rule: reaches.induct) (auto intro: reaches.step)

text \<open>\<open>leads al a\<close>: every run of \<open>a\<close> is a run of the panel whose events \<open>al\<close> allows.\<close>

definition leads :: "(event \<Rightarrow> bool) \<Rightarrow> 'a act \<Rightarrow> bool" where
  "leads al a \<longleftrightarrow> (\<forall>e w. newid_ok (e_newid e) \<longrightarrow> reaches al w (snd (a e w)))"

named_theorems leads_intros "requests as runs"

lemma leads_event: "(\<And>e w r w'. a e w = (r, w') \<Longrightarrow> panelStep e w ev w') \<Longrightarrow> al ev \<Longrightarrow> leads al a"
  unfolding leads_def by (metis prod.collapse reaches.start reaches.step)

lemma leads_reads: "within readsOnly a \<Longrightarrow> al Queried \<Longrightarrow> leads al a"
  by (rule leads_event [where ev = Queried]) (auto simp: within_def intro!: panelStep.queried, metis snd_conv)

lemma leads_bind: "leads al a \<Longrightarrow> (\<And>x. leads al (f x)) \<Longrightarrow> leads al (bindA a f)"
  unfolding leads_def bindA_def by (clarsimp split: prod.splits sum.splits) (metis reaches_trans snd_conv)

lemma leads_onErr: "leads al a \<Longrightarrow> (\<And>m. leads al (b m)) \<Longrightarrow> (\<And>x. leads al (g x)) \<Longrightarrow> leads al (onErr a b g)"
  unfolding leads_def onErr_def by (clarsimp split: prod.splits sum.splits goerr.splits) (metis reaches_trans snd_conv)

lemma leads_run: "leads al a \<Longrightarrow> a e w = (r, w') \<Longrightarrow> newid_ok (e_newid e) \<Longrightarrow> reaches al w w'"
  unfolding leads_def by (metis snd_conv)

text \<open>What the form of a request names.\<close>

fun permits :: "bool \<Rightarrow> request \<Rightarrow> event \<Rightarrow> bool" where
  "permits post rq Queried = True"
| "permits post rq LoggedIn = (post \<and> rq_action rq = ''login'')"
| "permits post rq (Saved obj act data) = (post \<and> rq_action rq = ''save'' \<and> obj = rq_form rq ''object'' \<and>
     act = rq_form rq ''action'' \<and> data = jparse (rq_form rq ''data''))"
| "permits post rq (Banned i b) = (post \<and> rq_action rq = ''ban'' \<and> parseUint (rq_form rq ''id'') = Some i \<and>
     parseBool (rq_form rq ''banned'') = Inr b)"
| "permits post rq OperatorChanged = (post \<and> rq_action rq = ''changePass'')"
| "permits post rq TokensChanged = (post \<and> rq_action rq \<in> {''addToken'', ''deleteToken''})"
| "permits post rq CoreRestarted = (post \<and> rq_action rq = ''restartSb'')"
| "permits post rq ev = False"

lemma leads_ret [leads_intros]: "leads al (retA x)"
  by (simp add: leads_def retA_def reaches.start)

lemma leads_liftR: "leads al (liftR r)"
  by (simp add: leads_def liftR_def reaches.start)

lemma leads_mono: "leads al a \<Longrightarrow> (\<And>ev. al ev \<Longrightarrow> al' ev) \<Longrightarrow> leads al' a"
proof -
  assume *: "leads al a" "\<And>ev. al ev \<Longrightarrow> al' ev"
  have "reaches al w w' \<Longrightarrow> reaches al' w w'" for w w'
    by (induction rule: reaches.induct) (auto intro: reaches.intros *(2))
  with *(1) show ?thesis by (simp add: leads_def)
qed

lemma leads_partial: "al Queried \<Longrightarrow> leads al (onErr (LoadPartialData rq objs) (\<lambda>m. retA (g m)) retA)"
  by (rule leads_reads) (intro reads_intros)

lemma leads_Save:
  "(\<And>data. al (Saved (rq_form rq ''object'') (rq_form rq ''action'') (jparse (rq_form rq ''data'')))) \<Longrightarrow> al Queried \<Longrightarrow> leads al (ApiSave we rq user)"
  unfolding ApiSave_def Let_def
  by (intro leads_onErr leads_event [OF panelStep.saved] leads_partial leads_ret)

lemma leads_restart: "al CoreRestarted \<Longrightarrow> leads al ApiRestartSb"
  unfolding ApiRestartSb_def answerMsg_def
  by (intro leads_onErr leads_event [OF panelStep.coreRestarted] leads_ret)

lemma leads_Ban:
  assumes "\<And>i b. parseUint (rq_form rq ''id'') = Some i \<Longrightarrow> parseBool (rq_form rq ''banned'') = Inr b \<Longrightarrow> al (Banned i b)" "al Queried"
  shows "leads al (ApiBan rq user)"
proof -
  have "leads al (onErr (BanClient i b user) (\<lambda>m. retA (jsonMsg ''ban'' (Some m)))
      (\<lambda>_. onErr (LoadPartialData rq [''clients'', ''inbounds'']) (\<lambda>m. retA (jsonMsg ''ban'' (Some m))) retA))"
    if "al (Banned i b)" for i b
    by (intro leads_onErr leads_event [where ev = "Banned i b"] panelStep.banned leads_partial leads_ret assms(2) that)
  note ban = this [OF assms(1)]
  show ?thesis unfolding ApiBan_def by (auto split: option.split sum.split intro!: leads_ret ban)
qed

lemma leads_Login: "al LoggedIn \<Longrightarrow> al Queried \<Longrightarrow> leads al (ApiLogin we rq)"
  unfolding ApiLogin_def
  by (intro leads_onErr leads_event [OF panelStep.loggedIn] leads_bind [OF leads_reads] leads_ret reads_dropErr reads_misc)

lemma leads_ChangePass: "al OperatorChanged \<Longrightarrow> leads al (ApiChangePass rq)"
  unfolding ApiChangePass_def answerMsg_def
  by (intro leads_onErr leads_event [OF panelStep.passChanged] leads_ret)

lemma leads_tokens:
  "al TokensChanged \<Longrightarrow> leads al (ApiAddToken we rq)" "al TokensChanged \<Longrightarrow> leads al (ApiDeleteToken rq)"
proof -
  assume al: "al TokensChanged"
  have "leads al (answerObj PText (PText []) (AddToken fresh u x d))" for fresh u x d
    unfolding answerObj_def by (intro leads_onErr leads_event [OF panelStep.tokenAdded] leads_ret al)
  then show "leads al (ApiAddToken we rq)"
    using leads_ret unfolding ApiAddToken_def by (auto split: prod.split)
  show "leads al (ApiDeleteToken rq)"
    unfolding ApiDeleteToken_def answerMsg_def by (intro leads_onErr leads_event [OF panelStep.tokenDeleted] leads_ret al)
qed

lemma leads_keepBoth: "leads al a \<Longrightarrow> leads al (keepBoth toks a)"
  unfolding keepBoth_def by (intro leads_bind leads_ret)

lemma leads_thenReload: "leads al a \<Longrightarrow> al Queried \<Longrightarrow> leads al (thenReload toks a)"
  unfolding thenReload_def by (intro leads_bind leads_ret leads_reads [OF reads_tokens])

lemma leads_read: "al Queried \<Longrightarrow> leads al (case readAction we rq of Some h \<Rightarrow> h | None \<Rightarrow> unknownAction rq)"
  by (auto split: option.split intro: leads_reads reads_readAction reads_other)

section \<open>Handlers\<close>

lemma leads_post:
  assumes "rq_action rq \<noteq> ''importdb''" shows "leads (permits True rq) (postHandler we rq toks)"
proof -
  have login: "leads (permits True rq) (bindA (ApiLogin we rq) (\<lambda>(r, s). retA \<lparr>rs_reply = r, rs_session = s, rs_tokens = toks\<rparr>))"
    if "rq_action rq = ''login''"
    by (rule leads_bind [OF leads_Login]) (auto simp: that split: prod.split intro: leads_ret)
  have other: "leads (permits True rq) (keepBoth toks a)" if "within readsOnly a" for a
    by (intro leads_keepBoth leads_reads that) simp
  show ?thesis
    unfolding postHandler_def Let_def
    by (auto simp: assms intro!: login other [OF reads_other(1)] other [OF reads_other(3)] other [OF reads_other(4)] other [OF reads_other(5)]
        leads_thenReload leads_keepBoth [OF leads_ChangePass] leads_keepBoth [OF leads_Save] leads_keepBoth [OF leads_Ban]
        leads_keepBoth [OF leads_restart] leads_tokens)
qed

lemma leads_get: "leads (permits False rq) (getHandler we rq toks)"
proof -
  have "leads (permits False rq) (keepBoth toks a)" if "within readsOnly a" for a
    by (intro leads_keepBoth leads_reads that) simp
  moreover have "within readsOnly (ApiGetTokens rq)"
    unfolding ApiGetTokens_def by (intro reads_answers reads_reports)
  ultimately show ?thesis
    unfolding getHandler_def Let_def by (auto intro: leads_ret reads_other leads_keepBoth [OF leads_read])
qed

lemma leads_postV2:
  assumes "rq_action rq \<noteq> ''importdb''" shows "leads (permits True rq) (postHandlerV2 we rq user)"
  unfolding postHandlerV2_def Let_def
  by (auto simp: assms intro!: leads_Save leads_restart intro: leads_reads [OF reads_other(1)] leads_reads [OF reads_other(3)]
      leads_reads [OF reads_other(4)] leads_reads [OF reads_other(5)])

lemma leads_getV2: "leads (permits False rq) (getHandlerV2 we rq)"
  unfolding getHandlerV2_def by (rule leads_read) simp

section \<open>Requests\<close>

lemma route_suffix:
  assumes "hasSuffix (p @ ''/'' @ a) t" "CHR ''/'' \<notin> set t" shows "hasSuffix a t"
proof -
  obtain q where q: "p @ ''/'' @ a = q @ t"
    using assms(1) append_take_drop_id [of "length (p @ ''/'' @ a) - length t" "p @ ''/'' @ a"] unfolding hasSuffix_def by metis
  have "length t \<le> length a"
  proof (rule ccontr)
    assume "\<not> length t \<le> length a"
    then have "CHR ''/'' \<in> set t" using q by (auto simp: append_eq_append_conv2 append_eq_Cons_conv Cons_eq_append_conv)
    then show False using assms(2) by simp
  qed
  then show ?thesis using q by (auto simp: hasSuffix_def append_eq_append_conv2 append_eq_Cons_conv Cons_eq_append_conv)
qed

lemma open_actions:
  assumes "rq_session rq = []" "rq_path rq = p @ ''/'' @ rq_action rq" "\<not> (post \<and> rq_action rq = ''login'')"
  shows "\<exists>rep ses. webRequest we post rq toks e w = (Inr \<lparr>rs_reply = rep, rs_session = ses, rs_tokens = toks\<rparr>, w) \<and>
    (rep = checkLogin rq \<and> ses = KeepSession \<or> rep = jsonMsg ''failed'' (Some (''unknown action: '' @ rq_action rq)) \<and> ses = KeepSession \<or>
     \<not> post \<and> rq_action rq = ''logout'' \<and> ses = ClearSession)"
proof (cases "hasSuffix (rq_path rq) ''login'' \<or> hasSuffix (rq_path rq) ''logout''")
  case False
  then show ?thesis using assms(1) by (simp add: webRequest_def keepBoth_def bindA_def retA_def)
next
  case True
  then have a: "hasSuffix (rq_action rq) ''login'' \<or> hasSuffix (rq_action rq) ''logout''"
    using route_suffix [of p "rq_action rq" "''login''"] route_suffix [of p "rq_action rq" "''logout''"] assms(2) by auto
  have no: "rq_action rq \<noteq> a" if "\<not> hasSuffix a ''login''" "\<not> hasSuffix a ''logout''" for a using a that by auto
  have n: "rq_action rq \<noteq> ''changePass''" "rq_action rq \<noteq> ''save''" "rq_action rq \<noteq> ''ban''" "rq_action rq \<noteq> ''restartApp''"
    "rq_action rq \<noteq> ''restartSb''" "rq_action rq \<noteq> ''linkConvert''" "rq_action rq \<noteq> ''subConvert''" "rq_action rq \<noteq> ''importdb''"
    "rq_action rq \<noteq> ''addToken''" "rq_action rq \<noteq> ''deleteToken''" "rq_action rq \<noteq> ''tokens''" "rq_action rq \<noteq> ''singbox-config''"
    by (rule no; simp add: hasSuffix_def)+
  have r: "readAction we rq = None"
    using no [of "''load''"] no [of "''inbounds''"] no [of "''outbounds''"] no [of "''endpoints''"] no [of "''services''"] no [of "''tls''"]
      no [of "''clients''"] no [of "''config''"] no [of "''users''"] no [of "''settings''"] no [of "''stats''"] no [of "''status''"]
      no [of "''onlines''"] no [of "''logs''"] no [of "''changes''"] no [of "''keypairs''"] no [of "''getdb''"] no [of "''checkOutbound''"]
    by (simp add: readAction_def hasSuffix_def)
  have p: "post \<Longrightarrow> webRequest we post rq toks = keepBoth toks (unknownAction rq)"
    and g: "\<not> post \<Longrightarrow> webRequest we post rq toks = (if rq_action rq = ''logout''
      then retA \<lparr>rs_reply = fst ApiLogout, rs_session = snd ApiLogout, rs_tokens = toks\<rparr> else keepBoth toks (unknownAction rq))"
    using True assms(3) n r by (auto simp: webRequest_def postHandler_def getHandler_def Let_def)
  have u: "keepBoth toks (unknownAction rq) e w = (Inr \<lparr>rs_reply = jsonMsg ''failed'' (Some (''unknown action: '' @ rq_action rq)),
      rs_session = KeepSession, rs_tokens = toks\<rparr>, w)"
    by (simp add: keepBoth_def unknownAction_def bindA_def retA_def)
  show ?thesis
  proof (cases "\<not> post \<and> rq_action rq = ''logout''")
    case True
    with g show ?thesis by (simp add: retA_def ApiLogout_def)
  next
    case False
    then have "webRequest we post rq toks = keepBoth toks (unknownAction rq)" using p g by (cases post) auto
    with u show ?thesis by simp
  qed
qed

lemma token_held:
  assumes "checkToken now tok ts = (Inr True, ts')" shows "\<exists>t \<in> set ts. mt_token t = tok \<and> \<not> expired now t"
proof -
  obtain u where "findUsername now tok ts = (Inr u, ts')" "u \<noteq> []"
    using assms by (auto simp: checkToken_def bindR_eq_Inr split: prod.splits)
  then show ?thesis using findLoop_sound [of now tok "length ts" 0 ts "length ts" u ts'] by (auto simp: findUsername_def)
qed

text \<open>
  A request of the web page does to the panel what its form says and nothing else: except for the replacement of the
  database, every request is a run of the panel whose events are reads, the save, ban, login, restart or change of
  operators and tokens that its action and its form name, each with the form's own arguments; without a session the run
  has at most a login in it.  What holds of every run of the panel therefore holds of every sequence of requests.\<close>

lemma web_run:
  assumes "webRequest we post rq toks e w = (r, w')" "newid_ok (e_newid e)" "rq_action rq \<noteq> ''importdb''"
    and "rq_path rq = p @ ''/'' @ rq_action rq"
  shows "reaches (\<lambda>ev. permits post rq ev \<and> (rq_session rq \<noteq> [] \<or> ev \<in> {Queried, LoggedIn})) w w'"
proof -
  let ?al = "\<lambda>ev. permits post rq ev \<and> (rq_session rq \<noteq> [] \<or> ev \<in> {Queried, LoggedIn})"
  consider "rq_session rq \<noteq> []" | "rq_session rq = []" "post \<and> rq_action rq = ''login''"
    | "rq_session rq = []" "\<not> (post \<and> rq_action rq = ''login'')" by blast
  then show ?thesis
  proof cases
    case 1
    then have "leads ?al (webRequest we post rq toks)"
      using leads_mono [OF leads_post [OF assms(3)], of ?al] leads_mono [OF leads_get, of rq ?al] by (auto simp: webRequest_def)
    then show ?thesis using assms(1,2) by (rule leads_run)
  next
    case 2
    have "leads ?al (postHandler we rq toks)"
      unfolding postHandler_def using 2 by (auto intro!: leads_bind [OF leads_Login] leads_ret split: prod.split)
    then have "leads ?al (webRequest we post rq toks)"
      using 2 by (auto simp: webRequest_def intro: leads_keepBoth leads_ret)
    then show ?thesis using assms(1,2) by (rule leads_run)
  next
    case 3
    then show ?thesis using open_actions [OF 3(1) assms(4) 3(2), of we toks e w] assms(1) by (auto intro: reaches.start)
  qed
qed

definition quietWeb :: webenv where
  "quietWeb = \<lparr>we_layout = (\<lambda>_. ''today''), we_fresh = ''fresh'', we_http = (\<lambda>_. None),
     we_warp = \<lparr>wp_http = (\<lambda>_ _ _ _. Inl (Err ''offline'')), wp_private = [], wp_public = [], wp_host = [], wp_tos = []\<rparr>,
     we_check = (\<lambda>_ _. \<lparr>cr_ok = False, cr_delay = 0, cr_error = ''offline''\<rparr>), we_status = (\<lambda>_. JNull), we_keypair = (\<lambda>_ _. []), we_logs = [],
     we_levelOf = (\<lambda>_. 0), we_levelName = (\<lambda>_. []), we_process = True, we_import = (\<lambda>_ d. (ImportDone, d))\<rparr>"

text \<open>An operator renames himself.\<close>

definition renameRequest :: "string \<Rightarrow> request" where
  "renameRequest session = \<lparr>rq_path = ''/app/api/changePass'', rq_action = ''changePass'',
     rq_form = (\<lambda>k. if k = ''id'' then ''1'' else if k = ''oldPass'' then ''s3cret'' else if k = ''newUsername'' then ''root'' else ''n3w''),
     rq_query = (\<lambda>_. []), rq_header = (\<lambda>_. []), rq_host = ''panel'', rq_remote = ''10.0.0.1:9'', rq_session = session, rq_upload = None\<rparr>"

lemma web_run_example:
  "\<exists>w'. webRequest quietWeb True (renameRequest ''admin'') [] quietEnv adminWorld =
       (Inr \<lparr>rs_reply = jsonMsg ''save'' None, rs_session = KeepSession, rs_tokens = []\<rparr>, w') \<and>
     map u_username (db_users (w_db w')) = [''root''] \<and>
     reaches (\<lambda>ev. permits True (renameRequest ''admin'') ev \<and> (rq_session (renameRequest ''admin'') \<noteq> [] \<or> ev \<in> {Queried, LoggedIn})) adminWorld w'"
proof -
  have one: "atoi ''1'' = (1, True)" by code_simp
  obtain w' where w: "webRequest quietWeb True (renameRequest ''admin'') [] quietEnv adminWorld =
       (Inr \<lparr>rs_reply = jsonMsg ''save'' None, rs_session = KeepSession, rs_tokens = []\<rparr>, w')"
    and u: "map u_username (db_users (w_db w')) = [''root'']"
    by (simp add: webRequest_def postHandler_def Let_def keepBoth_def ApiChangePass_def answerMsg_def onErr_def ChangePass_def firstWhere_def
        sqlq_def saveUser_def sqlu_def bindA_def retA_def renameRequest_def adminWorld_def emptyDb_def worldWith_def textIsId_def saveRow_def
        upsertRow_def hasSuffix_def one)
  have "rq_path (renameRequest ''admin'') = ''/app/api'' @ ''/'' @ rq_action (renameRequest ''admin'')"
    "rq_action (renameRequest ''admin'') \<noteq> ''importdb''" by (simp_all add: renameRequest_def)
  then have "reaches (\<lambda>ev. permits True (renameRequest ''admin'') ev \<and> (rq_session (renameRequest ''admin'') \<noteq> [] \<or> ev \<in> {Queried, LoggedIn})) adminWorld w'"
    by (rule web_run [OF w quiet_newid, rotated])
  with w u show ?thesis by (intro exI [of _ w'] conjI)
qed

text \<open>C6
  Without a session nothing happens: a request that is not a login leaves the database, the core and the tokens as they
  are, the replacement of the database included, and is answered with the login page or with an error; at most its own
  session is cleared.\<close>

theorem unauthenticated_harmless:
  assumes "rq_session rq = []" "rq_path rq = p @ ''/'' @ rq_action rq" "\<not> (post \<and> rq_action rq = ''login'')"
  shows "\<exists>rep ses. webRequest we post rq toks e w = (Inr \<lparr>rs_reply = rep, rs_session = ses, rs_tokens = toks\<rparr>, w) \<and>
    (rep = checkLogin rq \<and> ses = KeepSession \<or> rep = jsonMsg ''failed'' (Some (''unknown action: '' @ rq_action rq)) \<and> ses = KeepSession \<or>
     \<not> post \<and> rq_action rq = ''logout'' \<and> ses = ClearSession)"
  using assms by (rule open_actions)

theorem unauthenticated_harmless_witness:
  "webRequest quietWeb True (renameRequest []) [] quietEnv adminWorld =
     (Inr \<lparr>rs_reply = Redirect ''/login'', rs_session = KeepSession, rs_tokens = []\<rparr>, adminWorld)"
proof -
  have 1: "rq_session (renameRequest []) = []" "rq_path (renameRequest []) = ''/app/api'' @ ''/'' @ rq_action (renameRequest [])"
    "\<not> (True \<and> rq_action (renameRequest []) = ''login'')"
    by (simp_all add: renameRequest_def)
  have 2: "fst (webRequest quietWeb True (renameRequest []) [] quietEnv adminWorld) =
      Inr \<lparr>rs_reply = Redirect ''/login'', rs_session = KeepSession, rs_tokens = []\<rparr>"
    by (simp add: webRequest_def keepBoth_def bindA_def retA_def renameRequest_def hasSuffix_def checkLogin_def)
  show ?thesis using unauthenticated_harmless [OF 1, of quietWeb "[]" quietEnv adminWorld] 2
    by (metis fst_conv prod.collapse snd_conv)
qed

text \<open>
  A request of the token API is a run of the panel made of the events its form names, and anything but a rejection needs a
  token that the panel holds and that has not expired: without one the state is not touched.\<close>

lemma token_run:
  assumes "tokenRequest we post rq toks e w = (r, w')" "newid_ok (e_newid e)" "rq_action rq \<noteq> ''importdb''"
  shows "reaches (permits post rq) w w' \<and>
    (w' \<noteq> w \<or> (\<exists>x. r = Inr x \<and> rs_reply x \<noteq> jsonMsg [] (Some ''invalid token'')) \<longrightarrow>
       (\<exists>t \<in> set toks. mt_token t = rq_header rq ''Token'' \<and> \<not> expired (e_now e) t))"
proof -
  let ?tok = "rq_header rq ''Token''"
  obtain ok ts where c: "checkToken (e_now e) ?tok toks = (ok, ts)" by fastforce
  obtain user ts2 where u: "findUsername (e_now e) ?tok ts = (user, ts2)" by fastforce
  have post: "leads (permits post rq) (bindA (liftR user) (\<lambda>user. keepBoth ts2 (postHandlerV2 we rq user)))" if post
    using that leads_postV2 [OF assms(3)]
    by (intro leads_bind leads_keepBoth leads_liftR) simp
  have get: "leads (permits post rq) (keepBoth ts (getHandlerV2 we rq))" if "\<not> post"
    using that leads_getV2 by (auto intro: leads_keepBoth)
  consider x where "ok = Inl x" | "ok = Inr False" | "ok = Inr True" by (cases ok) auto
  then show ?thesis
  proof cases
    case 1
    with c assms(1) have "w' = w \<and> r = Inl x" by (simp add: tokenRequest_def bindA_def askE_def liftR_def)
    then show ?thesis by (auto intro: reaches.start)
  next
    case 2
    with c assms(1) have "w' = w \<and> r = Inr \<lparr>rs_reply = jsonMsg [] (Some ''invalid token''), rs_session = KeepSession, rs_tokens = ts\<rparr>"
      by (simp add: tokenRequest_def bindA_def askE_def liftR_def keepBoth_def retA_def)
    then show ?thesis by (auto intro: reaches.start)
  next
    case 3
    have "(if post then bindA (liftR user) (\<lambda>user. keepBoth ts2 (postHandlerV2 we rq user)) else keepBoth ts (getHandlerV2 we rq)) e w = (r, w')"
      using assms(1) c u 3 by (cases post) (simp_all add: tokenRequest_def bindA_def askE_def liftR_def Let_def)
    then have "reaches (permits post rq) w w'"
      using leads_run [OF post _ assms(2)] leads_run [OF get _ assms(2)] by (simp split: if_splits)
    then show ?thesis using token_held c 3 by blast
  qed
qed

text \<open>One token has expired, the other one asks for the state of the host.\<close>

definition statusRequest :: request where
  "statusRequest = \<lparr>rq_path = ''/app/apiv2/status'', rq_action = ''status'', rq_form = (\<lambda>_. []), rq_query = (\<lambda>_. []),
     rq_header = (\<lambda>k. if k = ''Token'' then ''tb'' else []), rq_host = ''panel'', rq_remote = ''10.0.0.1:9'', rq_session = [], rq_upload = None\<rparr>"

lemma token_run_example:
  "tokenRequest quietWeb False statusRequest [tokA, tokB] quietEnv adminWorld =
     (Inr \<lparr>rs_reply = jsonObj (PHost JNull) None, rs_session = KeepSession, rs_tokens = [tokB]\<rparr>, adminWorld) \<and>
   (\<exists>t \<in> set [tokA, tokB]. mt_token t = ''tb'' \<and> \<not> expired (e_now quietEnv) t)"
proof -
  have c: "checkToken (e_now quietEnv) ''tb'' [tokA, tokB] = (Inr True, [tokB])"
    by (simp add: checkToken_def findUsername_def numeral_2_eq_2 expired_def cutOut_def tokA_def tokB_def quietEnv_def)
  have r: "tokenRequest quietWeb False statusRequest [tokA, tokB] quietEnv adminWorld =
     (Inr \<lparr>rs_reply = jsonObj (PHost JNull) None, rs_session = KeepSession, rs_tokens = [tokB]\<rparr>, adminWorld)"
    using c by (simp add: tokenRequest_def bindA_def askE_def liftR_def keepBoth_def retA_def getHandlerV2_def readAction_def statusRequest_def ApiGetStatus_def
        quietWeb_def Let_def)
  have a: "rq_action statusRequest \<noteq> ''importdb''" "rq_header statusRequest ''Token'' = ''tb''" by (simp_all add: statusRequest_def)
  show ?thesis
    using token_run [OF r quiet_newid a(1)] r unfolding a(2) by (simp add: jsonObj_def jsonMsg_def jsonMsgObj_def)
qed

end
