(* ===== verification/Servers.thy ===== *)
theory Servers
  imports Network ApiLaws
begin

text \<open>
  \<open>web/web.go\<close>, \<open>sub/sub.go\<close>, \<open>app/app.go\<close>, \<open>cronjob/cronJob.go\<close> and \<open>main.go\<close>: the two
  web servers, the process that starts, stops and restarts them together with the jobs and the core, and the way from
  a path to a handler.  The sockets the process holds are numbered; whether an address can be bound, a
  certificate loads and a shutdown ends in time is the host's decision.
\<close>

section \<open>The process\<close>

record hostenv =
  ho_listen :: "string \<Rightarrow> bool"
  ho_cert :: "string \<Rightarrow> string \<Rightarrow> bool"
  ho_shutdown :: bool
  ho_windows :: bool
  ho_zone :: "string \<Rightarrow> unit option"

text \<open>What the router of a server was built with.\<close>

record engine =
  en_base :: string
  en_domain :: string
  en_secret :: string

record server =
  sr_engine :: "engine option"
  sr_listener :: "nat option"
  sr_cancelled :: bool

datatype cronjob = CronStats bool | CronDeplete | CronDelStats int | CronCheckCore | CronCheckpoint

record process =
  pc_world :: world
  pc_sockets :: "(nat \<times> string) list"
  pc_next :: nat
  pc_web :: server
  pc_sub :: server
  pc_cron :: "(string \<times> cronjob) list option"

type_synonym 'a pact = "hostenv \<Rightarrow> env \<Rightarrow> process \<Rightarrow> 'a res \<times> process"

definition retP :: "'a \<Rightarrow> 'a pact" where
  "retP x = (\<lambda>h e p. (Inr x, p))"

definition failP :: "goerr \<Rightarrow> 'a pact" where
  "failP x = (\<lambda>h e p. (Inl x, p))"

definition bindP :: "'a pact \<Rightarrow> ('a \<Rightarrow> 'b pact) \<Rightarrow> 'b pact" where
  "bindP a f = (\<lambda>h e p. case a h e p of (Inl x, p') \<Rightarrow> (Inl x, p') | (Inr v, p') \<Rightarrow> f v h e p')"

definition thenP :: "'a pact \<Rightarrow> 'b pact \<Rightarrow> 'b pact" where
  "thenP a b = bindP a (\<lambda>_. b)"

definition askP :: "(hostenv \<Rightarrow> 'a) \<Rightarrow> 'a pact" where
  "askP f = (\<lambda>h e p. (Inr (f h), p))"

definition modP :: "(process \<Rightarrow> process) \<Rightarrow> unit pact" where
  "modP f = (\<lambda>h e p. (Inr (), f p))"

definition onWorld :: "'a act \<Rightarrow> 'a pact" where
  "onWorld a = (\<lambda>h e p. case a e (pc_world p) of (r, w) \<Rightarrow> (r, p\<lparr>pc_world := w\<rparr>))"

text \<open>An error that is only logged.\<close>

definition loggedP :: "unit pact \<Rightarrow> unit pact" where
  "loggedP a = (\<lambda>h e p. case a h e p of (Inl (Err m), p') \<Rightarrow> (Inr (), p') | r \<Rightarrow> r)"

section \<open>Sockets\<close>

definition joinHostPort :: "string \<Rightarrow> string \<Rightarrow> string" where
  "joinHostPort host port = (if CHR '':'' \<in> set host \<or> CHR ''%'' \<in> set host then ''['' @ host @ '']:'' @ port else host @ '':'' @ port)"

definition listenOn :: "string \<Rightarrow> nat pact" where
  "listenOn addr = (\<lambda>h e p. if \<not> ho_listen h addr \<or> addr \<in> snd ` set (pc_sockets p) then (Inl (Err ''listen: address already in use''), p)
     else (Inr (pc_next p), p\<lparr>pc_sockets := (pc_next p, addr) # pc_sockets p, pc_next := Suc (pc_next p)\<rparr>))"

definition closeSocket :: "nat \<Rightarrow> process \<Rightarrow> process" where
  "closeSocket i p = p\<lparr>pc_sockets := filter (\<lambda>(j, a). j \<noteq> i) (pc_sockets p)\<rparr>"

section \<open>Servers\<close>

definition NewServer :: server where
  "NewServer = \<lparr>sr_engine = None, sr_listener = None, sr_cancelled = False\<rparr>"

text \<open>The setting accesses in which the two servers differ, and their place in the process.\<close>

record serverkind =
  sk_router :: "engine act"
  sk_cert :: "string act"
  sk_key :: "string act"
  sk_listen :: "string act"
  sk_port :: "int act"
  sk_domain :: "string act"
  sk_get :: "process \<Rightarrow> server"
  sk_put :: "server \<Rightarrow> process \<Rightarrow> process"

text \<open>\<open>Shutdown\<close> closes the listener first and then waits for the requests; the router is set together with the HTTP server.\<close>

definition stopServer :: "serverkind \<Rightarrow> unit pact" where
  "stopServer k = (\<lambda>h e p. let s = sk_get k p;
       p1 = (case sr_listener s of None \<Rightarrow> p | Some i \<Rightarrow> closeSocket i p);
       p2 = sk_put k (s\<lparr>sr_cancelled := True\<rparr>) p1
     in if sr_engine s \<noteq> None \<and> \<not> ho_shutdown h then (Inl (Err ''context deadline exceeded''), p2) else (Inr (), p2))"

text \<open>The certificate is read after the port is bound; only the error of reading the key pair closes the socket again.\<close>

definition serveOn :: "serverkind \<Rightarrow> engine \<Rightarrow> string \<Rightarrow> string \<Rightarrow> string \<Rightarrow> unit pact" where
  "serveOn k eng cert key addr =
     bindP (listenOn addr) (\<lambda>i.
     bindP (if cert \<noteq> [] \<or> key \<noteq> [] then
              bindP (askP (\<lambda>h. ho_cert h cert key)) (\<lambda>ok.
                if \<not> ok then thenP (modP (closeSocket i)) (failP (Err ''tls: failed to load key pair''))
                else thenP (onWorld (sk_domain k)) (retP ()))
            else retP ()) (\<lambda>_.
     modP (\<lambda>p. sk_put k ((sk_get k p)\<lparr>sr_engine := Some eng, sr_listener := Some i\<rparr>) p)))"

definition startBody :: "serverkind \<Rightarrow> unit pact" where
  "startBody k =
     bindP (onWorld (sk_router k)) (\<lambda>eng.
     bindP (onWorld (sk_cert k)) (\<lambda>cert.
     bindP (onWorld (sk_key k)) (\<lambda>key.
     bindP (onWorld (sk_listen k)) (\<lambda>host.
     bindP (onWorld (sk_port k)) (\<lambda>port.
       serveOn k eng cert key (joinHostPort host (itoa port)))))))"

definition startServer :: "serverkind \<Rightarrow> unit pact" where
  "startServer k = (\<lambda>h e p. case startBody k h e p of
       (Inl (Err m), p1) \<Rightarrow> (case stopServer k h e p1 of (r, p2) \<Rightarrow> (Inl (Err m), p2))
     | r \<Rightarrow> r)"

definition webRouter :: "engine act" where
  "webRouter = bindA GetWebPath (\<lambda>base. bindA GetWebDomain (\<lambda>domain. bindA GetSecret (\<lambda>secret.
     retA \<lparr>en_base = base, en_domain = domain, en_secret = secret\<rparr>)))"

definition subRouter :: "engine act" where
  "subRouter = bindA GetSubPath (\<lambda>base. bindA GetSubDomain (\<lambda>domain.
     retA \<lparr>en_base = base, en_domain = domain, en_secret = []\<rparr>))"

definition webKind :: serverkind where
  "webKind = \<lparr>sk_router = webRouter, sk_cert = GetCertFile, sk_key = GetKeyFile, sk_listen = GetListen, sk_port = GetPort,
     sk_domain = GetWebDomain, sk_get = pc_web, sk_put = (\<lambda>s p. p\<lparr>pc_web := s\<rparr>)\<rparr>"

definition subKind :: serverkind where
  "subKind = \<lparr>sk_router = subRouter, sk_cert = GetSubCertFile, sk_key = GetSubKeyFile, sk_listen = GetSubListen, sk_port = GetSubPort,
     sk_domain = GetSubDomain, sk_get = pc_sub, sk_put = (\<lambda>s p. p\<lparr>pc_sub := s\<rparr>)\<rparr>"

definition WebStart :: "unit pact" where "WebStart = startServer webKind"
definition WebStop :: "unit pact" where "WebStop = stopServer webKind"
definition SubStart :: "unit pact" where "SubStart = startServer subKind"
definition SubStop :: "unit pact" where "SubStop = stopServer subKind"

section \<open>The application\<close>

definition CronStart :: "int \<Rightarrow> unit pact" where
  "CronStart trafficAge = modP (\<lambda>p. p\<lparr>pc_cron := Some (
     [(''@every 10s'', CronStats (trafficAge > 0)), (''@every 1m'', CronDeplete)] @
     (if trafficAge > 0 then [(''@daily'', CronDelStats trafficAge)] else []) @
     [(''@every 5s'', CronCheckCore), (''@every 10m'', CronCheckpoint)])\<rparr>)"

definition CronStop :: "unit pact" where
  "CronStop = modP (\<lambda>p. p\<lparr>pc_cron := None\<rparr>)"

definition AppInit :: "bool \<Rightarrow> unit pact" where
  "AppInit hasTable = thenP (onWorld (InitDB hasTable))
     (thenP (onWorld (logErr (bindA GetAllSetting (\<lambda>_. retA ()))))
       (modP (\<lambda>p. p\<lparr>pc_web := NewServer, pc_sub := NewServer, pc_cron := None,
          pc_world := (pc_world p)\<lparr>w_core := w_core (freshProcess (pc_world p))\<rparr>\<rparr>)))"

definition AppStart :: "unit pact" where
  "AppStart = bindP (askP (\<lambda>h. (ho_windows h, ho_zone h))) (\<lambda>(win, zone).
     bindP (onWorld (GetTimeLocation win zone)) (\<lambda>loc.
     bindP (onWorld GetTrafficAge) (\<lambda>age.
     thenP (CronStart age) (thenP WebStart (thenP SubStart (loggedP (onWorld StartCore)))))))"

definition AppStop :: "unit pact" where
  "AppStop = thenP CronStop (thenP (loggedP SubStop) (thenP (loggedP WebStop) (loggedP (onWorld StopCore))))"

text \<open>The error of the second half is dropped.\<close>

definition RestartApp :: "unit pact" where
  "RestartApp = thenP AppStop (loggedP AppStart)"

text \<open>\<open>runApp\<close>: a failed start ends the process; after that, one signal after the other until one that ends it.\<close>

datatype signal = SIGHUP | SIGTERM

fun onSignals :: "signal list \<Rightarrow> unit pact" where
  "onSignals [] = retP ()"
| "onSignals (SIGHUP # sigs) = thenP RestartApp (onSignals sigs)"
| "onSignals (SIGTERM # sigs) = AppStop"

definition runApp :: "bool \<Rightarrow> signal list \<Rightarrow> unit pact" where
  "runApp hasTable sigs = thenP (AppInit hasTable) (thenP AppStart (onSignals sigs))"

section \<open>From a path to a handler\<close>

datatype page = PageRedirect string | PageText nat string | PageIndex string

definition noRoute :: "string \<Rightarrow> string \<Rightarrow> bool \<Rightarrow> page" where
  "noRoute base path loggedIn =
     (if path = (if hasSuffix base ''/'' then butlast base else base) then PageRedirect base
      else if \<not> hasPrefix path base then PageText 404 []
      else if path \<noteq> base @ ''login'' \<and> \<not> loggedIn then PageRedirect (base @ ''login'')
      else if path = base @ ''login'' \<and> loggedIn then PageRedirect base
      else PageIndex base)"

datatype route = Asset string | ApiV2 string | ApiV1 string | NoRoute

definition actionOf :: "string \<Rightarrow> string \<Rightarrow> string option" where
  "actionOf grp path = (let a = drop (length grp) path in
     if hasPrefix path grp \<and> a \<noteq> [] \<and> CHR ''/'' \<notin> set a then Some a else None)"

definition routeOf :: "string \<Rightarrow> string \<Rightarrow> route" where
  "routeOf base path =
     (if hasPrefix path (base @ ''assets/'') then Asset (drop (length base + 7) path)
      else case actionOf (base @ ''apiv2/'') path of Some a \<Rightarrow> ApiV2 a
      | None \<Rightarrow> (case actionOf (base @ ''api/'') path of Some a \<Rightarrow> ApiV1 a | None \<Rightarrow> NoRoute))"

datatype served = Forbidden | Answered response | Shown page | Static string bool

definition panelRequest :: "engine \<Rightarrow> webenv \<Rightarrow> bool \<Rightarrow> request \<Rightarrow> memtoken list \<Rightarrow> served act" where
  "panelRequest eng we post rq toks =
     (if en_domain eng \<noteq> [] \<and> \<not> DomainValidator (en_domain eng) (rq_host rq) then retA Forbidden
      else (case routeOf (en_base eng) (rq_path rq) of
          Asset f \<Rightarrow> retA (Static f True)
        | ApiV2 a \<Rightarrow> bindA (tokenRequest we post (rq\<lparr>rq_action := a\<rparr>) toks) (\<lambda>r. retA (Answered r))
        | ApiV1 a \<Rightarrow> bindA (webRequest we post (rq\<lparr>rq_action := a\<rparr>) toks) (\<lambda>r. retA (Answered r))
        | NoRoute \<Rightarrow> retA (Shown (noRoute (en_base eng) (rq_path rq) (rq_session rq \<noteq> [])))))"

section \<open>Starting and stopping\<close>

text \<open>An environment whose statements succeed.\<close>

definition sound :: "env \<Rightarrow> bool" where
  "sound e \<longleftrightarrow> (\<forall>n. \<not> e_dbfail e n)"

lemma bindP_cases:
  assumes "bindP a f h e p = (r, p')"
  obtains (fail) y where "a h e p = (Inl y, p')" "r = Inl y"
  | (step) x p1 where "a h e p = (Inr x, p1)" "f x h e p1 = (r, p')"
  using assms by (auto simp: bindP_def split: prod.splits sum.splits)

lemma onWorld_cases:
  assumes "onWorld a h e p = (r, p')"
  obtains w where "a e (pc_world p) = (r, w)" "p' = p\<lparr>pc_world := w\<rparr>"
  using assms by (auto simp: onWorld_def split: prod.splits)

lemma readable_default:
  "k \<in> fst ` set (defaultValueMap e) \<Longrightarrow> \<exists>v. map_of (defaultValueMap e) k = Some v"
  by (metis map_of_eq_None_iff not_Some_eq)

lemma getString_sound:
  assumes "sound e" "k \<in> fst ` set (defaultValueMap e)"
  shows "\<exists>v. getString k e w = (Inr v, w\<lparr>w_stmt := Suc (w_stmt w)\<rparr>) \<and> (\<forall>x. settingOf k (db_settings (w_db w)) = Some x \<longrightarrow> v = x)"
proof (cases "settingOf k (db_settings (w_db w))")
  case None
  then show ?thesis using readable_default [OF assms(2)] assms(1) getString_default [of e w k] by (auto simp: sound_def)
next
  case (Some x)
  then show ?thesis using assms(1) getString_found [of e w k x] by (auto simp: sound_def)
qed

lemma setting_keys: "k \<in> {''webListen'', ''webDomain'', ''webPort'', ''webCertFile'', ''webKeyFile'', ''webPath'', ''trafficAge'', ''timeLocation'',
    ''subListen'', ''subPort'', ''subPath'', ''subDomain'', ''subCertFile'', ''subKeyFile''} \<Longrightarrow> k \<in> fst ` set (defaultValueMap e)"
  by (auto simp: defaultValueMap_def)

text \<open>What the outcomes of a start leave of the sockets.\<close>

definition kinds :: "serverkind set" where
  "kinds = {webKind, subKind}"

lemma domain_readable:
  assumes "sound e" "k \<in> kinds"
  shows "\<exists>v. sk_domain k e w = (Inr v, w\<lparr>w_stmt := Suc (w_stmt w)\<rparr>)"
  using assms(2) getString_sound [OF assms(1), of "''webDomain''" w] getString_sound [OF assms(1), of "''subDomain''" w]
  by (auto simp: kinds_def webKind_def subKind_def GetWebDomain_def GetSubDomain_def setting_keys)

definition servesOn :: "serverkind \<Rightarrow> engine \<Rightarrow> string \<Rightarrow> process \<Rightarrow> process \<Rightarrow> bool" where
  "servesOn k eng addr p p' \<longleftrightarrow> (\<exists>w. p' = sk_put k ((sk_get k p)\<lparr>sr_engine := Some eng, sr_listener := Some (pc_next p)\<rparr>)
     (p\<lparr>pc_sockets := (pc_next p, addr) # pc_sockets p, pc_next := Suc (pc_next p), pc_world := w\<rparr>))"

lemma kind_fields: "k \<in> kinds \<Longrightarrow> sk_get k (q\<lparr>pc_world := w\<rparr>) = sk_get k q \<and> sk_get k (q\<lparr>pc_sockets := s\<rparr>) = sk_get k q \<and>
   sk_get k (q\<lparr>pc_next := n\<rparr>) = sk_get k q \<and> sk_get k (sk_put k x q) = x \<and> pc_sockets (sk_put k x q) = pc_sockets q \<and>
   pc_next (sk_put k x q) = pc_next q \<and> pc_world (sk_put k x q) = pc_world q \<and> pc_cron (sk_put k x q) = pc_cron q"
  by (auto simp: kinds_def webKind_def subKind_def)

text \<open>A start that failed: the sockets are as before.\<close>

definition unserved :: "process \<Rightarrow> process \<Rightarrow> bool" where
  "unserved p p' \<longleftrightarrow> (\<exists>w n. p' = p\<lparr>pc_world := w, pc_next := n\<rparr> \<and> n \<ge> pc_next p)"

lemma serveOn_outcome:
  assumes "serveOn k eng cert key addr h e p = (r, p')" "sound e" "k \<in> kinds" "\<forall>(i, a) \<in> set (pc_sockets p). i < pc_next p"
  shows "r = Inr () \<and> servesOn k eng addr p p' \<or> (\<exists>y. r = Inl y) \<and> unserved p p'"
proof (cases "\<not> ho_listen h addr \<or> addr \<in> snd ` set (pc_sockets p)")
  case True
  then have "(\<exists>y. r = Inl y) \<and> p' = p" using assms(1) by (auto simp: serveOn_def bindP_def listenOn_def)
  then show ?thesis unfolding unserved_def by (metis le_refl process.surjective process.update_convs(1) process.update_convs(3))
next
  case False
  let ?p = "p\<lparr>pc_sockets := (pc_next p, addr) # pc_sockets p, pc_next := Suc (pc_next p)\<rparr>"
  have l: "listenOn addr h e p = (Inr (pc_next p), ?p)" using False by (simp add: listenOn_def)
  have f: "filter (\<lambda>(j, a). j \<noteq> pc_next p) (pc_sockets p) = pc_sockets p"
    using assms(4) by (intro filter_True) fastforce
  obtain v where d: "sk_domain k e (pc_world ?p) = (Inr v, (pc_world ?p)\<lparr>w_stmt := Suc (w_stmt (pc_world ?p))\<rparr>)"
    using domain_readable [OF assms(2,3)] by blast
  note k = kind_fields [OF assms(3)]
  show ?thesis
  proof (cases "(cert \<noteq> [] \<or> key \<noteq> []) \<and> \<not> ho_cert h cert key")
    case True
    then have "(\<exists>y. r = Inl y) \<and> p' = p\<lparr>pc_next := Suc (pc_next p)\<rparr>"
      using assms(1) l f by (auto simp: serveOn_def bindP_def thenP_def modP_def askP_def failP_def closeSocket_def)
    then show ?thesis unfolding unserved_def by (intro disjI2 conjI exI [of _ "pc_world p"] exI [of _ "Suc (pc_next p)"]) auto
  next
    case False
    have "r = Inr () \<and> servesOn k eng addr p p'"
      using assms(1) l d False
      by (cases "cert \<noteq> [] \<or> key \<noteq> []")
        (auto simp: serveOn_def bindP_def thenP_def modP_def askP_def retP_def onWorld_def servesOn_def k
          intro: exI [of _ "pc_world p"] exI [of _ "(pc_world p)\<lparr>w_stmt := Suc (w_stmt (pc_world p))\<rparr>"])
    then show ?thesis by simp
  qed
qed

text \<open>The socket a server holds; numbers are never used twice.\<close>

definition holds :: "serverkind \<Rightarrow> process \<Rightarrow> nat \<Rightarrow> bool" where
  "holds k p i \<longleftrightarrow> sr_listener (sk_get k p) = Some i"

definition fresh :: "process \<Rightarrow> bool" where
  "fresh p \<longleftrightarrow> (\<forall>(i, a) \<in> set (pc_sockets p). i < pc_next p) \<and> (\<forall>m \<in> kinds. \<forall>i. holds m p i \<longrightarrow> i < pc_next p)"

text \<open>The two outcomes of a start.\<close>

definition startLike :: "serverkind \<Rightarrow> unit pact \<Rightarrow> bool" where
  "startLike k a \<longleftrightarrow> (\<forall>h e p r p'. a h e p = (r, p') \<longrightarrow> sound e \<longrightarrow> fresh p \<longrightarrow>
     r = Inr () \<and> (\<exists>eng addr. servesOn k eng addr p p') \<or> (\<exists>y. r = Inl y) \<and> unserved p p')"

lemma unserved_world: "unserved (p\<lparr>pc_world := w\<rparr>) p' \<Longrightarrow> unserved p p'"
  unfolding unserved_def by auto

lemma servesOn_world: "k \<in> kinds \<Longrightarrow> servesOn k eng addr (p\<lparr>pc_world := w\<rparr>) p' \<Longrightarrow> servesOn k eng addr p p'"
  unfolding servesOn_def by (auto simp: kind_fields)

lemma startLike_bind:
  assumes "\<And>x. startLike k (f x)" "k \<in> kinds" shows "startLike k (bindP (onWorld a) f)"
  unfolding startLike_def
proof (intro allI impI)
  fix h e p r p'
  assume b: "bindP (onWorld a) f h e p = (r, p')" "sound e" "fresh p"
  obtain y w where a: "a e (pc_world p) = (y, w)" by fastforce
  have fr: "fresh (p\<lparr>pc_world := w\<rparr>)" using b(3) by (simp add: fresh_def holds_def kind_fields)
  show "r = Inr () \<and> (\<exists>eng addr. servesOn k eng addr p p') \<or> (\<exists>y. r = Inl y) \<and> unserved p p'"
  proof (cases y)
    case (Inl x)
    with a b(1) have "r = Inl x" "p' = p\<lparr>pc_world := w\<rparr>" by (simp_all add: bindP_def onWorld_def)
    then show ?thesis unfolding unserved_def
      by (intro disjI2 conjI exI [of _ w] exI [of _ "pc_next p"]) auto
  next
    case (Inr x)
    with a b(1) have "f x h e (p\<lparr>pc_world := w\<rparr>) = (r, p')" by (simp add: bindP_def onWorld_def)
    with assms(1) [of x] b(2) fr show ?thesis
      unfolding startLike_def using unserved_world servesOn_world [OF assms(2)] by blast
  qed
qed

lemma startLike_body: "k \<in> kinds \<Longrightarrow> startLike k (startBody k)"
  unfolding startBody_def
  by (intro startLike_bind; assumption?) (auto simp: startLike_def fresh_def dest: serveOn_outcome)

definition owned :: "process \<Rightarrow> bool" where
  "owned p \<longleftrightarrow> fresh p \<and> (\<forall>(i, a) \<in> set (pc_sockets p). holds webKind p i \<or> holds subKind p i)"

definition listening :: "serverkind \<Rightarrow> process \<Rightarrow> bool" where
  "listening k p \<longleftrightarrow> (\<exists>i a. (i, a) \<in> set (pc_sockets p) \<and> holds k p i)"

lemma stop_outcome:
  assumes "stopServer k h e p = (r, p')" "k \<in> kinds"
  shows "pc_sockets p' = filter (\<lambda>(i, a). \<not> holds k p i) (pc_sockets p) \<and> pc_next p' = pc_next p \<and> pc_world p' = pc_world p \<and>
    pc_cron p' = pc_cron p \<and> (\<forall>m \<in> kinds. \<forall>i. holds m p' i = holds m p i) \<and> (\<forall>x. r \<noteq> Inl (Panic x))"
  using assms
  by (auto simp: stopServer_def Let_def closeSocket_def holds_def kinds_def webKind_def subKind_def split: option.splits if_splits
      intro!: filter_cong)

lemma AppStop_outcome:
  assumes "AppStop h e p = (r, p')" "owned p"
  shows "r = Inr () \<and> pc_sockets p' = [] \<and> pc_cron p' = None \<and> w_db (pc_world p') = w_db (pc_world p) \<and> \<not> co_running (w_core (pc_world p')) \<and> fresh p'"
proof -
  let ?p0 = "p\<lparr>pc_cron := None\<rparr>"
  obtain r1 p1 where 1: "stopServer subKind h e ?p0 = (r1, p1)" by fastforce
  obtain r2 p2 where 2: "stopServer webKind h e p1 = (r2, p2)" by fastforce
  obtain r3 w3 where 3: "StopCore e (pc_world p2) = (r3, w3)" by fastforce
  have k: "webKind \<in> kinds" "subKind \<in> kinds" by (simp_all add: kinds_def)
  note s1 = stop_outcome [OF 1 k(2)] and s2 = stop_outcome [OF 2 k(1)]
  have "pc_sockets p2 = filter (\<lambda>(i, a). \<not> holds webKind ?p0 i) (filter (\<lambda>(i, a). \<not> holds subKind ?p0 i) (pc_sockets p))"
    using s1 s2 k by simp
  also have "\<dots> = []" using assms(2) by (auto simp: owned_def filter_empty_conv holds_def webKind_def subKind_def)
  finally have e: "pc_sockets p2 = []" .
  have c: "r3 \<noteq> Inl (Panic x) \<and> \<not> co_running (w_core w3) \<and> w_db w3 = w_db (pc_world p2)" for x
    using 3 by (auto simp: StopCore_def coreStop_def Let_def split: if_splits)
  have "r = Inr () \<and> p' = p2\<lparr>pc_world := w3\<rparr>"
    using assms(1) 1 2 3 s1 s2 c
    by (auto simp: AppStop_def thenP_def bindP_def CronStop_def modP_def loggedP_def SubStop_def WebStop_def onWorld_def
        split: sum.splits goerr.splits)
  moreover have "fresh p2" using s1 s2 e assms(2) by (auto simp: owned_def fresh_def holds_def kinds_def webKind_def subKind_def)
  ultimately show ?thesis using e c s1 s2 by (simp add: fresh_def holds_def kind_fields)
qed

lemma startServer_outcome:
  assumes "startServer k h e p = (r, p')" "sound e" "k \<in> kinds" "fresh p" "\<forall>(i, a) \<in> set (pc_sockets p). \<not> holds k p i"
  shows "r = Inr () \<and> (\<exists>eng addr. servesOn k eng addr p p') \<or>
    (\<exists>y. r = Inl y) \<and> fresh p' \<and> pc_sockets p' = pc_sockets p \<and> (\<forall>m \<in> kinds. \<forall>i. holds m p' i = holds m p i)"
proof -
  have fr: "fresh q" if "pc_sockets q = pc_sockets p \<and> pc_next q \<ge> pc_next p \<and> (\<forall>m \<in> kinds. \<forall>i. holds m q i = holds m p i)" for q
    using assms(4) that unfolding fresh_def by (metis (no_types, lifting) case_prodD case_prodI2 less_le_trans)
  obtain r1 p1 where 1: "startBody k h e p = (r1, p1)" by fastforce
  from startLike_body [OF assms(3)] 1 assms(2,4)
  consider (ok) eng addr where "r1 = Inr ()" "servesOn k eng addr p p1" | (bad) y where "r1 = Inl y" "unserved p p1"
    unfolding startLike_def by blast
  then show ?thesis
  proof cases
    case ok
    with 1 assms(1) show ?thesis by (auto simp: startServer_def)
  next
    case bad
    have same: "pc_sockets p1 = pc_sockets p \<and> pc_next p1 \<ge> pc_next p \<and> (\<forall>m \<in> kinds. \<forall>i. holds m p1 i = holds m p i)"
      using bad(2) by (auto simp: unserved_def holds_def kind_fields)
    show ?thesis
    proof (cases y)
      case (Err m)
      obtain r2 p2 where 2: "stopServer k h e p1 = (r2, p2)" by fastforce
      have "pc_sockets p2 = pc_sockets p1" using stop_outcome [OF 2 assms(3)] same assms(3,5) by (auto intro!: filter_True)
      then show ?thesis using 1 2 bad(1) Err assms(1) stop_outcome [OF 2 assms(3)] same fr [of p2] by (auto simp: startServer_def)
    next
      case (Panic x)
      then show ?thesis using 1 bad(1) assms(1) same fr [of p1] by (auto simp: startServer_def)
    qed
  qed
qed

lemma servesOn_after:
  assumes "servesOn k eng addr p p'" "k \<in> kinds" "fresh p"
  shows "fresh p' \<and> pc_sockets p' = (pc_next p, addr) # pc_sockets p \<and> pc_next p' = Suc (pc_next p) \<and> holds k p' (pc_next p) \<and>
    (\<forall>m \<in> kinds. \<forall>i. holds m p' i \<longrightarrow> holds m p i \<or> i = pc_next p) \<and> (\<forall>m \<in> kinds. \<forall>i < pc_next p. holds m p i \<longrightarrow> m = k \<or> holds m p' i)"
proof -
  have a: "pc_sockets p' = (pc_next p, addr) # pc_sockets p \<and> pc_next p' = Suc (pc_next p) \<and> holds k p' (pc_next p) \<and>
    (\<forall>m \<in> kinds. \<forall>i. holds m p' i \<longrightarrow> holds m p i \<or> i = pc_next p) \<and> (\<forall>m \<in> kinds. \<forall>i < pc_next p. holds m p i \<longrightarrow> m = k \<or> holds m p' i)"
    using assms(1,2) by (auto simp: servesOn_def holds_def kinds_def webKind_def subKind_def)
  moreover from a have "fresh p'" using assms(3) unfolding fresh_def by (metis (no_types, lifting) case_prodD case_prodI2 less_Suc_eq prod.inject set_ConsD)
  ultimately show ?thesis by blast
qed

lemma onWorld_sockets: "onWorld a h e p = (r, p') \<Longrightarrow> pc_sockets p' = pc_sockets p \<and> pc_next p' = pc_next p \<and> pc_cron p' = pc_cron p \<and>
    (\<forall>m \<in> kinds. \<forall>i. holds m p' i = holds m p i)"
  by (auto simp: onWorld_def holds_def kind_fields split: prod.splits)

text \<open>What the start of the application leaves of an empty set of sockets.\<close>

lemma servers_outcome:
  assumes "thenP WebStart SubStart h e p = (r, p')" "sound e" "pc_sockets p = []" "fresh p"
  shows "owned p'"
proof -
  have k: "webKind \<in> kinds" "subKind \<in> kinds" by (simp_all add: kinds_def)
  note fr = assms(4)
  obtain r1 p1 where 1: "startServer webKind h e p = (r1, p1)" by fastforce
  from startServer_outcome [OF 1 assms(2) k(1) fr] assms(3)
  have w: "r1 = Inr () \<and> (\<exists>eng addr. servesOn webKind eng addr p p1) \<or> (\<exists>y. r1 = Inl y) \<and> fresh p1 \<and> pc_sockets p1 = []" by auto
  show ?thesis
  proof (cases r1)
    case (Inl y)
    with assms(1) 1 have "p' = p1" by (simp add: thenP_def bindP_def WebStart_def)
    then show ?thesis using w Inl by (auto simp: owned_def)
  next
    case (Inr u)
    then obtain eng addr where s: "servesOn webKind eng addr p p1" using w by auto
    note a = servesOn_after [OF s k(1) fr]
    then have a1: "pc_sockets p1 = [(pc_next p, addr)]" "holds webKind p1 (pc_next p)" "fresh p1" using assms(3) by simp_all
    obtain r2 p2 where 2: "startServer subKind h e p1 = (r2, p2)" by fastforce
    have p2: "p2 = p'" using assms(1) 1 2 Inr by (simp add: thenP_def bindP_def WebStart_def SubStart_def)
    have n: "\<not> holds subKind p1 (pc_next p)" if "holds webKind p1 (pc_next p)"
      using s fr k by (auto simp: servesOn_def holds_def webKind_def subKind_def fresh_def kinds_def)
    from startServer_outcome [OF 2 assms(2) k(2) a1(3)] a1(1,2) n p2 show ?thesis
      using servesOn_after [OF _ k(2) a1(3)] a1 a k unfolding owned_def by fastforce
  qed
qed

lemma thenP_step: "a h e p = (Inr x, p1) \<Longrightarrow> thenP a b h e p = b h e p1"
  by (simp add: thenP_def bindP_def)

lemma thenP_assoc: "thenP (thenP a b) c = thenP a (thenP b c)"
  by (rule ext)+ (simp add: thenP_def bindP_def split: prod.split sum.split)

lemma owned_moves:
  "owned p \<Longrightarrow> owned (p\<lparr>pc_world := w\<rparr>)" "owned p \<Longrightarrow> owned (p\<lparr>pc_cron := c\<rparr>)"
  "fresh p \<Longrightarrow> fresh (p\<lparr>pc_world := w\<rparr>)" "fresh p \<Longrightarrow> fresh (p\<lparr>pc_cron := c\<rparr>)"
  by (auto simp: owned_def fresh_def holds_def kinds_def webKind_def subKind_def)

lemma AppStart_owned:
  assumes "AppStart h e p = (r, p')" "sound e" "pc_sockets p = []" "fresh p"
  shows "owned p'"
proof -
  have empty: "owned (p\<lparr>pc_world := w\<rparr>)" for w using assms(3,4) by (auto simp: owned_def intro: owned_moves)
  obtain r1 w1 where 1: "GetTimeLocation (ho_windows h) (ho_zone h) e (pc_world p) = (r1, w1)" by fastforce
  obtain r2 w2 where 2: "GetTrafficAge e w1 = (r2, w2)" by fastforce
  consider x where "r1 = Inl x" | l x where "r1 = Inr l" "r2 = Inl x" | l age where "r1 = Inr l" "r2 = Inr age"
    by (cases r1; cases r2) auto
  then show ?thesis
  proof cases
    case 1
    then have "p' = p\<lparr>pc_world := w1\<rparr>" using assms(1) \<open>GetTimeLocation _ _ _ _ = _\<close>
      by (simp add: AppStart_def bindP_def askP_def onWorld_def)
    then show ?thesis using empty by simp
  next
    case 2
    then have "p' = p\<lparr>pc_world := w2\<rparr>" using assms(1) 1 \<open>GetTrafficAge _ _ = _\<close>
      by (simp add: AppStart_def bindP_def askP_def onWorld_def)
    then show ?thesis using empty by simp
  next
    case 3
    obtain p2 where p2: "CronStart age h e (p\<lparr>pc_world := w2\<rparr>) = (Inr (), p2)" "pc_sockets p2 = []" "fresh p2"
      using assms(3) owned_moves(4) [OF owned_moves(3) [OF assms(4)]] by (simp add: CronStart_def modP_def)
    have run: "thenP (thenP WebStart SubStart) (loggedP (onWorld StartCore)) h e p2 = (r, p')"
      using assms(1) 1 2 3 p2(1) by (simp add: AppStart_def thenP_assoc bindP_def askP_def onWorld_def thenP_step [where a = "CronStart age", OF p2(1)])
    obtain r3 p3 where 3: "thenP WebStart SubStart h e p2 = (r3, p3)" by fastforce
    have a3: "owned p3" by (rule servers_outcome [OF 3 assms(2) p2(2,3)])
    then show ?thesis
      using run 3 by (auto simp: thenP_def [of "thenP WebStart SubStart"] bindP_def loggedP_def onWorld_def intro: owned_moves
          split: sum.splits prod.splits goerr.splits)
  qed
qed

lemma RestartApp_owned:
  assumes "RestartApp h e p = (r, p')" "sound e" "owned p"
  shows "owned p'"
proof -
  obtain r1 p1 where 1: "AppStop h e p = (r1, p1)" by fastforce
  note s = AppStop_outcome [OF 1 assms(3)]
  obtain r2 p2 where 2: "AppStart h e p1 = (r2, p2)" by fastforce
  have "p' = p2" using assms(1) 1 2 s
    by (auto simp: RestartApp_def thenP_def bindP_def loggedP_def split: sum.splits goerr.splits)
  then show ?thesis using AppStart_owned [OF 2 assms(2)] s by simp
qed

text \<open>C11
  The process keeps track of its sockets: while the statements of the database succeed, every socket it holds after any sequence
  of restarts belongs to the web server or to the subscription server and can be closed by it, whichever of the two failed to
  start; and the signal that ends the process leaves none open.
\<close>

theorem sockets_accounted:
  assumes "onSignals sigs h e p = (r, p')" "sound e" "owned p"
  shows "owned p' \<and> (r = Inr () \<and> SIGTERM \<in> set sigs \<longrightarrow> pc_sockets p' = [])"
  using assms
proof (induction sigs arbitrary: p)
  case (Cons g sigs)
  show ?case
  proof (cases g)
    case SIGHUP
    obtain r1 p1 where 1: "RestartApp h e p = (r1, p1)" by fastforce
    note a = RestartApp_owned [OF 1 Cons.prems(2,3)]
    show ?thesis
    proof (cases r1)
      case (Inl x)
      then show ?thesis using Cons.prems(1) SIGHUP 1 a by (auto simp: thenP_def bindP_def)
    next
      case (Inr u)
      then have "onSignals sigs h e p1 = (r, p')" using Cons.prems(1) SIGHUP 1 by (simp add: thenP_def bindP_def)
      from Cons.IH [OF this Cons.prems(2) a] SIGHUP show ?thesis by simp
    qed
  next
    case SIGTERM
    then have "AppStop h e p = (r, p')" using Cons.prems(1) by simp
    from AppStop_outcome [OF this Cons.prems(3)] show ?thesis by (simp add: owned_def)
  qed
qed (simp add: retP_def)

text \<open>A process whose two servers run.\<close>

definition openHost :: hostenv where
  "openHost = \<lparr>ho_listen = (\<lambda>_. True), ho_cert = (\<lambda>_ _. False), ho_shutdown = True, ho_windows = False, ho_zone = (\<lambda>_. Some ())\<rparr>"

definition runningProcess :: "world \<Rightarrow> process" where
  "runningProcess w = \<lparr>pc_world = w, pc_sockets = [(1, '':2096''), (0, '':2095'')], pc_next = 2,
     pc_web = \<lparr>sr_engine = Some \<lparr>en_base = ''/app/'', en_domain = [], en_secret = ''s3cret''\<rparr>, sr_listener = Some 0, sr_cancelled = False\<rparr>,
     pc_sub = \<lparr>sr_engine = Some \<lparr>en_base = ''/sub/'', en_domain = [], en_secret = []\<rparr>, sr_listener = Some 1, sr_cancelled = False\<rparr>,
     pc_cron = Some []\<rparr>"

lemma runningProcess_owned: "owned (runningProcess w)"
  by (auto simp: owned_def fresh_def holds_def kinds_def webKind_def subKind_def runningProcess_def)

theorem sockets_accounted_witness:
  "\<exists>p'. onSignals [SIGTERM] openHost settingsEnv (runningProcess settingsWorld) = (Inr (), p') \<and> pc_sockets p' = [] \<and>
     pc_sockets (runningProcess settingsWorld) \<noteq> []"
proof -
  obtain p' where r: "onSignals [SIGTERM] openHost settingsEnv (runningProcess settingsWorld) = (Inr (), p')"
    using AppStop_outcome [OF _ runningProcess_owned, of openHost settingsEnv settingsWorld] by (metis onSignals.simps(3) prod.collapse)
  have "sound settingsEnv" by (simp add: sound_def settingsEnv_def)
  from sockets_accounted [OF r this runningProcess_owned] r show ?thesis by (simp add: runningProcess_def)
qed

section \<open>A restart that fails\<close>

text \<open>Actions that leave the certificate settings alone and do not panic.\<close>

definition certSettings :: "world \<Rightarrow> string option \<times> string option" where
  "certSettings w = (settingOf ''webCertFile'' (db_settings (w_db w)), settingOf ''webKeyFile'' (db_settings (w_db w)))"

definition tame :: "'a act \<Rightarrow> bool" where
  "tame a \<longleftrightarrow> (\<forall>e w r w'. a e w = (r, w') \<longrightarrow> sound e \<longrightarrow>
     certSettings w' = certSettings w \<and> w_core w' = w_core w \<and> (\<forall>x. r \<noteq> Inl (Panic x)))"

named_theorems tame_intros "actions that leave the certificate settings alone"

lemma tame_basic [tame_intros]: "tame (retA x)" "tame (failA (Err m))" "tame (askE f)"
  by (auto simp: tame_def)

lemma tame_bind [tame_intros]: "tame a \<Longrightarrow> (\<And>x. tame (f x)) \<Longrightarrow> tame (bindA a f)"
  unfolding tame_def bindA_def by (auto split: prod.splits sum.splits) blast+

lemma tame_getString [tame_intros]: "tame (getString k)"
  by (auto simp: tame_def getString_def onNotFound_def getSetting_def firstWhere_def sqlq_def Let_def certSettings_def notFound_def sqlErr_def
      bindA_def askE_def failA_def retA_def split: list.splits if_splits option.splits)

lemma tame_getInt [tame_intros]: "tame (getInt k)"
  unfolding getInt_def by (intro tame_intros) (auto split: prod.split intro: tame_intros)

lemma tame_saveSetting: "k \<notin> {''webCertFile'', ''webKeyFile''} \<Longrightarrow> tame (saveSetting k v)"
  by (auto simp: tame_def saveSetting_def onNotFound_def getSetting_def firstWhere_def sqlq_def sqlx_def sqlu_def Let_def certSettings_def
      notFound_def sqlErr_def settings.get_put_other split: list.splits if_splits)

lemma tame_logErr: "tame a \<Longrightarrow> tame (logErr a)"
proof -
  assume t: "tame a"
  show ?thesis unfolding tame_def
  proof (intro allI impI)
    fix e w r w' assume r: "logErr a e w = (r, w')" "sound e"
    obtain r1 w1 where 1: "a e w = (r1, w1)" by fastforce
    have "certSettings w1 = certSettings w \<and> w_core w1 = w_core w \<and> (\<forall>x. r1 \<noteq> Inl (Panic x))"
      using t 1 r(2) unfolding tame_def by blast
    then show "certSettings w' = certSettings w \<and> w_core w' = w_core w \<and> (\<forall>x. r \<noteq> Inl (Panic x))"
      using r(1) 1 by (auto simp: logErr_def split: sum.splits goerr.splits)
  qed
qed

lemma tame_router [tame_intros]: "tame webRouter"
proof -
  have "tame (thenA (logErr (saveSetting ''secret'' s)) (retA s))" for s
    unfolding thenA_def by (intro tame_intros tame_logErr tame_saveSetting) simp
  then have "tame GetSecret" unfolding GetSecret_def by (intro tame_intros) (auto intro: tame_intros)
  then show ?thesis
    unfolding webRouter_def GetWebPath_def GetWebDomain_def by (intro tame_intros)
qed

lemma tame_times [tame_intros]: "tame (GetTimeLocation win load)" "tame GetTrafficAge" "tame GetListen" "tame GetPort"
  unfolding GetTimeLocation_def GetTrafficAge_def GetListen_def GetPort_def Let_def
  by (intro tame_intros) (auto split: option.split intro: tame_intros)

text \<open>A start that cannot succeed: the configured pair of certificate and key does not load.\<close>

definition doomed :: "string \<Rightarrow> string \<Rightarrow> 'a pact \<Rightarrow> bool" where
  "doomed c k a \<longleftrightarrow> (\<forall>h e p r p'. a h e p = (r, p') \<longrightarrow> sound e \<longrightarrow> \<not> ho_cert h c k \<longrightarrow> pc_sockets p = [] \<longrightarrow>
     certSettings (pc_world p) = (Some c, Some k) \<longrightarrow>
     (\<exists>m. r = Inl (Err m)) \<and> pc_sockets p' = [] \<and> certSettings (pc_world p') = (Some c, Some k) \<and> w_core (pc_world p') = w_core (pc_world p))"

lemma doomed_bind:
  assumes "tame a" "\<And>x. doomed c k (f x)" shows "doomed c k (bindP (onWorld a) f)"
  unfolding doomed_def
proof (intro allI impI)
  fix h e p r p'
  assume b: "bindP (onWorld a) f h e p = (r, p')" "sound e" "\<not> ho_cert h c k" "pc_sockets p = []" "certSettings (pc_world p) = (Some c, Some k)"
  obtain y w where a: "a e (pc_world p) = (y, w)" by fastforce
  have t: "certSettings w = (Some c, Some k) \<and> w_core w = w_core (pc_world p) \<and> (\<forall>x. y \<noteq> Inl (Panic x))"
    using assms(1) a b(2,5) unfolding tame_def by fastforce
  show "(\<exists>m. r = Inl (Err m)) \<and> pc_sockets p' = [] \<and> certSettings (pc_world p') = (Some c, Some k) \<and> w_core (pc_world p') = w_core (pc_world p)"
  proof (cases y)
    case (Inl x)
    then show ?thesis using a b t by (cases x) (auto simp: bindP_def onWorld_def)
  next
    case (Inr x)
    then have "f x h e (p\<lparr>pc_world := w\<rparr>) = (r, p')" using a b(1) by (simp add: bindP_def onWorld_def)
    with assms(2) [of x] b(2-4) t show ?thesis unfolding doomed_def by fastforce
  qed
qed

lemma doomed_setting:
  assumes "doomed c k (f v)"
    and "\<And>e w. sound e \<Longrightarrow> certSettings w = (Some c, Some k) \<Longrightarrow> a e w = (Inr v, w\<lparr>w_stmt := Suc (w_stmt w)\<rparr>)"
  shows "doomed c k (bindP (onWorld a) f)"
  using assms(1) unfolding doomed_def bindP_def onWorld_def by (auto simp: assms(2) certSettings_def)

lemma doomed_pair:
  "doomed c k (f c) \<Longrightarrow> doomed c k (bindP (onWorld GetCertFile) f)" "doomed c k (f k) \<Longrightarrow> doomed c k (bindP (onWorld GetKeyFile) f)"
  by (rule doomed_setting; auto simp: GetCertFile_def GetKeyFile_def certSettings_def sound_def getString_found)+

lemma doomed_serveOn: "c \<noteq> [] \<or> k \<noteq> [] \<Longrightarrow> doomed c k (serveOn s eng c k addr)"
  by (auto simp: doomed_def serveOn_def bindP_def thenP_def listenOn_def askP_def modP_def failP_def closeSocket_def split: if_splits)

lemma doomed_web: "c \<noteq> [] \<or> k \<noteq> [] \<Longrightarrow> doomed c k WebStart"
proof -
  assume ck: "c \<noteq> [] \<or> k \<noteq> []"
  have "doomed c k (startBody webKind)"
    unfolding startBody_def webKind_def serverkind.simps
    by (intro doomed_bind doomed_pair tame_intros doomed_serveOn ck)
  moreover have "pc_sockets p' = [] \<and> pc_world p' = pc_world p" if "stopServer webKind h e p = (r, p')" "pc_sockets p = []" for h e p r p'
    using stop_outcome [OF that(1)] that(2) by (simp add: kinds_def)
  ultimately show ?thesis unfolding WebStart_def doomed_def startServer_def
    by (auto split: prod.splits sum.splits goerr.splits) fastforce+
qed

lemma doomed_then: "doomed c k a \<Longrightarrow> doomed c k (thenP a b)"
  unfolding doomed_def thenP_def bindP_def by (auto split: prod.splits sum.splits) blast+

lemma doomed_ask: "(\<And>x. doomed c k (f x)) \<Longrightarrow> doomed c k (bindP (askP g) f)"
  unfolding doomed_def bindP_def askP_def by simp

lemma doomed_cron: "doomed c k b \<Longrightarrow> doomed c k (thenP (CronStart age) b)"
  unfolding doomed_def thenP_def bindP_def CronStart_def modP_def by simp

lemma doomed_split: "(\<And>x y. doomed c k (f x y)) \<Longrightarrow> doomed c k (case z of (x, y) \<Rightarrow> f x y)"
  by (cases z) simp

lemma doomed_AppStart: "c \<noteq> [] \<or> k \<noteq> [] \<Longrightarrow> doomed c k AppStart"
  unfolding AppStart_def
  by (intro doomed_ask doomed_split doomed_bind tame_intros doomed_cron doomed_then doomed_web)

lemma doomed_RestartApp:
  assumes "RestartApp h e p = (r, p')" "sound e" "owned p" "certSettings (pc_world p) = (Some c, Some k)" "c \<noteq> [] \<or> k \<noteq> []" "\<not> ho_cert h c k"
  shows "r = Inr () \<and> pc_sockets p' = [] \<and> certSettings (pc_world p') = (Some c, Some k) \<and> \<not> co_running (w_core (pc_world p'))"
proof -
  obtain r1 p1 where 1: "AppStop h e p = (r1, p1)" by fastforce
  note s = AppStop_outcome [OF 1 assms(3)]
  then have cs: "certSettings (pc_world p1) = (Some c, Some k)" using assms(4) by (simp add: certSettings_def)
  obtain r2 p2 where 2: "AppStart h e p1 = (r2, p2)" by fastforce
  have "(\<exists>m. r2 = Inl (Err m)) \<and> pc_sockets p2 = [] \<and> certSettings (pc_world p2) = (Some c, Some k) \<and> w_core (pc_world p2) = w_core (pc_world p1)"
    using doomed_AppStart [OF assms(5)] 2 assms(2,6) s cs unfolding doomed_def by blast
  then show ?thesis using assms(1) 1 2 s by (auto simp: RestartApp_def thenP_def bindP_def loggedP_def)
qed


definition badCertWorld :: world where
  "badCertWorld = settingsWorld\<lparr>w_db := (w_db settingsWorld)\<lparr>db_settings :=
     [\<lparr>s_key = ''webCertFile'', s_value = ''/etc/panel.crt''\<rparr>, \<lparr>s_key = ''webKeyFile'', s_value = ''/etc/panel.key''\<rparr>]\<rparr>\<rparr>"


section \<open>Requests to the panel\<close>

lemma hasPrefix_app: "hasPrefix (p @ s) (p @ q) \<longleftrightarrow> hasPrefix s q"
  by (simp add: hasPrefix_def)

lemma hasPrefix_trans: "hasPrefix s (p @ q) \<Longrightarrow> hasPrefix s p"
  unfolding hasPrefix_def by (metis append_eq_append_conv_if append_take_drop_id length_append le_add1 order_trans take_add append_same_eq)

lemma actionOf_Some: "actionOf g path = Some a \<Longrightarrow> path = g @ a \<and> a \<noteq> [] \<and> CHR ''/'' \<notin> set a"
  unfolding actionOf_def hasPrefix_def Let_def by (auto split: if_splits) (metis append_take_drop_id)

lemma actionOf_app: "a \<noteq> [] \<Longrightarrow> CHR ''/'' \<notin> set a \<Longrightarrow> actionOf g (g @ a) = Some a"
  by (simp add: actionOf_def hasPrefix_def)

lemma routeOf_api: "a \<noteq> [] \<Longrightarrow> CHR ''/'' \<notin> set a \<Longrightarrow> routeOf base (base @ ''api/'' @ a) = ApiV1 a"
proof -
  assume a: "a \<noteq> []" "CHR ''/'' \<notin> set a"
  have "actionOf (base @ ''api/'') (base @ ''api/'' @ a) = Some a" using actionOf_app [OF a, of "base @ ''api/''"] by simp
  moreover have "\<not> hasPrefix (base @ ''api/'' @ a) (base @ ''assets/'')" "\<not> hasPrefix (base @ ''api/'' @ a) (base @ ''apiv2/'')"
    unfolding hasPrefix_app by (simp_all add: hasPrefix_def)
  ultimately show ?thesis by (simp add: routeOf_def actionOf_def [of "base @ ''apiv2/''"] Let_def)
qed

lemma routeOf_outside:
  assumes "\<not> hasPrefix path base" shows "routeOf base path = NoRoute"
proof -
  have "\<not> hasPrefix path (base @ q)" for q using assms hasPrefix_trans by blast
  then show ?thesis by (simp add: routeOf_def actionOf_def Let_def)
qed

text \<open>
  The redirect of a request without a session leads nowhere: it goes to \<open>/login\<close> whatever the path the panel is served under, so
  unless that is the root the browser is sent to an address at which the same server has nothing but the status 404.
\<close>

lemma login_redirect_lost:
  assumes "GetWebPath e0 w0 = (Inr (en_base eng), w1)" "en_base eng \<noteq> ''/''" "en_base eng \<noteq> ''/login/''" "en_domain eng = []"
    and "rq_session rq = []" "rq_header rq ''X-Requested-With'' \<noteq> ''XMLHttpRequest''" "rq_path rq = en_base eng @ ''api/'' @ a"
    and "a \<noteq> []" "CHR ''/'' \<notin> set a" "\<not> hasSuffix a ''login''" "\<not> hasSuffix a ''logout''"
  shows "panelRequest eng we post rq toks e w =
      (Inr (Answered \<lparr>rs_reply = Redirect ''/login'', rs_session = KeepSession, rs_tokens = toks\<rparr>), w) \<and>
    panelRequest eng we False (rq\<lparr>rq_path := ''/login''\<rparr>) toks e w = (Inr (Shown (PageText 404 [])), w)"
proof -
  let ?b = "en_base eng"
  obtain x where "?b = normPath x" using assms(1) unfolding GetWebPath_def bindA_Inr by (auto dest: sym)
  then have norm: "hasPrefix ?b ''/''" "hasSuffix ?b ''/''" using normPath_slashes [of x] by simp_all
  then obtain q where q: "?b = q @ ''/''" "q \<noteq> []" using assms(2) by (auto simp: hasSuffix_char)
  have out: "\<not> hasPrefix ''/login'' ?b"
  proof
    assume "hasPrefix ''/login'' ?b"
    then have t: "?b = take (length ?b) ''/login''" by (simp add: hasPrefix_def)
    from arg_cong [OF this, of length] have "length ?b \<le> 6" by simp
    with t have "?b = take (length ?b) ''/login''" "length ?b \<le> 6" by simp_all
    then have "?b \<in> (\<lambda>n. take n ''/login'') ` {..6}" by blast
    also have "\<dots> = {[], ''/'', ''/l'', ''/lo'', ''/log'', ''/logi'', ''/login''}" by (auto simp: atMost_Suc numeral_nat)
    finally show False using norm(2) assms(2) by (auto simp: hasSuffix_def)
  qed
  have "\<not> hasSuffix (rq_path rq) t" if "\<not> hasSuffix a t" "CHR ''/'' \<notin> set t" for t
    using route_suffix [of "?b @ ''api''" a t] that assms(7) by auto
  then have "\<not> hasSuffix (rq_path rq) ''login''" "\<not> hasSuffix (rq_path rq) ''logout''" using assms(10,11) by simp_all
  then have 1: "panelRequest eng we post rq toks e w =
      (Inr (Answered \<lparr>rs_reply = Redirect ''/login'', rs_session = KeepSession, rs_tokens = toks\<rparr>), w)"
    using assms(4-6) routeOf_api [OF assms(8,9), of ?b] assms(7)
    by (simp add: panelRequest_def webRequest_def keepBoth_def bindA_def checkLogin_def)
  have "butlast ?b \<noteq> ''/login''" using q assms(3) by auto
  then have "noRoute ?b ''/login'' b = PageText 404 []" for b using out norm(2) by (simp add: noRoute_def)
  then show ?thesis using 1 assms(4) routeOf_outside [OF out] by (simp add: panelRequest_def)
qed

text \<open>A panel served under \<open>/app/\<close>, asked for the clients by a browser without a session.\<close>

definition appEngine :: engine where
  "appEngine = \<lparr>en_base = ''/app/'', en_domain = [], en_secret = ''s3cret''\<rparr>"

definition strayRequest :: request where
  "strayRequest = \<lparr>rq_path = ''/app/api/clients'', rq_action = [], rq_form = (\<lambda>_. []), rq_query = (\<lambda>_. []), rq_header = (\<lambda>_. []),
     rq_host = ''panel'', rq_remote = ''10.0.0.1:9'', rq_session = [], rq_upload = None\<rparr>"

theorem login_redirect_lost_witness:
  "panelRequest appEngine quietWeb False strayRequest [] settingsEnv settingsWorld =
     (Inr (Answered \<lparr>rs_reply = Redirect ''/login'', rs_session = KeepSession, rs_tokens = []\<rparr>), settingsWorld) \<and>
   panelRequest appEngine quietWeb False (strayRequest\<lparr>rq_path := ''/login''\<rparr>) [] settingsEnv settingsWorld =
     (Inr (Shown (PageText 404 [])), settingsWorld)"
proof -
  have m: "map_of (defaultValueMap settingsEnv) ''webPath'' = Some ''/app/''" by (simp add: defaultValueMap_def)
  have "getString ''webPath'' settingsEnv settingsWorld = (Inr ''/app/'', settingsWorld\<lparr>w_stmt := Suc (w_stmt settingsWorld)\<rparr>)"
    by (rule getString_default [OF _ _ m]) (simp_all add: settingsEnv_def settingsWorld_def settingOf_def)
  then have "GetWebPath settingsEnv settingsWorld = (Inr (en_base appEngine), settingsWorld\<lparr>w_stmt := Suc (w_stmt settingsWorld)\<rparr>)"
    by (simp add: GetWebPath_def appEngine_def normPath_def hasPrefix_def hasSuffix_def)
  then show ?thesis
    by (rule login_redirect_lost [where a = "''clients''"]) (simp_all add: appEngine_def strayRequest_def hasSuffix_def)
qed

text \<open>C5
  Access to the web server as a whole: whatever a request asks for, apart from the replacement of the database, it is a run of the panel made of
  the events its form names, and what may happen depends on what it carries.  Under the path of the page's interface, anything but reads and a login
  needs a session; under the path of the token interface everything needs a token the panel holds and that has not expired; every other path changes
  nothing, and neither does any request for a host other than the configured one.
\<close>

theorem panel_request_is_run:
  assumes "panelRequest eng we post rq toks e w = (r, w')" "newid_ok (e_newid e)"
    and "\<forall>a. routeOf (en_base eng) (rq_path rq) \<in> {ApiV1 a, ApiV2 a} \<longrightarrow> a \<noteq> ''importdb''"
  shows "(en_domain eng \<noteq> [] \<and> \<not> DomainValidator (en_domain eng) (rq_host rq) \<longrightarrow> r = Inr Forbidden \<and> w' = w) \<and>
    (case routeOf (en_base eng) (rq_path rq) of
       ApiV1 a \<Rightarrow> reaches (\<lambda>ev. permits post (rq\<lparr>rq_action := a\<rparr>) ev \<and> (rq_session rq \<noteq> [] \<or> ev \<in> {Queried, LoggedIn})) w w'
     | ApiV2 a \<Rightarrow> reaches (\<lambda>ev. permits post (rq\<lparr>rq_action := a\<rparr>) ev \<and>
           (\<exists>t \<in> set toks. mt_token t = rq_header rq ''Token'' \<and> \<not> expired (e_now e) t)) w w'
     | _ \<Rightarrow> w' = w)"
proof (cases "en_domain eng \<noteq> [] \<and> \<not> DomainValidator (en_domain eng) (rq_host rq)")
  case True
  then show ?thesis using assms(1) by (auto simp: panelRequest_def reaches.start split: route.split)
next
  case False
  show ?thesis
  proof (cases "routeOf (en_base eng) (rq_path rq)")
    case (ApiV1 a)
    obtain r1 where "webRequest we post (rq\<lparr>rq_action := a\<rparr>) toks e w = (r1, w')"
      using assms(1) False ApiV1 by (auto simp: panelRequest_def bindA_def split: prod.splits sum.splits)
    moreover have "rq_path rq = (en_base eng @ ''api'') @ ''/'' @ a"
      using ApiV1 by (auto simp: routeOf_def split: if_splits option.splits dest!: actionOf_Some)
    ultimately show ?thesis using web_run [of we post "rq\<lparr>rq_action := a\<rparr>" toks e w r1 w' "en_base eng @ ''api''"] assms(2,3) ApiV1 False by auto
  next
    case (ApiV2 a)
    obtain r1 where "tokenRequest we post (rq\<lparr>rq_action := a\<rparr>) toks e w = (r1, w')"
      using assms(1) False ApiV2 by (auto simp: panelRequest_def bindA_def split: prod.splits sum.splits)
    from token_run [OF this assms(2)] assms(3) ApiV2 False
    have t: "reaches (permits post (rq\<lparr>rq_action := a\<rparr>)) w w'"
      "w' \<noteq> w \<Longrightarrow> \<exists>t \<in> set toks. mt_token t = rq_header rq ''Token'' \<and> \<not> expired (e_now e) t" by auto
    have "reaches (\<lambda>ev. permits post (rq\<lparr>rq_action := a\<rparr>) ev \<and>
           (\<exists>t \<in> set toks. mt_token t = rq_header rq ''Token'' \<and> \<not> expired (e_now e) t)) w w'"
    proof (cases "w' = w")
      case False
      with t show ?thesis by simp
    qed (simp add: reaches.start)
    then show ?thesis using ApiV2 False by auto
  qed (use assms(1) False in \<open>auto simp: panelRequest_def\<close>)
qed

theorem panel_request_is_run_witness:
  "\<exists>w'. panelRequest appEngine quietWeb True (renameRequest ''admin'') [] quietEnv adminWorld =
       (Inr (Answered \<lparr>rs_reply = jsonMsg ''save'' None, rs_session = KeepSession, rs_tokens = []\<rparr>), w') \<and>
     map u_username (db_users (w_db w')) = [''root''] \<and>
     reaches (\<lambda>ev. permits True (renameRequest ''admin'') ev) adminWorld w'"
proof -
  let ?rq = "renameRequest ''admin''"
  obtain w' where w: "webRequest quietWeb True ?rq [] quietEnv adminWorld =
      (Inr \<lparr>rs_reply = jsonMsg ''save'' None, rs_session = KeepSession, rs_tokens = []\<rparr>, w')" "map u_username (db_users (w_db w')) = [''root'']"
    by (rule exE [OF web_run_example], elim conjE, rule that)
  have a: "rq_path ?rq = en_base appEngine @ ''api/'' @ ''changePass''" "?rq\<lparr>rq_action := ''changePass''\<rparr> = ?rq" "rq_session ?rq = ''admin''"
    by (simp_all add: renameRequest_def appEngine_def)
  have r: "routeOf (en_base appEngine) (rq_path ?rq) = ApiV1 ''changePass''" unfolding a(1) by (rule routeOf_api) simp_all
  have "en_domain appEngine = []" by (simp add: appEngine_def)
  then have p: "panelRequest appEngine quietWeb True ?rq [] quietEnv adminWorld =
      (Inr (Answered \<lparr>rs_reply = jsonMsg ''save'' None, rs_session = KeepSession, rs_tokens = []\<rparr>), w')"
    using w(1) r a(2) by (simp add: panelRequest_def bindA_def)
  have n: "\<forall>b. routeOf (en_base appEngine) (rq_path ?rq) \<in> {ApiV1 b, ApiV2 b} \<longrightarrow> b \<noteq> ''importdb''" unfolding r by simp
  have "reaches (\<lambda>ev. permits True ?rq ev \<and> (rq_session ?rq \<noteq> [] \<or> ev \<in> {Queried, LoggedIn})) adminWorld w'"
    using panel_request_is_run [OF p quiet_newid n] unfolding r route.case a(2) by (rule conjunct2)
  then have "reaches (\<lambda>ev. permits True ?rq ev) adminWorld w'" unfolding a(3) by simp
  with p w(2) show ?thesis by (intro exI [of _ w'] conjI)
qed

end
