(* ===== verification/Box.thy ===== *)
theory Box
  imports World
begin

text \<open>
  \<open>core/box.go\<close> and \<open>core/main.go\<close>: building, starting and closing the instance of sing-box that the core runs.
  What the library does is a parameter: whether it can construct a part, what the calls that start a group of parts
  answer, and how the closing of a part ends, which may be a panic.  A box remembers the calls made to its parts.
\<close>

section \<open>Parts and calls\<close>

datatype part = NetworkMgr | DnsTransportMgr | DnsRouterPart | ConnectionMgr | RouterPart | OutboundMgr | InboundMgr | EndpointMgr | ServiceMgr
  | InternalService string

datatype stage = StageInitialize | StageStart | StagePostStart | StageStarted

datatype boxcall = StartLogger | StartParts stage "part list" | ClosePart part | CloseLogger | ResetTrackers

datatype closing = CloseOk | CloseErr string | ClosePanic string

record boxitem =
  bi_tag :: string
  bi_type :: string
  bi_options :: raw

record boxlib =
  bl_registries :: "string list"
  bl_step :: "string \<Rightarrow> string option"
  bl_create :: "string \<Rightarrow> string \<Rightarrow> boxitem \<Rightarrow> string option"
  bl_v2stats :: bool
  bl_platform :: bool
  bl_android :: bool
  bl_logger :: "string option"
  bl_start :: "stage \<Rightarrow> part list \<Rightarrow> string option"
  bl_close :: "part \<Rightarrow> closing"
  bl_closeLogger :: closing

record boxoptions =
  bo_certStore :: string
  bo_certs :: "string list"
  bo_certPaths :: "string list"
  bo_certDirs :: "string list"
  bo_dnsServers :: "boxitem list"
  bo_endpoints :: "boxitem list"
  bo_inbounds :: "boxitem list"
  bo_outbounds :: "boxitem list"
  bo_services :: "boxitem list"
  bo_cacheFile :: "bool option"
  bo_clashApi :: bool
  bo_v2rayListen :: "string option"
  bo_ntp :: bool

record box =
  bx_internal :: "part list"
  bx_dnsServers :: "string list"
  bx_endpoints :: "string list"
  bx_inbounds :: "string list"
  bx_outbounds :: "string list"
  bx_services :: "string list"
  bx_trackers :: "string list"
  bx_done :: bool
  bx_calls :: "boxcall list"

section \<open>Building a box\<close>

text \<open>\<open>NewError\<close> joins the words with spaces and ends the line.\<close>

definition newError :: "string list \<Rightarrow> goerr" where
  "newError ws = Err (joinStr '' '' ws @ [CHR 0x0A])"

definition checkRegistries :: "boxlib \<Rightarrow> unit res" where
  "checkRegistries lib = (case filter (\<lambda>r. r \<notin> set (bl_registries lib)) [''endpoint'', ''inbound'', ''outbound'', ''DNS transport'', ''service''] of
       [] \<Rightarrow> Inr () | r # _ \<Rightarrow> Inl (newError [''missing '' @ r @ '' registry in context'']))"

text \<open>A call of the library that may fail; \<open>wrap\<close> says how the error is worded.\<close>

definition orError :: "(string \<Rightarrow> goerr) \<Rightarrow> string option \<Rightarrow> unit res" where
  "orError wrap r = (case r of None \<Rightarrow> Inr () | Some m \<Rightarrow> Inl (wrap m))"

definition needCacheFile :: "boxoptions \<Rightarrow> bool" where
  "needCacheFile opt \<longleftrightarrow> bo_cacheFile opt = Some True"

definition needV2RayAPI :: "boxoptions \<Rightarrow> bool" where
  "needV2RayAPI opt \<longleftrightarrow> bo_v2rayListen opt \<notin> {None, Some []}"

definition needCertificateStore :: "boxlib \<Rightarrow> boxoptions \<Rightarrow> bool" where
  "needCertificateStore lib opt \<longleftrightarrow> bl_android lib \<or> bo_certStore opt \<noteq> [] \<and> bo_certStore opt \<noteq> ''system'' \<or>
     bo_certs opt \<noteq> [] \<or> bo_certPaths opt \<noteq> [] \<or> bo_certDirs opt \<noteq> []"

text \<open>A part without a tag is given its index.\<close>

definition itemTag :: "nat \<Rightarrow> boxitem \<Rightarrow> string" where
  "itemTag i x = (if bi_tag x \<noteq> [] then bi_tag x else itoa (int i))"

definition createItem :: "boxlib \<Rightarrow> string \<Rightarrow> (nat \<Rightarrow> string \<Rightarrow> string \<Rightarrow> goerr) \<Rightarrow> nat \<times> boxitem \<Rightarrow> string res" where
  "createItem lib kind wrap ix = (case ix of (i, x) \<Rightarrow> let tag = itemTag i x in
     bindR (orError (wrap i tag) (bl_create lib kind tag x)) (\<lambda>_. Inr tag))"

definition createDnsServers :: "boxlib \<Rightarrow> boxoptions \<Rightarrow> string list res" where
  "createDnsServers lib opt = mapR (createItem lib ''dns'' (\<lambda>i tag m. newError [''initialize DNS server['', itoa (int i), '']'', m]))
     (enumerate 0 (bo_dnsServers opt))"

definition createEndpoints :: "boxlib \<Rightarrow> boxoptions \<Rightarrow> string list res" where
  "createEndpoints lib opt = mapR (createItem lib ''endpoint'' (\<lambda>i tag m. newError [''initialize endpoint['' @ itoa (int i) @ ''] '' @ tag, m]))
     (enumerate 0 (bo_endpoints opt))"

definition createInbounds :: "boxlib \<Rightarrow> boxoptions \<Rightarrow> string list res" where
  "createInbounds lib opt = mapR (createItem lib ''inbound'' (\<lambda>i tag m. newError [''initialize inbound['', itoa (int i), ''] '', tag, m]))
     (enumerate 0 (bo_inbounds opt))"

definition createOutbounds :: "boxlib \<Rightarrow> boxoptions \<Rightarrow> string list res" where
  "createOutbounds lib opt = mapR (createItem lib ''outbound'' (\<lambda>i tag m. newError [''initialize outbound['' @ itoa (int i) @ ''] '' @ tag, m]))
     (enumerate 0 (bo_outbounds opt))"

definition createServices :: "boxlib \<Rightarrow> boxoptions \<Rightarrow> string list res" where
  "createServices lib opt = mapR (createItem lib ''service'' (\<lambda>i tag m. newError [''initialize service['' @ itoa (int i) @ '']'' @ tag, m]))
     (enumerate 0 (bo_services opt))"

text \<open>The services of the box itself and the trackers of the router, in the order they are added.\<close>

definition extraServices :: "boxlib \<Rightarrow> boxoptions \<Rightarrow> (string list \<times> string list) res" where
  "extraServices lib opt =
     bindR (Inr (if needCacheFile opt then [''cache-file''] else [], [''stats'', ''conn''])) (\<lambda>(s1, t1).
     bindR (if bo_clashApi opt then bindR (orError (\<lambda>m. newError [m, ''create clash-server'']) (bl_step lib ''create clash-server'')) (\<lambda>_. Inr (s1 @ [''clash-api''], t1 @ [''clash-api''])) else Inr (s1, t1)) (\<lambda>(s2, t2).
     bindR (if needV2RayAPI opt then bindR (orError (\<lambda>m. newError [m, ''create v2ray-server'']) (bl_step lib ''create v2ray-server'')) (\<lambda>_.
         if bl_v2stats lib then Inr (s2 @ [''v2ray-api''], t2 @ [''v2ray-api'']) else Inr (s2, t2)) else Inr (s2, t2)) (\<lambda>(s3, t3).
     if bo_ntp opt then bindR (orError (\<lambda>m. newError [m, ''create NTP service'']) (bl_step lib ''create NTP service'')) (\<lambda>_. Inr (s3 @ [''ntp service''], t3)) else Inr (s3, t3))))"

definition NewBox :: "boxlib \<Rightarrow> boxoptions \<Rightarrow> box res" where
  "NewBox lib opt =
     bindR (checkRegistries lib) (\<lambda>_.
     bindR (orError (\<lambda>m. newError [''create log factory'', m]) (bl_step lib ''create log factory'')) (\<lambda>_.
     bindR (if needCertificateStore lib opt then bindR (orError Err (bl_step lib ''certificate'')) (\<lambda>_. Inr [''certificate'']) else Inr []) (\<lambda>certs.
     bindR (orError (\<lambda>m. newError [''initialize network manager'', m]) (bl_step lib ''initialize network manager'')) (\<lambda>_.
     bindR (orError (\<lambda>m. newError [''initialize router'', m]) (bl_step lib ''initialize router'')) (\<lambda>_.
     bindR (createDnsServers lib opt) (\<lambda>ds.
     bindR (orError (\<lambda>m. newError [''initialize dns router'', m]) (bl_step lib ''initialize dns router'')) (\<lambda>_.
     bindR (createEndpoints lib opt) (\<lambda>es.
     bindR (createInbounds lib opt) (\<lambda>is.
     bindR (createOutbounds lib opt) (\<lambda>os.
     bindR (createServices lib opt) (\<lambda>ss.
     bindR (if bl_platform lib then orError (\<lambda>m. newError [''initialize platform interface'', m]) (bl_step lib ''initialize platform interface'') else Inr ()) (\<lambda>_.
     bindR (extraServices lib opt) (\<lambda>(extra, trackers).
       Inr \<lparr>bx_internal = map InternalService (certs @ extra), bx_dnsServers = ds, bx_endpoints = es, bx_inbounds = is, bx_outbounds = os,
         bx_services = ss, bx_trackers = trackers, bx_done = False, bx_calls = []\<rparr>)))))))))))))"

section \<open>Starting\<close>

type_synonym 'a boxact = "box \<Rightarrow> 'a res \<times> box"

definition thenX :: "unit boxact \<Rightarrow> unit boxact \<Rightarrow> unit boxact" where
  "thenX a b = (\<lambda>s. case a s of (Inl x, s') \<Rightarrow> (Inl x, s') | (Inr _, s') \<Rightarrow> b s')"

definition startLogger :: "boxlib \<Rightarrow> unit boxact" where
  "startLogger lib = (\<lambda>s. (orError (\<lambda>m. newError [m, ''start logger'']) (bl_logger lib), s\<lparr>bx_calls := bx_calls s @ [StartLogger]\<rparr>))"

definition startParts :: "boxlib \<Rightarrow> stage \<Rightarrow> (box \<Rightarrow> part list) \<Rightarrow> unit boxact" where
  "startParts lib st ps = (\<lambda>s. (orError Err (bl_start lib st (ps s)),
     s\<lparr>bx_calls := bx_calls s @ [StartParts st (ps s)]\<rparr>))"

definition preStart :: "boxlib \<Rightarrow> unit boxact" where
  "preStart lib =
     thenX (startLogger lib) (
     thenX (startParts lib StageInitialize bx_internal) (
     thenX (startParts lib StageInitialize (\<lambda>_. [NetworkMgr, DnsTransportMgr, DnsRouterPart, ConnectionMgr, RouterPart, OutboundMgr, InboundMgr,
       EndpointMgr, ServiceMgr]))
      (startParts lib StageStart (\<lambda>_. [OutboundMgr, DnsTransportMgr, DnsRouterPart, NetworkMgr, ConnectionMgr, RouterPart]))))"

definition startBox :: "boxlib \<Rightarrow> unit boxact" where
  "startBox lib =
     thenX (preStart lib) (
     thenX (startParts lib StageStart bx_internal) (
     thenX (startParts lib StageStart (\<lambda>_. [InboundMgr, EndpointMgr, ServiceMgr])) (
     thenX (startParts lib StagePostStart (\<lambda>_. [OutboundMgr, NetworkMgr, DnsTransportMgr, DnsRouterPart, ConnectionMgr, RouterPart, InboundMgr,
       EndpointMgr, ServiceMgr])) (
     thenX (startParts lib StagePostStart bx_internal) (
     thenX (startParts lib StageStarted (\<lambda>_. [NetworkMgr, DnsTransportMgr, DnsRouterPart, ConnectionMgr, RouterPart, OutboundMgr, InboundMgr,
       EndpointMgr, ServiceMgr]))
      (startParts lib StageStarted bx_internal))))))"

section \<open>Closing\<close>

definition partName :: "part \<Rightarrow> string" where
  "partName p = (case p of ServiceMgr \<Rightarrow> ''service'' | EndpointMgr \<Rightarrow> ''endpoint'' | InboundMgr \<Rightarrow> ''inbound'' | OutboundMgr \<Rightarrow> ''outbound''
     | RouterPart \<Rightarrow> ''router'' | ConnectionMgr \<Rightarrow> ''connection'' | DnsRouterPart \<Rightarrow> ''dns-router'' | DnsTransportMgr \<Rightarrow> ''dns-transport''
     | NetworkMgr \<Rightarrow> ''network'' | InternalService n \<Rightarrow> n)"

text \<open>What is closed, in this order.\<close>

definition boxParts :: "box \<Rightarrow> part list" where
  "boxParts b = [ServiceMgr, EndpointMgr, InboundMgr, OutboundMgr, RouterPart, ConnectionMgr, DnsRouterPart, DnsTransportMgr, NetworkMgr] @ bx_internal b"

text \<open>Errors are collected, a panic counts as one.\<close>

definition closeError :: "part \<Rightarrow> closing \<Rightarrow> string list" where
  "closeError p c = (case c of CloseOk \<Rightarrow> [] | CloseErr m \<Rightarrow> [m @ '' close '' @ partName p @ [CHR 0x0A]]
     | ClosePanic m \<Rightarrow> [''panic: '' @ m @ '' close '' @ partName p @ [CHR 0x0A]])"

definition closeParts :: "boxlib \<Rightarrow> part list \<Rightarrow> string list \<times> boxcall list" where
  "closeParts lib ps = (concat (map (\<lambda>p. closeError p (bl_close lib p)) ps), map ClosePart ps)"

definition joinErrors :: "string list \<Rightarrow> unit res" where
  "joinErrors ms = (if ms = [] then Inr () else Inl (Err (joinStr [CHR 0x0A] ms)))"

text \<open>Only a panic of the logger is not caught; the trackers are then not reset.\<close>

definition CloseBox :: "boxlib \<Rightarrow> unit boxact" where
  "CloseBox lib = (\<lambda>s. if bx_done s then (Inr (), s) else
     case closeParts lib (boxParts s) of (errs, calls) \<Rightarrow>
     let s1 = s\<lparr>bx_done := True, bx_calls := bx_calls s @ calls @ [CloseLogger]\<rparr>;
         s2 = s1\<lparr>bx_calls := bx_calls s1 @ [ResetTrackers]\<rparr>
     in (case bl_closeLogger lib of
         ClosePanic m \<Rightarrow> (Inl (Panic m), s1)
       | CloseErr m \<Rightarrow> (joinErrors (errs @ [m @ '' close logger'' @ [CHR 0x0A]]), s2)
       | CloseOk \<Rightarrow> (joinErrors errs, s2)))"

text \<open>\<open>PreStart\<close> and \<open>Start\<close>; the former closes the box when it fails.  It catches a panic of that, and since its result has no name
it then returns nil.\<close>

definition PreStart :: "boxlib \<Rightarrow> unit boxact" where
  "PreStart lib = (\<lambda>s. case preStart lib s of (Inl (Err m), s1) \<Rightarrow>
     (case CloseBox lib s1 of (Inl (Panic _), s2) \<Rightarrow> (Inr (), s2) | (_, s2) \<Rightarrow> (Inl (Err m), s2)) | r \<Rightarrow> r)"

definition StartBox :: "boxlib \<Rightarrow> unit boxact" where
  "StartBox lib = startBox lib"

section \<open>The core\<close>

record corebox =
  kc_running :: bool
  kc_instance :: "box option"
  kc_gone :: "box list"

definition NewCore :: corebox where
  "NewCore = \<lparr>kc_running = False, kc_instance = None, kc_gone = []\<rparr>"

text \<open>\<open>decode\<close> gives the options the decoder left; \<open>kc_gone\<close> keeps the boxes the core has let go of, for the statements below.\<close>

definition CoreStart :: "boxlib \<Rightarrow> (raw \<Rightarrow> boxoptions) \<Rightarrow> raw \<Rightarrow> corebox \<Rightarrow> unit res \<times> corebox" where
  "CoreStart lib decode conf c = (let old = (case kc_instance c of None \<Rightarrow> [] | Some b \<Rightarrow> [b]) in
     case NewBox lib (decode conf) of
       Inl x \<Rightarrow> (Inl x, c\<lparr>kc_instance := None, kc_gone := kc_gone c @ old\<rparr>)
     | Inr b \<Rightarrow> (case StartBox lib b of
          (Inl (Err m), b1) \<Rightarrow> (case CloseBox lib b1 of
              (Inl (Panic p), b2) \<Rightarrow> (Inl (Panic p), c\<lparr>kc_instance := Some b2, kc_gone := kc_gone c @ old\<rparr>)
            | (_, b2) \<Rightarrow> (Inl (Err m), c\<lparr>kc_instance := None, kc_gone := kc_gone c @ old @ [b2]\<rparr>))
        | (Inl (Panic p), b1) \<Rightarrow> (Inl (Panic p), c\<lparr>kc_instance := Some b1, kc_gone := kc_gone c @ old\<rparr>)
        | (Inr _, b1) \<Rightarrow> (Inr (), c\<lparr>kc_running := True, kc_instance := Some b1, kc_gone := kc_gone c @ old\<rparr>)))"

definition CoreStop :: "boxlib \<Rightarrow> corebox \<Rightarrow> unit res \<times> corebox" where
  "CoreStop lib c = (let c1 = c\<lparr>kc_running := False\<rparr> in
     case kc_instance c of None \<Rightarrow> (Inr (), c1)
     | Some b \<Rightarrow> (case CloseBox lib b of
          (Inl (Panic p), b1) \<Rightarrow> (Inl (Panic p), c1\<lparr>kc_instance := Some b1\<rparr>)
        | (r, b1) \<Rightarrow> (r, c1\<lparr>kc_instance := None, kc_gone := kc_gone c @ [b1]\<rparr>)))"

section \<open>What is started is closed\<close>

fun isStart :: "boxcall \<Rightarrow> bool" where
  "isStart StartLogger = True"
| "isStart (StartParts st ps) = True"
| "isStart x = False"

text \<open>Actions that only make start calls, all of \<open>full\<close> when they succeed.\<close>

definition starts :: "unit boxact \<Rightarrow> (part list \<Rightarrow> boxcall list) \<Rightarrow> bool" where
  "starts a full \<longleftrightarrow> (\<forall>s r s'. a s = (r, s') \<longrightarrow> (\<exists>cs. s' = s\<lparr>bx_calls := bx_calls s @ cs\<rparr> \<and> (\<forall>c \<in> set cs. isStart c) \<and>
     (r = Inr () \<longrightarrow> cs = full (bx_internal s)) \<and> (\<forall>x. r \<noteq> Inl (Panic x))))"

lemma starts_basic: "starts (startLogger lib) (\<lambda>i. [StartLogger])" "starts (startParts lib st (\<lambda>_. ps)) (\<lambda>i. [StartParts st ps])"
  "starts (startParts lib st bx_internal) (\<lambda>i. [StartParts st i])"
  by (auto simp: starts_def startLogger_def startParts_def orError_def newError_def intro!: exI [of _ "[_]"] split: option.splits)

lemma startsE:
  assumes "starts a f" "a s = (r, s')"
  obtains cs where "s' = s\<lparr>bx_calls := bx_calls s @ cs\<rparr>" "\<forall>c \<in> set cs. isStart c" "r = Inr () \<longrightarrow> cs = f (bx_internal s)"
    "\<forall>x. r \<noteq> Inl (Panic x)"
proof -
  have "\<exists>cs. s' = s\<lparr>bx_calls := bx_calls s @ cs\<rparr> \<and> (\<forall>c \<in> set cs. isStart c) \<and> (r = Inr () \<longrightarrow> cs = f (bx_internal s)) \<and> (\<forall>x. r \<noteq> Inl (Panic x))"
    using assms(1) [unfolded starts_def, rule_format, OF assms(2)] .
  then show thesis by (elim exE conjE) (rule that)
qed

lemma starts_then:
  assumes "starts a f" "starts b g" shows "starts (thenX a b) (\<lambda>i. f i @ g i)"
  unfolding starts_def
proof (intro allI impI)
  fix s r s' assume r: "thenX a b s = (r, s')"
  obtain r1 s1 where 1: "a s = (r1, s1)" by fastforce
  obtain cs where cs: "s1 = s\<lparr>bx_calls := bx_calls s @ cs\<rparr>" "\<forall>c \<in> set cs. isStart c" "r1 = Inr () \<longrightarrow> cs = f (bx_internal s)"
    "\<forall>x. r1 \<noteq> Inl (Panic x)" by (rule startsE [OF assms(1) 1])
  show "\<exists>cs. s' = s\<lparr>bx_calls := bx_calls s @ cs\<rparr> \<and> (\<forall>c \<in> set cs. isStart c) \<and>
     (r = Inr () \<longrightarrow> cs = f (bx_internal s) @ g (bx_internal s)) \<and> (\<forall>x. r \<noteq> Inl (Panic x))"
  proof (cases r1)
    case (Inl x)
    with r 1 have "r = Inl x" "s' = s1" by (simp_all add: thenX_def)
    with cs Inl show ?thesis by auto
  next
    case (Inr u)
    then have 2: "b s1 = (r, s')" using r 1 by (simp add: thenX_def)
    obtain ds where ds: "s' = s1\<lparr>bx_calls := bx_calls s1 @ ds\<rparr>" "\<forall>c \<in> set ds. isStart c" "r = Inr () \<longrightarrow> ds = g (bx_internal s1)"
      "\<forall>x. r \<noteq> Inl (Panic x)" by (rule startsE [OF assms(2) 2])
    show ?thesis using cs ds Inr by (intro exI [of _ "cs @ ds"]) auto
  qed
qed

definition allStarts :: "part list \<Rightarrow> boxcall list" where
  "allStarts i = [StartLogger, StartParts StageInitialize i,
     StartParts StageInitialize [NetworkMgr, DnsTransportMgr, DnsRouterPart, ConnectionMgr, RouterPart, OutboundMgr, InboundMgr, EndpointMgr, ServiceMgr],
     StartParts StageStart [OutboundMgr, DnsTransportMgr, DnsRouterPart, NetworkMgr, ConnectionMgr, RouterPart],
     StartParts StageStart i, StartParts StageStart [InboundMgr, EndpointMgr, ServiceMgr],
     StartParts StagePostStart [OutboundMgr, NetworkMgr, DnsTransportMgr, DnsRouterPart, ConnectionMgr, RouterPart, InboundMgr, EndpointMgr, ServiceMgr],
     StartParts StagePostStart i,
     StartParts StageStarted [NetworkMgr, DnsTransportMgr, DnsRouterPart, ConnectionMgr, RouterPart, OutboundMgr, InboundMgr, EndpointMgr, ServiceMgr],
     StartParts StageStarted i]"

lemma starts_cong: "starts a f \<Longrightarrow> (\<And>i. f i = g i) \<Longrightarrow> starts a g"
  by (simp add: starts_def)

lemma starts_box: "starts (StartBox lib) allStarts"
  unfolding StartBox_def startBox_def preStart_def allStarts_def
  by (rule starts_cong, (rule starts_then starts_basic)+, simp)

text \<open>The stages a part has been taken through.\<close>

definition stagesOf :: "part \<Rightarrow> boxcall list \<Rightarrow> stage list" where
  "stagesOf p cs = concat (map (\<lambda>c. case c of StartParts st ps \<Rightarrow> if p \<in> set ps then [st] else [] | _ \<Rightarrow> []) cs)"

lemma allStarts_stages:
  "p \<in> set (boxParts b) \<Longrightarrow> stagesOf p (allStarts (bx_internal b)) = [StageInitialize, StageStart, StagePostStart, StageStarted]" if "\<forall>p \<in> set (bx_internal b). \<exists>n. p = InternalService n"
  using that by (auto simp: boxParts_def stagesOf_def allStarts_def)

definition closedProperly :: "box \<Rightarrow> bool" where
  "closedProperly b \<longleftrightarrow> (\<exists>cs. (\<forall>c \<in> set cs. isStart c) \<and> bx_calls b = cs @ map ClosePart (boxParts b) @ [CloseLogger, ResetTrackers])"

definition startedFully :: "box \<Rightarrow> bool" where
  "startedFully b \<longleftrightarrow> \<not> bx_done b \<and> bx_calls b = allStarts (bx_internal b)"

lemma NewBox_fresh:
  assumes "NewBox lib opt = Inr b"
  shows "\<not> bx_done b \<and> bx_calls b = [] \<and> distinct (boxParts b) \<and> (\<forall>p \<in> set (bx_internal b). \<exists>n. p = InternalService n)"
proof -
  obtain ss ts where e: "extraServices lib opt = Inr (ss, ts)" and b: "\<not> bx_done b" "bx_calls b = []"
    "bx_internal b = map InternalService ((if needCertificateStore lib opt then [''certificate''] else []) @ ss)"
    using assms unfolding NewBox_def bindR_eq_Inr by (auto split: if_splits simp: bindR_eq_Inr)
  have "distinct ss" "''certificate'' \<notin> set ss"
    using e unfolding extraServices_def bindR_eq_Inr by (auto split: if_splits simp: bindR_eq_Inr)
  then have "distinct (bx_internal b)" unfolding b(3) by (auto simp: distinct_map inj_on_def)
  then show ?thesis using b by (auto simp: boxParts_def)
qed

lemma joinErrors_no_panic: "joinErrors ms \<noteq> Inl (Panic x)"
  by (simp add: joinErrors_def)

lemma CloseBox_closes:
  assumes "CloseBox lib s = (r, s')" "\<not> bx_done s" "\<forall>c \<in> set (bx_calls s). isStart c" "\<And>m. bl_closeLogger lib \<noteq> ClosePanic m"
  shows "closedProperly s' \<and> bx_internal s' = bx_internal s \<and> bx_done s' \<and> (\<forall>x. r \<noteq> Inl (Panic x))"
proof -
  obtain errs where p: "closeParts lib (boxParts s) = (errs, map ClosePart (boxParts s))" by (simp add: closeParts_def)
  have s': "s' = s\<lparr>bx_done := True, bx_calls := bx_calls s @ map ClosePart (boxParts s) @ [CloseLogger, ResetTrackers]\<rparr> \<and> (\<exists>ms. r = joinErrors ms)"
    using assms(1,2,4) p by (cases "bl_closeLogger lib") (auto simp: CloseBox_def)
  then show ?thesis using assms(3) joinErrors_no_panic by (auto simp: closedProperly_def boxParts_def)
qed

text \<open>A sequence of starts and stops; like \<open>StartCore\<close>, a start does nothing while the core runs.\<close>

datatype coreop = OpStart boxlib "raw \<Rightarrow> boxoptions" raw | OpStop boxlib

fun coreStep :: "coreop \<Rightarrow> corebox \<Rightarrow> unit res \<times> corebox" where
  "coreStep (OpStart lib decode conf) c = (if kc_running c then (Inr (), c) else CoreStart lib decode conf c)"
| "coreStep (OpStop lib) c = CoreStop lib c"

fun opLib :: "coreop \<Rightarrow> boxlib" where
  "opLib (OpStart lib decode conf) = lib"
| "opLib (OpStop lib) = lib"

definition coreWf :: "corebox \<Rightarrow> bool" where
  "coreWf c \<longleftrightarrow> (\<forall>b \<in> set (kc_gone c). closedProperly b \<and> distinct (boxParts b)) \<and> (case kc_instance c of None \<Rightarrow> \<not> kc_running c
     | Some b \<Rightarrow> kc_running c \<and> startedFully b \<and> distinct (boxParts b) \<and> (\<forall>p \<in> set (bx_internal b). \<exists>n. p = InternalService n))"

lemma boxParts_cong: "bx_internal b = bx_internal b' \<Longrightarrow> boxParts b = boxParts b'"
  by (simp add: boxParts_def)

lemma coreStart_wf:
  assumes "CoreStart lib decode conf c = (r, c')" "coreWf c" "\<not> kc_running c" "\<And>m. bl_closeLogger lib \<noteq> ClosePanic m"
  shows "coreWf c' \<and> (r = Inr () \<longleftrightarrow> kc_running c')"
proof -
  have none: "kc_instance c = None" using assms(2,3) by (auto simp: coreWf_def split: option.splits)
  show ?thesis
  proof (cases "NewBox lib (decode conf)")
    case (Inl x)
    then show ?thesis using assms(1-3) none by (auto simp: CoreStart_def coreWf_def)
  next
    case (Inr b)
    note f = NewBox_fresh [OF Inr]
    obtain r1 b1 where 1: "StartBox lib b = (r1, b1)" by fastforce
    obtain cs where cs0: "b1 = b\<lparr>bx_calls := bx_calls b @ cs\<rparr>" and cs1: "\<forall>c \<in> set cs. isStart c" "r1 = Inr () \<longrightarrow> cs = allStarts (bx_internal b)"
      "\<forall>x. r1 \<noteq> Inl (Panic x)" by (rule startsE [OF starts_box 1])
    have cs: "b1 = b\<lparr>bx_calls := cs\<rparr>" "\<forall>c \<in> set cs. isStart c" "r1 = Inr () \<longrightarrow> cs = allStarts (bx_internal b)"
      "\<forall>x. r1 \<noteq> Inl (Panic x)" using cs0 cs1 f by simp_all
    show ?thesis
    proof (cases r1)
      case (Inr u)
      then have "c' = c\<lparr>kc_running := True, kc_instance := Some b1\<rparr>" "r = Inr ()"
        using assms(1) \<open>NewBox lib (decode conf) = Inr b\<close> 1 none by (auto simp: CoreStart_def)
      then show ?thesis using assms(2) cs f Inr boxParts_cong [of b1 b] by (auto simp: coreWf_def startedFully_def none)
    next
      case (Inl x)
      then obtain m where m: "r1 = Inl (Err m)" using cs(4) by (cases x) auto
      obtain r2 b2 where 2: "CloseBox lib b1 = (r2, b2)" by fastforce
      have k: "closedProperly b2 \<and> bx_internal b2 = bx_internal b1 \<and> (\<forall>x. r2 \<noteq> Inl (Panic x))"
        using CloseBox_closes [OF 2] cs f assms(4) by simp
      have "c' = c\<lparr>kc_instance := None, kc_gone := kc_gone c @ [b2]\<rparr> \<and> r = Inl (Err m)"
        using assms(1) \<open>NewBox lib (decode conf) = Inr b\<close> 1 2 m k none by (auto simp: CoreStart_def split: sum.splits goerr.splits)
      then show ?thesis using assms(2,3) k cs f boxParts_cong [of b2 b] by (auto simp: coreWf_def)
    qed
  qed
qed

lemma coreStop_wf:
  assumes "CoreStop lib c = (r, c')" "coreWf c" "\<And>m. bl_closeLogger lib \<noteq> ClosePanic m"
  shows "coreWf c' \<and> \<not> kc_running c'"
proof (cases "kc_instance c")
  case None
  then show ?thesis using assms(1,2) by (auto simp: CoreStop_def coreWf_def Let_def)
next
  case (Some b)
  have sb: "\<not> bx_done b" "\<forall>c \<in> set (bx_calls b). isStart c" "distinct (boxParts b)"
    using assms(2) Some by (auto simp: coreWf_def startedFully_def allStarts_def)
  obtain r1 b1 where 1: "CloseBox lib b = (r1, b1)" by fastforce
  note k = CloseBox_closes [OF 1 sb(1,2) assms(3)]
  then have "c' = c\<lparr>kc_running := False, kc_instance := None, kc_gone := kc_gone c @ [b1]\<rparr>"
    using assms(1) Some 1 by (auto simp: CoreStop_def Let_def split: sum.splits goerr.splits)
  then show ?thesis using assms(2) Some k sb(3) boxParts_cong [of b1 b] by (auto simp: coreWf_def)
qed

fun coreRun :: "coreop list \<Rightarrow> corebox \<Rightarrow> corebox" where
  "coreRun [] c = c"
| "coreRun (op # ops) c = coreRun ops (snd (coreStep op c))"

lemma coreStep_wf:
  assumes "coreWf c" "\<And>m. bl_closeLogger (opLib op) \<noteq> ClosePanic m"
  shows "coreWf (snd (coreStep op c))"
proof (cases op)
  case (OpStart lib decode conf)
  obtain r c' where 1: "CoreStart lib decode conf c = (r, c')" by fastforce
  show ?thesis using assms coreStart_wf [OF 1 assms(1)] by (simp add: OpStart 1)
next
  case (OpStop lib)
  obtain r c' where 1: "CoreStop lib c = (r, c')" by fastforce
  show ?thesis using assms coreStop_wf [OF 1 assms(1)] by (simp add: OpStop 1)
qed

lemma coreRun_wf:
  assumes "coreWf c" "\<forall>op \<in> set ops. \<forall>m. bl_closeLogger (opLib op) \<noteq> ClosePanic m"
  shows "coreWf (coreRun ops c)"
  using assms by (induction ops arbitrary: c) (simp_all add: coreStep_wf)

lemma NewCore_wf: "coreWf NewCore"
  by (simp add: coreWf_def NewCore_def)

text \<open>The state at which \<open>service/config.go\<close> looks: whether the core runs and whether it has an instance.\<close>

definition sameFlags :: "corebox \<Rightarrow> world \<Rightarrow> bool" where
  "sameFlags c w \<longleftrightarrow> co_running (w_core w) = kc_running c \<and> co_instance (w_core w) = (kc_instance c \<noteq> None)"

definition boots :: "boxlib \<Rightarrow> boxoptions \<Rightarrow> bool" where
  "boots lib opt = (case NewBox lib opt of Inl _ \<Rightarrow> False | Inr b \<Rightarrow> fst (StartBox lib b) = Inr ())"

lemma start_simulated:
  assumes "coreWf c" "\<not> kc_running c" "sameFlags c w" "\<And>m. bl_closeLogger lib \<noteq> ClosePanic m"
    "e_start e (e_decode e conf) = boots lib (decode conf)"
  shows "sameFlags (snd (CoreStart lib decode conf c)) (snd (coreStart conf e w)) \<and>
    (fst (CoreStart lib decode conf c) = Inr () \<longleftrightarrow> fst (coreStart conf e w) = Inr ())"
proof -
  obtain r c' where 1: "CoreStart lib decode conf c = (r, c')" by fastforce
  note wf = coreStart_wf [OF 1 assms(1,2,4)]
  have inst: "kc_instance c' \<noteq> None \<longleftrightarrow> kc_running c'" using wf by (auto simp: coreWf_def split: option.splits)
  have ok: "r = Inr () \<longleftrightarrow> boots lib (decode conf)"
    using 1 by (auto simp: CoreStart_def boots_def Let_def split: sum.splits prod.splits goerr.splits)
  show ?thesis using 1 wf inst ok assms(2,3,5) by (auto simp: coreStart_def sameFlags_def Let_def)
qed

lemma stop_simulated:
  assumes "coreWf c" "sameFlags c w" "\<And>m. bl_closeLogger lib \<noteq> ClosePanic m"
    "\<And>b. kc_instance c = Some b \<Longrightarrow> e_close e ''box'' \<longleftrightarrow> fst (CloseBox lib b) = Inr ()"
  shows "sameFlags (snd (CoreStop lib c)) (snd (coreStop e w)) \<and> (fst (CoreStop lib c) = Inr () \<longleftrightarrow> fst (coreStop e w) = Inr ())"
proof -
  obtain r c' where 1: "CoreStop lib c = (r, c')" by fastforce
  note wf = coreStop_wf [OF 1 assms(1,3)]
  have inst: "kc_instance c' = None" "\<not> kc_running c'" using wf by (auto simp: coreWf_def split: option.splits)
  have ok: "kc_instance c = Some b \<Longrightarrow> r = Inr () \<longleftrightarrow> fst (CloseBox lib b) = Inr ()" for b
    using 1 by (auto simp: CoreStop_def Let_def split: sum.splits prod.splits goerr.splits)
  have nil: "kc_instance c = None \<Longrightarrow> r = Inr ()" using 1 by (auto simp: CoreStop_def Let_def)
  show ?thesis
  proof (cases "kc_instance c")
    case None
    then show ?thesis using 1 inst nil assms(2) by (simp add: coreStop_def sameFlags_def Let_def)
  next
    case (Some b)
    then show ?thesis using 1 inst ok [OF Some] assms(2,4) by (simp add: coreStop_def sameFlags_def Let_def)
  qed
qed

section \<open>Properties\<close>

text \<open>C99 (invariant): however the core is started and stopped, and whatever sing-box refuses, it runs exactly when it holds an instance, that
  instance has had every part taken once through every stage in order and none closed, and every instance the core has let go of (stopped, or
  failed while starting) has closed all of its parts once, then the logger, and reset its trackers.  The closing of the logger must not panic:
  the code catches panics of the parts only.\<close>
theorem core_boxes_accounted:
  assumes "\<forall>op \<in> set ops. \<forall>m. bl_closeLogger (opLib op) \<noteq> ClosePanic m" and "c = coreRun ops NewCore"
  shows "(kc_running c \<longleftrightarrow> kc_instance c \<noteq> None) \<and>
    (\<forall>b \<in> set_option (kc_instance c). \<not> bx_done b \<and> (\<forall>p \<in> set (boxParts b). ClosePart p \<notin> set (bx_calls b) \<and>
       stagesOf p (bx_calls b) = [StageInitialize, StageStart, StagePostStart, StageStarted])) \<and>
    (\<forall>b \<in> set (kc_gone c). distinct (boxParts b) \<and>
       (\<exists>cs. (\<forall>x \<in> set cs. isStart x) \<and> bx_calls b = cs @ map ClosePart (boxParts b) @ [CloseLogger, ResetTrackers]))"
proof -
  have wf: "coreWf c" unfolding assms(2) by (rule coreRun_wf [OF NewCore_wf assms(1)])
  have inst: "\<not> bx_done b \<and> (\<forall>p \<in> set (boxParts b). ClosePart p \<notin> set (bx_calls b) \<and>
       stagesOf p (bx_calls b) = [StageInitialize, StageStart, StagePostStart, StageStarted])" if "kc_instance c = Some b" for b
    using wf that allStarts_stages [of b] by (auto simp: coreWf_def startedFully_def allStarts_def)
  show ?thesis using wf inst by (auto simp: coreWf_def closedProperly_def split: option.splits)
qed


definition boxLibOk :: boxlib where
  "boxLibOk = \<lparr>bl_registries = [''endpoint'', ''inbound'', ''outbound'', ''DNS transport'', ''service''], bl_step = (\<lambda>_. None),
     bl_create = (\<lambda>kind tag x. if bi_type x = ''bogus'' then Some ''unknown type'' else None), bl_v2stats = True, bl_platform = False,
     bl_android = False, bl_logger = None, bl_start = (\<lambda>st ps. if st = StageStart \<and> InternalService ''ntp service'' \<in> set ps then Some ''no time'' else None),
     bl_close = (\<lambda>p. if p = RouterPart then ClosePanic ''nil'' else CloseOk), bl_closeLogger = CloseOk\<rparr>"

definition boxOptionsEx :: "bool \<Rightarrow> boxoptions" where
  "boxOptionsEx ntp = \<lparr>bo_certStore = [], bo_certs = [], bo_certPaths = [], bo_certDirs = [], bo_dnsServers = [], bo_endpoints = [],
     bo_inbounds = [\<lparr>bi_tag = [], bi_type = ''hysteria2'', bi_options = RNil\<rparr>], bo_outbounds = [], bo_services = [], bo_cacheFile = Some True,
     bo_clashApi = False, bo_v2rayListen = Some [], bo_ntp = ntp\<rparr>"

lemma example_boots: "boots boxLibOk (boxOptionsEx False)" "\<not> boots boxLibOk (boxOptionsEx True)"
  by code_simp+

theorem core_boxes_accounted_witness:
  "\<exists>c. c = coreRun [OpStart boxLibOk (\<lambda>_. boxOptionsEx True) RNil, OpStart boxLibOk (\<lambda>_. boxOptionsEx False) RNil, OpStop boxLibOk,
      OpStart boxLibOk (\<lambda>_. boxOptionsEx False) RNil] NewCore \<and>
    length (kc_gone c) = 2 \<and> kc_running c \<and> (kc_running c \<longleftrightarrow> kc_instance c \<noteq> None)"
proof (intro exI conjI)
  let ?ops = "[OpStart boxLibOk (\<lambda>_. boxOptionsEx True) RNil, OpStart boxLibOk (\<lambda>_. boxOptionsEx False) RNil, OpStop boxLibOk,
      OpStart boxLibOk (\<lambda>_. boxOptionsEx False) RNil]"
  show "coreRun ?ops NewCore = coreRun ?ops NewCore" ..
  show "length (kc_gone (coreRun ?ops NewCore)) = 2" "kc_running (coreRun ?ops NewCore)" by code_simp+
  show "kc_running (coreRun ?ops NewCore) \<longleftrightarrow> kc_instance (coreRun ?ops NewCore) \<noteq> None"
    by (rule conjunct1 [OF core_boxes_accounted [OF _ HOL.refl]]) (simp add: boxLibOk_def)
qed


end
