(* ===== verification/CoreLife.thy ===== *)
theory CoreLife
  imports ApiLaws
begin

text \<open>
  The life of the core over every run of the panel (\<open>service/config.go\<close>, \<open>cronjob/checkCoreJob.go\<close>): only starting and stopping change
  whether it runs, it never runs without an instance, no start is left marked as in progress, and the watchdog brings
  it back.
\<close>

section \<open>Everything but starts and stops leaves the core alone\<close>

definition sameLife :: "world \<Rightarrow> world \<Rightarrow> bool" where
  "sameLife w w' \<longleftrightarrow> co_running (w_core w') = co_running (w_core w) \<and> co_instance (w_core w') = co_instance (w_core w) \<and>
     w_inProgress w' = w_inProgress w \<and> w_lastFail w' = w_lastFail w"

interpretation keepLife: frame sameLife
  by unfold_locales (auto simp: sameLife_def)

named_theorems life_intros "actions that neither start nor stop the core"

lemmas [life_intros] = keepLife.within_rules

lemma readsOnly_life: "readsOnly w w' \<Longrightarrow> sameLife w w'"
  by (auto simp: readsOnly_def sameLife_def)

lemma life_reads: "within readsOnly a \<Longrightarrow> within sameLife a"
  by (simp add: within_def readsOnly_life)

lemma life_sql [life_intros]:
  "within sameLife (sqlq q)" "within sameLife (sqlu u)" "within sameLife (sqlx f)" "within sameLife (rowsWhere t P)" "within sameLife (firstWhere t P)"
  by (auto simp: within_def sameLife_def sqlq_def sqlu_def sqlx_def rowsWhere_def firstWhere_def Let_def split: sum.split)

lemma life_case [life_intros]:
  "within sameLife a \<Longrightarrow> (\<And>y. within sameLife (f y)) \<Longrightarrow> within sameLife (case x of None \<Rightarrow> a | Some y \<Rightarrow> f y)"
  "(\<And>a b. within sameLife (g a b)) \<Longrightarrow> within sameLife (case p of (a, b) \<Rightarrow> g a b)"
  "(\<And>a b. within sameLife (h a b s)) \<Longrightarrow> within sameLife ((case p of (a, b) \<Rightarrow> h a b) s)"
  "(\<And>y. within sameLife (l y)) \<Longrightarrow> (\<And>y. within sameLife (k y)) \<Longrightarrow> within sameLife (case z of Inl y \<Rightarrow> l y | Inr y \<Rightarrow> k y)"
  by (simp_all split: option.split prod.split sum.split)

lemma life_rows [life_intros]:
  "within sameLife (saveClient c)" "within sameLife (saveClients cs)" "within sameLife (saveTls t)" "within sameLife (saveInbound i)"
  "within sameLife (saveService v)" "within sameLife (saveOutbound ob)" "within sameLife (saveEndpoint p)" "within sameLife (createChanges chs)"
  "within sameLife (inboundsWhere P)" "within sameLife (servicesWhere Q)" "within sameLife (setLastUpdate n)" "within sameLife (deleteClients R)"
  "within sameLife (updateClients R h)" "within sameLife (saveUser u)" "within sameLife isRunning" "within sameLife (startJob r)"
  unfolding saveClient_def saveClients_def saveTls_def saveInbound_def saveService_def saveOutbound_def saveEndpoint_def createChanges_def
    inboundsWhere_def servicesWhere_def deleteClients_def updateClients_def saveUser_def isRunning_def
  by (intro life_intros | simp add: within_def sameLife_def setLastUpdate_def startJob_def)+

lemma life_core [life_intros]:
  "within sameLife (AddInbound c)" "within sameLife (RemoveInbound t)" "within sameLife (UpdateInboundUsersLive t ns ps)" "within sameLife (closeConns t)"
  "within sameLife (AddOutbound c)" "within sameLife (RemoveOutbound t)" "within sameLife (AddEndpoint c)"
  "within sameLife (RemoveEndpoint t)" "within sameLife (AddService c)" "within sameLife (RemoveService t)"
  by (auto simp: within_def sameLife_def AddInbound_def RemoveInbound_def UpdateInboundUsersLive_def bindA_def
      hysteria2Inbound_def closeConns_def addTo_def removeFrom_def AddOutbound_def RemoveOutbound_def
      AddEndpoint_def RemoveEndpoint_def AddService_def RemoveService_def Let_def
      split: prod.splits sum.splits option.splits)

section \<open>The services\<close>

lemma life_clients [life_intros]:
  "within sameLife (updateLinksWithFixedInbounds cs host)" "within sameLife (findInboundsChanges c b)" "within sameLife (clientsOf i)"
  unfolding updateLinksWithFixedInbounds_def findInboundsChanges_def clientsOf_def Let_def by (intro life_intros)+

lemma life_ClientService [life_intros]:
  "within sameLife (ClientService_Save act data host)" "within sameLife (UpdateClientsOnInboundAdd ids i host)"
  "within sameLife (UpdateClientsOnInboundDelete i tag)" "within sameLife (UpdateLinksByInboundChange is host tag)"
  unfolding ClientService_Save_def saveOne_def addBulk_def editBulk_def delBulk_def delOne_def UpdateClientsOnInboundAdd_def
    UpdateClientsOnInboundDelete_def UpdateLinksByInboundChange_def Let_def
  by (intro life_intros)+

lemma life_users [life_intros]:
  "within sameLife (addUsers r i ty)" "within sameLife (initUsers r s ty)" "within sameLife (loadTls n)" "within sameLife (scanTag P)"
  "within sameLife (hy2Users n)"
  unfolding addUsers_def initUsers_def fetchUsers_def loadTls_def scanTag_def hy2Users_def Let_def by (intro life_intros)+

lemma life_InboundService [life_intros]:
  "within sameLife (InboundService_Save act data ids host)" "within sameLife (UpdateOutJsons is host)" "within sameLife (RestartInbounds is)"
  "within sameLife (UpdateInboundUsers n)"
  unfolding InboundService_Save_def saveNewOrEdit_def deleteInbound_def UpdateOutJsons_def RestartInbounds_def restartOne_def
    UpdateInboundUsers_def Let_def
  by (intro life_intros)+

lemma life_liveSwitch [life_intros]: "within sameLife liveSwitch"
proof -
  have "within readsOnly GetHy2LiveUpdate" unfolding GetHy2LiveUpdate_def getBool_def by (intro reads_intros)
  then have "within sameLife GetHy2LiveUpdate" by (rule life_reads)
  moreover have "snd (liveSwitch e w) = snd (GetHy2LiveUpdate e w)" for e w
    by (simp add: liveSwitch_def split: prod.split sum.split goerr.split)
  ultimately show ?thesis by (simp add: within_def)
qed

lemma life_ApplyUserChanges [life_intros]: "within sameLife (ApplyUserChanges is)"
  unfolding ApplyUserChanges_def Let_def by (intro life_intros)

lemma life_others [life_intros]:
  "within sameLife (OutboundService_Save act data)" "within sameLife (EndpointService_Save v act data)"
  "within sameLife (ServicesService_Save act data)" "within sameLife (RestartServices is)"
  unfolding OutboundService_Save_def EndpointService_Save_def ServicesService_Save_def RestartServices_def putInCore_def dropFromCore_def
    oneTag_def warpStep_def oldLicense_def Let_def
  by (intro life_intros)+

lemma life_wrap [life_intros]: "within sameLife a \<Longrightarrow> within sameLife (wrapErr t a)"
proof -
  have "snd (wrapErr t a e w) = snd (a e w)" for e w by (simp add: wrapErr_def split: prod.split sum.split goerr.split)
  then show "within sameLife a \<Longrightarrow> within sameLife (wrapErr t a)" by (simp add: within_def)
qed

lemma life_applyUsers [life_intros]: "within sameLife (applyUsers is)"
proof -
  have "snd (applyUsers is e w) = snd (ApplyUserChanges is e w)" for e w
    by (simp add: applyUsers_def split: prod.split sum.split goerr.split)
  then show ?thesis using life_ApplyUserChanges by (simp add: within_def)
qed

lemma life_Tls [life_intros]: "within sameLife (TlsService_Save act data host)"
  unfolding TlsService_Save_def refreshTls_def Let_def by (intro life_intros)

lemma life_settings [life_intros]: "within sameLife (SettingSave data)" "within sameLife (SaveConfig data)"
  unfolding SettingSave_def SaveConfig_def saveOneSetting_def updateSetting_def Let_def
  by (auto split: rawmsg.split jv.split intro!: life_intros)

lemma life_saveBody [life_intros]: "within sameLife (saveBody v obj act data ids user host)"
  unfolding saveBody_def saveObject_def logChange_def by (intro life_intros)

lemma life_inTx [life_intros]: "within sameLife a \<Longrightarrow> within sameLife (inTx a)"
proof -
  assume a: "within sameLife a"
  have "sameLife w (snd (inTx a e w))" for e w
  proof -
    obtain e' w1 where 1: "beginTx e w = (e', w1)" by fastforce
    then have w1: "sameLife w w1" by (auto simp: beginTx_def sameLife_def)
    obtain r w2 where 2: "a e' w1 = (r, w2)" by fastforce
    have "sameLife w1 w2" using a 2 unfolding within_def by (metis snd_conv)
    with w1 show ?thesis
      by (auto simp: inTx_def 1 2 sameLife_def commitOr_def Let_def split: sum.split goerr.split)
  qed
  then show "within sameLife (inTx a)" by (simp add: within_def)
qed

lemma life_strictTx [life_intros]: "within sameLife a \<Longrightarrow> within sameLife (strictTx a)"
proof -
  assume a: "within sameLife a"
  have "sameLife w (snd (strictTx a e w))" for e w
  proof -
    obtain r w2 where 2: "a e (w\<lparr>w_stmt := Suc (w_stmt w)\<rparr>) = (r, w2)" by fastforce
    have "sameLife (w\<lparr>w_stmt := Suc (w_stmt w)\<rparr>) w2" using a 2 unfolding within_def by (metis snd_conv)
    then show ?thesis by (auto simp: strictTx_def 2 sameLife_def Let_def split: sum.split)
  qed
  then show "within sameLife (strictTx a)" by (simp add: within_def)
qed

lemma life_Ban [life_intros]: "within sameLife (BanClient i b user)"
  unfolding BanClient_def banBody_def by (intro life_intros)

lemma life_GetConfig [life_intros]: "within sameLife (GetConfig r)"
  by (rule life_reads) (intro reads_intros)

lemma life_onMissing [life_intros]:
  "within sameLife a \<Longrightarrow> within sameLife n \<Longrightarrow> (\<And>x. within sameLife (s x)) \<Longrightarrow> within sameLife (onMissing a n s)"
  unfolding within_def onMissing_def
  by (clarsimp split: prod.split sum.split) (metis keepLife.R_trans snd_conv)

lemma life_operators [life_intros]:
  "within sameLife (UpdateFirstUser name pass)" "within sameLife (ChangePass i old name' new)" "within sameLife (DeleteToken j)"
  "within sameLife (AddToken fresh name expiry desc)"
  unfolding UpdateFirstUser_def ChangePass_def GetFirstUser_def DeleteToken_def AddToken_def Let_def by (intro life_intros)+

lemma life_Login [life_intros]: "within sameLife (Login layout name pass ip)"
proof -
  have "sameLife w (snd (CheckUser layout name pass ip e w))" for e w
  proof -
    obtain r w1 where 1: "firstWhere db_users (\<lambda>u. u_username u = name \<and> u_password u = pass) e w = (r, w1)" by fastforce
    have w1: "sameLife w w1" using 1 life_sql(5) [of db_users "\<lambda>u. u_username u = name \<and> u_password u = pass"] unfolding within_def by (metis snd_conv)
    have "within sameLife (thenA (logErr (sqlx f)) (retA (x :: user option)))" for f x by (intro life_intros)
    then have "sameLife w1 (snd (thenA (logErr (sqlx f)) (retA (x :: user option)) e w1))" for f x unfolding within_def by blast
    then show ?thesis using w1 keepLife.R_trans by (cases r) (auto simp: CheckUser_def 1)
  qed
  then have "within sameLife (CheckUser layout name pass ip)" by (simp add: within_def)
  then show ?thesis unfolding Login_def by (intro life_intros)
qed

lemma life_Deplete [life_intros]: "within sameLife DepleteClients"
proof -
  have "within sameLife (inTx (depleteBody n))" for n
    unfolding depleteBody_def ResetClients_def Let_def by (intro life_intros)
  then have "sameLife w (snd (inTx (depleteBody n) e w))" for n e w unfolding within_def by blast
  moreover have "w_core (snd (DepleteClients e w)) = w_core (snd (inTx (depleteBody (e_now e)) e w)) \<and>
      w_inProgress (snd (DepleteClients e w)) = w_inProgress (snd (inTx (depleteBody (e_now e)) e w)) \<and>
      w_lastFail (snd (DepleteClients e w)) = w_lastFail (snd (inTx (depleteBody (e_now e)) e w))" for e w
    by (simp add: DepleteClients_def split: prod.split sum.split goerr.split)
  ultimately have "sameLife w (snd (DepleteClients e w))" for e w unfolding sameLife_def by metis
  then show ?thesis by (simp add: within_def)
qed

lemma life_Stats [life_intros]: "within sameLife (SaveStats en)" "within sameLife (DelOldStats daysAgo age)"
proof -
  have c: "within sameLife collect" by (auto simp: within_def sameLife_def collect_def split: prod.split)
  have m: "within sameLife (modW (\<lambda>w. w\<lparr>w_onlines := markOnline st (w_onlines w)\<rparr>))" for st by (simp add: within_def sameLife_def)
  have s: "within sameLife (saveStat st)" for st
    unfolding saveStat_def by (intro life_intros m)
  have "within sameLife (bindA collect (\<lambda>ss. if ss = [] then retA ()
       else inTx (thenA (forA saveStat ss) (if en then sqlx (\<lambda>d. d\<lparr>db_stats := db_stats d @ ss\<rparr>) else retA ()))))"
    by (intro life_intros c s)
  then show "within sameLife (SaveStats en)" using keepLife.R_refl by (simp add: within_def SaveStats_def)
  show "within sameLife (DelOldStats daysAgo age)" unfolding DelOldStats_def by (intro life_intros)
qed

lemma life_Jobs [life_intros]: "within sameLife DepleteJob_Run" "within sameLife (StatsJob_Run en)" "within sameLife (DelStatsJob_Run daysAgo age)"
  "within sameLife WALCheckpointJob_Run"
  unfolding DepleteJob_Run_def StatsJob_Run_def DelStatsJob_Run_def WALCheckpointJob_Run_def by (intro life_intros)+

section \<open>Starts and stops\<close>

definition alive :: "world \<Rightarrow> bool" where
  "alive w \<longleftrightarrow> (co_running (w_core w) \<longrightarrow> co_instance (w_core w)) \<and> \<not> w_inProgress w"

lemma sameLife_alive: "sameLife w w' \<Longrightarrow> alive w \<Longrightarrow> alive w'"
  by (simp add: sameLife_def alive_def)

lemma life_snd: "within sameLife a \<Longrightarrow> sameLife w (snd (a e w))"
  by (simp add: within_def)

text \<open>A core that is not running is started: afterwards it runs with an instance or not at all.\<close>

definition startSafe :: "unit act \<Rightarrow> bool" where
  "startSafe a \<longleftrightarrow> (\<forall>e w. \<not> co_running (w_core w) \<longrightarrow> co_running (w_core (snd (a e w))) \<longrightarrow> co_instance (w_core (snd (a e w))))"

lemma startSafe_parts: "startSafe (coreStart conf)" "startSafe (startNoting conf)" "startSafe (bindA (GetConfig r) coreStart)"
  "startSafe (bindA (GetConfig r) startNoting)"
proof -
  show 1: "startSafe (coreStart conf)" for conf by (auto simp: startSafe_def coreStart_def Let_def)
  show 2: "startSafe (startNoting conf)" for conf by (auto simp: startSafe_def startNoting_def coreStart_def Let_def)
  have "startSafe (bindA (GetConfig r) f)" if "\<And>c. startSafe (f c)" for f :: "raw \<Rightarrow> unit act"
    unfolding startSafe_def
  proof (intro allI impI)
    fix e w assume n: "\<not> co_running (w_core w)" and y: "co_running (w_core (snd (bindA (GetConfig r) f e w)))"
    obtain x w1 where x: "GetConfig r e w = (x, w1)" by fastforce
    have w1: "\<not> co_running (w_core w1)" using life_snd [OF life_GetConfig, of w r e] x n by (simp add: sameLife_def)
    show "co_instance (w_core (snd (bindA (GetConfig r) f e w)))"
      using y x w1 that by (cases x) (auto simp: startSafe_def)
  qed
  then show "startSafe (bindA (GetConfig r) coreStart)" "startSafe (bindA (GetConfig r) startNoting)" using 1 2 by blast+
qed

lemma exclusively_alive:
  assumes "startSafe a" "\<not> co_running (w_core w)"
  shows "alive (snd (exclusively a e w))"
proof -
  obtain r w' where 1: "a e (setInProgress True w) = (r, w')" by fastforce
  have "\<not> co_running (w_core (setInProgress True w))" using assms(2) by (simp add: setInProgress_def)
  then have "co_running (w_core w') \<longrightarrow> co_instance (w_core w')" using assms(1) 1 unfolding startSafe_def by (metis snd_conv)
  moreover have "exclusively a e w = (r, setInProgress False w')" by (simp add: exclusively_def 1)
  ultimately show ?thesis by (simp add: alive_def setInProgress_def)
qed

lemma StartCore_alive: "alive w \<Longrightarrow> alive (snd (StartCore e w))"
  using exclusively_alive [OF startSafe_parts(4), of w RNil e] by (auto simp: StartCore_def)

lemma StopCore_alive: "alive w \<Longrightarrow> alive (snd (StopCore e w))"
  by (auto simp: StopCore_def coreStop_def alive_def Let_def)

lemma RestartCore_alive: "alive w \<Longrightarrow> alive (snd (RestartCore e w))"
  using StopCore_alive [of w e] StartCore_alive
  by (cases "StopCore e w"; cases "fst (StopCore e w)") (auto simp: RestartCore_def)

lemma restartWith_alive:
  assumes "alive w" shows "alive (snd (restartCoreWithConfig c e w))"
proof -
  let ?stop = "bindA isRunning (\<lambda>r. if r then coreStop else retA ())"
  have s: "\<not> co_running (w_core (snd (?stop e v)))" for v
    by (auto simp: isRunning_def coreStop_def Let_def)
  obtain r w1 where 1: "?stop e (setInProgress True w) = (r, w1)" by fastforce
  have n: "\<not> co_running (w_core w1)" using s [of "setInProgress True w"] 1 by simp
  show ?thesis
  proof (cases r)
    case (Inl x)
    then have "snd (restartCoreWithConfig c e w) = setInProgress False w1 \<or> snd (restartCoreWithConfig c e w) = w"
      using 1 by (simp add: restartCoreWithConfig_def exclusively_def)
    then show ?thesis using n assms by (auto simp: alive_def setInProgress_def)
  next
    case (Inr u)
    obtain r2 w2 where 2: "bindA (GetConfig c) coreStart e w1 = (r2, w2)" by fastforce
    have "co_running (w_core w2) \<longrightarrow> co_instance (w_core w2)"
      using startSafe_parts(3) [of c] n 2 unfolding startSafe_def by (metis snd_conv)
    moreover have "snd (restartCoreWithConfig c e w) = setInProgress False w2 \<or> snd (restartCoreWithConfig c e w) = w"
      using 1 Inr 2 by (simp add: restartCoreWithConfig_def exclusively_def)
    ultimately show ?thesis using assms by (auto simp: alive_def setInProgress_def)
  qed
qed

lemma Save_alive:
  assumes "alive w" shows "alive (snd (ConfigService_Save v obj act data ids user host e w))"
proof -
  obtain r w1 where 1: "inTx (saveBody v obj act data ids user host) e w = (r, w1)" by fastforce
  have "within sameLife (inTx (saveBody v obj act data ids user host))" by (intro life_intros)
  then have w1: "alive w1" using life_snd [where a = "inTx (saveBody v obj act data ids user host)" and w = w and e = e] 1 sameLife_alive assms by simp
  obtain r2 w2 where 2: "StartCore e w1 = (r2, w2)" by fastforce
  have "alive w2" using StartCore_alive [OF w1, of e] 2 by simp
  then show ?thesis using w1 2 by (auto simp: ConfigService_Save_def 1 split: sum.split goerr.split)
qed

lemma logErr_alive: "(\<And>w. alive w \<Longrightarrow> alive (snd (a e w))) \<Longrightarrow> alive w \<Longrightarrow> alive (snd (logErr a e w))"
  by (auto simp: logErr_def split: prod.split sum.split goerr.split) (metis snd_conv)+

lemma panelStep_alive: "panelStep e w ev w' \<Longrightarrow> alive w \<Longrightarrow> alive w'"
proof (induction rule: panelStep.induct)
  case saved then show ?case using Save_alive by (metis snd_conv)
next
  case coreChecked then show ?case
    unfolding CheckCoreJob_Run_def using logErr_alive [of StartCore] StartCore_alive by (metis snd_conv)
next
  case coreRestarted then show ?case using RestartCore_alive by (metis snd_conv)
next
  case (configRestarted w js c ks e r w')
  then have "alive (w\<lparr>w_jobs := js @ ks\<rparr>)" by (simp add: alive_def)
  then show ?case using restartWith_alive configRestarted by (metis snd_conv)
next
  case (traffic w c' e)
  then show ?case by (auto simp: busyCore_def alive_def)
next
  case queried then show ?case using readsOnly_life sameLife_alive by blast
next
  case processRestarted then show ?case by (simp add: alive_def freshProcess_def)
next
  case banned then show ?case using life_snd [OF life_Ban] sameLife_alive by (metis snd_conv)
next
  case loggedIn then show ?case using life_snd [OF life_Login] sameLife_alive by (metis snd_conv)
next
  case firstUser then show ?case using life_snd [OF life_operators(1)] sameLife_alive by (metis snd_conv)
next
  case passChanged then show ?case using life_snd [OF life_operators(2)] sameLife_alive by (metis snd_conv)
next
  case tokenDeleted then show ?case using life_snd [OF life_operators(3)] sameLife_alive by (metis snd_conv)
next
  case tokenAdded then show ?case using life_snd [OF life_operators(4)] sameLife_alive by (metis snd_conv)
next
  case depleted then show ?case using life_snd [OF life_Jobs(1)] sameLife_alive by (metis snd_conv)
next
  case counted then show ?case using life_snd [OF life_Jobs(2)] sameLife_alive by (metis snd_conv)
next
  case pruned then show ?case using life_snd [OF life_Jobs(3)] sameLife_alive by (metis snd_conv)
next
  case checkpointed then show ?case using life_snd [OF life_Jobs(4)] sameLife_alive by (metis snd_conv)
qed

lemma reaches_alive: "reaches allowed w0 w \<Longrightarrow> alive w0 \<Longrightarrow> alive w"
  by (induction rule: reaches.induct) (auto intro: panelStep_alive)

section \<open>The watchdog\<close>

text \<open>The runs of the job that checks the core, each in its own environment.\<close>

definition watch :: "env list \<Rightarrow> world \<Rightarrow> world" where
  "watch es w = fold (\<lambda>e w. snd (CheckCoreJob_Run e w)) es w"

text \<open>An attempt to start would succeed: the configuration can be read and sing-box accepts it.\<close>

definition startable :: "env \<Rightarrow> world \<Rightarrow> bool" where
  "startable e w = (case GetConfig RNil e (setInProgress True w) of
     (Inr c, _) \<Rightarrow> e_start e (e_decode e c) | _ \<Rightarrow> False)"

lemma check_running: "co_running (w_core w) \<Longrightarrow> snd (CheckCoreJob_Run e w) = w"
  by (simp add: CheckCoreJob_Run_def logErr_def StartCore_def)

lemma check_waits: "inCooldown e w \<Longrightarrow> snd (CheckCoreJob_Run e w) = w"
  by (simp add: CheckCoreJob_Run_def logErr_def StartCore_def)

lemma check_starts:
  assumes "startable e w" "alive w" "\<not> inCooldown e w"
  shows "co_running (w_core (snd (CheckCoreJob_Run e w)))"
proof (cases "co_running (w_core w)")
  case False
  obtain c w1 where c: "GetConfig RNil e (setInProgress True w) = (Inr c, w1)" and s: "e_start e (e_decode e c)"
    using assms(1) by (auto simp: startable_def split: prod.splits sum.splits)
  have "StartCore e w = exclusively (bindA (GetConfig RNil) startNoting) e w"
    using False assms(2,3) by (simp add: StartCore_def alive_def)
  then show ?thesis using c s
    by (simp add: CheckCoreJob_Run_def logErr_def exclusively_def startNoting_def coreStart_def setInProgress_def Let_def)
qed (simp add: check_running)

lemma watch_running: "co_running (w_core w) \<Longrightarrow> watch es w = w"
  by (induction es) (simp_all add: watch_def check_running)

lemma watch_starts:
  assumes "\<forall>e \<in> set es. startable e w" "alive w" "\<exists>e \<in> set es. \<not> inCooldown e w"
  shows "co_running (w_core (watch es w))"
  using assms
proof (induction es)
  case (Cons e es)
  show ?case
  proof (cases "inCooldown e w")
    case True
    with Cons show ?thesis by (simp add: watch_def check_waits)
  next
    case False
    with Cons check_starts show ?thesis using watch_running by (simp add: watch_def)
  qed
qed simp

lemma spaced: "\<forall>i. Suc i < length es \<longrightarrow> e_now (es ! i) + d \<le> e_now (es ! Suc i) \<Longrightarrow> n < length es \<Longrightarrow> e_now (es ! 0) + int n * d \<le> e_now (es ! n)"
proof (induction n)
  case (Suc n)
  then have "e_now (es ! 0) + int n * d \<le> e_now (es ! n)" "e_now (es ! n) + d \<le> e_now (es ! Suc n)" by auto
  then show ?case by (simp add: algebra_simps)
qed simp

text \<open>C27
  The watchdog: whatever has stopped the core (a crash while it was started, an operator, a refused configuration), four
  runs of the job that are five seconds apart bring it back, with an instance, as soon as the stored configuration can be read and is accepted.
  Neither an attempt that was interrupted nor the cooldown after a failed one can keep it from doing so.
\<close>

theorem watchdog_revives:
  assumes "reaches allowed w0 w" "alive w0" "length es = 4" "\<forall>i. Suc i < length es \<longrightarrow> e_now (es ! i) + 5 \<le> e_now (es ! Suc i)"
    and "\<forall>t. w_lastFail w = Some t \<longrightarrow> t \<le> e_now (es ! 0)" "\<forall>e \<in> set es. startable e w"
  shows "co_running (w_core (watch es w)) \<and> co_instance (w_core (watch es w))"
proof -
  have a: "alive w" by (rule reaches_alive [OF assms(1,2)])
  have "e_now (es ! 0) + 15 \<le> e_now (es ! 3)" using spaced [OF assms(4), of 3] assms(3) by simp
  then have "\<not> inCooldown (es ! 3) w" using assms(5) by (auto simp: inCooldown_def startCooldown_def split: option.split)
  moreover have "es ! 3 \<in> set es" using assms(3) by simp
  ultimately have r: "co_running (w_core (watch es w))" using watch_starts [OF assms(6) a] by blast
  have "alive (snd (CheckCoreJob_Run e v))" if "alive v" for e v
    unfolding CheckCoreJob_Run_def using logErr_alive [of StartCore] StartCore_alive that by blast
  then have "alive (watch xs v)" if "alive v" for xs v using that by (induction xs arbitrary: v) (simp_all add: watch_def)
  then show ?thesis using r a by (simp add: alive_def)
qed

lemma idle_startable:
  assumes "\<And>n. \<not> e_dbfail e n" "\<And>c. e_start e c"
  shows "startable e (idleWorld\<lparr>w_lastFail := l\<rparr>)"
proof -
  let ?w = "setInProgress True (idleWorld\<lparr>w_lastFail := l\<rparr>)"
  have d: "w_db ?w = w_db idleWorld" by (simp add: setInProgress_def)
  have s: "getString ''config'' e ?w = (Inr ''{}'', ?w\<lparr>w_stmt := Suc (w_stmt ?w)\<rparr>)"
    by (rule getString_found [OF assms(1)]) (simp add: d idle_simps settingOf_def)
  show ?thesis
    by (simp add: startable_def GetConfig_def SettingGetConfig_def bindA_def s idle_config Inbound_GetAllConfig_def Outbound_GetAllConfig_def
        Service_GetAllConfig_def Endpoint_GetAllConfig_def inboundsWhere_def servicesWhere_def rowsWhere_def sqlq_def assms Let_def
        idle_simps d isList_def configDoc_def rawField_def rawList_def marshal_def)
qed

theorem watchdog_revives_witness:
  "\<not> co_running (w_core (idleWorld\<lparr>w_lastFail := Some 9999\<rparr>)) \<and>
   co_running (w_core (watch (map (\<lambda>i. quietEnv\<lparr>e_now := 10000 + 5 * int i\<rparr>) [0, 1, 2, 3]) (idleWorld\<lparr>w_lastFail := Some 9999\<rparr>)))"
proof -
  let ?w = "idleWorld\<lparr>w_lastFail := Some 9999\<rparr>" and ?es = "map (\<lambda>i. quietEnv\<lparr>e_now := 10000 + 5 * int i\<rparr>) [0, 1, 2, 3]"
  have a: "alive ?w" by (simp add: alive_def idle_simps)
  have sp: "\<forall>i. Suc i < length ?es \<longrightarrow> e_now (?es ! i) + 5 \<le> e_now (?es ! Suc i)" by (auto simp: less_Suc_eq)
  have st: "\<forall>e \<in> set ?es. startable e ?w" by (auto intro!: idle_startable simp: quietEnv_def)
  have "co_running (w_core (watch ?es ?w)) \<and> co_instance (w_core (watch ?es ?w))"
    by (rule watchdog_revives [OF reaches.start a _ sp _ st]) simp_all
  then show ?thesis by (simp add: idle_simps)
qed

end
