(* ===== verification/ServerInfo.thy ===== *)
theory ServerInfo
  imports CoreLife GoBase64
begin

text \<open>
  \<open>service/server.go\<close>: the state of the host, of the core and of the database for the page, and the key pairs it offers.  What the operating system
  and the key generators answer is a parameter; \<open>None\<close> is an error, which is only logged.
\<close>

section \<open>The host\<close>

text \<open>An interface has its flags and addresses; sizes and counters are \<open>uint64\<close>, fractions are JSON numbers already.\<close>

record hostinfo =
  hi_cpu :: "jv list option"
  hi_mem :: "(nat \<times> nat) option"
  hi_disk :: "(nat \<times> nat) option"
  hi_swap :: "(nat \<times> nat) option"
  hi_diskIO :: "(nat \<times> nat) list option"
  hi_netIO :: "(nat \<times> nat \<times> nat \<times> nat) list option"
  hi_cpuModels :: "string list option"
  hi_interfaces :: "(string list \<times> string list) list"
  hi_cpuCount :: nat
  hi_hostName :: string
  hi_version :: string
  hi_bootTime :: nat
  hi_sys :: nat
  hi_alloc :: nat
  hi_goroutines :: nat
  hi_uptime :: nat

definition jnat :: "nat \<Rightarrow> jv" where
  "jnat n = JInt (int n)"

text \<open>An index into a slice.\<close>

definition elemAt :: "'a list \<Rightarrow> nat \<Rightarrow> 'a res" where
  "elemAt xs i = (if i < length xs then Inr (xs ! i) else Inl (Panic ''index out of range''))"

definition GetCpuPercent :: "hostinfo \<Rightarrow> jv res" where
  "GetCpuPercent hi = (case hi_cpu hi of None \<Rightarrow> Inr (JInt 0) | Some ps \<Rightarrow> elemAt ps 0)"

definition usage :: "(nat \<times> nat) option \<Rightarrow> obj" where
  "usage u = (case u of None \<Rightarrow> [] | Some (now, all) \<Rightarrow> [(''current'', jnat now), (''total'', jnat all)])"

definition GetMemInfo :: "hostinfo \<Rightarrow> obj" where "GetMemInfo hi = usage (hi_mem hi)"
definition GetDiskInfo :: "hostinfo \<Rightarrow> obj" where "GetDiskInfo hi = usage (hi_disk hi)"
definition GetSwapInfo :: "hostinfo \<Rightarrow> obj" where "GetSwapInfo hi = usage (hi_swap hi)"

definition addU64 :: "nat \<Rightarrow> nat \<Rightarrow> nat" where
  "addU64 a b = (a + b) mod 2 ^ 64"

definition GetDiskIO :: "hostinfo \<Rightarrow> obj" where
  "GetDiskIO hi = (case hi_diskIO hi of None \<Rightarrow> []
     | Some ios \<Rightarrow> if ios = [] then []
         else (case fold (\<lambda>(r, w) (ra, wa). (addU64 ra r, addU64 wa w)) ios (0, 0) of
           (r, w) \<Rightarrow> [(''read'', jnat r), (''write'', jnat w)]))"

definition GetNetInfo :: "hostinfo \<Rightarrow> obj" where
  "GetNetInfo hi = (case hi_netIO hi of None \<Rightarrow> [] | Some [] \<Rightarrow> []
     | Some ((sent, recv, psent, precv) # _) \<Rightarrow>
         [(''sent'', jnat sent), (''recv'', jnat recv), (''psent'', jnat psent), (''precv'', jnat precv)])"

text \<open>The addresses of the interfaces that are up and not the loopback; the first six bytes of what is not an IPv4 address are looked at.\<close>

definition isUp :: "string list \<Rightarrow> bool" where
  "isUp flags \<longleftrightarrow> length flags > 2 \<and> flags ! 0 = ''up'' \<and> flags ! 1 \<noteq> ''loopback''"

definition linkLocal :: "string \<Rightarrow> bool res" where
  "linkLocal addr = (if length addr < 6 then Inl (Panic ''slice bounds out of range'') else Inr (take 6 addr = ''fe80::''))"

fun sortAddresses :: "string list \<Rightarrow> string list \<times> string list \<Rightarrow> (string list \<times> string list) res" where
  "sortAddresses [] (v4, v6) = Inr (v4, v6)"
| "sortAddresses (a # as) (v4, v6) = (if CHR ''.'' \<in> set a then sortAddresses as (v4 @ [a], v6)
     else bindR (linkLocal a) (\<lambda>l. sortAddresses as (v4, if l then v6 else v6 @ [a])))"

definition GetSystemInfo :: "hostinfo \<Rightarrow> obj res" where
  "GetSystemInfo hi =
     bindR (case hi_cpuModels hi of None \<Rightarrow> Inr [] | Some ms \<Rightarrow> bindR (elemAt ms 0) (\<lambda>m. Inr [(''cpuType'', JStr m)])) (\<lambda>cpu.
     bindR (sortAddresses (concat (map snd (filter (\<lambda>i. isUp (fst i)) (hi_interfaces hi)))) ([], [])) (\<lambda>(v4, v6).
       Inr ([(''appMem'', jnat (hi_sys hi)), (''appThreads'', jnat (hi_goroutines hi mod 2 ^ 32))] @ cpu @
         [(''cpuCount'', jnat (hi_cpuCount hi)), (''hostName'', JStr (hi_hostName hi)), (''appVersion'', JStr (hi_version hi)),
          (''ipv4'', JArr (map JStr v4)), (''ipv6'', JArr (map JStr v6)), (''bootTime'', jnat (hi_bootTime hi))])))"

section \<open>The core and the database\<close>

definition GetSingboxInfo :: "hostinfo \<Rightarrow> obj act" where
  "GetSingboxInfo hi =
     bindA isRunning (\<lambda>running.
     bindA (askW (\<lambda>w. co_instance (w_core w))) (\<lambda>inst.
     bindA (if \<not> running then retA 0 else if inst then retA (hi_uptime hi mod 2 ^ 32) else failA (Panic ''nil pointer dereference'')) (\<lambda>uptime.
       retA [(''running'', JBool running), (''stats'', JObj [(''NumGoroutine'', jnat (hi_goroutines hi mod 2 ^ 32)),
         (''Alloc'', jnat (hi_alloc hi)), (''Uptime'', jnat uptime)])])))"

text \<open>The result of a query that fails stays zero.\<close>

definition orZero :: "int act \<Rightarrow> int act" where
  "orZero a = (\<lambda>e w. case a e w of (Inl (Err m), w') \<Rightarrow> (Inr 0, w') | r \<Rightarrow> r)"

definition countRows :: "(dbase \<Rightarrow> 'r list) \<Rightarrow> int act" where
  "countRows t = orZero (sqlq (\<lambda>d. Inr (int (length (t d)))))"

text \<open>\<open>COALESCE(SUM(a + b), 0)\<close>: a sum that leaves the integers is an error or a fraction, which does not scan into one.\<close>

fun sqlSum :: "int \<Rightarrow> int list \<Rightarrow> int res" where
  "sqlSum acc [] = Inr acc"
| "sqlSum acc (x # xs) = (if inInt64 x \<and> inInt64 (acc + x) then sqlSum (acc + x) xs else Inl (Err ''integer overflow''))"

definition sumClients :: "(client \<Rightarrow> int) \<Rightarrow> int act" where
  "sumClients f = orZero (sqlq (\<lambda>d. sqlSum 0 (map f (db_clients d))))"

definition GetDatabaseInfo :: "(string \<times> int) list act" where
  "GetDatabaseInfo =
     bindA (countRows db_clients) (\<lambda>c.
     bindA (countRows db_inbounds) (\<lambda>i.
     bindA (countRows db_outbounds) (\<lambda>out.
     bindA (countRows db_services) (\<lambda>s.
     bindA (countRows db_endpoints) (\<lambda>p.
     bindA (sumClients (\<lambda>x. c_up x + c_total_up x)) (\<lambda>up.
     bindA (sumClients (\<lambda>x. c_down x + c_total_down x)) (\<lambda>down.
       retA [(''clients'', c), (''inbounds'', i), (''outbounds'', out), (''services'', s), (''endpoints'', p),
         (''clientUp'', up), (''clientDown'', down)])))))))"

definition statusPart :: "hostinfo \<Rightarrow> string \<Rightarrow> jv option act" where
  "statusPart hi req =
     (if req = ''cpu'' then bindA (liftR (GetCpuPercent hi)) (\<lambda>x. retA (Some x))
      else if req = ''mem'' then retA (Some (JObj (GetMemInfo hi)))
      else if req = ''dsk'' then retA (Some (JObj (GetDiskInfo hi)))
      else if req = ''dio'' then retA (Some (JObj (GetDiskIO hi)))
      else if req = ''swp'' then retA (Some (JObj (GetSwapInfo hi)))
      else if req = ''net'' then retA (Some (JObj (GetNetInfo hi)))
      else if req = ''sys'' then bindA (liftR (GetSystemInfo hi)) (\<lambda>x. retA (Some (JObj x)))
      else if req = ''sbd'' then bindA (GetSingboxInfo hi) (\<lambda>x. retA (Some (JObj x)))
      else if req = ''db'' then bindA GetDatabaseInfo (\<lambda>x. retA (Some (JObj (map (\<lambda>(k, n). (k, JInt n)) x))))
      else retA None)"

definition statusStep :: "hostinfo \<Rightarrow> string \<Rightarrow> obj \<Rightarrow> obj act" where
  "statusStep hi req status = bindA (statusPart hi req) (\<lambda>x. retA (case x of None \<Rightarrow> status | Some v \<Rightarrow> oset req v status))"

definition GetStatus :: "hostinfo \<Rightarrow> string \<Rightarrow> obj act" where
  "GetStatus hi request = foldA (statusStep hi) (split request '','') []"

definition ServerGetLogs :: "(string \<Rightarrow> nat) \<Rightarrow> (nat \<Rightarrow> string) \<Rightarrow> string \<Rightarrow> string \<Rightarrow> logline list \<Rightarrow> string list" where
  "ServerGetLogs levelOf nameOf count level buf = GetLogs levelOf nameOf (case atoi count of (n, ok) \<Rightarrow> if ok then n else 10) level buf"

section \<open>Key pairs\<close>

text \<open>The generators of the libraries; \<open>kg_parse\<close> reads a private key, a text that is none gives the zero key.\<close>

record keygen =
  kg_ech :: "string \<Rightarrow> (string \<times> string) res"
  kg_tls :: "string \<Rightarrow> (string \<times> string) res"
  kg_private :: "string res"
  kg_public :: "string \<Rightarrow> string"
  kg_parse :: "string \<Rightarrow> string option"

text \<open>\<open>RawURLEncoding\<close>: the URL alphabet and no padding.\<close>

definition rawUrl64 :: "string \<Rightarrow> string" where
  "rawUrl64 s = map (\<lambda>c. if c = CHR ''+'' then CHR ''-'' else if c = CHR ''/'' then CHR ''_'' else c) (filter (\<lambda>c. c \<noteq> CHR ''='') (b64encode s))"

definition orMessage :: "string \<Rightarrow> ('a \<Rightarrow> string list) \<Rightarrow> 'a res \<Rightarrow> string list res" where
  "orMessage msg f r = (case r of Inl (Err m) \<Rightarrow> Inr [msg, m] | Inl (Panic p) \<Rightarrow> Inl (Panic p) | Inr x \<Rightarrow> Inr (f x))"

definition generateECHKeyPair :: "keygen \<Rightarrow> string \<Rightarrow> string list res" where
  "generateECHKeyPair kg serverName = orMessage ''Failed to generate ECH keypair: ''
     (\<lambda>(config, key). split config [CHR 0x0A] @ split key [CHR 0x0A]) (kg_ech kg serverName)"

definition generateTLSKeyPair :: "keygen \<Rightarrow> string \<Rightarrow> string list res" where
  "generateTLSKeyPair kg serverName = orMessage ''Failed to generate TLS keypair: ''
     (\<lambda>(private, public). split private [CHR 0x0A] @ split public [CHR 0x0A]) (kg_tls kg serverName)"

definition generateRealityKeyPair :: "keygen \<Rightarrow> string list res" where
  "generateRealityKeyPair kg = orMessage ''Failed to generate Reality keypair: ''
     (\<lambda>k. [''PrivateKey: '' @ rawUrl64 k, ''PublicKey: '' @ rawUrl64 (kg_public kg k)]) (kg_private kg)"

definition zeroKey :: string where
  "zeroKey = replicate 32 (CHR 0x00)"

definition generateWireGuardKey :: "keygen \<Rightarrow> string \<Rightarrow> string list res" where
  "generateWireGuardKey kg pk =
     (if pk \<noteq> [] then Inr [b64encode (kg_public kg (case kg_parse kg pk of None \<Rightarrow> zeroKey | Some k \<Rightarrow> k))]
      else orMessage ''Failed to generate wireguard keypair: ''
        (\<lambda>k. [''PrivateKey: '' @ b64encode k, ''PublicKey: '' @ b64encode (kg_public kg k)]) (kg_private kg))"

definition GenKeypair :: "keygen \<Rightarrow> string \<Rightarrow> string \<Rightarrow> string list res" where
  "GenKeypair kg keyType options =
     (if keyType = [] then Inr [''No keypair to generate'']
      else if keyType = ''ech'' then generateECHKeyPair kg options
      else if keyType = ''tls'' then generateTLSKeyPair kg options
      else if keyType = ''reality'' then generateRealityKeyPair kg
      else if keyType = ''wireguard'' then generateWireGuardKey kg options
      else Inr [''Failed to generate keypair''])"

section \<open>Reading the state is harmless\<close>

text \<open>Actions that give a value and touch nothing when the core that runs has an instance.\<close>

definition instanced :: "world \<Rightarrow> bool" where
  "instanced w \<longleftrightarrow> (co_running (w_core w) \<longrightarrow> co_instance (w_core w))"

definition calm :: "(world \<Rightarrow> 'a \<Rightarrow> bool) \<Rightarrow> 'a act \<Rightarrow> bool" where
  "calm Q a \<longleftrightarrow> (\<forall>e w. instanced w \<longrightarrow> (\<exists>v n. a e w = (Inr v, w\<lparr>w_stmt := n\<rparr>) \<and> Q w v))"

abbreviation calmly :: "'a act \<Rightarrow> bool" where
  "calmly \<equiv> calm (\<lambda>w v. True)"

lemma stmt_simps [simp]: "instanced (w\<lparr>w_stmt := n\<rparr>) = instanced w" "w_core (w\<lparr>w_stmt := n\<rparr>) = w_core w" "w\<lparr>w_stmt := w_stmt w\<rparr> = w"
  by (simp_all add: instanced_def)

lemma calm_ret: "(\<And>w. Q w x) \<Longrightarrow> calm Q (retA x)"
  unfolding calm_def by (metis act_simps(1) stmt_simps(3))

lemma calm_bind:
  assumes "calm P a" "\<And>x. calm (\<lambda>w v. P w x \<longrightarrow> Q w v) (f x)" "\<And>w n x v. P (w\<lparr>w_stmt := n\<rparr>) x = P w x" "\<And>w n v. Q (w\<lparr>w_stmt := n\<rparr>) v = Q w v"
  shows "calm Q (bindA a f)"
  unfolding calm_def
proof (intro allI impI)
  fix e w assume w: "instanced w"
  obtain x n where 1: "a e w = (Inr x, w\<lparr>w_stmt := n\<rparr>)" "P w x" using assms(1) w unfolding calm_def by blast
  obtain v m where 2: "f x e (w\<lparr>w_stmt := n\<rparr>) = (Inr v, w\<lparr>w_stmt := n\<rparr>\<lparr>w_stmt := m\<rparr>)" "P (w\<lparr>w_stmt := n\<rparr>) x \<longrightarrow> Q (w\<lparr>w_stmt := n\<rparr>) v"
    using assms(2) [of x] w unfolding calm_def by (metis stmt_simps(1))
  show "\<exists>v n. bindA a f e w = (Inr v, w\<lparr>w_stmt := n\<rparr>) \<and> Q w v"
    using 1 2 assms(3,4) by (intro exI [of _ v] exI [of _ m]) simp
qed

lemma calmly_bind: "calmly a \<Longrightarrow> (\<And>x. calmly (f x)) \<Longrightarrow> calmly (bindA a f)"
  by (rule calm_bind [where P = "\<lambda>w v. True"]) simp_all

lemma calm_lift: "calmly (liftR (Inr x))"
  unfolding calm_def by (metis act_simps(3) stmt_simps(3))

lemma calmly_queries: "calmly (countRows t)" "calmly (sumClients f)"
proof -
  have s: "sqlSum acc xs \<noteq> Inl (Panic y)" for acc xs y by (induction xs arbitrary: acc) auto
  show "calmly (countRows t)" by (auto simp: calm_def countRows_def orZero_def sqlq_def sqlErr_def Let_def)
  show "calmly (sumClients f)" using s
    by (fastforce simp: calm_def sumClients_def orZero_def sqlq_def sqlErr_def Let_def split: sum.split goerr.split)
qed

lemma calmly_GetDatabaseInfo: "calmly GetDatabaseInfo"
  unfolding GetDatabaseInfo_def by (intro calmly_bind calmly_queries calm_ret TrueI)

text \<open>What the page is told about the core.\<close>

definition tellsRunning :: "bool \<Rightarrow> jv \<Rightarrow> bool" where
  "tellsRunning b v \<longleftrightarrow> (\<exists>m. v = JObj m \<and> oget m ''running'' = JBool b)"

lemma calm_GetSingboxInfo: "calm (\<lambda>w m. tellsRunning (co_running (w_core w)) (JObj m)) (GetSingboxInfo hi)"
  unfolding calm_def
proof (intro allI impI)
  fix e w assume "instanced w"
  define u where "u = (if co_running (w_core w) then hi_uptime hi mod 2 ^ 32 else 0)"
  let ?m = "[(''running'', JBool (co_running (w_core w))), (''stats'', JObj [(''NumGoroutine'', jnat (hi_goroutines hi mod 2 ^ 32)),
         (''Alloc'', jnat (hi_alloc hi)), (''Uptime'', jnat u)])]"
  have "GetSingboxInfo hi e w = (Inr ?m, w)"
    using \<open>instanced w\<close> by (cases "co_running (w_core w)") (simp_all add: GetSingboxInfo_def isRunning_def instanced_def u_def bindA_def)
  then have "GetSingboxInfo hi e w = (Inr ?m, w\<lparr>w_stmt := w_stmt w\<rparr>)" by simp
  moreover have "tellsRunning (co_running (w_core w)) (JObj ?m)" by (simp add: tellsRunning_def oget_def)
  ultimately show "\<exists>v n. GetSingboxInfo hi e w = (Inr v, w\<lparr>w_stmt := n\<rparr>) \<and> tellsRunning (co_running (w_core w)) (JObj v)"
    by blast
qed

definition hostOk :: "hostinfo \<Rightarrow> bool" where
  "hostOk hi \<longleftrightarrow> hi_cpu hi \<noteq> Some [] \<and> hi_cpuModels hi \<noteq> Some [] \<and>
     (\<forall>(flags, addrs) \<in> set (hi_interfaces hi). \<forall>a \<in> set addrs. CHR ''.'' \<in> set a \<or> length a \<ge> 6)"

lemma sortAddresses_ok: "\<forall>a \<in> set as. CHR ''.'' \<in> set a \<or> length a \<ge> 6 \<Longrightarrow> \<exists>p. sortAddresses as q = Inr p"
  by (induction as q rule: sortAddresses.induct) (auto simp: linkLocal_def)

lemma calm_statusPart:
  assumes "hostOk hi"
  shows "calm (\<lambda>w x. req = ''sbd'' \<longrightarrow> (\<exists>v. x = Some v \<and> tellsRunning (co_running (w_core w)) v)) (statusPart hi req)"
proof -
  have c: "\<exists>x. GetCpuPercent hi = Inr x" using assms by (auto simp: GetCpuPercent_def hostOk_def elemAt_def split: option.split)
  have "\<exists>p. sortAddresses (concat (map snd (filter (\<lambda>i. isUp (fst i)) (hi_interfaces hi)))) ([], []) = Inr p"
    using assms by (intro sortAddresses_ok) (fastforce simp: hostOk_def)
  then have s: "\<exists>x. GetSystemInfo hi = Inr x"
    using assms by (auto simp: GetSystemInfo_def hostOk_def elemAt_def split: option.split)
  have l: "calmly (bindA (liftR r) (\<lambda>x. retA (f x)))" if "\<exists>x. r = Inr x" for r :: "'x res" and f :: "'x \<Rightarrow> jv option"
    using that calm_lift by (auto intro!: calmly_bind calm_ret)
  have b: "calm (\<lambda>w x. \<exists>v. x = Some v \<and> tellsRunning (co_running (w_core w)) v) (bindA (GetSingboxInfo hi) (\<lambda>x. retA (Some (JObj x))))"
    by (rule calm_bind [OF calm_GetSingboxInfo]) (auto intro: calm_ret)
  have d: "calmly (bindA GetDatabaseInfo (\<lambda>x. retA (Some (JObj (map (\<lambda>(k, n). (k, JInt n)) x)))))"
    by (intro calmly_bind calmly_GetDatabaseInfo calm_ret TrueI)
  show ?thesis
  proof (cases "req = ''sbd''")
    case True
    then show ?thesis using b by (simp add: statusPart_def)
  next
    case False
    then have "calmly (statusPart hi req)"
      unfolding statusPart_def using l [OF c] l [OF s] d by (simp add: calm_ret)
    then show ?thesis using False by simp
  qed
qed

definition knowsCore :: "bool \<Rightarrow> obj \<Rightarrow> bool" where
  "knowsCore b st \<longleftrightarrow> (\<exists>v. map_of st ''sbd'' = Some v \<and> tellsRunning b v)"

lemma status_run:
  assumes "hostOk hi" "instanced w"
  shows "\<exists>st' n. foldA (statusStep hi) reqs st e w =
      (Inr st', w\<lparr>w_stmt := n\<rparr>) \<and> (''sbd'' \<in> set reqs \<or> knowsCore (co_running (w_core w)) st \<longrightarrow> knowsCore (co_running (w_core w)) st')"
  using assms(2)
proof (induction reqs arbitrary: st w)
  case Nil
  then show ?case by (intro exI [of _ st] exI [of _ "w_stmt w"]) simp
next
  case (Cons req reqs)
  obtain x n where 1: "statusPart hi req e w = (Inr x, w\<lparr>w_stmt := n\<rparr>)"
    and x: "req = ''sbd'' \<longrightarrow> (\<exists>v. x = Some v \<and> tellsRunning (co_running (w_core w)) v)"
    using calm_statusPart [OF assms(1), of req] Cons.prems unfolding calm_def by blast
  let ?st = "case x of None \<Rightarrow> st | Some v \<Rightarrow> oset req v st"
  have k: "req = ''sbd'' \<or> knowsCore (co_running (w_core w)) st \<longrightarrow> knowsCore (co_running (w_core w)) ?st"
    using x by (cases x) (auto simp: knowsCore_def update_conv)
  obtain st' m where 2: "foldA (statusStep hi) reqs ?st e
      (w\<lparr>w_stmt := n\<rparr>) = (Inr st', w\<lparr>w_stmt := n\<rparr>\<lparr>w_stmt := m\<rparr>)"
    "''sbd'' \<in> set reqs \<or> knowsCore (co_running (w_core w)) ?st \<longrightarrow> knowsCore (co_running (w_core w)) st'"
    using Cons.IH [of "w\<lparr>w_stmt := n\<rparr>" ?st] Cons.prems by auto
  have "statusStep hi req st e w = (Inr ?st, w\<lparr>w_stmt := n\<rparr>)" using 1 by (simp add: statusStep_def)
  then show ?case using 2 k by (intro exI [of _ st'] exI [of _ m]) auto
qed

text \<open>
  Asking for the state of the panel is always safe and true: in every state the panel can reach, whatever parts are asked for, the answer is
  given without a panic and without changing anything, and the part about the core says whether it runs.  The core that runs
  always has the instance whose age is reported.  Of the host it takes that it names a processor and no address shorter than six characters.
\<close>

lemma status_is_safe:
  assumes "reaches allowed w0 w" "alive w0" "hostOk hi"
  shows "\<exists>st n. GetStatus hi request e w = (Inr st, w\<lparr>w_stmt := n\<rparr>) \<and>
    (''sbd'' \<in> set (split request '','') \<longrightarrow> (\<exists>v. map_of st ''sbd'' = Some v \<and> tellsRunning (co_running (w_core w)) v))"
proof -
  have "instanced w" using reaches_alive [OF assms(1,2)] by (simp add: alive_def instanced_def)
  from status_run [OF assms(3) this, of "split request '',''" "[]" e] show ?thesis
    unfolding GetStatus_def knowsCore_def by blast
qed

definition exampleHost :: hostinfo where
  "exampleHost = \<lparr>hi_cpu = Some [JNum 3], hi_mem = Some (1, 2), hi_disk = None, hi_swap = None, hi_diskIO = Some [(1, 2), (3, 4)],
     hi_netIO = Some [], hi_cpuModels = None, hi_interfaces = [([''up'', ''broadcast'', ''multicast''], [''10.0.0.2/24'', ''fe80::1/64'', ''2001:db8::1/64''])],
     hi_cpuCount = 2, hi_hostName = ''panel'', hi_version = ''1.0.0'', hi_bootTime = 0, hi_sys = 0, hi_alloc = 0, hi_goroutines = 7, hi_uptime = 12\<rparr>"

theorem status_is_safe_witness:
  "\<exists>st n v. GetStatus exampleHost ''sys,sbd,db'' quietEnv idleWorld = (Inr st, idleWorld\<lparr>w_stmt := n\<rparr>) \<and>
     map_of st ''sbd'' = Some v \<and> tellsRunning False v"
proof -
  have a: "alive idleWorld" by (simp add: alive_def idle_simps)
  have h: "hostOk exampleHost" by (simp add: hostOk_def exampleHost_def)
  have s: "''sbd'' \<in> set (split ''sys,sbd,db'' '','')" by code_simp
  show ?thesis
    using status_is_safe [OF reaches.start a h, of "''sys,sbd,db''" quietEnv] s by (auto simp: idle_simps)
qed

section \<open>The totals\<close>

lemma GetDatabaseInfo_sound:
  assumes "\<And>n. \<not> e_dbfail e n"
  shows "fst (GetDatabaseInfo e w) = Inr [(''clients'', int (length (db_clients (w_db w)))), (''inbounds'', int (length (db_inbounds (w_db w)))),
    (''outbounds'', int (length (db_outbounds (w_db w)))), (''services'', int (length (db_services (w_db w)))),
    (''endpoints'', int (length (db_endpoints (w_db w)))),
    (''clientUp'', case sqlSum 0 (map (\<lambda>x. c_up x + c_total_up x) (db_clients (w_db w))) of Inr n \<Rightarrow> n | Inl y \<Rightarrow> 0),
    (''clientDown'', case sqlSum 0 (map (\<lambda>x. c_down x + c_total_down x) (db_clients (w_db w))) of Inr n \<Rightarrow> n | Inl y \<Rightarrow> 0)]"
proof -
  have c: "countRows t e v = (Inr (int (length (t (w_db v)))), v\<lparr>w_stmt := Suc (w_stmt v)\<rparr>)" for t :: "dbase \<Rightarrow> 'r list" and v
    using assms by (simp add: countRows_def orZero_def sqlq_def Let_def)
  have s: "sqlSum acc xs \<noteq> Inl (Panic y)" for acc xs y by (induction xs arbitrary: acc) auto
  have f: "sumClients f e v = (Inr (case sqlSum 0 (map f (db_clients (w_db v))) of Inr n \<Rightarrow> n | Inl y \<Rightarrow> 0), v\<lparr>w_stmt := Suc (w_stmt v)\<rparr>)" for f v
    using assms s by (auto simp: sumClients_def orZero_def sqlq_def Let_def split: sum.split goerr.split)
  show ?thesis by (simp add: GetDatabaseInfo_def bindA_def c f)
qed

text \<open>C30
  The totals of the page do not notice the periodic job: the number of clients and the traffic they have sent and received are shown
  the same before and after it, although it moves the counters of a period to the totals and starts new ones.
\<close>

theorem totals_survive_job:
  assumes "goodIds (db_clients (w_db w))" "DepleteClients e w = (Inr ids, w')"
    and "\<forall>c \<in> set (db_clients (w_db w)). inInt64 (c_total_up c + c_up c) \<and> inInt64 (c_total_down c + c_down c)"
    and "\<And>n. \<not> e_dbfail e2 n" "k \<in> {''clients'', ''clientUp'', ''clientDown''}"
  shows "\<exists>before after. fst (GetDatabaseInfo e2 w) = Inr before \<and> fst (GetDatabaseInfo e2 w') = Inr after \<and> map_of after k = map_of before k"
proof -
  have same: "map f (db_clients (w_db w')) = map f (db_clients (w_db w))"
    if "\<forall>c \<in> set (db_clients (w_db w)). f (jobRow (e_now e) c) = f c" for f :: "client \<Rightarrow> int"
    using assms(2)
  proof (cases rule: DepleteClients_cases)
    case (ran ids' w1 w2)
    then have "db_clients (w_db w2) = map (jobRow (e_now e)) (db_clients (w_db w))"
      using depleteBody_rows [OF ran(3)] assms(1) by simp
    with ran(4) that show ?thesis by auto
  qed simp
  have "map (\<lambda>x. c_up x + c_total_up x) (db_clients (w_db w')) = map (\<lambda>x. c_up x + c_total_up x) (db_clients (w_db w))"
    "map (\<lambda>x. c_down x + c_total_down x) (db_clients (w_db w')) = map (\<lambda>x. c_down x + c_total_down x) (db_clients (w_db w))"
    using assms(3) by (intro same; auto simp: jobRow_def depleteRow_def resetRow_def startOnce_def startPeriodic_def renew_def wrap64_id)+
  moreover have "length (db_clients (w_db w')) = length (db_clients (w_db w))"
    using arg_cong [OF same [of "\<lambda>_. 0"], of length] by simp
  ultimately show ?thesis using assms(5) unfolding GetDatabaseInfo_sound [OF assms(4)] by auto
qed

theorem totals_survive_job_witness:
  "\<exists>ids w' before after. DepleteClients quietEnv (worldWith jobClients) = (Inr ids, w') \<and>
     fst (GetDatabaseInfo quietEnv (worldWith jobClients)) = Inr before \<and> fst (GetDatabaseInfo quietEnv w') = Inr after \<and>
     map_of after ''clientUp'' = map_of before ''clientUp''"
proof -
  have g: "goodIds (db_clients (w_db (worldWith jobClients)))" by (simp add: goodIds_job)
  obtain r w' where r0: "DepleteClients quietEnv (worldWith jobClients) = (r, w')" by fastforce
  have "\<exists>ids. r = Inr ids" using r0 by (cases rule: DepleteClients_cases) auto
  then obtain ids where r: "DepleteClients quietEnv (worldWith jobClients) = (Inr ids, w')" using r0 by auto
  have i: "\<forall>c \<in> set (db_clients (w_db (worldWith jobClients))). inInt64 (c_total_up c + c_up c) \<and> inInt64 (c_total_down c + c_down c)"
    by (simp add: jobClients_def exampleClient_def zeroClient_def inInt64_def minInt64_def maxInt64_def)
  show ?thesis using totals_survive_job [OF g r i, of quietEnv "''clientUp''"] r by (auto simp: quietEnv_def)
qed

end
