(* ===== verification/Cli.thy ===== *)
theory Cli
  imports CoreLife
begin

text \<open>
  \<open>cmd/cmd.go\<close>, \<open>cmd/setting.go\<close> and \<open>cmd/admin.go\<close>: the command line.  A command is an action on the database that gives the lines it prints.  The
  network interfaces, the answers of the services that tell the public address, the migration and the version are
  parameters; a command line the flag package refuses ends the process.
\<close>

section \<open>Printing\<close>

text \<open>\<open>Println\<close> puts a space between its operands.\<close>

definition println :: "string list \<Rightarrow> string" where
  "println ws = joinStr '' '' ws"

type_synonym command = "string list act"

record clienv =
  ce_hasTable :: bool
  ce_interfaces :: "(string list \<times> string list) list"
  ce_publicIP :: "string option list"
  ce_migrate :: "dbase \<Rightarrow> string list \<times> dbase"
  ce_version :: string
  ce_singbox :: "string option"
  ce_usage :: "string list"

text \<open>Every command opens the database first and gives up when that fails.\<close>

definition withDb :: "clienv \<Rightarrow> command \<Rightarrow> command" where
  "withDb ce a = onErr (InitDB (ce_hasTable ce)) (\<lambda>m. retA [m]) (\<lambda>_. a)"

definition report :: "unit act \<Rightarrow> string \<Rightarrow> string \<Rightarrow> command" where
  "report a bad good = onErr a (\<lambda>m. retA [println [bad, m]]) (\<lambda>_. retA [good])"

section \<open>Settings\<close>

definition resetSetting :: "clienv \<Rightarrow> command" where
  "resetSetting ce = withDb ce (report ResetSettings ''reset setting failed:'' ''reset setting success'')"

definition setWhen :: "bool \<Rightarrow> unit act \<Rightarrow> string \<Rightarrow> command" where
  "setWhen c a what = (if c then report a (''set '' @ what @ '' failed:'') (''set '' @ what @ '' success'') else retA [])"

definition cliUpdateSetting :: "clienv \<Rightarrow> int \<Rightarrow> string \<Rightarrow> int \<Rightarrow> string \<Rightarrow> command" where
  "cliUpdateSetting ce port path subPort subPath = withDb ce
     (bindA (setWhen (port > 0) (SetPort port) ''port'') (\<lambda>o1.
      bindA (setWhen (path \<noteq> []) (SetWebPath path) ''path'') (\<lambda>o2.
      bindA (setWhen (subPort > 0) (SetSubPort subPort) ''sub port'') (\<lambda>o3.
      bindA (setWhen (subPath \<noteq> []) (SetSubPath subPath) ''sub path'') (\<lambda>o4.
        retA (o1 @ o2 @ o3 @ o4))))))"

definition valueOf :: "(string \<times> string) list \<Rightarrow> string \<Rightarrow> string" where
  "valueOf m k = (case map_of m k of None \<Rightarrow> [] | Some v \<Rightarrow> v)"

definition ifSet :: "(string \<times> string) list \<Rightarrow> string \<Rightarrow> string \<Rightarrow> string list" where
  "ifSet m k label = (if valueOf m k \<noteq> [] then [println [CHR 0x09 # label @ [CHR 0x09], valueOf m k]] else [])"

definition settingLines :: "(string \<times> string) list \<Rightarrow> string list" where
  "settingLines m =
     [''Current panel settings:'', println [CHR 0x09 # ''Panel port:'' @ [CHR 0x09], valueOf m ''webPort''],
      println [CHR 0x09 # ''Panel path:'' @ [CHR 0x09], valueOf m ''webPath'']] @
     ifSet m ''webListen'' ''Panel IP:'' @ ifSet m ''webDomain'' ''Panel Domain:'' @ ifSet m ''webURI'' ''Panel URI:'' @
     [[], ''Current subscription settings:'', println [CHR 0x09 # ''Sub port:'' @ [CHR 0x09], valueOf m ''subPort''],
      println [CHR 0x09 # ''Sub path:'' @ [CHR 0x09], valueOf m ''subPath'']] @
     ifSet m ''subListen'' ''Sub IP:'' @ ifSet m ''subDomain'' ''Sub Domain:'' @ ifSet m ''subURI'' ''Sub URI:''"

text \<open>An error is printed, and then the settings that were not read are dereferenced.\<close>

definition showSetting :: "clienv \<Rightarrow> command" where
  "showSetting ce = withDb ce (onErr GetAllSetting (\<lambda>m. failA (Panic ''nil pointer dereference'')) (\<lambda>s. retA (settingLines s)))"

section \<open>Addresses\<close>

definition trimSpace :: "string \<Rightarrow> string" where
  "trimSpace s = (let sp = (\<lambda>c. c \<in> set [CHR 0x09, CHR 0x0A, CHR 0x0B, CHR 0x0C, CHR 0x0D, CHR '' '']) in
     rev (dropWhile sp (rev (dropWhile sp s))))"

text \<open>The answers in the order they arrive; the first that is not empty.\<close>

definition getPublicIP :: "string option list \<Rightarrow> string" where
  "getPublicIP rs = (case filter (\<lambda>r. r \<noteq> None \<and> r \<noteq> Some []) rs of Some b # _ \<Rightarrow> trimSpace b | _ \<Rightarrow> [])"

definition ifaceUp :: "string list \<Rightarrow> bool" where
  "ifaceUp flags \<longleftrightarrow> length flags > 2 \<and> flags ! 0 = ''up'' \<and> flags ! 1 \<noteq> ''loopback''"

definition localLine :: "string \<Rightarrow> string \<Rightarrow> string \<Rightarrow> string list res" where
  "localLine proto rest addr = (let ip = hd (split addr ''/'') in
     if CHR ''.'' \<in> set addr then Inr [proto @ ip @ rest]
     else if length addr < 6 then Inl (Panic ''slice bounds out of range'')
     else Inr (if take 6 addr = ''fe80::'' then [] else [proto @ ''['' @ ip @ '']'' @ rest]))"

text \<open>The errors of the reads are dropped; a port that is no number counts as what \<open>Atoi\<close> left of it.\<close>

definition getPanelURI :: "clienv \<Rightarrow> command" where
  "getPanelURI ce = withDb ce
     (bindA (dropErr [] (getString ''webPort'')) (\<lambda>portText. let port = fst (atoi portText) in
      bindA (dropErr [] GetWebPath) (\<lambda>base.
      bindA (dropErr [] GetListen) (\<lambda>listen.
      bindA (dropErr [] GetWebDomain) (\<lambda>domain.
      bindA (dropErr [] GetKeyFile) (\<lambda>key.
      bindA (dropErr [] GetCertFile) (\<lambda>cert.
        let tls = (key \<noteq> [] \<and> cert \<noteq> []);
            proto = (if tls then ''https://'' else ''http://'');
            portText = (if port = 443 \<and> tls \<or> port = 80 \<and> \<not> tls then [] else '':'' @ itoa port);
            rest = portText @ base
        in if domain \<noteq> [] then retA [proto @ domain @ rest]
           else if listen \<noteq> [] then retA [proto @ listen @ rest]
           else bindA (liftR (mapR (localLine proto rest) (concat (map snd (filter (\<lambda>i. ifaceUp (fst i)) (ce_interfaces ce)))))) (\<lambda>ls.
             let pub = getPublicIP (ce_publicIP ce) in
             retA ([''Local address:''] @ concat ls @ (if pub \<noteq> [] then [[], ''Global address:'', proto @ pub @ rest] else []))))))))))"

section \<open>The first operator\<close>

definition resetAdmin :: "clienv \<Rightarrow> command" where
  "resetAdmin ce = withDb ce (report (UpdateFirstUser ''admin'' ''admin'') ''reset admin credentials failed:'' ''reset admin credentials success'')"

definition updateAdmin :: "clienv \<Rightarrow> string \<Rightarrow> string \<Rightarrow> command" where
  "updateAdmin ce username password = withDb ce
     (if username \<noteq> [] \<or> password \<noteq> [] then
        report (UpdateFirstUser username password) ''reset admin credentials failed:'' ''reset admin credentials success''
      else retA [])"

definition showAdmin :: "clienv \<Rightarrow> command" where
  "showAdmin ce = withDb ce (onErr GetFirstUser (\<lambda>m. failA (Panic ''nil pointer dereference''))
     (\<lambda>u. retA ((if u_username u = [] \<or> u_password u = [] then [''current username or password is empty''] else []) @
       [''First admin credentials:'', println [CHR 0x09 # ''Username:'' @ [CHR 0x09], u_username u],
        println [CHR 0x09 # ''Password:'' @ [CHR 0x09], u_password u]])))"

section \<open>Flags\<close>

text \<open>The flag package: values, what follows the flags, or the exit of the process (status 0 for help, 2 otherwise).\<close>

datatype flagval = FBool bool | FInt int | FStr string

datatype parsed = Parsed "(string \<times> flagval) list" "string list" | ExitFlags nat

definition digitIn :: "nat \<Rightarrow> char \<Rightarrow> nat option" where
  "digitIn base c = (let n = of_char c :: nat;
       d = (if isDigit c then n - 48 else if 97 \<le> n \<and> n \<le> 122 then n - 87 else if 65 \<le> n \<and> n \<le> 90 then n - 55 else 99)
     in if d < base then Some d else None)"

fun digitsIn :: "nat \<Rightarrow> nat \<Rightarrow> string \<Rightarrow> nat option" where
  "digitsIn base acc [] = Some acc"
| "digitsIn base acc (c # cs) = (if c = CHR ''_'' then digitsIn base acc cs
     else case digitIn base c of None \<Rightarrow> None | Some d \<Rightarrow> digitsIn base (acc * base + d) cs)"

text \<open>\<open>underscoreOK\<close>: underscores only between digits, the prefix of the base counting as one.\<close>

fun underscores :: "bool \<Rightarrow> char \<Rightarrow> string \<Rightarrow> bool" where
  "underscores hex prev [] = (prev \<noteq> CHR ''_'')"
| "underscores hex prev (c # cs) =
     (if isDigit c \<or> hex \<and> digitIn 16 c \<noteq> None then underscores hex (CHR ''0'') cs
      else if c = CHR ''_'' then prev = CHR ''0'' \<and> underscores hex (CHR ''_'') cs
      else prev \<noteq> CHR ''_'' \<and> underscores hex (CHR ''!'') cs)"

definition prefixBase :: "string \<Rightarrow> (nat \<times> string) option" where
  "prefixBase s = (case s of z # x # r \<Rightarrow>
       if z = CHR ''0'' then
         (if x \<in> set ''xX'' then Some (16, r) else if x \<in> set ''bB'' then Some (2, r) else if x \<in> set ''oO'' then Some (8, r) else None)
       else None
     | _ \<Rightarrow> None)"

definition parseUint0 :: "string \<Rightarrow> nat option" where
  "parseUint0 s =
     (if s = [] then None
      else let (base, body) = (if hd s \<noteq> CHR ''0'' then (10, s)
             else case prefixBase s of Some (b, r) \<Rightarrow> if r \<noteq> [] then (b, r) else (8, tl s) | None \<Rightarrow> (8, tl s));
           ok = (case prefixBase s of Some (b, r) \<Rightarrow> underscores (b = 16) (CHR ''0'') r | None \<Rightarrow> underscores False (CHR ''^'') s)
        in if CHR ''_'' \<in> set body \<and> \<not> ok then None else digitsIn base 0 body)"

definition parseInt0 :: "string \<Rightarrow> int option" where
  "parseInt0 s = (let (neg, body) = (case s of [] \<Rightarrow> (False, []) | c # r \<Rightarrow> if c = CHR ''-'' then (True, r) else if c = CHR ''+'' then (False, r) else (False, s))
     in case parseUint0 body of None \<Rightarrow> None
        | Some n \<Rightarrow> let v = (if neg then - int n else int n) in if inInt64 v then Some v else None)"

definition setFlag :: "flagval \<Rightarrow> string \<Rightarrow> flagval option" where
  "setFlag f v = (case f of FBool _ \<Rightarrow> (case parseBool v of Inr b \<Rightarrow> Some (FBool b) | Inl _ \<Rightarrow> None)
     | FInt _ \<Rightarrow> map_option FInt (parseInt0 v) | FStr _ \<Rightarrow> Some (FStr v))"

text \<open>\<open>-name\<close>, \<open>--name\<close> and \<open>-name=value\<close>.\<close>

definition dashes :: "string \<Rightarrow> string" where
  "dashes a = (if hasPrefix a ''--'' then drop 2 a else drop 1 a)"

definition nameValue :: "string \<Rightarrow> string \<times> string option" where
  "nameValue s = (case s of [] \<Rightarrow> ([], None)
     | c # r \<Rightarrow> if CHR ''='' \<in> set r then (c # takeWhile (\<lambda>x. x \<noteq> CHR ''='') r, Some (tl (dropWhile (\<lambda>x. x \<noteq> CHR ''='') r))) else (s, None))"

fun parseFlags :: "(string \<times> flagval) list \<Rightarrow> string list \<Rightarrow> parsed" where
  "parseFlags fs [] = Parsed fs []"
| "parseFlags fs (a # as) =
     (if length a < 2 \<or> hd a \<noteq> CHR ''-'' then Parsed fs (a # as)
      else if a = ''--'' then Parsed fs as
      else let name = dashes a in
        if name = [] \<or> hd name \<in> set ''-='' then ExitFlags 2
        else case nameValue name of (n, v) \<Rightarrow>
          (case map_of fs n of
             None \<Rightarrow> ExitFlags (if n \<in> set [''help'', ''h''] then 0 else 2)
           | Some (FBool b) \<Rightarrow> (case setFlag (FBool b) (case v of None \<Rightarrow> ''true'' | Some x \<Rightarrow> x) of
                 None \<Rightarrow> ExitFlags 2 | Some f \<Rightarrow> parseFlags (AList.update n f fs) as)
           | Some d \<Rightarrow> (case v of
                 Some x \<Rightarrow> (case setFlag d x of None \<Rightarrow> ExitFlags 2 | Some f \<Rightarrow> parseFlags (AList.update n f fs) as)
               | None \<Rightarrow> (case as of [] \<Rightarrow> ExitFlags 2
                   | x # as' \<Rightarrow> (case setFlag d x of None \<Rightarrow> ExitFlags 2 | Some f \<Rightarrow> parseFlags (AList.update n f fs) as')))))"

section \<open>Commands\<close>

definition settingFlags :: "(string \<times> flagval) list" where
  "settingFlags = [(''reset'', FBool False), (''show'', FBool False), (''port'', FInt 0), (''path'', FStr []), (''subPort'', FInt 0), (''subPath'', FStr [])]"

definition adminFlags :: "(string \<times> flagval) list" where
  "adminFlags = [(''show'', FBool False), (''reset'', FBool False), (''username'', FStr []), (''password'', FStr [])]"

definition flagBool :: "(string \<times> flagval) list \<Rightarrow> string \<Rightarrow> bool" where
  "flagBool fs n \<longleftrightarrow> map_of fs n = Some (FBool True)"

definition flagInt :: "(string \<times> flagval) list \<Rightarrow> string \<Rightarrow> int" where
  "flagInt fs n = (case map_of fs n of Some (FInt i) \<Rightarrow> i | _ \<Rightarrow> 0)"

definition flagStr :: "(string \<times> flagval) list \<Rightarrow> string \<Rightarrow> string" where
  "flagStr fs n = (case map_of fs n of Some (FStr s) \<Rightarrow> s | _ \<Rightarrow> [])"

definition exitA :: "nat \<Rightarrow> command" where
  "exitA n = failA (Err (''exit '' @ itoa (int n)))"

definition both :: "command \<Rightarrow> command \<Rightarrow> command" where
  "both a b = bindA a (\<lambda>x. bindA b (\<lambda>y. retA (x @ y)))"

definition adminCommand :: "clienv \<Rightarrow> string list \<Rightarrow> command" where
  "adminCommand ce args = (case parseFlags adminFlags args of
       ExitFlags n \<Rightarrow> exitA n
     | Parsed fs _ \<Rightarrow> if flagBool fs ''show'' then showAdmin ce
         else if flagBool fs ''reset'' then resetAdmin ce
         else both (updateAdmin ce (flagStr fs ''username'') (flagStr fs ''password'')) (showAdmin ce))"

definition settingCommand :: "clienv \<Rightarrow> string list \<Rightarrow> command" where
  "settingCommand ce args = (case parseFlags settingFlags args of
       ExitFlags n \<Rightarrow> exitA n
     | Parsed fs _ \<Rightarrow> if flagBool fs ''show'' then showSetting ce
         else if flagBool fs ''reset'' then resetSetting ce
         else both (cliUpdateSetting ce (flagInt fs ''port'') (flagStr fs ''path'') (flagInt fs ''subPort'') (flagStr fs ''subPath'')) (showSetting ce))"

definition versionLines :: "clienv \<Rightarrow> string list" where
  "versionLines ce = println [''HyPanel'' @ [CHR 0x09], ce_version ce] #
     (case ce_singbox ce of None \<Rightarrow> [] | Some v \<Rightarrow> [println [''Sing-Box'' @ [CHR 0x09], v]])"

text \<open>The migration works on the file, not through the services.\<close>

definition migrateCommand :: "clienv \<Rightarrow> command" where
  "migrateCommand ce = (\<lambda>e w. case ce_migrate ce (w_db w) of (ls, d) \<Rightarrow> (Inr ls, w\<lparr>w_db := d\<rparr>))"

text \<open>\<open>args\<close> is \<open>os.Args[1:]\<close>, which is not empty: \<open>main\<close> runs the server otherwise.\<close>

definition ParseCmd :: "clienv \<Rightarrow> string list \<Rightarrow> command" where
  "ParseCmd ce args = (case parseFlags [(''v'', FBool False)] args of
       ExitFlags n \<Rightarrow> exitA n
     | Parsed fs _ \<Rightarrow> if flagBool fs ''v'' then retA (versionLines ce)
         else if hd args = ''admin'' then adminCommand ce (tl args)
         else if hd args = ''uri'' then getPanelURI ce
         else if hd args = ''migrate'' then migrateCommand ce
         else if hd args = ''setting'' then settingCommand ce (tl args)
         else retA (''Invalid subcommands'' # ce_usage ce))"

section \<open>Runs without failures of the database\<close>

definition sane :: "env \<Rightarrow> bool" where
  "sane e \<longleftrightarrow> (\<forall>n. \<not> e_dbfail e n)"

text \<open>What a command may change: settings, operators and the first outbound.\<close>

definition cliKeeps :: "world \<Rightarrow> world \<Rightarrow> bool" where
  "cliKeeps w w' \<longleftrightarrow> w_core w' = w_core w \<and> db_clients (w_db w') = db_clients (w_db w) \<and> db_inbounds (w_db w') = db_inbounds (w_db w) \<and>
     db_tls (w_db w') = db_tls (w_db w) \<and> db_services (w_db w') = db_services (w_db w) \<and> db_endpoints (w_db w') = db_endpoints (w_db w) \<and>
     db_tokens (w_db w') = db_tokens (w_db w)"

lemma cliKeeps_trans: "cliKeeps w1 w2 \<Longrightarrow> cliKeeps w2 w3 \<Longrightarrow> cliKeeps w1 w3"
  by (simp add: cliKeeps_def)

lemma saveSetting_sound:
  assumes "sane e"
  shows "saveSetting k v e w = (Inr (), w\<lparr>w_stmt := w_stmt w + 2, w_db := (w_db w)\<lparr>db_settings := putSetting k v (db_settings (w_db w))\<rparr>\<rparr>)"
  using assms
  by (auto simp: sane_def saveSetting_def onNotFound_def getSetting_def firstWhere_def sqlq_def sqlx_def sqlu_def Let_def split: list.split)

lemma saveUser_sound:
  assumes "sane e"
  shows "saveUser u e w = (Inr (), w\<lparr>w_stmt := Suc (w_stmt w),
    w_db := (w_db w)\<lparr>db_users := snd (saveRow u_id (\<lambda>n u. u\<lparr>u_id := n\<rparr>) (e_newid e) u (db_users (w_db w)))\<rparr>\<rparr>)"
  using assms by (simp add: sane_def saveUser_def sqlu_def Let_def)

lemma saved_user: "\<exists>x \<in> set (snd (saveRow u_id (\<lambda>n u. u\<lparr>u_id := n\<rparr>) newid u rows)). u_username x = u_username u \<and> u_password x = u_password u"
proof -
  obtain r rs where r: "saveRow u_id (\<lambda>n u. u\<lparr>u_id := n\<rparr>) newid u rows = (r, rs)" by fastforce
  have "r \<in> set rs" using users.saveRow_rows [OF r] by simp
  moreover have "u_username r = u_username u \<and> u_password r = u_password u" using r by (auto simp: saveRow_def Let_def split: if_splits)
  ultimately show ?thesis using r by auto
qed

lemma InitDB_sound:
  assumes "sane e"
  obtains w1 where "InitDB h e w = (Inr (), w1)" "cliKeeps w w1" "db_settings (w_db w1) = db_settings (w_db w)" "db_users (w_db w1) \<noteq> []"
    "db_users (w_db w) \<noteq> [] \<longrightarrow> db_users (w_db w1) = db_users (w_db w)"
proof -
  obtain r w0 where 0: "(if h then retA () else logErr (bindA (saveOutbound \<lparr>o_id = 0, o_type = ''direct'', o_tag = ''direct'',
      o_options = RText (JObj [])\<rparr>) (\<lambda>_. retA ()))) e w = (r, w0)" by fastforce
  have r: "r = Inr () \<and> cliKeeps w w0 \<and> db_settings (w_db w0) = db_settings (w_db w) \<and> db_users (w_db w0) = db_users (w_db w)"
    using 0 assms by (auto simp: saveOutbound_def sqlu_def sane_def logErr_def bindA_def bindR_def saveTagged_def uniqueErr_def cliKeeps_def Let_def
        split: if_splits prod.splits sum.splits)
  let ?w1 = "w0\<lparr>w_stmt := Suc (w_stmt w0)\<rparr>" and ?w2 = "w0\<lparr>w_stmt := Suc (Suc (w_stmt w0))\<rparr>"
  have d: "sqlx (\<lambda>d. d) e w0 = (Inr (), ?w1)" using assms by (simp add: sane_def sqlx_def sqlu_def Let_def)
  have q: "rowsWhere db_users (\<lambda>_. True) e ?w1 = (Inr (db_users (w_db w0)), ?w2)"
    using assms by (simp add: sane_def rowsWhere_def sqlq_def Let_def)
  have i: "InitDB h e w = initUser e ?w1" using 0 r d by (simp add: InitDB_def)
  show thesis
  proof (cases "db_users (w_db w0) = []")
    case True
    let ?u = "zeroUser\<lparr>u_username := ''admin'', u_password := ''admin''\<rparr>"
    let ?us = "snd (saveRow u_id (\<lambda>n u. u\<lparr>u_id := n\<rparr>) (e_newid e) ?u (db_users (w_db w0)))"
    let ?w3 = "?w2\<lparr>w_stmt := Suc (w_stmt ?w2), w_db := (w_db ?w2)\<lparr>db_users := ?us\<rparr>\<rparr>"
    have run: "InitDB h e w = (Inr (), ?w3)"
      unfolding i initUser_def using q True saveUser_sound [OF assms, of ?u ?w2] by simp
    have ne: "?us \<noteq> []" using saved_user [of "e_newid e" ?u "db_users (w_db w0)"] by auto
    show thesis by (rule that [OF run]) (use r ne True in \<open>simp_all add: cliKeeps_def\<close>)
  next
    case False
    then have run: "InitDB h e w = (Inr (), ?w2)" unfolding i initUser_def using q by simp
    show thesis by (rule that [OF run]) (use r False in \<open>simp_all add: cliKeeps_def\<close>)
  qed
qed

lemma withDb_sound:
  assumes "sane e"
  obtains w1 where "withDb ce a e w = a e w1" "cliKeeps w w1" "db_settings (w_db w1) = db_settings (w_db w)" "db_users (w_db w1) \<noteq> []"
    "db_users (w_db w) \<noteq> [] \<longrightarrow> db_users (w_db w1) = db_users (w_db w)"
proof -
  obtain w1 where i: "InitDB (ce_hasTable ce) e w = (Inr (), w1)" "cliKeeps w w1" "db_settings (w_db w1) = db_settings (w_db w)"
    "db_users (w_db w1) \<noteq> []" "db_users (w_db w) \<noteq> [] \<longrightarrow> db_users (w_db w1) = db_users (w_db w)"
    by (rule InitDB_sound [OF assms])
  have "withDb ce a e w = a e w1" using i(1) by (simp add: withDb_def onErr_def)
  then show thesis using i(2-) by (rule that)
qed

section \<open>The first operator\<close>

lemma UpdateFirstUser_sound:
  assumes "sane e" "u \<noteq> []" "p \<noteq> []" "db_users (w_db w) \<noteq> []"
  shows "\<exists>w1. UpdateFirstUser u p e w = (Inr (), w1) \<and> cliKeeps w w1 \<and> (\<exists>x \<in> set (db_users (w_db w1)). u_username x = u \<and> u_password x = p)"
proof -
  obtain y ys where y: "db_users (w_db w) = y # ys" using assms(4) by (cases "db_users (w_db w)") auto
  let ?x = "y\<lparr>u_username := u, u_password := p\<rparr>"
  have "UpdateFirstUser u p e w = saveUser ?x e (w\<lparr>w_stmt := Suc (w_stmt w)\<rparr>)"
    using assms y by (simp add: UpdateFirstUser_def onMissing_def GetFirstUser_def firstWhere_def sqlq_def sane_def Let_def)
  then show ?thesis
    using saved_user [of "e_newid e" ?x] by (auto simp: saveUser_sound [OF assms(1)] cliKeeps_def)
qed

lemma showAdmin_sound:
  assumes "sane e"
  shows "\<exists>out w1. showAdmin ce e w = (Inr out, w1) \<and> cliKeeps w w1 \<and> (db_users (w_db w) \<noteq> [] \<longrightarrow> db_users (w_db w1) = db_users (w_db w))"
proof -
  let ?a = "onErr GetFirstUser (\<lambda>m. failA (Panic ''nil pointer dereference''))
     (\<lambda>u. retA ((if u_username u = [] \<or> u_password u = [] then [''current username or password is empty''] else []) @
       [''First admin credentials:'', println [CHR 0x09 # ''Username:'' @ [CHR 0x09], u_username u],
        println [CHR 0x09 # ''Password:'' @ [CHR 0x09], u_password u]]))"
  obtain w1 where 1: "withDb ce ?a e w = ?a e w1" "cliKeeps w w1" "db_users (w_db w1) \<noteq> []"
    "db_users (w_db w) \<noteq> [] \<longrightarrow> db_users (w_db w1) = db_users (w_db w)"
    by (rule withDb_sound [OF assms])
  obtain y ys where y: "db_users (w_db w1) = y # ys" using 1(3) by (cases "db_users (w_db w1)") auto
  then have "GetFirstUser e w1 = (Inr y, w1\<lparr>w_stmt := Suc (w_stmt w1)\<rparr>)"
    using assms by (simp add: GetFirstUser_def firstWhere_def sqlq_def sane_def Let_def)
  then have "\<exists>out. showAdmin ce e w = (Inr out, w1\<lparr>w_stmt := Suc (w_stmt w1)\<rparr>)"
    unfolding showAdmin_def 1(1) by (simp add: onErr_def)
  moreover have "cliKeeps w (w1\<lparr>w_stmt := Suc (w_stmt w1)\<rparr>)" using 1(2) by (simp add: cliKeeps_def)
  ultimately show ?thesis using 1(4) by auto
qed

lemma admin_args:
  "parseFlags adminFlags [''-username'', u, ''-password'', p] =
     Parsed [(''show'', FBool False), (''reset'', FBool False), (''username'', FStr u), (''password'', FStr p)] []"
  "parseFlags adminFlags [''-reset''] = Parsed [(''show'', FBool False), (''reset'', FBool True), (''username'', FStr []), (''password'', FStr [])] []"
  "parseFlags [(''v'', FBool False)] (''admin'' # as) = Parsed [(''v'', FBool False)] (''admin'' # as)"
  "parseFlags [(''v'', FBool False)] (''setting'' # as) = Parsed [(''v'', FBool False)] (''setting'' # as)"
  by (simp_all add: adminFlags_def dashes_def hasPrefix_def nameValue_def setFlag_def parseBool_def)

declare parseFlags.simps [simp del]


definition cliEx :: clienv where
  "cliEx = \<lparr>ce_hasTable = True, ce_interfaces = [], ce_publicIP = [], ce_migrate = (\<lambda>d. ([], d)), ce_version = ''1.0.0'', ce_singbox = None, ce_usage = []\<rparr>"

lemma quiet_sane: "sane quietEnv"
  by (simp add: sane_def)


section \<open>Settings from the command line\<close>

text \<open>The settings the flags ask for.\<close>

definition wantedSettings :: "(string \<times> flagval) list \<Rightarrow> (string \<times> string) list" where
  "wantedSettings fs =
     (if flagInt fs ''port'' > 0 then [(''webPort'', itoa (flagInt fs ''port''))] else []) @
     (if flagStr fs ''path'' \<noteq> [] then [(''webPath'', normPath (flagStr fs ''path''))] else []) @
     (if flagInt fs ''subPort'' > 0 then [(''subPort'', itoa (flagInt fs ''subPort''))] else []) @
     (if flagStr fs ''subPath'' \<noteq> [] then [(''subPath'', normPath (flagStr fs ''subPath''))] else [])"

lemma setWhen_sound:
  assumes "sane e"
  obtains out w1 where "setWhen c (setString k v) what e w = (Inr out, w1)" "cliKeeps w w1"
    "db_settings (w_db w1) = fold (\<lambda>(k, v). putSetting k v) (if c then [(k, v)] else []) (db_settings (w_db w))"
proof (cases c)
  case True
  let ?w1 = "w\<lparr>w_stmt := w_stmt w + 2, w_db := (w_db w)\<lparr>db_settings := putSetting k v (db_settings (w_db w))\<rparr>\<rparr>"
  have "setWhen c (setString k v) what e w = (Inr [''set '' @ what @ '' success''], ?w1)"
    using True saveSetting_sound [OF assms, of k v w] by (simp add: setWhen_def report_def onErr_def setString_def)
  then show thesis by (rule that) (use True in \<open>simp_all add: cliKeeps_def\<close>)
next
  case False
  then have "setWhen c (setString k v) what e w = (Inr [], w)" by (simp add: setWhen_def)
  then show thesis by (rule that) (use False in \<open>simp_all add: cliKeeps_def\<close>)
qed

lemma cliUpdateSetting_sound:
  assumes "sane e"
  obtains out w1 where "cliUpdateSetting ce (flagInt fs ''port'') (flagStr fs ''path'') (flagInt fs ''subPort'') (flagStr fs ''subPath'') e w = (Inr out, w1)"
    "cliKeeps w w1" "db_settings (w_db w1) = fold (\<lambda>(k, v). putSetting k v) (wantedSettings fs) (db_settings (w_db w))"
proof -
  let ?p = "flagInt fs ''port''" and ?q = "flagStr fs ''path''" and ?r = "flagInt fs ''subPort''" and ?s = "flagStr fs ''subPath''"
  let ?a = "bindA (setWhen (?p > 0) (SetPort ?p) ''port'') (\<lambda>o1.
      bindA (setWhen (?q \<noteq> []) (SetWebPath ?q) ''path'') (\<lambda>o2.
      bindA (setWhen (?r > 0) (SetSubPort ?r) ''sub port'') (\<lambda>o3.
      bindA (setWhen (?s \<noteq> []) (SetSubPath ?s) ''sub path'') (\<lambda>o4.
        retA (o1 @ o2 @ o3 @ o4)))))"
  obtain w0 where 0: "withDb ce ?a e w = ?a e w0" "cliKeeps w w0" "db_settings (w_db w0) = db_settings (w_db w)"
    by (rule withDb_sound [OF assms])
  obtain o1 w1 where 1: "setWhen (?p > 0) (setString ''webPort'' (itoa ?p)) ''port'' e w0 = (Inr o1, w1)" "cliKeeps w0 w1"
    "db_settings (w_db w1) = fold (\<lambda>(k, v). putSetting k v) (if ?p > 0 then [(''webPort'', itoa ?p)] else []) (db_settings (w_db w0))"
    by (rule setWhen_sound [OF assms])
  obtain o2 w2 where 2: "setWhen (?q \<noteq> []) (setString ''webPath'' (normPath ?q)) ''path'' e w1 = (Inr o2, w2)" "cliKeeps w1 w2"
    "db_settings (w_db w2) = fold (\<lambda>(k, v). putSetting k v) (if ?q \<noteq> [] then [(''webPath'', normPath ?q)] else []) (db_settings (w_db w1))"
    by (rule setWhen_sound [OF assms])
  obtain o3 w3 where 3: "setWhen (?r > 0) (setString ''subPort'' (itoa ?r)) ''sub port'' e w2 = (Inr o3, w3)" "cliKeeps w2 w3"
    "db_settings (w_db w3) = fold (\<lambda>(k, v). putSetting k v) (if ?r > 0 then [(''subPort'', itoa ?r)] else []) (db_settings (w_db w2))"
    by (rule setWhen_sound [OF assms])
  obtain o4 w4 where 4: "setWhen (?s \<noteq> []) (setString ''subPath'' (normPath ?s)) ''sub path'' e w3 = (Inr o4, w4)" "cliKeeps w3 w4"
    "db_settings (w_db w4) = fold (\<lambda>(k, v). putSetting k v) (if ?s \<noteq> [] then [(''subPath'', normPath ?s)] else []) (db_settings (w_db w3))"
    by (rule setWhen_sound [OF assms])
  have "cliUpdateSetting ce ?p ?q ?r ?s e w = ?a e w0" unfolding cliUpdateSetting_def by (rule 0(1))
  also have "\<dots> = (Inr (o1 @ o2 @ o3 @ o4), w4)"
    unfolding SetPort_def SetWebPath_def SetSubPort_def SetSubPath_def setInt_def using 1(1) 2(1) 3(1) 4(1) by simp
  finally have "cliUpdateSetting ce ?p ?q ?r ?s e w = (Inr (o1 @ o2 @ o3 @ o4), w4)" .
  moreover have "cliKeeps w w4" using 0(2) 1(2) 2(2) 3(2) 4(2) cliKeeps_trans by blast
  moreover have "db_settings (w_db w4) = fold (\<lambda>(k, v). putSetting k v) (wantedSettings fs) (db_settings (w_db w))"
    unfolding wantedSettings_def fold_append comp_def 0(3) [symmetric] using 1(3) 2(3) 3(3) 4(3) by (simp only: )
  ultimately show thesis by (rule that)
qed

text \<open>Showing the settings adds the missing ones and changes none.\<close>

definition addsOnly :: "world \<Rightarrow> world \<Rightarrow> bool" where
  "addsOnly w w' \<longleftrightarrow> cliKeeps w w' \<and> (\<forall>k v. settingOf k (db_settings (w_db w)) = Some v \<longrightarrow> settingOf k (db_settings (w_db w')) = Some v)"

lemma fillDefaults_sound:
  assumes "sane e" "\<forall>k. settingOf k (db_settings (w_db w)) \<noteq> None \<longrightarrow> map_of m k \<noteq> None"
  shows "\<exists>m' w'. foldA (\<lambda>(k, v) m. if map_of m k \<noteq> None then retA m
         else thenA (saveSetting k v) (retA (AList.update k v m))) defs m e w = (Inr m', w') \<and> addsOnly w w'"
  using assms(2)
proof (induction defs arbitrary: m w)
  case Nil
  then show ?case by (simp add: addsOnly_def cliKeeps_def)
next
  case (Cons d defs)
  obtain k v where d: "d = (k, v)" by (cases d)
  show ?case
  proof (cases "map_of m k")
    case (Some x)
    then show ?thesis using Cons by (simp add: d)
  next
    case None
    let ?w1 = "w\<lparr>w_stmt := w_stmt w + 2, w_db := (w_db w)\<lparr>db_settings := putSetting k v (db_settings (w_db w))\<rparr>\<rparr>"
    have "\<forall>q. settingOf q (db_settings (w_db ?w1)) \<noteq> None \<longrightarrow> map_of (AList.update k v m) q \<noteq> None"
      using Cons.prems by (auto simp: settings.get_put_iff update_conv)
    then obtain m' w' where 1: "foldA (\<lambda>(k, v) m. if map_of m k \<noteq> None then retA m
         else thenA (saveSetting k v) (retA (AList.update k v m))) defs (AList.update k v m) e ?w1 = (Inr m', w')" "addsOnly ?w1 w'"
      using Cons.IH by blast
    have "settingOf k (db_settings (w_db w)) = None" using Cons.prems None by blast
    then have "addsOnly w ?w1" by (auto simp: addsOnly_def cliKeeps_def settings.get_put_iff)
    then have "addsOnly w w'" using 1(2) cliKeeps_trans unfolding addsOnly_def by blast
    then show ?thesis using 1(1) None saveSetting_sound [OF assms(1), of k v w] by (simp add: d)
  qed
qed

lemma settings_map: "settingOf k rows \<noteq> None \<Longrightarrow> map_of (fold (\<lambda>s m. AList.update (s_key s) (s_value s) m) rows m) k \<noteq> None"
proof -
  have keep: "map_of m k \<noteq> None \<Longrightarrow> map_of (fold (\<lambda>s m. AList.update (s_key s) (s_value s) m) rows m) k \<noteq> None" for rows m
    by (induction rows arbitrary: m) (auto simp: update_conv)
  show "settingOf k rows \<noteq> None \<Longrightarrow> ?thesis"
  proof (induction rows arbitrary: m)
    case (Cons a rows)
    show ?case
    proof (cases "s_key a = k")
      case True
      then show ?thesis using keep [of "AList.update (s_key a) (s_value a) m" rows] by (simp add: update_conv)
    next
      case False
      then have "settingOf k rows \<noteq> None" using Cons.prems by (simp add: settingOf_def)
      then show ?thesis using Cons.IH by simp
    qed
  qed (simp add: settingOf_def)
qed

lemma showSetting_sound:
  assumes "sane e"
  shows "\<exists>out w1. showSetting ce e w = (Inr out, w1) \<and> addsOnly w w1"
proof -
  let ?a = "onErr GetAllSetting (\<lambda>m. failA (Panic ''nil pointer dereference'')) (\<lambda>s. retA (settingLines s))"
  obtain w1 where 1: "withDb ce ?a e w = ?a e w1" "cliKeeps w w1" "db_settings (w_db w1) = db_settings (w_db w)"
    by (rule withDb_sound [OF assms])
  let ?w2 = "w1\<lparr>w_stmt := Suc (w_stmt w1)\<rparr>"
  let ?m = "fold (\<lambda>s m. AList.update (s_key s) (s_value s) m) (db_settings (w_db w1)) []"
  have "\<forall>k. settingOf k (db_settings (w_db ?w2)) \<noteq> None \<longrightarrow> map_of ?m k \<noteq> None"
    using settings_map by simp
  from fillDefaults_sound [OF assms this] obtain m' w3 where 3: "foldA (\<lambda>(k, v) m. if map_of m k \<noteq> None then retA m
         else thenA (saveSetting k v) (retA (AList.update k v m))) (defaultValueMap e) ?m e ?w2 = (Inr m', w3)" "addsOnly ?w2 w3" by blast
  have "rowsWhere db_settings (\<lambda>_. True) e w1 = (Inr (db_settings (w_db w1)), ?w2)"
    using assms by (simp add: rowsWhere_def sqlq_def sane_def Let_def)
  then have "\<exists>s. GetAllSetting e w1 = (Inr s, w3)" using 3(1) unfolding GetAllSetting_def by (simp add: Let_def)
  then have "\<exists>out. showSetting ce e w = (Inr out, w3)" unfolding showSetting_def 1(1) by (auto simp: onErr_def)
  moreover have "addsOnly w w3" using 3(2) 1(2,3) by (auto simp: addsOnly_def cliKeeps_def)
  ultimately show ?thesis by blast
qed

lemma wanted_keys: "distinct (map fst (wantedSettings fs))" "set (map fst (wantedSettings fs)) \<subseteq> {''webPort'', ''webPath'', ''subPort'', ''subPath''}"
  by (auto simp: wantedSettings_def)

lemma fold_put: "distinct (map fst kvs) \<Longrightarrow> settingOf k (fold (\<lambda>(k, v). putSetting k v) kvs s) = (case map_of kvs k of Some v \<Rightarrow> Some v | None \<Rightarrow> settingOf k s)"
proof (induction kvs arbitrary: s)
  case (Cons kv kvs)
  obtain q v where kv: "kv = (q, v)" by (cases kv)
  show ?case
  proof (cases "k = q")
    case True
    then show ?thesis using Cons.prems settings.get_fold_put [of q kvs "putSetting q v s"] by (simp add: kv settings.get_put_iff)
  next
    case False
    then show ?thesis using Cons by (simp add: kv settings.get_put_iff split: option.split)
  qed
qed simp

text \<open>The numbers the flags give are Go integers.\<close>

definition flagsFit :: "(string \<times> flagval) list \<Rightarrow> bool" where
  "flagsFit fs \<longleftrightarrow> (\<forall>k i. map_of fs k = Some (FInt i) \<longrightarrow> inInt64 i)"

lemma parseInt0_fits: "parseInt0 s = Some i \<Longrightarrow> inInt64 i"
  unfolding parseInt0_def Let_def by (auto split: prod.splits option.splits if_splits)

lemma setFlag_fits: "setFlag d x = Some f \<Longrightarrow> flagsFit fs \<Longrightarrow> flagsFit (AList.update n f fs)"
  by (auto simp: flagsFit_def update_conv setFlag_def parseInt0_fits split: flagval.splits sum.splits if_splits)

lemma parseFlags_fit: "parseFlags fs as = Parsed fs' rest \<Longrightarrow> flagsFit fs \<Longrightarrow> flagsFit fs'"
proof (induction fs as rule: parseFlags.induct)
  case (2 fs a as)
  show ?case
  proof (cases "length a < 2 \<or> hd a \<noteq> CHR ''-'' \<or> a = ''--'' \<or> dashes a = [] \<or> hd (dashes a) \<in> set ''-=''")
    case True
    then show ?thesis using "2.prems" by (auto simp: parseFlags.simps Let_def split: if_splits)
  next
    case False
    obtain n v where nv: "nameValue (dashes a) = (n, v)" by fastforce
    note ih = "2.IH" [OF _ _ HOL.refl _ nv [symmetric]]
    show ?thesis
      using False "2.prems" nv ih setFlag_fits
      by (auto simp: parseFlags.simps Let_def split: option.splits flagval.splits list.splits)
  qed
qed (simp add: parseFlags.simps)

text \<open>C29
  \<open>setting\<close> with flags: whatever flags the command line gives, in any order and notation the flag package accepts, afterwards the
  settings they name have the values they give (paths with their slashes), so that the next start of the panel reads the port that was asked for;
  every other setting the database held is as it was, and so are clients, inbounds and the core.
\<close>

theorem cli_settings_take:
  assumes "sane e" "sane e2" "parseFlags settingFlags args = Parsed fs rest" "\<not> flagBool fs ''show''" "\<not> flagBool fs ''reset''"
  shows "\<exists>out w'. ParseCmd ce (''setting'' # args) e w = (Inr out, w') \<and> cliKeeps w w' \<and>
    (\<forall>(k, v) \<in> set (wantedSettings fs). settingOf k (db_settings (w_db w')) = Some v) \<and>
    (\<forall>k v. k \<notin> fst ` set (wantedSettings fs) \<and> settingOf k (db_settings (w_db w)) = Some v \<longrightarrow> settingOf k (db_settings (w_db w')) = Some v) \<and>
    (flagInt fs ''port'' > 0 \<longrightarrow> fst (GetPort e2 w') = Inr (flagInt fs ''port''))"
proof -
  obtain o1 w1 where 1: "cliUpdateSetting ce (flagInt fs ''port'') (flagStr fs ''path'') (flagInt fs ''subPort'') (flagStr fs ''subPath'') e w = (Inr o1, w1)"
    "cliKeeps w w1" "db_settings (w_db w1) = fold (\<lambda>(k, v). putSetting k v) (wantedSettings fs) (db_settings (w_db w))"
    by (rule cliUpdateSetting_sound [OF assms(1)])
  obtain o2 w2 where 2: "showSetting ce e w1 = (Inr o2, w2)" "addsOnly w1 w2" using showSetting_sound [OF assms(1)] by blast
  have run: "ParseCmd ce (''setting'' # args) e w = (Inr (o1 @ o2), w2)"
    using 1(1) 2(1) assms(3-5) by (simp add: ParseCmd_def settingCommand_def admin_args flagBool_def both_def)
  have at: "settingOf k (db_settings (w_db w1)) = (case map_of (wantedSettings fs) k of Some v \<Rightarrow> Some v | None \<Rightarrow> settingOf k (db_settings (w_db w)))" for k
    unfolding 1(3) by (rule fold_put [OF wanted_keys(1)])
  have set: "settingOf k (db_settings (w_db w2)) = Some v" if "(k, v) \<in> set (wantedSettings fs)" for k v
    using at [of k] that 2(2) wanted_keys(1) [of fs] by (simp add: addsOnly_def)
  have other: "settingOf k (db_settings (w_db w2)) = Some v"
    if "k \<notin> fst ` set (wantedSettings fs)" "settingOf k (db_settings (w_db w)) = Some v" for k v
    using at [of k] that 2(2) by (auto simp: addsOnly_def map_of_eq_None_iff [symmetric])
  have port: "fst (GetPort e2 w2) = Inr (flagInt fs ''port'')" if "flagInt fs ''port'' > 0"
  proof -
    have "flagsFit fs" by (rule parseFlags_fit [OF assms(3)]) (auto simp: flagsFit_def settingFlags_def inInt64_def minInt64_def maxInt64_def split: if_splits)
    then have fit: "inInt64 (flagInt fs ''port'')"
      by (auto simp: flagInt_def flagsFit_def inInt64_def minInt64_def maxInt64_def split: option.splits flagval.splits)
    have "settingOf ''webPort'' (db_settings (w_db w2)) = Some (itoa (flagInt fs ''port''))"
      using that by (intro set) (simp add: wantedSettings_def)
    then have "getString ''webPort'' e2 w2 = (Inr (itoa (flagInt fs ''port'')), w2\<lparr>w_stmt := Suc (w_stmt w2)\<rparr>)"
      using assms(2) by (intro getString_found) (simp_all add: sane_def)
    then show ?thesis using fit by (simp add: GetPort_def getInt_def atoi_itoa inInt64_def)
  qed
  show ?thesis using run cliKeeps_trans [OF 1(2)] 2(2) set other port by (auto simp: addsOnly_def)
qed

theorem cli_settings_take_witness:
  "\<exists>out w'. ParseCmd cliEx [''setting'', ''--port=0x20FB'', ''-path'', ''panel''] quietEnv adminWorld = (Inr out, w') \<and> fst (GetPort quietEnv w') = Inr 8443"
proof -
  let ?fs = "[(''reset'', FBool False), (''show'', FBool False), (''port'', FInt 8443), (''path'', FStr ''panel''), (''subPort'', FInt 0), (''subPath'', FStr [])]"
  have p: "parseFlags settingFlags [''--port=0x20FB'', ''-path'', ''panel''] = Parsed ?fs []" by code_simp
  have f: "\<not> flagBool ?fs ''show''" "\<not> flagBool ?fs ''reset''" "flagInt ?fs ''port'' = 8443" by (simp_all add: flagBool_def flagInt_def)
  show ?thesis using cli_settings_take [OF quiet_sane quiet_sane p f(1,2), of cliEx adminWorld] f(3) by auto
qed

end
