(* ===== verification/Hy2Inbound.thy ===== *)
theory Hy2Inbound
  imports World GoUrl
begin

text \<open>
  \<open>forks/patched-files/sing-box/protocol/hysteria2/inbound.go\<close> with the connection loop of the service: the
  inbound built from its options, the page it shows to strangers, its start and its end, and the metadata a stream is
  routed with.  A run puts the sessions of the service, the streams they open and the connection tracker together.
  The TLS server, the sockets and the router are the library's.
\<close>

section \<open>Options\<close>

record hy2masq =
  hm_type :: string
  hm_directory :: string
  hm_url :: string
  hm_rewriteHost :: bool
  hm_status :: int
  hm_headers :: "(string \<times> string list) list"
  hm_content :: string

record hy2options =
  ht_tls :: "bool option"
  ht_obfs :: "(string \<times> string) option"
  ht_masq :: "hy2masq option"
  ht_udpTimeout :: int
  ht_brutalDebug :: bool
  ht_upMbps :: int
  ht_downMbps :: int
  ht_ignoreBandwidth :: bool
  ht_users :: "(string \<times> string) list"
  ht_detour :: string

record tlsserver =
  ts_protos :: "string list"

datatype masqhandler = MasqNotFound | MasqFile string | MasqProxy url bool | MasqString int "(string \<times> string list) list" string

record hy2inbound =
  hi_tag :: string
  hi_detour :: string
  hi_tls :: tlsserver
  hi_salamander :: string
  hi_udpTimeout :: int
  hi_masq :: masqhandler
  hi_brutalDebug :: bool
  hi_service :: hservice

text \<open>The conversion \<open>uint64(x)\<close> of a signed product.\<close>

definition toUint64 :: "int \<Rightarrow> nat" where
  "toUint64 x = nat (x mod 2 ^ 64)"

definition obfsPassword :: "(string \<times> string) option \<Rightarrow> string res" where
  "obfsPassword obfs = (case obfs of None \<Rightarrow> Inr []
     | Some (typ, pw) \<Rightarrow>
         if pw = [] then Inl (Err ''missing obfs password'')
         else if typ = ''salamander'' then Inr pw
         else Inl (Err (''unknown obfs type: '' @ typ)))"

text \<open>Without a handler the service answers that nothing is found.\<close>

definition masqueradeOf :: "hy2masq option \<Rightarrow> masqhandler res" where
  "masqueradeOf masq = (case masq of None \<Rightarrow> Inr MasqNotFound
     | Some m \<Rightarrow>
         if hm_type m = [] then Inr MasqNotFound
         else if hm_type m = ''file'' then Inr (MasqFile (hm_directory m))
         else if hm_type m = ''proxy'' then
           (case urlParse (hm_url m) of None \<Rightarrow> Inl (Err ''parse masquerade URL'') | Some u \<Rightarrow> Inr (MasqProxy u (hm_rewriteHost m)))
         else if hm_type m = ''string'' then Inr (MasqString (hm_status m) (hm_headers m) (hm_content m))
         else Inl (Err (''unknown masquerade type: '' @ hm_type m)))"

text \<open>
  \<open>newTls\<close> is \<open>tls.NewServer\<close>, \<open>mbps\<close> the library's factor from megabits to bytes and \<open>udpDefault\<close> its timeout.
\<close>

definition withProtos :: "tlsserver \<Rightarrow> tlsserver" where
  "withProtos t = (if ts_protos t = [] then t\<lparr>ts_protos := [''h3'']\<rparr> else t)"

definition Hy2NewInbound :: "tlsserver res \<Rightarrow> int \<Rightarrow> int \<Rightarrow> string \<Rightarrow> hy2options \<Rightarrow> hy2inbound res" where
  "Hy2NewInbound newTls mbps udpDefault tag opt =
     (if ht_tls opt \<noteq> Some True then Inl (Err ''TLS required'')
      else bindR newTls (\<lambda>tls.
        bindR (obfsPassword (ht_obfs opt)) (\<lambda>salamander.
        bindR (masqueradeOf (ht_masq opt)) (\<lambda>masq.
          let s = NewService \<lparr>ho_sendBPS = toUint64 (wrap64 (ht_upMbps opt * mbps)), ho_receiveBPS = toUint64 (wrap64 (ht_downMbps opt * mbps)),
                ho_ignoreBandwidth = ht_ignoreBandwidth opt, ho_udpDisabled = False\<rparr>
          in bindR (UpdateUsers (map fst (ht_users opt)) (map snd (ht_users opt)) s) (\<lambda>s'.
             Inr \<lparr>hi_tag = tag, hi_detour = ht_detour opt, hi_tls = withProtos tls, hi_salamander = salamander,
               hi_udpTimeout = (if ht_udpTimeout opt \<noteq> 0 then ht_udpTimeout opt else udpDefault), hi_masq = masq,
               hi_brutalDebug = ht_brutalDebug opt, hi_service = s'\<rparr>)))))"

section \<open>The page for strangers\<close>

text \<open>
  A response: the status once it is sent, the header as it can still change, the header as sent, the body.  After the status is
  sent the header no longer matters; a code from 100 to 199 sends an answer of its own and leaves the final one open.
\<close>

record httpanswer =
  ha_status :: "int option"
  ha_header :: "(string \<times> string) list"
  ha_sent :: "(string \<times> string) list"
  ha_body :: string

definition WriteHeader :: "int \<Rightarrow> httpanswer \<Rightarrow> httpanswer res" where
  "WriteHeader code a =
     (if ha_status a \<noteq> None then Inr a
      else if code < 100 \<or> code > 999 then Inl (Panic ''invalid WriteHeader code'')
      else if code < 200 \<and> code \<noteq> 101 then Inr a
      else Inr (a\<lparr>ha_status := Some code, ha_sent := ha_header a\<rparr>))"

definition addHeader :: "string \<Rightarrow> string \<Rightarrow> httpanswer \<Rightarrow> httpanswer" where
  "addHeader k v a = a\<lparr>ha_header := ha_header a @ [(k, v)]\<rparr>"

definition writeBody :: "string \<Rightarrow> httpanswer \<Rightarrow> httpanswer" where
  "writeBody b a = (let a' = (if ha_status a = None then a\<lparr>ha_status := Some 200, ha_sent := ha_header a\<rparr> else a)
     in a'\<lparr>ha_body := ha_body a' @ b\<rparr>)"

definition emptyAnswer :: httpanswer where
  "emptyAnswer = \<lparr>ha_status = None, ha_header = [], ha_sent = [], ha_body = []\<rparr>"

definition masqString :: "int \<Rightarrow> (string \<times> string list) list \<Rightarrow> string \<Rightarrow> httpanswer res" where
  "masqString status headers content =
     bindR (if status \<noteq> 0 then WriteHeader status emptyAnswer else Inr emptyAnswer) (\<lambda>a.
       Inr (writeBody content (fold (\<lambda>(k, vs). fold (addHeader k) vs) headers a)))"

text \<open>The host a proxied request asks for: the target's, or the one of the request itself.\<close>

definition proxyHost :: "string \<Rightarrow> bool \<Rightarrow> string \<Rightarrow> string" where
  "proxyHost target rewriteHost asked = (if rewriteHost then target else asked)"

lemma addHeaders_sent: "ha_sent (fold (\<lambda>(k, vs). fold (addHeader k) vs) hs a) = ha_sent a \<and>
    ha_status (fold (\<lambda>(k, vs). fold (addHeader k) vs) hs a) = ha_status a"
proof -
  have one: "ha_sent (fold (addHeader k) vs b) = ha_sent b \<and> ha_status (fold (addHeader k) vs b) = ha_status b" for k vs b
    by (induction vs arbitrary: b) (simp_all add: addHeader_def)
  then show ?thesis by (induction hs arbitrary: a) auto
qed

text \<open>The headers are added after a configured status has been sent, so none of them is.\<close>

lemma masquerade_headers_lost:
  assumes "200 \<le> status" "status \<le> 999"
  shows "\<exists>a. masqString status headers content = Inr a \<and> ha_status a = Some status \<and> ha_sent a = [] \<and> ha_body a = content"
proof -
  let ?a = "emptyAnswer\<lparr>ha_status := Some status\<rparr>"
  let ?b = "fold (\<lambda>(k, vs). fold (addHeader k) vs) headers ?a"
  have body: "ha_body (fold (\<lambda>(k, vs). fold (addHeader k) vs) headers c) = ha_body c" for c
  proof -
    have "ha_body (fold (addHeader k) vs b) = ha_body b" for k vs b by (induction vs arbitrary: b) (simp_all add: addHeader_def)
    then show ?thesis by (induction headers arbitrary: c) auto
  qed
  have "masqString status headers content = Inr (writeBody content ?b)"
    using assms by (simp add: masqString_def WriteHeader_def emptyAnswer_def)
  then show ?thesis
    using addHeaders_sent [of headers ?a] body [of ?a] by (simp add: writeBody_def Let_def emptyAnswer_def)
qed

section \<open>Start and end\<close>

text \<open>
  What the library and the host answer at the start: the TLS server, the UDP socket, the protocol set-up and the QUIC listener.
\<close>

record hy2host =
  hh_tlsStart :: "unit res"
  hh_listen :: "unit res"
  hh_configure :: "unit res"
  hh_quicListen :: "unit res"

datatype hystage = HyInitialize | HyStart | HyPostStart | HyStarted

datatype packetconn = PlainConn | SalamanderConn string

record hy2open =
  op_tls :: bool
  op_udp :: bool
  op_quic :: "packetconn option"

definition nothingOpen :: hy2open where
  "nothingOpen = \<lparr>op_tls = False, op_udp = False, op_quic = None\<rparr>"

definition ServiceStart :: "hy2host \<Rightarrow> string \<Rightarrow> hy2open \<Rightarrow> unit res \<times> hy2open" where
  "ServiceStart h salamander o' =
     (let conn = (if salamander \<noteq> [] then SalamanderConn salamander else PlainConn)
      in case hh_configure h of Inl x \<Rightarrow> (Inl x, o')
       | Inr _ \<Rightarrow> (case hh_quicListen h of Inl x \<Rightarrow> (Inl x, o') | Inr _ \<Rightarrow> (Inr (), o'\<lparr>op_quic := Some conn\<rparr>)))"

definition ServiceClose :: "hy2open \<Rightarrow> hy2open" where
  "ServiceClose o' = o'\<lparr>op_quic := None\<rparr>"

definition Hy2Start :: "hy2host \<Rightarrow> hystage \<Rightarrow> hy2inbound \<Rightarrow> hy2open \<Rightarrow> unit res \<times> hy2open" where
  "Hy2Start h st ib o' =
     (if st \<noteq> HyStart then (Inr (), o')
      else case hh_tlsStart h of Inl x \<Rightarrow> (Inl x, o')
       | Inr _ \<Rightarrow> (case hh_listen h of Inl x \<Rightarrow> (Inl x, o'\<lparr>op_tls := True\<rparr>)
          | Inr _ \<Rightarrow> ServiceStart h (hi_salamander ib) (o'\<lparr>op_tls := True, op_udp := True\<rparr>)))"

definition Hy2Close :: "hy2open \<Rightarrow> hy2open" where
  "Hy2Close o' = ServiceClose (o'\<lparr>op_udp := False, op_tls := False\<rparr>)"

text \<open>
  A failed start may leave the TLS server or the socket open, and the end of the inbound closes whatever a start has opened.
  The socket is hidden behind the obfuscation exactly when a password is configured.
\<close>

lemma start_then_close: "Hy2Close (snd (Hy2Start h st ib nothingOpen)) = nothingOpen"
  by (auto simp: Hy2Close_def ServiceClose_def Hy2Start_def ServiceStart_def nothingOpen_def Let_def split: sum.split)

lemma start_obfuscates:
  "fst (Hy2Start h HyStart ib o') = Inr () \<Longrightarrow>
     op_quic (snd (Hy2Start h HyStart ib o')) = Some (if hi_salamander ib = [] then PlainConn else SalamanderConn (hi_salamander ib))"
  by (auto simp: Hy2Start_def ServiceStart_def Let_def split: sum.splits)

section \<open>Connections\<close>

text \<open>The accept loop: the connections that are handled, each on its own, until an error ends the loop.\<close>

datatype accepted = Arrived nat | AcceptErr bool

fun loopConnections :: "accepted list \<Rightarrow> nat list" where
  "loopConnections [] = []"
| "loopConnections (Arrived c # xs) = c # loopConnections xs"
| "loopConnections (AcceptErr closed # xs) = []"

text \<open>The session of a connection is registered while it is served, whatever the server of the library (\<open>serve\<close>) does in between.\<close>

definition handleConnection :: "nat \<Rightarrow> (hservice \<Rightarrow> hservice) \<Rightarrow> hservice \<Rightarrow> hservice" where
  "handleConnection c serve s = removeSession c (serve (addSession c s))"

lemma handled_session_gone: "map_of (hv_sessions (handleConnection c serve s)) c = None"
  by (simp add: handleConnection_def removeSession_def)

section \<open>Streams\<close>

record hymetadata =
  hy_inbound :: string
  hy_inboundType :: string
  hy_detour :: string
  hy_origin :: string
  hy_source :: string
  hy_destination :: string
  hy_user :: string

text \<open>
  The metadata a connection, or a packet connection, is given to the router with; \<open>ctxUser\<close> is the user in the context, if there is one,
  and \<open>origin\<close> the address the listener is bound to.
\<close>

definition Hy2NewConnectionEx :: "hy2inbound \<Rightarrow> string \<Rightarrow> string option \<Rightarrow> string \<Rightarrow> string \<Rightarrow> hymetadata" where
  "Hy2NewConnectionEx ib origin ctxUser source destination =
     \<lparr>hy_inbound = hi_tag ib, hy_inboundType = ''hysteria2'', hy_detour = hi_detour ib, hy_origin = origin, hy_source = source,
      hy_destination = destination, hy_user = (case ctxUser of Some u \<Rightarrow> u | None \<Rightarrow> [])\<rparr>"

definition Hy2NewPacketConnectionEx :: "hy2inbound \<Rightarrow> string \<Rightarrow> string option \<Rightarrow> string \<Rightarrow> string \<Rightarrow> hymetadata" where
  "Hy2NewPacketConnectionEx ib origin ctxUser source destination =
     \<lparr>hy_inbound = hi_tag ib, hy_inboundType = ''hysteria2'', hy_detour = hi_detour ib, hy_origin = origin, hy_source = source,
      hy_destination = destination, hy_user = (case ctxUser of Some u \<Rightarrow> u | None \<Rightarrow> [])\<rparr>"

text \<open>\<open>request\<close> is what \<open>protocol.ReadTCPRequest\<close> reads from the stream.\<close>

definition handleStream :: "hy2inbound \<Rightarrow> string \<Rightarrow> hsession \<Rightarrow> string \<Rightarrow> string res \<Rightarrow> hymetadata res" where
  "handleStream ib origin se source request = (case request of
       Inl _ \<Rightarrow> Inl (Err ''read TCP request'')
     | Inr destination \<Rightarrow> Inr (Hy2NewConnectionEx ib origin (Some (se_user se)) source destination))"

section \<open>A run of the inbound\<close>

text \<open>
  The service, the tracker every routed connection is registered with, and what has been routed under which identifier.  A stream is
  dispatched on a session whose connection is still open; everything a session does besides is a step of the service.
\<close>

record hyrun =
  hr_service :: hservice
  hr_tracker :: ctracker
  hr_routed :: "(string \<times> string \<times> hymetadata) list"

datatype hyevent = HySession hevent | HyStream nat bool string "string res" string | HyTraffic ctevent

definition routeStream :: "hy2inbound \<Rightarrow> string \<Rightarrow> hsession \<Rightarrow> string \<Rightarrow> string res \<Rightarrow> string \<Rightarrow> hyrun \<Rightarrow> hyrun" where
  "routeStream ib origin se source request cid r =
     (case handleStream ib origin se source request of Inl _ \<Rightarrow> r
      | Inr m \<Rightarrow> r\<lparr>hr_tracker := ctRoutedConnection cid (hy_inbound m) (hr_tracker r), hr_routed := (cid, se_pw se, m) # hr_routed r\<rparr>)"

inductive hyStep :: "hy2inbound \<Rightarrow> string \<Rightarrow> hyrun \<Rightarrow> hyevent \<Rightarrow> hyrun \<Rightarrow> bool" for ib origin where
  session: "hstep (hr_service r) e s' \<Longrightarrow> hyStep ib origin r (HySession e) (r\<lparr>hr_service := s'\<rparr>)"
| stream: "map_of (hv_sessions (hr_service r)) c = Some se \<Longrightarrow> \<not> se_done se \<Longrightarrow> dispatchStream se tcp False \<Longrightarrow>
    hyStep ib origin r (HyStream c tcp source request cid) (routeStream ib origin se source request cid r)"
| traffic: "hyStep ib origin r (HyTraffic e) (r\<lparr>hr_tracker := ctStep e (hr_tracker r)\<rparr>)"

inductive hySteps :: "hy2inbound \<Rightarrow> string \<Rightarrow> hyrun \<Rightarrow> hyevent list \<Rightarrow> hyrun \<Rightarrow> bool" for ib origin where
  none: "hySteps ib origin r [] r"
| more: "hyStep ib origin r e r1 \<Longrightarrow> hySteps ib origin r1 es r2 \<Longrightarrow> hySteps ib origin r (e # es) r2"

definition freshRun :: "hy2inbound \<Rightarrow> hyrun" where
  "freshRun ib = \<lparr>hr_service = hi_service ib, hr_tracker = NewConnTracker, hr_routed = []\<rparr>"

text \<open>The pairs of a name and a password the panel has listed: at the start and in the live updates of a run.\<close>

fun listedIn :: "hyevent \<Rightarrow> (string \<times> string) list" where
  "listedIn (HySession (Swap us pws)) = zip us pws"
| "listedIn _ = []"

definition listedPairs :: "hy2options \<Rightarrow> hyevent list \<Rightarrow> (string \<times> string) set" where
  "listedPairs opt es = set (ht_users opt) \<union> \<Union> (set ` listedIn ` set es)"

text \<open>The identifiers the tracker draws in a run.\<close>

fun drawnIds :: "hyevent \<Rightarrow> string list" where
  "drawnIds (HyStream c tcp source request cid) = [cid]"
| "drawnIds (HyTraffic e) = openedId e"
| "drawnIds _ = []"

inductive_cases hyStepE: "hyStep ib origin r e r'"

section \<open>Who a stream belongs to\<close>

definition sessionNamed :: "(string \<times> string) set \<Rightarrow> hsession \<Rightarrow> bool" where
  "sessionNamed L se \<longleftrightarrow> set (se_pending se) \<subseteq> L \<and> (se_authed se \<longrightarrow> (se_user se, se_pw se) \<in> L)"

lemma sessionNamed_simps [simp]:
  "sessionNamed L newSession"
  "sessionNamed L (se\<lparr>se_pending := (u, pw) # se_pending se\<rparr>) \<longleftrightarrow> (u, pw) \<in> L \<and> sessionNamed L se"
  "sessionNamed L (closeWithError se) = sessionNamed L se"
  by (auto simp: sessionNamed_def newSession_def)

lemma sessionNamed_commit:
  "sessionNamed L se \<Longrightarrow> (u, pw) \<in> set (se_pending se) \<Longrightarrow> sessionNamed L (markAuth u pw (se\<lparr>se_pending := remove1 (u, pw) (se_pending se)\<rparr>))"
  using set_remove1_subset [of "(u, pw)" "se_pending se"] by (auto simp: sessionNamed_def markAuth_def)

definition namesListed :: "(string \<times> string) set \<Rightarrow> hservice \<Rightarrow> bool" where
  "namesListed L s \<longleftrightarrow> (\<forall>pw u. lookupUser pw s = Some u \<longrightarrow> (u, pw) \<in> L) \<and>
     (\<forall>c se. map_of (hv_sessions s) c = Some se \<longrightarrow> sessionNamed L se)"

lemma buildUserMap_listed:
  "buildUserMap us pws m = Inr m' \<Longrightarrow> map_of m' pw = Some u \<Longrightarrow> map_of m pw = Some u \<or> (u, pw) \<in> set (zip us pws)"
proof (induction us pws m rule: buildUserMap.induct)
  case (3 u1 us p pws m)
  from 3(1) [OF 3(2) [unfolded buildUserMap.simps] 3(3)] show ?case by (auto split: if_splits)
qed auto

lemma UpdateUsers_listed:
  assumes "UpdateUsers us pws s = Inr s'" "lookupUser pw s' = Some u"
  shows "(u, pw) \<in> set (zip us pws)"
  using assms buildUserMap_listed [of us pws "[]" _ pw u] by (auto simp: UpdateUsers_def lookupUser_def bindR_eq_Inr)

lemma namesListed_step:
  assumes "hstep s e s'" "namesListed L s" "set (listedIn (HySession e)) \<subseteq> L"
  shows "namesListed L s'"
  using assms(1)
proof cases
  case (connect c)
  then show ?thesis using assms(2) by (auto simp: namesListed_def lookupUser_def addSession_def)
next
  case (disconnect c)
  then show ?thesis using assms(2) by (auto simp: namesListed_def lookupUser_def removeSession_def split: if_splits)
next
  case (hsRead c se pw u)
  then show ?thesis using assms(2) by (auto simp: namesListed_def lookupUser_def map_of_updSession split: if_splits)
next
  case (hsCommit c se u pw)
  then show ?thesis using assms(2) sessionNamed_commit
    by (auto simp: namesListed_def lookupUser_def map_of_updSession split: if_splits)
next
  case (swap us pws)
  then show ?thesis using assms(2,3) UpdateUsers_sessions [of us pws s s'] UpdateUsers_listed [of us pws s s']
    by (fastforce simp: namesListed_def)
next
  case (evict pws)
  then show ?thesis using assms(2)
    by (auto simp: namesListed_def lookupUser_def RetainUsers_def map_of_map_snd split: if_splits)
qed

text \<open>What a routed stream keeps: its tag, its name, and its place in the tracker.\<close>

definition streamKept :: "string \<Rightarrow> (string \<times> string) set \<Rightarrow> ctracker \<Rightarrow> string \<times> string \<times> hymetadata \<Rightarrow> bool" where
  "streamKept tag L t x = (case x of (cid, pw, m) \<Rightarrow> hy_inbound m = tag \<and> (hy_user m, pw) \<in> L \<and> accounted cid t \<and>
     (\<forall>ci. map_of (ct_conns t) cid = Some ci \<longrightarrow> cn_inbound ci = tag))"

definition runKept :: "string \<Rightarrow> (string \<times> string) set \<Rightarrow> hyrun \<Rightarrow> bool" where
  "runKept tag L r \<longleftrightarrow> namesListed L (hr_service r) \<and> distinct (map fst (ct_conns (hr_tracker r))) \<and>
     (\<forall>x \<in> set (hr_routed r). streamKept tag L (hr_tracker r) x)"

lemma ctStep_inbound:
  assumes "distinct (map fst (ct_conns t))" "cid \<notin> set (openedId e)" "map_of (ct_conns (ctStep e t)) cid = Some ci"
  shows "map_of (ct_conns t) cid = Some ci"
  using assms map_of_filter_snd [OF assms(1), of "\<lambda>ci. cn_inbound ci \<noteq> inb" cid for inb]
  by (cases e) (auto simp: ctRoutedConnection_def ctRoutedPacketConnection_def trackConnection_def wrapper_defs
      doUntrack_def untrackConnection_def CloseConnByInbound_def ctReset_def Let_def split: if_splits option.splits)

lemma streamKept_step:
  assumes "distinct (map fst (ct_conns t))" "fst x \<notin> set (openedId e)" "streamKept tag L t x"
  shows "streamKept tag L (ctStep e t) x"
  using assms ctStep_accounted [OF assms(1)] ctStep_inbound [OF assms(1)] by (cases x) (auto simp: streamKept_def)

lemma runKept_step:
  assumes "hyStep ib origin r e r'" "runKept (hi_tag ib) L r" "set (listedIn e) \<subseteq> L" "fst ` set (hr_routed r) \<inter> set (drawnIds e) = {}"
  shows "runKept (hi_tag ib) L r'"
  using assms(1)
proof cases
  case (session e s')
  then show ?thesis using assms(2,3) namesListed_step [of "hr_service r" e s' L] by (simp add: runKept_def)
next
  case (traffic e)
  then show ?thesis using assms(2,4) streamKept_step ctStep_distinct by (fastforce simp: runKept_def)
next
  case (stream c se tcp source request cid)
  show ?thesis
  proof (cases request)
    case (Inl x)
    then show ?thesis using stream assms(2) by (simp add: routeStream_def handleStream_def)
  next
    case (Inr dest)
    let ?m = "Hy2NewConnectionEx ib origin (Some (se_user se)) source dest"
    have r': "r' = r\<lparr>hr_tracker := ctStep (EvConn cid (hi_tag ib)) (hr_tracker r), hr_routed := (cid, se_pw se, ?m) # hr_routed r\<rparr>"
      using stream Inr by (simp add: routeStream_def handleStream_def Hy2NewConnectionEx_def)
    have "sessionNamed L se" "se_authed se" using stream assms(2) by (auto simp: runKept_def namesListed_def dispatchStream_def)
    then have "(se_user se, se_pw se) \<in> L" by (simp add: sessionNamed_def)
    then have "streamKept (hi_tag ib) L (ctStep (EvConn cid (hi_tag ib)) (hr_tracker r)) (cid, se_pw se, ?m)"
      using ctStep_opens [of cid "EvConn cid (hi_tag ib)" "hr_tracker r"]
      by (auto simp: streamKept_def Hy2NewConnectionEx_def ctRoutedConnection_def trackConnection_def)
    moreover have "streamKept (hi_tag ib) L (ctStep (EvConn cid (hi_tag ib)) (hr_tracker r)) x" if "x \<in> set (hr_routed r)" for x
      using streamKept_step [of "hr_tracker r" x "EvConn cid (hi_tag ib)"] that assms(2,4) stream by (auto simp: runKept_def)
    moreover have "distinct (map fst (ct_conns (ctStep (EvConn cid (hi_tag ib)) (hr_tracker r))))"
      by (rule ctStep_distinct) (use assms(2) in \<open>simp add: runKept_def\<close>)
    ultimately show ?thesis using assms(2) unfolding r' by (simp add: runKept_def)
  qed
qed

lemma routed_ids: "hyStep ib origin r e r' \<Longrightarrow> fst ` set (hr_routed r') \<subseteq> fst ` set (hr_routed r) \<union> set (drawnIds e)"
  by (erule hyStepE) (auto simp: routeStream_def split: sum.splits)

lemma runKept_run:
  "hySteps ib origin r es r' \<Longrightarrow> runKept (hi_tag ib) L r \<Longrightarrow> \<forall>e \<in> set es. set (listedIn e) \<subseteq> L \<Longrightarrow>
     fst ` set (hr_routed r) \<inter> set (concat (map drawnIds es)) = {} \<Longrightarrow> distinct (concat (map drawnIds es)) \<Longrightarrow> runKept (hi_tag ib) L r'"
proof (induction rule: hySteps.induct)
  case (more r e r1 es r2)
  have "runKept (hi_tag ib) L r1" by (rule runKept_step [OF more(1,4)]) (use more.prems in auto)
  moreover have "fst ` set (hr_routed r1) \<inter> set (concat (map drawnIds es)) = {}"
  proof -
    have "set (drawnIds e) \<inter> set (concat (map drawnIds es)) = {}" "fst ` set (hr_routed r) \<inter> set (concat (map drawnIds es)) = {}"
      using more.prems(3,4) by auto
    then show ?thesis using routed_ids [OF more(1)] by blast
  qed
  ultimately show ?case using more.prems(2,4) by (intro more.IH) auto
qed simp

text \<open>
  After a run, the rebuild of the inbound (\<open>CloseConnByInbound\<close>) leaves none of its streams: each was cut by it, or by an earlier
  one, or had ended.
\<close>

lemma rebuild_cuts:
  assumes "runKept tag L r" "(cid, pw, m) \<in> set (hr_routed r)" "snd (CloseConnByInbound tag (hr_tracker r)) = t"
  shows "map_of (ct_conns t) cid = None \<and> (cid \<in> set (ct_closed t) \<or> cid \<in> set (ct_once t))"
proof -
  have d: "distinct (map fst (ct_conns (hr_tracker r)))" and k: "streamKept tag L (hr_tracker r) (cid, pw, m)"
    using assms(1,2) by (auto simp: runKept_def)
  have a: "accounted cid t" using closeInbound_accounted [OF d] k assms(3) by (auto simp: streamKept_def)
  have "map_of (ct_conns t) cid = (case map_of (ct_conns (hr_tracker r)) cid of None \<Rightarrow> None | Some ci \<Rightarrow> if cn_inbound ci \<noteq> tag then Some ci else None)"
    using map_of_filter_snd [OF d, of "\<lambda>ci. cn_inbound ci \<noteq> tag" cid] assms(3) by (auto simp: CloseConnByInbound_def Let_def)
  then have "map_of (ct_conns t) cid = None" using k by (auto simp: streamKept_def split: option.splits)
  then show ?thesis using a by (auto simp: accounted_def)
qed

lemma freshRun_kept:
  assumes "Hy2NewInbound newTls mbps udpDefault tag opt = Inr ib" "set (ht_users opt) \<subseteq> L"
  shows "hi_tag ib = tag" "runKept tag L (freshRun ib)"
proof -
  obtain s s' where s: "UpdateUsers (map fst (ht_users opt)) (map snd (ht_users opt)) s = Inr s'" "hi_service ib = s'" "hi_tag ib = tag"
    and n: "hv_sessions s = []"
    using assms(1) by (auto simp: Hy2NewInbound_def bindR_eq_Inr Let_def NewService_def split: if_splits)
  show "hi_tag ib = tag" by (rule s(3))
  have "(u, pw) \<in> L" if "lookupUser pw s' = Some u" for pw u
    using UpdateUsers_listed [OF s(1) that] assms(2) by (auto simp: zip_map_fst_snd)
  then show "runKept tag L (freshRun ib)"
    using UpdateUsers_sessions [OF s(1)] n s(2) by (simp add: runKept_def freshRun_def namesListed_def NewConnTracker_def)
qed


text \<open>
  The constructor the running core is modelled with (\<open>hy2NewInbound\<close>) is this one on the options that the document of an inbound says, as long as the
  bandwidths stay in range.
\<close>

definition decodedFrom :: "raw \<Rightarrow> hy2options \<Rightarrow> bool" where
  "decodedFrom conf opt \<longleftrightarrow>
     ht_users opt = map (\<lambda>u. (strOr0 (oget u ''name''), strOr0 (oget u ''password''))) (confUsers conf) \<and>
     ht_upMbps opt = int (confNat conf ''up_mbps'') \<and> ht_downMbps opt = int (confNat conf ''down_mbps'') \<and>
     ht_ignoreBandwidth opt = (case conf of RText (JObj m) \<Rightarrow> asBool (oget m ''ignore_client_bandwidth'') = Some True | _ \<Rightarrow> False)"

lemma small_uint64: "k < 2 ^ 63 \<Longrightarrow> toUint64 (wrap64 (int k)) = k"
proof -
  assume k: "k < 2 ^ 63"
  then have "inInt64 (int k)" by (simp add: inInt64_def minInt64_def maxInt64_def)
  moreover have "int k mod 2 ^ 64 = int k" using k by (intro mod_pos_pos_trivial) simp_all
  ultimately show ?thesis by (simp add: wrap64_id toUint64_def)
qed

lemma bandwidth_in_range: "n * mbps < 2 ^ 63 \<Longrightarrow> toUint64 (wrap64 (int n * int mbps)) = n * mbps"
  using small_uint64 [of "n * mbps"] by (simp only: of_nat_mult)

lemma constructor_agrees:
  assumes "Hy2NewInbound newTls (int mbps) udpDefault tag opt = Inr ib" "decodedFrom conf opt"
    and "confNat conf ''up_mbps'' * mbps < 2 ^ 63" "confNat conf ''down_mbps'' * mbps < 2 ^ 63"
  shows "hi_service ib = hy2NewInbound mbps conf"
  using assms(1,2) bandwidth_in_range [OF assms(3)] bandwidth_in_range [OF assms(4)]
  by (auto simp: Hy2NewInbound_def hy2NewInbound_def decodedFrom_def bindR_eq_Inr Let_def comp_def split: if_splits)

definition exampleHy2 :: hy2options where
  "exampleHy2 = \<lparr>ht_tls = Some True, ht_obfs = Some (''salamander'', ''veil''), ht_masq = None, ht_udpTimeout = 0, ht_brutalDebug = False,
     ht_upMbps = 100, ht_downMbps = 0, ht_ignoreBandwidth = False, ht_users = [(''ann'', ''pa''), (''bob'', ''pb'')], ht_detour = []\<rparr>"

definition exampleInbound :: hy2inbound where
  "exampleInbound = (case Hy2NewInbound (Inr \<lparr>ts_protos = []\<rparr>) 125000 300 ''hy'' exampleHy2 of Inr ib \<Rightarrow> ib)"

definition exampleEvents :: "hyevent list" where
  "exampleEvents = [HySession (Connect 1), HySession (HsRead 1 ''pa''), HySession (HsCommit 1 ''ann'' ''pa''),
     HyStream 1 True ''10.0.0.9:4000'' (Inr ''example.org:443'') ''c1'', HySession (Swap [''bob''] [''pb'']), HySession (Evict [''pb''])]"

lemma example_built: "Hy2NewInbound (Inr \<lparr>ts_protos = []\<rparr>) 125000 300 ''hy'' exampleHy2 = Inr exampleInbound"
proof -
  obtain ib where "Hy2NewInbound (Inr \<lparr>ts_protos = []\<rparr>) 125000 300 ''hy'' exampleHy2 = Inr ib"
    by (simp add: Hy2NewInbound_def exampleHy2_def obfsPassword_def masqueradeOf_def UpdateUsers_def Let_def)
  then show ?thesis by (simp add: exampleInbound_def)
qed

lemma example_service:
  "hi_tag exampleInbound = ''hy''" "hv_users (hi_service exampleInbound) = [(''pa'', ''ann''), (''pb'', ''bob'')]"
  "hv_sessions (hi_service exampleInbound) = []"
  by (simp_all add: exampleInbound_def Hy2NewInbound_def exampleHy2_def obfsPassword_def masqueradeOf_def UpdateUsers_def NewService_def Let_def)

lemma example_run:
  "\<exists>r m. hySteps exampleInbound ''0.0.0.0:443'' (freshRun exampleInbound) exampleEvents r \<and> (''c1'', ''pa'', m) \<in> set (hr_routed r)"
proof -
  let ?s0 = "hi_service exampleInbound" and ?m = "Hy2NewConnectionEx exampleInbound ''0.0.0.0:443'' (Some ''ann'') ''10.0.0.9:4000'' ''example.org:443''"
  let ?in = "\<lparr>se_authed = True, se_user = ''ann'', se_pw = ''pa'', se_pending = [], se_done = False\<rparr>"
  let ?s1 = "addSession 1 ?s0"
  let ?s2 = "updSession 1 (\<lambda>se. se\<lparr>se_pending := (''ann'', ''pa'') # se_pending se\<rparr>) ?s1"
  let ?s3 = "updSession 1 (\<lambda>se. markAuth ''ann'' ''pa'' (se\<lparr>se_pending := remove1 (''ann'', ''pa'') (se_pending se)\<rparr>)) ?s2"
  obtain s4 where s4: "UpdateUsers [''bob''] [''pb''] ?s3 = Inr s4" by (simp add: UpdateUsers_def)
  note e = addSession_def newSession_def updSession_def markAuth_def example_service
  have 1: "hstep ?s0 (Connect 1) ?s1" by (rule hstep.connect) (simp add: e)
  have 2: "hstep ?s1 (HsRead 1 ''pa'') ?s2" by (rule hstep.hsRead [of _ _ newSession]) (simp_all add: e lookupUser_def)
  have 3: "hstep ?s2 (HsCommit 1 ''ann'' ''pa'') ?s3"
    by (rule hstep.hsCommit [of _ _ "newSession\<lparr>se_pending := [(''ann'', ''pa'')]\<rparr>"]) (simp_all add: e)
  have in3: "map_of (hv_sessions ?s3) 1 = Some ?in" by (simp add: e)
  let ?r = "\<lambda>s. freshRun exampleInbound\<lparr>hr_service := s\<rparr>"
  let ?out = "routeStream exampleInbound ''0.0.0.0:443'' ?in ''10.0.0.9:4000'' (Inr ''example.org:443'') ''c1'' (?r ?s3)"
  have 4: "hyStep exampleInbound ''0.0.0.0:443'' (?r ?s3) (HyStream 1 True ''10.0.0.9:4000'' (Inr ''example.org:443'') ''c1'') ?out"
    by (rule hyStep.stream) (use in3 in \<open>simp_all add: dispatchStream_def\<close>)
  have sv: "hr_service ?out = ?s3" "hr_routed ?out = [(''c1'', ''pa'', ?m)]"
    by (simp_all add: routeStream_def handleStream_def freshRun_def)
  have 0: "hyStep exampleInbound ''0.0.0.0:443'' (freshRun exampleInbound) (HySession (Connect 1)) (?r ?s1)"
    using hyStep.session [of "freshRun exampleInbound"] 1 by (simp add: freshRun_def)
  have sw: "hstep (hr_service ?out) (Swap [''bob''] [''pb'']) s4" unfolding sv(1) by (rule hstep.swap [OF s4])
  have ev: "hstep (hr_service (?out\<lparr>hr_service := s4\<rparr>)) (Evict [''pb'']) (RetainUsers [''pb''] s4)"
    by (simp add: hstep.evict)
  have go: "hyStep exampleInbound ''0.0.0.0:443'' (?r s) (HySession ev) (?r s')" if "hstep s ev s'" for s ev s'
    using hyStep.session [of "?r s" ev s'] that by simp
  have "hySteps exampleInbound ''0.0.0.0:443'' (freshRun exampleInbound) exampleEvents (?out\<lparr>hr_service := s4, hr_service := RetainUsers [''pb''] s4\<rparr>)"
    unfolding exampleEvents_def
  proof (intro hySteps.intros)
    show "hyStep exampleInbound ''0.0.0.0:443'' ?out (HySession (Swap [''bob''] [''pb''])) (?out\<lparr>hr_service := s4\<rparr>)"
      by (rule hyStep.session [OF sw])
    show "hyStep exampleInbound ''0.0.0.0:443'' (?out\<lparr>hr_service := s4\<rparr>) (HySession (Evict [''pb'']))
        (?out\<lparr>hr_service := s4, hr_service := RetainUsers [''pb''] s4\<rparr>)"
      by (rule hyStep.session [OF ev])
  qed (rule 0 go [OF 2] go [OF 3] 4 hySteps.none)+
  then show ?thesis using sv(2) by (intro exI [of _ "?out\<lparr>hr_service := s4, hr_service := RetainUsers [''pb''] s4\<rparr>"] exI [of _ ?m]) simp
qed


end
