(* ===== verification/Sessions.thy ===== *)
theory Sessions
  imports Servers
begin

text \<open>
  \<open>api/session.go\<close> and what follows for a visitor: the values a session cookie holds, and the visits of one browser to the
  web server, where every request carries the cookie the last answer left.  The cookie is signed by the store of the web framework, so that only an
  answer of the panel changes it.  Between two requests of the visitor anything may happen to the panel.
\<close>

section \<open>The session\<close>

record jar =
  ja_values :: "(string \<times> jv) list"
  ja_maxAge :: int

definition loginUserKey :: string where
  "loginUserKey = ''LOGIN_USER''"

definition jarSetLoginUser :: "string \<Rightarrow> int \<Rightarrow> jar \<Rightarrow> jar" where
  "jarSetLoginUser user seconds j = \<lparr>ja_values = AList.update loginUserKey (JStr user) (ja_values j), ja_maxAge = seconds\<rparr>"

definition SetMaxAge :: "jar \<Rightarrow> jar" where
  "SetMaxAge j = j\<lparr>ja_maxAge := 0\<rparr>"

definition GetLoginUser :: "jar \<Rightarrow> string" where
  "GetLoginUser j = (case map_of (ja_values j) loginUserKey of None \<Rightarrow> [] | Some v \<Rightarrow> (case v of JStr u \<Rightarrow> u | _ \<Rightarrow> []))"

definition IsLogin :: "jar \<Rightarrow> bool" where
  "IsLogin j \<longleftrightarrow> GetLoginUser j \<noteq> []"

definition clearJar :: "jar \<Rightarrow> jar" where
  "clearJar j = \<lparr>ja_values = [], ja_maxAge = -1\<rparr>"

definition emptyJar :: jar where
  "emptyJar = \<lparr>ja_values = [], ja_maxAge = 0\<rparr>"

text \<open>What an answer does to the cookie.\<close>

fun applySession :: "sessionOp \<Rightarrow> jar \<Rightarrow> jar" where
  "applySession KeepSession j = j"
| "applySession (SetSession user seconds) j = jarSetLoginUser user seconds j"
| "applySession ClearSession j = clearJar j"

lemma GetLoginUser_simps [simp]:
  "GetLoginUser emptyJar = []" "GetLoginUser (clearJar j) = []" "GetLoginUser (jarSetLoginUser u n j) = u" "GetLoginUser (SetMaxAge j) = GetLoginUser j"
  by (simp_all add: GetLoginUser_def emptyJar_def clearJar_def jarSetLoginUser_def SetMaxAge_def)

lemma applySession_user: "GetLoginUser (applySession x j) = u \<Longrightarrow> u \<noteq> [] \<Longrightarrow> GetLoginUser j = u \<or> (\<exists>n. x = SetSession u n)"
  by (cases x) auto

section \<open>Visits\<close>

text \<open>
  The visitor's cookie, the tokens in memory and the world.  A request is answered with the session of the cookie; a panic leaves cookie and tokens.
\<close>

record visit =
  vi_jar :: jar
  vi_tokens :: "memtoken list"
  vi_world :: world

datatype visitEvent = Visit bool request env world | Meanwhile

definition afterAnswer :: "served res \<Rightarrow> world \<Rightarrow> visit \<Rightarrow> visit" where
  "afterAnswer r w' v = (case r of
       Inr (Answered x) \<Rightarrow> \<lparr>vi_jar = applySession (rs_session x) (vi_jar v), vi_tokens = rs_tokens x, vi_world = w'\<rparr>
     | _ \<Rightarrow> v\<lparr>vi_world := w'\<rparr>)"

inductive visitStep :: "visit \<Rightarrow> visitEvent \<Rightarrow> visit \<Rightarrow> bool" where
  visits: "panelRequest eng we post (rq\<lparr>rq_session := GetLoginUser (vi_jar v)\<rparr>) (vi_tokens v) e (vi_world v) = (r, w') \<Longrightarrow>
    visitStep v (Visit post rq e (vi_world v)) (afterAnswer r w' v)"
| others: "visitStep v Meanwhile (v\<lparr>vi_tokens := toks, vi_world := w'\<rparr>)"

inductive visiting :: "visit \<Rightarrow> visitEvent list \<Rightarrow> visit \<Rightarrow> bool" where
  arrived: "visiting v [] v"
| goesOn: "visiting v es v1 \<Longrightarrow> visitStep v1 ev v2 \<Longrightarrow> visiting v (es @ [ev]) v2"

text \<open>A request that posts the name and the password of an operator as they are stored at that moment.\<close>

definition provesOperator :: "string \<Rightarrow> visitEvent \<Rightarrow> bool" where
  "provesOperator u ev = (case ev of Meanwhile \<Rightarrow> False
     | Visit post rq e w \<Rightarrow> post \<and> rq_form rq ''user'' = u \<and>
         (\<exists>x \<in> set (db_users (w_db w)). u_username x = u \<and> u_password x = rq_form rq ''pass''))"

section \<open>Who gets a session\<close>

lemma Login_Inr:
  assumes "Login layout user pass ip e w = (Inr u, w')"
  shows "u = user \<and> (\<exists>x \<in> set (db_users (w_db w)). u_username x = user \<and> u_password x = pass)"
proof -
  obtain x w1 where "firstWhere db_users (\<lambda>u. u_username u = user \<and> u_password u = pass) e w = (Inr x, w1)" "u = u_username x"
    using assms by (auto simp: Login_def CheckUser_def bindA_def thenA_def logErr_def split: prod.splits sum.splits option.splits)
  then show ?thesis by (auto dest: firstWhere_Inr)
qed

lemma keepBoth_session: "keepBoth toks a e w = (Inr x, w') \<Longrightarrow> rs_session x = KeepSession"
  by (auto simp: keepBoth_def bindA_def split: prod.splits sum.splits)

lemma thenReload_session: "thenReload toks a e w = (Inr x, w') \<Longrightarrow> rs_session x = KeepSession"
  by (auto simp: thenReload_def bindA_def split: prod.splits sum.splits)

lemmas session_kept = keepBoth_session thenReload_session

lemma ApiLogin_session:
  assumes "ApiLogin we rq e w = (Inr (rep, SetSession u n), w')"
  shows "\<exists>w1. Login (we_layout we) (rq_form rq ''user'') (rq_form rq ''pass'') (getRemoteIp rq) e w = (Inr u, w1)"
  using assms
  by (auto simp: ApiLogin_def onErr_def bindA_def SetLoginUser_def split: prod.splits sum.splits goerr.splits)

lemma webRequest_session:
  assumes "webRequest we post rq toks e w = (Inr x, w')" "rs_session x = SetSession u n"
  shows "post \<and> (\<exists>rep w1. ApiLogin we rq e w = (Inr (rep, SetSession u n), w1))"
proof -
  have "\<not> (\<exists>ts a. keepBoth ts a e w = (Inr x, w') \<or> thenReload ts a e w = (Inr x, w'))"
    using session_kept assms(2) by fastforce
  then show ?thesis using assms
    by (auto simp: webRequest_def postHandler_def getHandler_def ApiLogout_def Let_def bindA_def split: if_splits prod.splits sum.splits)
qed

lemma tokenRequest_session:
  assumes "tokenRequest we post rq toks e w = (Inr x, w')"
  shows "rs_session x = KeepSession"
  using assms by (auto simp: tokenRequest_def bindA_def askE_def liftR_def Let_def dest!: session_kept split: prod.splits sum.splits if_splits)

lemma visit_session:
  assumes "visitStep v ev v'" "GetLoginUser (vi_jar v') = u" "u \<noteq> []"
  shows "GetLoginUser (vi_jar v) = u \<or> provesOperator u ev"
  using assms(1)
proof cases
  case (visits eng we post rq e r w')
  let ?rq = "rq\<lparr>rq_session := GetLoginUser (vi_jar v)\<rparr>"
  show ?thesis
  proof (cases "\<exists>x n. r = Inr (Answered x) \<and> rs_session x = SetSession u n")
    case True
    then obtain x n where x: "r = Inr (Answered x)" "rs_session x = SetSession u n" by blast
    obtain a w1 where a: "webRequest we post (?rq\<lparr>rq_action := a\<rparr>) (vi_tokens v) e (vi_world v) = (Inr x, w1)"
      using visits(3) x tokenRequest_session
      by (fastforce simp: panelRequest_def bindA_def retA_def split: if_splits route.splits prod.splits sum.splits)
    obtain w2 where "Login (we_layout we) (rq_form rq ''user'') (rq_form rq ''pass'') (getRemoteIp (?rq\<lparr>rq_action := a\<rparr>)) e (vi_world v) = (Inr u, w2)" "post"
      using webRequest_session [OF a x(2)] ApiLogin_session by fastforce
    then show ?thesis using Login_Inr visits(1) by (fastforce simp: provesOperator_def)
  next
    case False
    then show ?thesis
      using visits(2) assms(2,3) applySession_user [of _ "vi_jar v" u] by (auto simp: afterAnswer_def split: sum.splits served.splits)
  qed
next
  case (others toks w')
  then show ?thesis using assms(2) by simp
qed

text \<open>C7
  Sessions are earned: whatever a browser asks for and whatever happens to the panel between its requests, it holds a session of an operator only
  if one of its own requests posted that operator's name with the password stored at that moment.
\<close>

theorem sessions_are_earned:
  assumes "visiting v es v'" "vi_jar v = emptyJar" "GetLoginUser (vi_jar v') = u" "u \<noteq> []"
  shows "\<exists>ev \<in> set es. provesOperator u ev"
  using assms
proof (induction rule: visiting.induct)
  case (goesOn v es v1 ev v2)
  then show ?case using visit_session [OF goesOn(2)] by auto
qed simp

definition loginRequest :: "string \<Rightarrow> request" where
  "loginRequest pass = strayRequest\<lparr>rq_path := ''/app/api/login'', rq_form := (\<lambda>k. if k = ''user'' then ''admin'' else if k = ''pass'' then pass else [])\<rparr>"

lemma login_answer:
  "\<exists>w'. ApiLogin quietWeb (loginRequest ''s3cret''\<lparr>rq_session := [], rq_action := ''login''\<rparr>) quietEnv adminWorld =
     (Inr (jsonMsg [] None, SetSession ''admin'' 0), w')"
proof -
  let ?rq = "loginRequest ''s3cret''\<lparr>rq_session := [], rq_action := ''login''\<rparr>"
  have zero: "atoi ''0'' = (0, True)" by code_simp
  have age: "map_of (defaultValueMap quietEnv) ''sessionMaxAge'' = Some ''0''" by (simp add: defaultValueMap_def)
  obtain w1 where w1: "Login (we_layout quietWeb) ''admin'' ''s3cret'' (getRemoteIp ?rq) quietEnv adminWorld = (Inr ''admin'', w1)" "db_settings (w_db w1) = []"
    by (simp add: Login_def CheckUser_def firstWhere_def sqlq_def bindA_def thenA_def logErr_def sqlx_def sqlu_def adminWorld_def emptyDb_def worldWith_def)
  have "settingOf ''sessionMaxAge'' (db_settings (w_db w1)) = None" by (simp add: w1(2) settingOf_def)
  then have "GetSessionMaxAge quietEnv w1 = (Inr 0, w1\<lparr>w_stmt := Suc (w_stmt w1)\<rparr>)"
    using getString_default [of quietEnv w1, OF _ _ age] zero by (simp add: GetSessionMaxAge_def getInt_def bindA_def retA_def)
  then show ?thesis
    using w1(1) by (simp add: ApiLogin_def onErr_def dropErr_def bindA_def retA_def SetLoginUser_def loginRequest_def)
qed

theorem sessions_are_earned_witness:
  "\<exists>es v'. visiting \<lparr>vi_jar = emptyJar, vi_tokens = [], vi_world = adminWorld\<rparr> es v' \<and> GetLoginUser (vi_jar v') = ''admin'' \<and>
     (\<exists>ev \<in> set es. provesOperator ''admin'' ev)"
proof -
  let ?v = "\<lparr>vi_jar = emptyJar, vi_tokens = [], vi_world = adminWorld\<rparr>" and ?rq = "loginRequest ''s3cret''\<lparr>rq_session := []\<rparr>"
  obtain w1 where "ApiLogin quietWeb (?rq\<lparr>rq_action := ''login''\<rparr>) quietEnv adminWorld = (Inr (jsonMsg [] None, SetSession ''admin'' 0), w1)"
    using login_answer by auto
  then have "panelRequest appEngine quietWeb True ?rq [] quietEnv adminWorld =
      (Inr (Answered \<lparr>rs_reply = jsonMsg [] None, rs_session = SetSession ''admin'' 0, rs_tokens = []\<rparr>), w1)"
    by (simp add: panelRequest_def appEngine_def routeOf_def actionOf_def hasPrefix_def hasSuffix_def webRequest_def postHandler_def bindA_def retA_def
        Let_def loginRequest_def strayRequest_def)
  then have "visitStep ?v (Visit True (loginRequest ''s3cret'') quietEnv adminWorld)
      (afterAnswer (Inr (Answered \<lparr>rs_reply = jsonMsg [] None, rs_session = SetSession ''admin'' 0, rs_tokens = []\<rparr>)) w1 ?v)"
    using visitStep.visits [where eng = appEngine and we = quietWeb and post = True and rq = "loginRequest ''s3cret''" and v = ?v and e = quietEnv] by simp
  from visiting.goesOn [OF visiting.arrived this]
  obtain es v' where v: "visiting ?v es v'" "GetLoginUser (vi_jar v') = ''admin''" by (auto simp: afterAnswer_def)
  have "vi_jar ?v = emptyJar" "''admin'' \<noteq> []" by simp_all
  from sessions_are_earned [OF v(1) this(1) v(2) this(2)] v show ?thesis by blast
qed

end
