(* ===== verification/Registry.thy ===== *)
theory Registry
  imports Box GenLink ConfigService
begin

text \<open>
  \<open>core/register.go\<close> with its build variants, the context of the core (\<open>Context\<close> in \<open>core/box.go\<close>) and \<open>core/outbound_check.go\<close>: which
  protocols the program offers sing-box, where it puts them, and the test of an outbound.  The names of the types are sing-box's; its registration
  functions enter a type, and the variants without a library enter a constructor that refuses.
\<close>

section \<open>What is registered\<close>

datatype entry = Offered string | NotBuilt string string

fun entryType :: "entry \<Rightarrow> string" where
  "entryType (Offered t) = t" | "entryType (NotBuilt t m) = t"

definition noTailscale :: string where
  "noTailscale = ''Tailscale is not included in this build, rebuild with -tags with_tailscale''"

definition noDERP :: string where
  "noDERP = ''DERP is not included in this build, rebuild with -tags with_tailscale''"

text \<open>The two variants of each registration the build decides on.\<close>

definition registerNaiveOutbound :: "bool \<Rightarrow> entry list" where
  "registerNaiveOutbound withNaive = (if withNaive then [Offered ''naive''] else [])"

definition registerTailscaleEndpoint :: "bool \<Rightarrow> entry list" where
  "registerTailscaleEndpoint withTailscale = (if withTailscale then [Offered ''tailscale''] else [NotBuilt ''tailscale'' noTailscale])"

definition registerTailscaleTransport :: "bool \<Rightarrow> entry list" where
  "registerTailscaleTransport withTailscale = (if withTailscale then [Offered ''tailscale''] else [NotBuilt ''tailscale'' noTailscale])"

definition registerDERPService :: "bool \<Rightarrow> entry list" where
  "registerDERPService withTailscale = (if withTailscale then [Offered ''derp''] else [NotBuilt ''derp'' noDERP])"

definition InboundRegistry :: "entry list" where
  "InboundRegistry = map Offered [''tun'', ''redirect'', ''tproxy'', ''direct'', ''socks'', ''http'', ''mixed'', ''shadowsocks'', ''vmess'', ''trojan'',
     ''naive'', ''shadowtls'', ''vless'', ''anytls'', ''hysteria'', ''tuic'', ''hysteria2'']"

definition OutboundRegistry :: "bool \<Rightarrow> entry list" where
  "OutboundRegistry withNaive = map Offered [''direct'', ''block'', ''selector'', ''urltest'', ''socks'', ''http'', ''shadowsocks'', ''vmess'', ''trojan''] @
     registerNaiveOutbound withNaive @
     map Offered [''tor'', ''ssh'', ''shadowtls'', ''vless'', ''anytls'', ''hysteria'', ''tuic'', ''hysteria2'']"

definition EndpointRegistry :: "bool \<Rightarrow> entry list" where
  "EndpointRegistry withTailscale = Offered ''wireguard'' # registerTailscaleEndpoint withTailscale"

definition DNSTransportRegistry :: "bool \<Rightarrow> entry list" where
  "DNSTransportRegistry withTailscale = map Offered [''tcp'', ''udp'', ''tls'', ''https'', ''hosts'', ''local'', ''fakeip'', ''quic'', ''h3'', ''dhcp''] @
     registerTailscaleTransport withTailscale"

definition ServiceRegistry :: "bool \<Rightarrow> entry list" where
  "ServiceRegistry withTailscale = map Offered [''resolved'', ''ssm-api''] @ registerDERPService withTailscale @ map Offered [''ccm'', ''ocm'']"

text \<open>A constructor looks its type up; the last entry of a type counts.\<close>

definition constructorOf :: "entry list \<Rightarrow> string \<Rightarrow> entry option" where
  "constructorOf reg t = find (\<lambda>x. entryType x = t) (rev reg)"

section \<open>The context\<close>

text \<open>What a context holds, under the names of the interfaces; \<open>put\<close> registers and \<open>holds\<close> asks.\<close>

type_synonym sbctx = "(string \<times> entry list) list"

definition holds :: "sbctx \<Rightarrow> string \<Rightarrow> bool" where
  "holds c k \<longleftrightarrow> map_of c k \<noteq> None"

definition putBoth :: "string \<Rightarrow> string \<Rightarrow> entry list \<Rightarrow> sbctx \<Rightarrow> sbctx" where
  "putBoth options registry reg c = AList.update registry reg (AList.update options reg c)"

definition Context :: "sbctx \<Rightarrow> entry list \<Rightarrow> entry list \<Rightarrow> entry list \<Rightarrow> entry list \<Rightarrow> entry list \<Rightarrow> sbctx" where
  "Context c inb outb endp dns srv =
     (let c1 = (if \<not> holds c ''inbound options'' \<or> \<not> holds c ''inbound'' then putBoth ''inbound options'' ''inbound'' inb c else c);
          c2 = (if \<not> holds c1 ''outbound options'' \<or> \<not> holds c1 ''outbound'' then putBoth ''outbound options'' ''outbound'' outb c1 else c1);
          c3 = (if \<not> holds c2 ''endpoint options'' \<or> \<not> holds c2 ''endpoint'' then putBoth ''endpoint options'' ''endpoint'' endp c2 else c2);
          c4 = (if \<not> holds c3 ''DNS transport'' then putBoth ''DNS transport options'' ''DNS transport'' dns c3 else c3)
      in if \<not> holds c4 ''service'' then putBoth ''service options'' ''service'' srv c4 else c4)"

text \<open>
  The context of a new core, for the two build tags.  \<open>NewCore\<close> calls the function of the same name in sing-box, \<open>sbContext\<close> here, of which the
  one above is the program's own copy.
\<close>

definition coreContext :: "(sbctx \<Rightarrow> entry list \<Rightarrow> entry list \<Rightarrow> entry list \<Rightarrow> entry list \<Rightarrow> entry list \<Rightarrow> sbctx) \<Rightarrow> bool \<Rightarrow> bool \<Rightarrow> sbctx" where
  "coreContext sbContext withNaive withTailscale = sbContext [] InboundRegistry (OutboundRegistry withNaive) (EndpointRegistry withTailscale)
     (DNSTransportRegistry withTailscale) (ServiceRegistry withTailscale)"

text \<open>
  \<open>Context\<close> leaves a context that holds every registry, whatever it started from, and with it \<open>NewBox\<close> never fails for a missing one.
\<close>

lemma holds_putBoth: "holds (putBoth k1 k2 reg c) k \<longleftrightarrow> k \<in> {k1, k2} \<or> holds c k"
  by (auto simp: holds_def putBoth_def map_of_update split: if_splits)

lemma Context_holds:
  assumes "k \<in> set [''endpoint'', ''inbound'', ''outbound'', ''DNS transport'', ''service'']"
  shows "holds (Context c inb outb endp dns srv) k"
  using assms by (auto simp: Context_def Let_def holds_putBoth)

lemma context_is_complete:
  assumes "\<And>k. k \<in> set (bl_registries lib) \<longleftrightarrow> holds (Context c inb outb endp dns srv) k"
  shows "checkRegistries lib = Inr ()"
proof -
  have "filter (\<lambda>r. r \<notin> set (bl_registries lib)) [''endpoint'', ''inbound'', ''outbound'', ''DNS transport'', ''service''] = []"
    unfolding filter_empty_conv using assms Context_holds by blast
  then show ?thesis by (simp only: checkRegistries_def list.case)
qed

text \<open>Every protocol the panel generates links for is one it offers as an inbound.\<close>

lemma linked_types_offered: "t \<in> set InboundTypeWithLink \<Longrightarrow> constructorOf InboundRegistry t = Some (Offered t)"
proof -
  have "list_all (\<lambda>t. constructorOf InboundRegistry t = Some (Offered t)) InboundTypeWithLink" by code_simp
  then show "t \<in> set InboundTypeWithLink \<Longrightarrow> constructorOf InboundRegistry t = Some (Offered t)" by (simp add: list_all_iff)
qed

section \<open>The test of an outbound\<close>

text \<open>\<open>manager\<close> is the outbound manager of the core's last start, if there was one; \<open>urlTest\<close> is the library's test with its timeout.\<close>

definition coreCheckOutbound :: "string list option \<Rightarrow> (string \<Rightarrow> string \<Rightarrow> string + nat) \<Rightarrow> string \<Rightarrow> string \<Rightarrow> checkResult" where
  "coreCheckOutbound manager urlTest tag link = (case manager of
       None \<Rightarrow> \<lparr>cr_ok = False, cr_delay = 0, cr_error = ''core not running''\<rparr>
     | Some tags \<Rightarrow>
         if tag \<notin> set tags then \<lparr>cr_ok = False, cr_delay = 0, cr_error = ''outbound not found''\<rparr>
         else (case urlTest link tag of
             Inl m \<Rightarrow> \<lparr>cr_ok = False, cr_delay = 0, cr_error = m\<rparr>
           | Inr delay \<Rightarrow> \<lparr>cr_ok = True, cr_delay = delay, cr_error = []\<rparr>))"

text \<open>A test succeeds only against a running core, for a tag it has, and changes nothing.\<close>

lemma check_needs_outbound:
  assumes "CheckOutbound (coreCheckOutbound manager urlTest) tag link e w = (Inr c, w')" "cr_ok c"
  shows "w' = w \<and> co_running (w_core w) \<and> (\<exists>tags. manager = Some tags \<and> tag \<in> set tags) \<and> urlTest link tag = Inr (cr_delay c)"
  using assms by (auto simp: CheckOutbound_def coreCheckOutbound_def bindA_def isRunning_def split: if_splits option.splits sum.splits)

end
