(* ===== verification/LogFactory.thy ===== *)
theory LogFactory
  imports Logger
begin

text \<open>
  \<open>core/log.go\<close>, the writing half of \<open>logger/logger.go\<close> and \<open>config/config.go\<close>: the log of sing-box, which goes to the lines the panel keeps and to
  a writer of its own, and the environment variables the process reads.  The formatter, the names of levels and the opening of
  files are the library's and the host's, arguments here.
\<close>

section \<open>Writing into the buffer\<close>

text \<open>\<open>Debug\<close>, \<open>Info\<close>, \<open>Warning\<close> and \<open>Error\<close> of the panel's logger; \<open>now\<close> is the formatted time.  Texts are put one after the other.\<close>

definition logDebug :: "(string \<Rightarrow> nat) \<Rightarrow> string \<Rightarrow> string list \<Rightarrow> logline list \<Rightarrow> logline list" where
  "logDebug levelOf now args = addToBuffer levelOf now ''DEBUG'' (concat args)"

definition logInfo :: "(string \<Rightarrow> nat) \<Rightarrow> string \<Rightarrow> string list \<Rightarrow> logline list \<Rightarrow> logline list" where
  "logInfo levelOf now args = addToBuffer levelOf now ''INFO'' (concat args)"

definition logWarning :: "(string \<Rightarrow> nat) \<Rightarrow> string \<Rightarrow> string list \<Rightarrow> logline list \<Rightarrow> logline list" where
  "logWarning levelOf now args = addToBuffer levelOf now ''WARNING'' (concat args)"

definition logError :: "(string \<Rightarrow> nat) \<Rightarrow> string \<Rightarrow> string list \<Rightarrow> logline list \<Rightarrow> logline list" where
  "logError levelOf now args = addToBuffer levelOf now ''ERROR'' (concat args)"

text \<open>The back end of the panel's own log; without a syslog, or in a container, it is the standard error with the time in front.\<close>

datatype backend = StderrLog | Syslog

definition InitLogger :: "bool \<Rightarrow> bool \<Rightarrow> bool \<Rightarrow> backend \<times> bool" where
  "InitLogger containerVar dockerenv syslog =
     (if containerVar \<or> dockerenv then (StderrLog, True) else if syslog then (Syslog, False) else (StderrLog, True))"

section \<open>The factory of sing-box\<close>

datatype sblevel = LvPanic | LvFatal | LvError | LvWarn | LvInfo | LvDebug | LvTrace

fun severity :: "sblevel \<Rightarrow> nat" where
  "severity LvPanic = 0" | "severity LvFatal = 1" | "severity LvError = 2" | "severity LvWarn = 3" | "severity LvInfo = 4"
| "severity LvDebug = 5" | "severity LvTrace = 6"

datatype writer = NilWriter | DiscardWriter | Stderr | Stdout | LogFile string

record logoptions =
  lo_disabled :: bool
  lo_output :: string
  lo_level :: string
  lo_timestamp :: bool
  lo_disableColor :: bool

record formatter =
  fm_noColors :: bool
  fm_noTimestamp :: bool
  fm_fullTimestamp :: bool

record factory =
  fa_formatter :: formatter
  fa_writer :: writer
  fa_filePath :: string
  fa_file :: bool
  fa_level :: sblevel

datatype logfactory = NopFactory | DefaultFactory factory

definition NewDefaultFactory :: "formatter \<Rightarrow> writer \<Rightarrow> string \<Rightarrow> factory" where
  "NewDefaultFactory fm wr path = \<lparr>fa_formatter = fm, fa_writer = wr, fa_filePath = path, fa_file = False, fa_level = LvTrace\<rparr>"

definition NewFactory :: "(string \<Rightarrow> sblevel res) \<Rightarrow> writer \<Rightarrow> logoptions \<Rightarrow> logfactory res" where
  "NewFactory parseLevel defaultWriter opt =
     (if lo_disabled opt then Inr NopFactory
      else let (wr, path) = (if lo_output opt = [] then (if defaultWriter = NilWriter then Stderr else defaultWriter, [])
               else if lo_output opt = ''stderr'' then (Stderr, [])
               else if lo_output opt = ''stdout'' then (Stdout, [])
               else (NilWriter, lo_output opt));
             fm = \<lparr>fm_noColors = (lo_disableColor opt \<or> path \<noteq> []), fm_noTimestamp = (\<not> lo_timestamp opt \<and> path \<noteq> []),
                   fm_fullTimestamp = lo_timestamp opt\<rparr>;
             f = NewDefaultFactory fm wr path
           in if lo_level opt \<noteq> [] then bindR (parseLevel (lo_level opt)) (\<lambda>l. Inr (DefaultFactory (f\<lparr>fa_level := l\<rparr>)))
              else Inr (DefaultFactory (f\<lparr>fa_level := LvTrace\<rparr>)))"

definition FactoryStart :: "(string \<Rightarrow> unit res) \<Rightarrow> factory \<Rightarrow> unit res \<times> factory" where
  "FactoryStart openFile f =
     (if fa_filePath f \<noteq> [] then
        (case openFile (fa_filePath f) of Inl x \<Rightarrow> (Inl x, f) | Inr _ \<Rightarrow> (Inr (), f\<lparr>fa_writer := LogFile (fa_filePath f), fa_file := True\<rparr>))
      else (Inr (), f))"

text \<open>Closing closes the file, if one was opened, and then the subscriber.\<close>

definition FactoryClose :: "factory \<Rightarrow> string list" where
  "FactoryClose f = (if fa_file f then [''file'', ''subscriber''] else [''subscriber''])"

text \<open>
  One message, at the level the context gives it: what the panel keeps afterwards, and the line for the writer.  A branch of the switch
  without statements does not fall through to the next.
\<close>

definition toPanel :: "(string \<Rightarrow> nat) \<Rightarrow> string \<Rightarrow> sblevel \<Rightarrow> string list \<Rightarrow> logline list \<Rightarrow> logline list" where
  "toPanel levelOf now level args buf = (case level of
       LvInfo \<Rightarrow> logInfo levelOf now args buf
     | LvWarn \<Rightarrow> logWarning levelOf now args buf
     | LvPanic \<Rightarrow> buf
     | LvFatal \<Rightarrow> buf
     | LvError \<Rightarrow> logError levelOf now args buf
     | _ \<Rightarrow> logDebug levelOf now args buf)"

definition LogMessage :: "(string \<Rightarrow> nat) \<Rightarrow> (formatter \<Rightarrow> sblevel \<Rightarrow> string \<Rightarrow> string \<Rightarrow> string) \<Rightarrow> string \<Rightarrow> factory \<Rightarrow> string \<Rightarrow> sblevel \<Rightarrow> string list \<Rightarrow>
    logline list \<Rightarrow> logline list \<times> string option" where
  "LogMessage levelOf format now f tag level args buf =
     (if severity level > severity (fa_level f) then (buf, None)
      else let msg = concat args in
        (toPanel levelOf now level [tag, msg] buf,
         if (fa_filePath f \<noteq> [] \<or> fa_writer f \<noteq> Stderr) \<and> fa_writer f \<noteq> NilWriter then Some (format (fa_formatter f) level tag msg) else None))"

definition WriteMessage :: "(string \<Rightarrow> nat) \<Rightarrow> string \<Rightarrow> sblevel \<Rightarrow> string \<Rightarrow> logline list \<Rightarrow> logline list" where
  "WriteMessage levelOf now level message = toPanel levelOf now level [message]"

text \<open>
  What becomes of a message: with the options the panel's own configuration has (a level and no output), nothing is written to the standard error a second
  time and every message within the level is the newest line the panel keeps, except that the two gravest levels leave no trace at all.
\<close>

lemma gravest_messages_lost:
  assumes "NewFactory parseLevel NilWriter opt = Inr (DefaultFactory f)" "lo_output opt = []" "severity level \<le> severity (fa_level f)"
  shows "snd (LogMessage levelOf format now f tag level args buf) = None \<and>
    (if level \<in> {LvPanic, LvFatal} then fst (LogMessage levelOf format now f tag level args buf) = buf
     else \<exists>l. last (fst (LogMessage levelOf format now f tag level args buf)) = l \<and> lg_text l = tag @ concat args \<and> lg_time l = now)"
proof -
  have "fa_writer f = Stderr \<and> fa_filePath f = []"
    using assms(1,2) by (auto simp: NewFactory_def NewDefaultFactory_def Let_def bindR_def split: if_splits sum.splits)
  then show ?thesis
    using assms(3) by (cases level) (auto simp: LogMessage_def toPanel_def logInfo_def logWarning_def logError_def logDebug_def addToBuffer_def)
qed

section \<open>The environment of the process\<close>

definition IsDebug :: "(string \<Rightarrow> string) \<Rightarrow> bool" where
  "IsDebug getenv \<longleftrightarrow> getenv ''HYPANEL_DEBUG'' = ''true''"

definition GetLogLevel :: "(string \<Rightarrow> string) \<Rightarrow> string" where
  "GetLogLevel getenv = (if IsDebug getenv then ''debug''
     else if getenv ''HYPANEL_LOG_LEVEL'' = [] then ''info'' else getenv ''HYPANEL_LOG_LEVEL'')"

text \<open>\<open>initLog\<close>: the level of the panel's log; an unknown name ends the process.\<close>

definition initLog :: "(string \<Rightarrow> string) \<Rightarrow> string res" where
  "initLog getenv = (let l = GetLogLevel getenv in
     if l = ''debug'' then Inr ''DEBUG'' else if l = ''info'' then Inr ''INFO'' else if l = ''warn'' then Inr ''WARNING''
     else if l = ''error'' then Inr ''ERROR'' else Inl (Err (''unknown log level: '' @ l)))"

text \<open>\<open>dir\<close> is the cleaned absolute directory of the program, if it can be told.\<close>

definition GetDBFolderPath :: "(string \<Rightarrow> string) \<Rightarrow> string option \<Rightarrow> bool \<Rightarrow> string" where
  "GetDBFolderPath getenv dir windows =
     (if getenv ''HYPANEL_DB_FOLDER'' \<noteq> [] then getenv ''HYPANEL_DB_FOLDER''
      else case dir of None \<Rightarrow> (if windows then ''C:'' @ [CHR 0x5C] @ ''Program Files'' @ [CHR 0x5C] @ ''hypanel'' @ [CHR 0x5C] @ ''db''
                                else ''/usr/local/hypanel/db'')
        | Some d \<Rightarrow> if hasSuffix d ''/'' then d @ ''db'' else d @ ''/db'')"

definition GetDBPath :: "(string \<Rightarrow> string) \<Rightarrow> string option \<Rightarrow> bool \<Rightarrow> string \<Rightarrow> string" where
  "GetDBPath getenv dir windows name = GetDBFolderPath getenv dir windows @ ''/'' @ name @ ''.db''"

text \<open>\<open>OpenDB\<close>: the data source, whose options follow those the path may carry.\<close>

definition dbSource :: "string \<Rightarrow> string" where
  "dbSource dbPath = dbPath @ (if CHR ''?'' \<in> set dbPath then ''&'' else ''?'') @ ''_busy_timeout=10000&_journal_mode=WAL&_cache_size=-200''"

end
