(* ===== verification/Startup.thy ===== *)
theory Startup
  imports LogFactory Common
begin

text \<open>
  The ends of the program that meet the host: the choice \<open>main.go\<close> makes, the connection to the database file (\<open>OpenDB\<close>), the
  signal a restart sends to the own process (\<open>service/panel.go\<close>, \<open>database/backup.go\<close>), the questions for the public address and
  random texts.  What the host and the driver answer are arguments.
\<close>

section \<open>Which program runs\<close>

datatype mode = RunApp | RunCommand "string list"

text \<open>\<open>args\<close> are \<open>os.Args\<close>, with the name of the program in front.\<close>

definition mainMode :: "string list \<Rightarrow> mode" where
  "mainMode args = (if length args < 2 then RunApp else RunCommand (tl args))"

section \<open>The connection\<close>

text \<open>What the driver is asked for; times in seconds.\<close>

record dbconn =
  dc_source :: string
  dc_logger :: bool
  dc_maxOpen :: nat
  dc_maxIdle :: nat
  dc_lifetime :: nat
  dc_idleTime :: nat
  dc_debug :: bool

text \<open>
  \<open>mkdir\<close>, \<open>open\<close> and \<open>pool\<close> are the answers of \<open>os.MkdirAll\<close>, \<open>gorm.Open\<close> and \<open>db.DB\<close>, and \<open>debug\<close> is
  whether the process runs in debug mode; \<open>old\<close> is the connection before, which stays when the directory cannot be made.  A failed
  \<open>gorm.Open\<close> has already put one that does not work in its place.
\<close>

definition OpenDB :: "unit res \<Rightarrow> (string \<Rightarrow> unit res) \<Rightarrow> unit res \<Rightarrow> bool \<Rightarrow> string \<Rightarrow> dbconn option \<Rightarrow> unit res \<times> dbconn option" where
  "OpenDB mkdir openSource pool debug dbPath old =
     (case mkdir of Inl x \<Rightarrow> (Inl x, old)
      | Inr _ \<Rightarrow> let c = \<lparr>dc_source = dbSource dbPath, dc_logger = debug, dc_maxOpen = 0, dc_maxIdle = 0, dc_lifetime = 0, dc_idleTime = 0, dc_debug = False\<rparr>
          in (case openSource (dc_source c) of Inl x \<Rightarrow> (Inl x, None)
            | Inr _ \<Rightarrow> (case pool of Inl x \<Rightarrow> (Inl x, Some c)
                | Inr _ \<Rightarrow> (Inr (), Some (c\<lparr>dc_maxOpen := 25, dc_maxIdle := 2, dc_lifetime := 3600, dc_idleTime := 300, dc_debug := debug\<rparr>)))))"

text \<open>A successful call opens the file in question, with the journal that lets readers and one writer work at once, and bounds the pool.\<close>

lemma OpenDB_bounds:
  "OpenDB mkdir openSource pool debug dbPath old = (Inr (), c) \<Longrightarrow>
     \<exists>x. c = Some x \<and> dc_source x = dbSource dbPath \<and> dc_maxIdle x \<le> dc_maxOpen x \<and> 0 < dc_maxOpen x"
  by (auto simp: OpenDB_def Let_def split: sum.splits)

section \<open>Restarting the own process\<close>

datatype ownSignal = Kill | Hangup

text \<open>The signal that is sent, and after how many nanoseconds; \<open>findProcess\<close> is the answer of \<open>os.FindProcess\<close>.\<close>

definition RestartPanel :: "unit res \<Rightarrow> bool \<Rightarrow> nat \<Rightarrow> (nat \<times> ownSignal) res" where
  "RestartPanel findProcess windows delay =
     bindR findProcess (\<lambda>_. Inr (delay, if windows then Kill else Hangup))"

definition SendSighup :: "unit res \<Rightarrow> bool \<Rightarrow> (nat \<times> ownSignal) res" where
  "SendSighup findProcess windows =
     bindR findProcess (\<lambda>_. Inr (3 * 10 ^ 9, if windows then Kill else Hangup))"

text \<open>The restart after an import waits three seconds; the one from the page, called with 3, waits three nanoseconds.\<close>

lemma restart_delays:
  "SendSighup (Inr ()) False = Inr (3000000000, Hangup)" "RestartPanel (Inr ()) False 3 = Inr (3, Hangup)"
  by (simp_all add: SendSighup_def RestartPanel_def)

section \<open>The public address\<close>

definition publicIPServices :: "string list" where
  "publicIPServices = [''https://api64.ipify.org'', ''https://ip.sb'', ''https://icanhazip.com'', ''https://ipinfo.io/ip'', ''https://checkip.amazonaws.com'']"

text \<open>The answer of one service: an error of the request or of reading the body, or the body.\<close>

definition publicIPAnswer :: "(string \<Rightarrow> string res res) \<Rightarrow> string \<Rightarrow> string option" where
  "publicIPAnswer get url = (case get url of Inl _ \<Rightarrow> None
     | Inr body \<Rightarrow> (case body of Inl _ \<Rightarrow> None | Inr b \<Rightarrow> Some b))"

section \<open>Random texts\<close>

definition allSeq :: string where
  "allSeq = ''ABCDEFGHIJKLMNOPQRSTUVWXYZabcdefghijklmnopqrstuvwxyz0123456789''"

text \<open>The \<open>i\<close>-th draw is \<open>crypto/rand.Int\<close> below the length, or, when that fails, the fallback source below it.\<close>

definition drawIndex :: "(nat \<Rightarrow> nat \<Rightarrow> nat option) \<Rightarrow> (nat \<Rightarrow> nat \<Rightarrow> nat) \<Rightarrow> nat \<Rightarrow> nat" where
  "drawIndex crypto fallback i = (case crypto i (length allSeq) of None \<Rightarrow> fallback i (length allSeq) | Some n \<Rightarrow> n)"

definition Random :: "(nat \<Rightarrow> nat \<Rightarrow> nat option) \<Rightarrow> (nat \<Rightarrow> nat \<Rightarrow> nat) \<Rightarrow> int \<Rightarrow> string res" where
  "Random crypto fallback n =
     (if n \<le> 0 then Inr [] else mapR (\<lambda>i. nthR allSeq (drawIndex crypto fallback i)) [0..<nat n])"

text \<open>What both sources document: a value below the bound.\<close>

definition drawsBelow :: "(nat \<Rightarrow> nat \<Rightarrow> nat option) \<Rightarrow> (nat \<Rightarrow> nat \<Rightarrow> nat) \<Rightarrow> bool" where
  "drawsBelow crypto fallback \<longleftrightarrow> (\<forall>i m v. 0 < m \<longrightarrow> crypto i m = Some v \<longrightarrow> v < m) \<and> (\<forall>i m. 0 < m \<longrightarrow> fallback i m < m)"

text \<open>A random text has the length asked for and is made of letters and digits, so a secret or a token needs no escaping anywhere.\<close>

lemma Random_sound:
  assumes "drawsBelow crypto fallback"
  shows "\<exists>s. Random crypto fallback n = Inr s \<and> length s = nat n \<and> set s \<subseteq> set allSeq"
proof (cases "n \<le> 0")
  case False
  have "0 < length allSeq" by (simp add: allSeq_def)
  then have "drawIndex crypto fallback i < length allSeq" for i
    using assms by (auto simp: drawsBelow_def drawIndex_def split: option.split)
  then have nth: "nthR allSeq (drawIndex crypto fallback i) = Inr (allSeq ! drawIndex crypto fallback i)" for i
    by (simp add: nthR_def)
  have "mapR (\<lambda>i. nthR allSeq (drawIndex crypto fallback i)) xs = Inr (map (\<lambda>i. allSeq ! drawIndex crypto fallback i) xs)" for xs
    by (induction xs) (simp_all add: nth)
  with False show ?thesis
    using \<open>\<And>i. drawIndex crypto fallback i < length allSeq\<close> by (auto simp: Random_def)
qed (simp add: Random_def)

end
