(* ===== verification/Spec2Isabelle.thy ===== *)
theory Spec2Isabelle
  imports LinkRoundtrip StatsLaws LiveJob RegistryLaws SubLaws DbSetup BulkEdit Servers Box ServerInfo Cli Hy2Inbound Sessions Registry Startup
begin

text \<open>
  \<^bold>\<open>HyPanel.\<close>  HyPanel is a web panel around the sing-box proxy.  Its state is a SQLite database
  (\<open>database/\<close>), the sing-box instance that runs inside the process (\<open>core/\<close>) and a few package variables.
  Operators change the database through the services of \<open>service/\<close>; the services rebuild or update the
  running core; jobs (\<open>cronjob/\<close>) collect traffic and enforce quotas; the subscription server
  (\<open>sub/\<close>) and the share links (\<open>util/\<close>) tell the clients how to connect.  The panel's own addition to
  sing-box is a Hysteria2 inbound whose users are exchanged while it runs (\<open>forks/patched-files/\<close>), so that a
  ban takes effect at once and nobody else is disconnected.

  \<^bold>\<open>How the code is modelled.\<close>  A Go function that can fail returns a \<open>res\<close>: a value, an \<open>Err\<close> or a
  \<open>Panic\<close> (\<open>Prelude\<close>).  A \<open>struct\<close> is a \<open>record\<close>; JSON held in an \<open>interface\{\}\<close> is \<open>jv\<close> and a
  \<open>json.RawMessage\<close> is \<open>raw\<close> (\<open>GoJson\<close>), so that a failed type assertion is a branch of the model.  Signed 64-bit
  arithmetic wraps (\<open>wrap64\<close>).  Code that reads or changes shared state is an \<open>act\<close> (\<open>World\<close>): a function from an
  environment and the state to a result and the next state.  The environment decides what the source cannot:
  the clock, the random source, which SQL statements fail, which new identifiers the database hands out, which configurations
  sing-box accepts and which closes fail.  Every property of an action therefore quantifies over these, and
  says so when it needs them to be well-behaved.  Transactions roll the tables back and leave the core as the body
  left it, as the code does.  The iteration order of a Go map is the order of the association list.

  \<^bold>\<open>Theories, from the bottom.\<close>
  \<^item> \<open>Prelude\<close>, \<open>GoJson\<close>, \<open>GoBase64\<close>, \<open>GoUrl\<close>: the parts of the Go library the program calls (results, maps,
    strings, \<open>encoding/json\<close>, base64, \<open>net/url\<close>), with \<open>util/base64.go\<close>.  Their round trips are stated once, as
    locales over an encoder and a decoder, and interpreted.
  \<^item> \<open>Models\<close>: the rows of \<open>database/model/\<close> and their marshallers.  \<open>Common\<close>: \<open>util/common/\<close>.
  \<^item> \<open>OutJson\<close>, \<open>GenLink\<close>, \<open>LinkToJson\<close>, \<open>LinkRoundtrip\<close>: \<open>util/outJson.go\<close>, \<open>util/genLink.go\<close>, \<open>util/linkToJson.go\<close>,
    \<open>util/subToJson.go\<close>, \<open>util/subInfo.go\<close>; the last reads the panel's own Hysteria2 links back.
  \<^item> \<open>Hy2Service\<close>: the patched Hysteria2 service.  Sessions carry the password they authenticated with; the handshake
    is two steps because the code takes the lock twice.  \<open>CoreTrackers\<close>: \<open>core/tracker_conn.go\<close> and
    \<open>core/tracker_stats.go\<close>, with the counters in a store of addresses since connections keep counting into counters
    that have been replaced.
  \<^item> \<open>World\<close>: tables, core (\<open>core/main.go\<close>, \<open>core/endpoint.go\<close>), SQL statements, transactions, and the frame rules.
  \<^item> \<open>ClientService\<close>, \<open>Settings\<close>, \<open>InboundService\<close>, \<open>OtherServices\<close>, \<open>Warp\<close>, \<open>StatsService\<close>, \<open>ConfigService\<close>, \<open>Users\<close>: the
    files of \<open>service/\<close>, one definition per function, under the function's name (with the service in front where names
    clash), and the token list of \<open>api/apiV2Handler.go\<close>.
  \<^item> \<open>ClientLaws\<close>, \<open>InboundLaws\<close>, \<open>ConfigLaws\<close>, \<open>StatsLaws\<close>: what single services guarantee.  The periodic job is one function on
    rows (\<open>jobRow\<close>); the live update installs what a rebuild would; a failed save leaves the tables alone; the core is
    started by one caller at a time; traffic is billed once.
  \<^item> \<open>TableLaws\<close>, \<open>Panel\<close>: Hoare triples for actions, the interface of a table with unique identifiers and tags
    as locales interpreted for every table, and the panel as a transition system: \<open>panelStep\<close> has one
    event per entry point, job, restart and burst of traffic, each in an environment of its own, and \<open>reaches\<close> is its
    closure.  Scheduling is not restricted, so the properties hold for any order of requests and jobs.
  \<^item> \<open>LiveBan\<close>, \<open>LiveJob\<close>, \<open>RegistryLaws\<close>: database, core and Hysteria2 together: when a ban or the job returns the running
    inbounds have changed; a successful save keeps the registries of the core equal to the tables.
  \<^item> \<open>SubService\<close>, \<open>ClashService\<close>, \<open>SubLaws\<close>: the subscriptions as links, JSON and Clash.  The JSON generator copies maps
    that share their TLS member, so those live in an explicit store.
  \<^item> \<open>Migration\<close>, \<open>DbSetup\<close>: \<open>cmd/migration/\<close> as functions on an old database, and \<open>database/db.go\<close> and \<open>database/backup.go\<close> on the
    tables and on the files the import moves.  \<open>BulkEdit\<close>: what the client list leaves out and what sending it back does.
  \<^item> \<open>Logger\<close>, \<open>LogFactory\<close>: \<open>logger/logger.go\<close>, \<open>core/log.go\<close>, \<open>config/config.go\<close>.
  \<^item> \<open>Api\<close>, \<open>ApiLaws\<close>: \<open>api/\<close>, every handler as an action, the dispatch on the last part of the path, sessions and tokens; every request
    but the import is a run of the panel made of the events its form names, and one that is not authenticated changes nothing.
  \<^item> \<open>Network\<close>: \<open>network/\<close> and \<open>middleware/\<close>, the connection that answers plain requests on the TLS port.
  \<^item> \<open>Servers\<close>: \<open>web/web.go\<close>, \<open>sub/sub.go\<close>, \<open>app/app.go\<close>, \<open>cronjob/\<close>, \<open>main.go\<close>: the process with its two servers, its
    sockets and its signals, and the routes in front of the handlers.
  \<^item> \<open>Box\<close>: \<open>core/box.go\<close> and \<open>core/main.go\<close> part by part, with the instances that were ever built; it refines the core of \<open>World\<close>.
  \<^item> \<open>Hy2Inbound\<close>: the patched \<open>protocol/hysteria2/inbound.go\<close> and the connection loop of the service; its runs put the sessions, the
    streams they open and the connection tracker together.
  \<^item> \<open>Sessions\<close>: \<open>api/session.go\<close>, and the visits of one browser with the cookie its answers leave.  \<open>Registry\<close>: \<open>core/register.go\<close> and its
    build variants, the context of the core, \<open>core/outbound_check.go\<close>.  \<open>Startup\<close>: \<open>main.go\<close>, the connection to the database, the signal of a
    restart, random texts.
  \<^item> \<open>CoreLife\<close>: the flags of the core over every run, and the watchdog.  \<open>ServerInfo\<close>: \<open>service/server.go\<close>.  \<open>Cli\<close>: \<open>cmd/\<close>
    with the flag parser of the library.

  \<^bold>\<open>What is shown.\<close>  The properties fall in five groups.  Access: a ban and a quota are enforced on the live
  inbounds and stay enforced over every run until an operator undoes them, with the one race in which they are not.
  Tables: identifiers and tags stay unique, failed saves and jobs leave no trace, settings and rows survive their round trips.
  Core: what runs is what is stored after a successful save, and what goes wrong after a refused
  one; connections, bytes, instances and sockets are accounted for; the watchdog brings a stopped core back.  Process: what a restart, an import,
  a migration and the commands leave.  Clients: links and subscriptions name only what exists and are served
  only to enabled clients.  Where the code does not do what it means to, the property states what it
  does (\<open>kick_can_be_overtaken\<close>, \<open>refused_outbound_runs\<close>, \<open>tls_override_leaks\<close>, \<open>SaveStats_failure_loses\<close>,
  \<open>two_expired_tokens_panic\<close>, \<open>finalSubURI_keeps_port\<close>).

  \<^bold>\<open>Bounds.\<close>  Every loop of the source runs over a list, over the text it consumes or over the chunks a socket delivers, and is a recursion
  over it.  Only the JSON reader \<open>jparse\<close> carries fuel, the length of its text plus two: each of its calls takes a character.

  \<^bold>\<open>Parameters.\<close>  sing-box (what it accepts, decodes, builds and closes), the database driver (failures, new identifiers), the HTTP
  client of external subscriptions and of WARP, the request parser of \<open>net/http\<close>, the router and the cookie store, the YAML codec, the layout of dates
  and of fractions, the readings of the host and the random source are arguments; the hypotheses on them are named in the properties that need them.

  \<^bold>\<open>Not modelled.\<close>  What the registered protocols do is sing-box's; QUIC, congestion control and the UDP relay of the Hysteria2
  service are library code as well, and so are gzip and TLS in front of the servers.  Accessors that only return a field, the constructors of empty
  service values and the wrappers with a format string say nothing of their own.  Log output has no effect on the state and is left out of the
  actions; where it is itself the result, it is a function on the buffer (\<open>Logger\<close>, \<open>LogFactory\<close>).  The front end and the scripts are in
  other languages.
\<close>

end
